(* ===== verification/Prelude.thy ===== *)
theory Prelude
  imports Main "HOL-Library.Word" "HOL-Library.Signed_Division" "HOL-Library.Monad_Syntax"
begin

unbundle bit_operations_syntax

text \<open>
  Vocabulary shared by every component: the machine integers of the 32-bit ARM target, the
  conversions of C between \<open>int\<close> and \<open>unsigned int\<close>, checked array reads and checked
  divisions (a read out of range and a division by zero are faults, the value \<open>None\<close>), the
  error numbers, and generic lemmas on lists, options and words.
\<close>

section \<open>Machine integers\<close>

type_synonym u32 = "32 word"   \<comment> \<open>\<open>unsigned int\<close> and \<open>unsigned long\<close>\<close>
type_synonym u64 = "64 word"   \<comment> \<open>\<open>u64\<close>, \<open>cputime64_t\<close>, \<open>unsigned long long\<close>\<close>
type_synonym cpuid = nat

named_theorems c_arith \<open>conversions and bounds of C integers\<close>
named_theorems fault_simps \<open>checked reads and divisions\<close>

text \<open>A C \<open>int\<close> is an \<^typ>\<open>int\<close> in the range of 32 bits; \<open>s32\<close> is its wrap-around,
  \<open>c_int\<close> the cast from unsigned, \<open>c_uint\<close> the cast to unsigned.\<close>

definition s32 :: "int \<Rightarrow> int" where
  "s32 x = signed_take_bit 31 x"

definition c_int :: "u32 \<Rightarrow> int" where
  "c_int w = sint w"

definition c_uint :: "int \<Rightarrow> u32" where
  "c_uint i = word_of_int i"

lemma s32_id [c_arith]: "- (2 ^ 31) \<le> x \<Longrightarrow> x < 2 ^ 31 \<Longrightarrow> s32 x = x"
  by (simp add: s32_def signed_take_bit_int_eq_self)

lemma s32_range: "- (2 ^ 31) \<le> s32 x" "s32 x < 2 ^ 31"
  unfolding s32_def
  by (rule signed_take_bit_int_greater_eq_minus_exp, rule signed_take_bit_int_less_exp)

lemma c_uint_c_int [simp]: "c_uint (c_int w) = w"
  by (simp add: c_int_def c_uint_def)

lemma c_int_small [c_arith]:
  assumes "unat w < 2 ^ 31"
  shows "c_int w = int (unat w)"
proof -
  have "uint w < 2 ^ 31"
    using assms by (metis nat_less_numeral_power_cancel_iff unat_eq_nat_uint)
  then have "signed_take_bit 31 (uint w) = uint w"
    using uint_ge_0 [of w] by (intro signed_take_bit_int_eq_self) linarith+
  then show ?thesis
    by (simp only: c_int_def sint_uint uint_nat) simp
qed

lemma c_int_of_nat [c_arith]: "n < 2 ^ 31 \<Longrightarrow> c_int (of_nat n) = int n"
  by (subst c_int_small) (simp_all add: unat_of_nat take_bit_nat_def)

lemma unat_c_uint [c_arith]: "0 \<le> i \<Longrightarrow> i < 2 ^ 32 \<Longrightarrow> unat (c_uint i) = nat i"
  by (simp add: c_uint_def unat_eq_nat_uint uint_word_of_int)

section \<open>Checked reads and divisions\<close>

definition nth_opt :: "'a list \<Rightarrow> nat \<Rightarrow> 'a option" where
  "nth_opt xs i = (if i < length xs then Some (xs ! i) else None)"

lemma nth_opt_Some [fault_simps]: "nth_opt xs i = Some x \<longleftrightarrow> i < length xs \<and> xs ! i = x"
  by (auto simp: nth_opt_def)

lemma nth_opt_None [fault_simps]: "nth_opt xs i = None \<longleftrightarrow> length xs \<le> i"
  by (auto simp: nth_opt_def)

lemma nth_opt_in [simp]: "i < length xs \<Longrightarrow> nth_opt xs i = Some (xs ! i)"
  by (simp add: nth_opt_def)

text \<open>An array indexed by a C \<open>int\<close>: negative indices are out of range too.\<close>

definition nth_int :: "'a list \<Rightarrow> int \<Rightarrow> 'a option" where
  "nth_int xs i = (if 0 \<le> i then nth_opt xs (nat i) else None)"

lemma nth_int_Some [fault_simps]:
  "nth_int xs i = Some x \<longleftrightarrow> 0 \<le> i \<and> nat i < length xs \<and> xs ! nat i = x"
  by (auto simp: nth_int_def fault_simps)

lemma nth_int_of_nat [simp]: "nth_int xs (int n) = nth_opt xs n"
  by (simp add: nth_int_def)

definition udiv_chk :: "'a::len word \<Rightarrow> 'a word \<Rightarrow> 'a word option" where
  "udiv_chk a b = (if b = 0 then None else Some (a div b))"

lemma udiv_chk_Some [fault_simps]: "udiv_chk a b = Some c \<longleftrightarrow> b \<noteq> 0 \<and> c = a div b"
  by (auto simp: udiv_chk_def)

section \<open>Error numbers\<close>

abbreviation (input) EPERM :: int where "EPERM \<equiv> 1"
abbreviation (input) EIO :: int where "EIO \<equiv> 5"
abbreviation (input) ENOMEM :: int where "ENOMEM \<equiv> 12"
abbreviation (input) EBUSY :: int where "EBUSY \<equiv> 16"
abbreviation (input) ENODEV :: int where "ENODEV \<equiv> 19"
abbreviation (input) EINVAL :: int where "EINVAL \<equiv> 22"

section \<open>Options and lists\<close>

lemma bind_Some_iff [fault_simps]:
  "Option.bind m f = Some y \<longleftrightarrow> (\<exists>x. m = Some x \<and> f x = Some y)"
  by (cases m) auto

lemma list_update_set_le: "set (xs[i := v]) \<subseteq> insert v (set xs)"
  by (rule set_update_subset_insert)

lemma foldl_min_le: "foldl min (a::'a::linorder) xs \<le> a"
  by (induction xs arbitrary: a) (auto simp: min_le_iff_disj intro: order_trans [OF _ min.cobounded1])

lemma foldl_max_ge: "a \<le> foldl max (a::'a::linorder) xs"
  by (induction xs arbitrary: a) (auto intro: order_trans [OF max.cobounded1])

lemma unat_of_nat_small [c_arith]: "n < 2 ^ 32 \<Longrightarrow> unat (of_nat n :: u32) = n"
  by (simp add: unat_of_nat take_bit_nat_eq_self)

lemma unat_sub_le: "(b::'a::len word) \<le> a \<Longrightarrow> unat (a - b) = unat a - unat b"
  by (rule unat_sub)

lemma unat_add_small [c_arith]:
  "unat (a::u32) + unat b < 2 ^ 32 \<Longrightarrow> unat (a + b) = unat a + unat b"
  by (simp add: unat_word_ariths)

lemma one_le_word [simp]: "(1::u32) \<le> w \<longleftrightarrow> w \<noteq> 0"
  by (simp add: word_le_nat_alt Suc_le_eq unat_gt_0)

lemma le_one_word: "(w::u32) \<le> 1 \<longleftrightarrow> w = 0 \<or> w = 1"
  by (auto simp: word_le_nat_alt word_unat_eq_iff)

lemma unat_mult_small [c_arith]:
  "unat (a::u32) * unat b < 2 ^ 32 \<Longrightarrow> unat (a * b) = unat a * unat b"
  by (simp add: unat_word_ariths)

lemma c_int_of_int [c_arith]: "- (2 ^ 31) \<le> x \<Longrightarrow> x < 2 ^ 31 \<Longrightarrow> c_int (word_of_int x) = x"
  by (simp add: c_int_def sint_sbintrunc' signed_take_bit_int_eq_self)

lemma unat_c_uint_int: "k < 2 ^ 32 \<Longrightarrow> unat (c_uint (int k)) = k"
  by (simp add: unat_c_uint)

end
