(* ===== verification/Cpufreq_Types.thy ===== *)
theory Cpufreq_Types
  imports Prelude
begin

text \<open>
  The data every cpufreq component shares: \<open>struct cpufreq_policy\<close> (the fields this source
  uses), the driver's frequency table, the relations and governor events of the cpufreq API,
  and the system state that the core threads through a call: the policy objects by address,
  the online mask, a log of the requests that reach the driver, and the driver's own state.
  \<open>cpufreq_frequency_table_target\<close> lives in \<open>freq_table.c\<close>, which is not part of the source:
  it is a parameter (\<open>ftt_fun\<close>), and \<open>ftt_contract\<close> states its documented behaviour.
\<close>

section \<open>Policies and frequency tables\<close>

record cpufreq_policy =
  pol_cpu :: cpuid
  pol_cpus :: "cpuid list"          \<comment> \<open>the mask, in the order \<open>for_each_cpu\<close> walks it\<close>
  pol_related :: "cpuid list"
  pol_min :: u32
  pol_max :: u32
  pol_cur :: u32
  cpuinfo_min :: u32
  cpuinfo_max :: u32
  transition_latency :: u32
  pol_policy :: u32
  pol_governor :: "string option"   \<comment> \<open>the governor pointer, by name; \<open>None\<close> is \<open>NULL\<close>\<close>
  user_min :: u32
  user_max :: u32
  user_policy :: u32
  user_governor :: "string option"

record freq_entry =
  fe_index :: u32
  frequency :: u32

text \<open>The rows before the one that holds \<open>CPUFREQ_TABLE_END\<close>.\<close>

type_synonym ftable = "freq_entry list"

abbreviation CPUFREQ_ENTRY_INVALID :: u32 where
  "CPUFREQ_ENTRY_INVALID \<equiv> 0xFFFFFFFF"

datatype relation = RELATION_L | RELATION_H

datatype gov_event = GOV_START | GOV_STOP | GOV_LIMITS

datatype transition = PRECHANGE | POSTCHANGE

datatype pm_event = PM_SUSPEND_PREPARE | PM_POST_RESTORE | PM_POST_SUSPEND | PM_OTHER

section \<open>The frequency table search\<close>

type_synonym ftt_fun = "cpufreq_policy \<Rightarrow> ftable \<Rightarrow> u32 \<Rightarrow> relation \<Rightarrow> u32 option"

definition usable :: "cpufreq_policy \<Rightarrow> ftable \<Rightarrow> nat \<Rightarrow> bool" where
  "usable p t i \<longleftrightarrow> i < length t \<and> frequency (t ! i) \<noteq> CPUFREQ_ENTRY_INVALID
     \<and> pol_min p \<le> frequency (t ! i) \<and> frequency (t ! i) \<le> pol_max p"

text \<open>\<open>RELATION_L\<close>: the lowest usable frequency at or above the target, or the highest one when
  none is; \<open>RELATION_H\<close>: the highest at or below it, or the lowest one when none is.\<close>

definition best_L :: "cpufreq_policy \<Rightarrow> ftable \<Rightarrow> u32 \<Rightarrow> nat \<Rightarrow> bool" where
  "best_L p t f i \<longleftrightarrow> usable p t i \<and>
     (\<forall>j. usable p t j \<longrightarrow>
        (if f \<le> frequency (t ! i) then f \<le> frequency (t ! j) \<longrightarrow> frequency (t ! i) \<le> frequency (t ! j)
         else frequency (t ! j) \<le> frequency (t ! i)))"

definition best_H :: "cpufreq_policy \<Rightarrow> ftable \<Rightarrow> u32 \<Rightarrow> nat \<Rightarrow> bool" where
  "best_H p t f i \<longleftrightarrow> usable p t i \<and>
     (\<forall>j. usable p t j \<longrightarrow>
        (if frequency (t ! i) \<le> f then frequency (t ! j) \<le> f \<longrightarrow> frequency (t ! j) \<le> frequency (t ! i)
         else frequency (t ! i) \<le> frequency (t ! j)))"

definition ftt_contract :: "ftt_fun \<Rightarrow> bool" where
  "ftt_contract ftt \<longleftrightarrow> (\<forall>p t f r. length t < 2 ^ 31 \<longrightarrow>
     (case ftt p t f r of
        None \<Rightarrow> \<forall>i. \<not> usable p t i
      | Some w \<Rightarrow> (case r of RELATION_L \<Rightarrow> best_L p t f (unat w) | RELATION_H \<Rightarrow> best_H p t f (unat w))))"

text \<open>The index variable keeps its old value when the search fails.\<close>

definition ftt_index :: "ftt_fun \<Rightarrow> cpufreq_policy \<Rightarrow> ftable \<Rightarrow> u32 \<Rightarrow> relation \<Rightarrow> u32 \<Rightarrow> u32" where
  "ftt_index ftt p t f r old = (case ftt p t f r of None \<Rightarrow> old | Some w \<Rightarrow> w)"

definition table_freq :: "ftable \<Rightarrow> u32 \<Rightarrow> u32 option" where
  "table_freq t w = map_option frequency (nth_opt t (unat w))"

lemma table_freq_Some [fault_simps]:
  "table_freq t w = Some f \<longleftrightarrow> unat w < length t \<and> f = frequency (t ! unat w)"
  by (auto simp: table_freq_def nth_opt_def)

lemma usable_bounds:
  "usable p t i \<Longrightarrow> i < length t \<and> pol_min p \<le> frequency (t ! i) \<and> frequency (t ! i) \<le> pol_max p"
  by (simp add: usable_def)

lemma best_usable: "best_L p t f i \<Longrightarrow> usable p t i" "best_H p t f i \<Longrightarrow> usable p t i"
  by (simp_all add: best_L_def best_H_def)

lemma ftt_contractD:
  assumes "ftt_contract ftt" "length t < 2 ^ 31" "usable p t i"
  shows "\<exists>w. ftt p t f r = Some w \<and> usable p t (unat w)
    \<and> (r = RELATION_L \<longrightarrow> best_L p t f (unat w)) \<and> (r = RELATION_H \<longrightarrow> best_H p t f (unat w))"
proof -
  have "case ftt p t f r of
        None \<Rightarrow> \<forall>i. \<not> usable p t i
      | Some w \<Rightarrow> (case r of RELATION_L \<Rightarrow> best_L p t f (unat w) | RELATION_H \<Rightarrow> best_H p t f (unat w))"
    using assms(1,2) by (simp add: ftt_contract_def)
  with assms(3) show ?thesis
    by (auto split: option.splits relation.splits dest: best_usable)
qed

text \<open>A search that meets the contract: the scan a reader would write, for use in examples.\<close>

fun pick_least :: "('a \<Rightarrow> int) \<Rightarrow> 'a list \<Rightarrow> 'a option" where
  "pick_least k [] = None"
| "pick_least k (x # xs) =
     (case pick_least k xs of None \<Rightarrow> Some x | Some y \<Rightarrow> Some (if k x \<le> k y then x else y))"

lemma pick_least_None [simp]: "pick_least k xs = None \<longleftrightarrow> xs = []"
  by (cases xs) (auto split: option.splits)

lemma pick_least_Some: "pick_least k xs = Some x \<Longrightarrow> x \<in> set xs \<and> (\<forall>y \<in> set xs. k x \<le> k y)"
  by (induction xs arbitrary: x) (fastforce split: option.splits if_splits)+

definition usable_b :: "cpufreq_policy \<Rightarrow> ftable \<Rightarrow> nat \<Rightarrow> bool" where
  "usable_b p t i \<longleftrightarrow> frequency (t ! i) \<noteq> CPUFREQ_ENTRY_INVALID
     \<and> pol_min p \<le> frequency (t ! i) \<and> frequency (t ! i) \<le> pol_max p"

definition scan_rows :: "cpufreq_policy \<Rightarrow> ftable \<Rightarrow> nat list" where
  "scan_rows p t = filter (usable_b p t) [0..<length t]"

definition scan_row :: "cpufreq_policy \<Rightarrow> ftable \<Rightarrow> u32 \<Rightarrow> relation \<Rightarrow> nat option" where
  "scan_row p t f r =
     (let rows = scan_rows p t; key = (\<lambda>i. uint (frequency (t ! i))) in
      case r of
        RELATION_L \<Rightarrow> (case pick_least key (filter (\<lambda>i. uint f \<le> key i) rows) of
            Some i \<Rightarrow> Some i | None \<Rightarrow> pick_least (\<lambda>i. - key i) rows)
      | RELATION_H \<Rightarrow> (case pick_least (\<lambda>i. - key i) (filter (\<lambda>i. key i \<le> uint f) rows) of
            Some i \<Rightarrow> Some i | None \<Rightarrow> pick_least key rows))"

definition scan_ftt :: ftt_fun where
  "scan_ftt p t f r = map_option of_nat (scan_row p t f r)"

lemma set_scan_rows: "i \<in> set (scan_rows p t) \<longleftrightarrow> usable p t i"
  by (auto simp: scan_rows_def usable_def usable_b_def)

lemma scan_row_None: "scan_row p t f r = None \<Longrightarrow> \<not> usable p t i"
  by (auto simp: scan_row_def Let_def filter_empty_conv simp flip: set_scan_rows
      split: relation.splits option.splits)

lemma scan_row_L: "scan_row p t f RELATION_L = Some i \<Longrightarrow> best_L p t f i"
  unfolding scan_row_def Let_def best_L_def
  by (auto simp: filter_empty_conv word_le_def simp flip: set_scan_rows
      dest!: pick_least_Some split: option.splits)

lemma scan_row_H: "scan_row p t f RELATION_H = Some i \<Longrightarrow> best_H p t f i"
  unfolding scan_row_def Let_def best_H_def
  by (auto simp: filter_empty_conv word_le_def simp flip: set_scan_rows
      dest!: pick_least_Some split: option.splits)

lemma unat_of_row: "usable p t i \<Longrightarrow> length t < 2 ^ 31 \<Longrightarrow> unat (of_nat i :: u32) = i"
  by (rule unat_of_nat_small) (simp add: usable_def)

lemma scan_ftt_contract: "ftt_contract scan_ftt"
proof -
  have "case scan_ftt p t f r of
        None \<Rightarrow> \<forall>i. \<not> usable p t i
      | Some w \<Rightarrow> (case r of RELATION_L \<Rightarrow> best_L p t f (unat w) | RELATION_H \<Rightarrow> best_H p t f (unat w))"
    if len: "length t < 2 ^ 31" for p t f r
  proof (cases "scan_row p t f r")
    case None
    then show ?thesis by (auto simp: scan_ftt_def dest: scan_row_None)
  next
    case (Some i)
    have best: "case r of RELATION_L \<Rightarrow> best_L p t f i | RELATION_H \<Rightarrow> best_H p t f i"
      using Some by (cases r) (auto dest: scan_row_L scan_row_H)
    then have "usable p t i"
      by (cases r) (auto dest: best_usable)
    then have "unat (of_nat i :: u32) = i"
      using len by (rule unat_of_row)
    with best Some show ?thesis
      by (cases r) (simp_all add: scan_ftt_def)
  qed
  then show ?thesis by (simp add: ftt_contract_def)
qed

section \<open>The system state and the driver interface\<close>

text \<open>\<open>target_log\<close> records what \<open>__cpufreq_driver_target\<close> reports with its \<open>pr_debug\<close> line:
  the policy, the frequency and the relation of every request.\<close>

record 'd sys =
  policies :: "nat \<Rightarrow> cpufreq_policy"
  pol_refs :: "nat \<Rightarrow> nat"               \<comment> \<open>reference count of a policy's \<open>kobject\<close>\<close>
  cpu_data :: "cpuid \<Rightarrow> nat option"      \<comment> \<open>\<open>per_cpu(cpufreq_cpu_data, cpu)\<close>\<close>
  nr_cpu_ids :: nat
  has_driver :: bool                       \<comment> \<open>\<open>cpufreq_driver\<close> is set and its module can be held\<close>
  online :: "cpuid \<Rightarrow> bool"
  l_p_j_ref :: u32
  l_p_j_ref_freq :: u32
  loops_per_jiffy :: u32
  trans_log :: "(transition \<times> cpuid \<times> u32 \<times> u32) list"  \<comment> \<open>calls of the transition notifiers\<close>
  target_log :: "(nat \<times> u32 \<times> relation) list"
  drv :: 'd

type_synonym 'd target_op = "nat \<Rightarrow> u32 \<Rightarrow> relation \<Rightarrow> 'd sys \<Rightarrow> (int \<times> 'd sys) option"

definition set_cur :: "nat \<Rightarrow> u32 \<Rightarrow> 'd sys \<Rightarrow> 'd sys" where
  "set_cur p f s = s\<lparr>policies := (policies s)(p := (policies s p)\<lparr>pol_cur := f\<rparr>)\<rparr>"

text \<open>A policy without its current frequency, and what a request leaves alone: everything but the
  current frequencies, the delay calibration, the logs and the driver's own state.\<close>

definition limits_of :: "cpufreq_policy \<Rightarrow> cpufreq_policy" where
  "limits_of p = p\<lparr>pol_cur := 0\<rparr>"

definition sys_frame where
  "sys_frame s = (online s, cpu_data s, nr_cpu_ids s, has_driver s, pol_refs s, \<lambda>q. limits_of (policies s q))"

lemma limits_of_eq:
  fixes p q :: cpufreq_policy
  shows "limits_of p = limits_of q \<longleftrightarrow>
    pol_cpu p = pol_cpu q \<and> pol_min p = pol_min q \<and> pol_max p = pol_max q \<and> pol_cpus p = pol_cpus q
    \<and> pol_related p = pol_related q \<and> cpuinfo_min p = cpuinfo_min q \<and> cpuinfo_max p = cpuinfo_max q
    \<and> transition_latency p = transition_latency q \<and> pol_policy p = pol_policy q
    \<and> pol_governor p = pol_governor q \<and> user_min p = user_min q \<and> user_max p = user_max q
    \<and> user_policy p = user_policy q \<and> user_governor p = user_governor q"
  by (cases p; cases q) (auto simp: limits_of_def)

lemma sys_frameD:
  assumes "sys_frame s' = sys_frame s"
  shows "online s' = online s" "cpu_data s' = cpu_data s" "nr_cpu_ids s' = nr_cpu_ids s"
    "has_driver s' = has_driver s" "pol_refs s' = pol_refs s" "limits_of (policies s' q) = limits_of (policies s q)"
  using assms unfolding sys_frame_def by (simp_all only: prod.inject) (metis fun_cong)

lemma sys_frame_log [simp]: "sys_frame (s\<lparr>target_log := l\<rparr>) = sys_frame s"
  by (simp add: sys_frame_def)

lemma limits_of_set_cur [simp]: "limits_of (policies (set_cur p f s) q) = limits_of (policies s q)"
  by (simp add: set_cur_def limits_of_def)

lemma set_cur_frame [simp]:
  "online (set_cur p f s) = online s" "cpu_data (set_cur p f s) = cpu_data s"
  "pol_refs (set_cur p f s) = pol_refs s" "trans_log (set_cur p f s) = trans_log s"
  "nr_cpu_ids (set_cur p f s) = nr_cpu_ids s" "has_driver (set_cur p f s) = has_driver s"
  "loops_per_jiffy (set_cur p f s) = loops_per_jiffy s" "l_p_j_ref (set_cur p f s) = l_p_j_ref s"
  "l_p_j_ref_freq (set_cur p f s) = l_p_j_ref_freq s" "target_log (set_cur p f s) = target_log s"
  "drv (set_cur p f s) = drv s"
  by (simp_all add: set_cur_def)

text \<open>\<open>__cpufreq_driver_target\<close>; the driver's \<open>target\<close> is a function pointer that may be \<open>NULL\<close>.\<close>

definition cpufreq_driver_target_locked :: "'d target_op option \<Rightarrow> 'd target_op" where
  "cpufreq_driver_target_locked tgt p f r s =
     (let s1 = s\<lparr>target_log := target_log s @ [(p, f, r)]\<rparr> in
      case tgt of
        Some target \<Rightarrow>
          if online s1 (pol_cpu (policies s1 p)) then target p f r s1 else Some (- EINVAL, s1)
      | None \<Rightarrow> Some (- EINVAL, s1))"

text \<open>What a driver promises to the core and the governors: no fault from a state that meets its
  invariant, the invariant kept, the policies and references and the request log untouched.\<close>

locale cpufreq_driver_ops =
  fixes target :: "'d target_op"
    and ok :: "'d sys \<Rightarrow> bool"
  assumes target_total: "ok s \<Longrightarrow> target p f r s \<noteq> None"
    and target_ok: "ok s \<Longrightarrow> target p f r s = Some (rc, s') \<Longrightarrow> ok s'"
    and target_frame: "target p f r s = Some (rc, s') \<Longrightarrow> sys_frame s' = sys_frame s"
    and target_keeps_log: "target p f r s = Some (rc, s') \<Longrightarrow> target_log s' = target_log s"
    and ok_log: "ok (s\<lparr>target_log := l\<rparr>) = ok s"
begin

lemma locked_total: "ok s \<Longrightarrow> cpufreq_driver_target_locked (Some target) p f r s \<noteq> None"
  by (simp add: cpufreq_driver_target_locked_def Let_def target_total ok_log del: not_None_eq)

lemma locked_ok:
  "ok s \<Longrightarrow> cpufreq_driver_target_locked (Some target) p f r s = Some (rc, s') \<Longrightarrow> ok s'"
  by (auto simp: cpufreq_driver_target_locked_def Let_def ok_log split: if_splits
      dest: target_ok [rotated])

lemma locked_frame:
  "cpufreq_driver_target_locked (Some target) p f r s = Some (rc, s') \<Longrightarrow> sys_frame s' = sys_frame s"
  by (auto simp: cpufreq_driver_target_locked_def Let_def split: if_splits dest: target_frame)

lemmas locked_limits = sys_frameD(6) [OF locked_frame]

lemma locked_log:
  "cpufreq_driver_target_locked (Some target) p f r s = Some (rc, s') \<Longrightarrow>
   target_log s' = target_log s @ [(p, f, r)]"
  by (auto simp: cpufreq_driver_target_locked_def Let_def split: if_splits dest: target_keeps_log)

lemma locked_offline:
  "\<not> online s (pol_cpu (policies s p)) \<Longrightarrow>
   cpufreq_driver_target_locked (Some target) p f r s
     = Some (- EINVAL, s\<lparr>target_log := target_log s @ [(p, f, r)]\<rparr>)"
  by (simp add: cpufreq_driver_target_locked_def Let_def)

end

section \<open>The governor interface\<close>

definition requests_within :: "nat \<Rightarrow> 'd sys \<Rightarrow> 'd sys \<Rightarrow> bool" where
  "requests_within p s s' \<longleftrightarrow> (\<exists>reqs. target_log s' = target_log s @ reqs \<and>
     (\<forall>(q, f, r) \<in> set reqs. pol_min (policies s p) \<le> f \<and> f \<le> pol_max (policies s p)))"

lemma requests_within_refl [simp]: "target_log s' = target_log s \<Longrightarrow> requests_within p s s'"
  by (simp add: requests_within_def)

lemma requests_within_one:
  "target_log s' = target_log s @ [(q, f, r)] \<Longrightarrow>
   pol_min (policies s p) \<le> f \<Longrightarrow> f \<le> pol_max (policies s p) \<Longrightarrow> requests_within p s s'"
  by (simp add: requests_within_def)

text \<open>What the core relies on when it calls \<open>policy->governor->governor(policy, event)\<close>:
  after a change of limits a governor asks the driver only for frequencies inside them, it never
  touches the policies but for their current frequency, nor the references, and \<open>STOP\<close> cannot fail.\<close>

type_synonym ('g, 'd) gov_op = "nat \<Rightarrow> gov_event \<Rightarrow> 'g \<times> 'd sys \<Rightarrow> (int \<times> 'g \<times> 'd sys) option"

locale governor_ops =
  fixes gov :: "('g, 'd) gov_op"
  assumes gov_frame:
      "gov p e (g, s) = Some (rc, g', s') \<Longrightarrow> sys_frame s' = sys_frame s"
    and gov_requests:
      "gov p GOV_LIMITS (g, s) = Some (rc, g', s') \<Longrightarrow>
       pol_min (policies s p) \<le> pol_max (policies s p) \<Longrightarrow> requests_within p s s'"
    and gov_quiet:
      "gov p e (g, s) = Some (rc, g', s') \<Longrightarrow> e \<noteq> GOV_LIMITS \<Longrightarrow> target_log s' = target_log s"
    and gov_stop: "gov p GOV_STOP (g, s) = Some (rc, g', s') \<Longrightarrow> rc = 0"

end
