(* ===== verification/Transition.thy ===== *)
theory Transition
  imports Cpufreq_Types
begin

text \<open>
  The part of \<open>drivers/cpufreq/cpufreq.c\<close> that a driver calls: references to a CPU's policy
  (\<open>cpufreq_cpu_get\<close>, \<open>cpufreq_cpu_put\<close>) and the announcement of a frequency change
  (\<open>adjust_jiffies\<close>, \<open>cpufreq_notify_transition\<close>). The notifiers of the transition list only read what
  they are told; \<open>trans_log\<close> records it. \<open>cpufreq_scale\<close> comes from a header outside the source: it is a
  parameter, and \<open>scale_ok\<close> states what it documents.
\<close>

section \<open>References\<close>

definition cpufreq_cpu_get :: "cpuid \<Rightarrow> 'd sys \<Rightarrow> nat option \<times> 'd sys" where
  "cpufreq_cpu_get cpu s =
     (if cpu \<ge> nr_cpu_ids s then (None, s)
      else if \<not> has_driver s then (None, s)
      else case cpu_data s cpu of
             None \<Rightarrow> (None, s)
           | Some p \<Rightarrow> (Some p, s\<lparr>pol_refs := (pol_refs s)(p := pol_refs s p + 1)\<rparr>))"

definition cpufreq_cpu_put :: "nat \<Rightarrow> 'd sys \<Rightarrow> 'd sys" where
  "cpufreq_cpu_put p s = s\<lparr>pol_refs := (pol_refs s)(p := pol_refs s p - 1)\<rparr>"

lemma cpu_get_put: "cpufreq_cpu_get cpu s = (Some p, s') \<Longrightarrow> cpufreq_cpu_put p s' = s"
  by (auto simp: cpufreq_cpu_get_def cpufreq_cpu_put_def split: if_splits option.splits)

lemma cpu_get_keeps:
  assumes "cpufreq_cpu_get cpu s = (r, s')"
  shows "policies s' = policies s" "cpu_data s' = cpu_data s" "online s' = online s"
    "target_log s' = target_log s" "trans_log s' = trans_log s" "drv s' = drv s"
    "nr_cpu_ids s' = nr_cpu_ids s" "has_driver s' = has_driver s"
  using assms by (auto simp: cpufreq_cpu_get_def split: if_splits option.splits)

lemma cpu_put_keeps [simp]:
  "policies (cpufreq_cpu_put p s) = policies s" "cpu_data (cpufreq_cpu_put p s) = cpu_data s"
  "online (cpufreq_cpu_put p s) = online s" "target_log (cpufreq_cpu_put p s) = target_log s"
  "drv (cpufreq_cpu_put p s) = drv s" "trans_log (cpufreq_cpu_put p s) = trans_log s"
  by (simp_all add: cpufreq_cpu_put_def)

section \<open>Announcing a change\<close>

record cpufreq_freqs =
  fr_cpu :: cpuid
  fr_old :: u32
  fr_new :: u32

type_synonym scale_fun = "u32 \<Rightarrow> u32 \<Rightarrow> u32 \<Rightarrow> u32"

definition scale_ok :: "scale_fun \<Rightarrow> bool" where
  "scale_ok scale \<longleftrightarrow> (\<forall>old d mult. d \<noteq> 0 \<longrightarrow> unat old * unat mult div unat d < 2 ^ 32 \<longrightarrow>
     unat (scale old d mult) = unat old * unat mult div unat d)"

text \<open>\<open>const_loops\<close> is the driver's flag \<open>CPUFREQ_CONST_LOOPS\<close>, copied into the announcement.\<close>

definition adjust_jiffies ::
  "scale_fun \<Rightarrow> bool \<Rightarrow> transition \<Rightarrow> cpufreq_freqs \<Rightarrow> 'd sys \<Rightarrow> 'd sys" where
  "adjust_jiffies scale const_loops val ci s =
     (if const_loops then s
      else
        let s = (if l_p_j_ref_freq s = 0
                 then s\<lparr>l_p_j_ref := loops_per_jiffy s, l_p_j_ref_freq := fr_old ci\<rparr> else s)
        in if val = PRECHANGE \<and> fr_old ci < fr_new ci \<or> val = POSTCHANGE \<and> fr_old ci > fr_new ci
           then s\<lparr>loops_per_jiffy := scale (l_p_j_ref s) (l_p_j_ref_freq s) (fr_new ci)\<rparr>
           else s)"

definition trans_notify :: "transition \<Rightarrow> cpufreq_freqs \<Rightarrow> 'd sys \<Rightarrow> 'd sys" where
  "trans_notify st fr s = s\<lparr>trans_log := trans_log s @ [(st, fr_cpu fr, fr_old fr, fr_new fr)]\<rparr>"

definition cpufreq_notify_transition ::
  "scale_fun \<Rightarrow> bool \<Rightarrow> transition \<Rightarrow> cpufreq_freqs \<times> 'd sys \<Rightarrow> cpufreq_freqs \<times> 'd sys" where
  "cpufreq_notify_transition scale const_loops st fs = (case fs of (fr, s) \<Rightarrow>
     let policy = cpu_data s (fr_cpu fr) in
     case st of
       PRECHANGE \<Rightarrow>
         let fr = (case policy of
               Some p \<Rightarrow>
                 if \<not> const_loops \<and> pol_cpu (policies s p) = fr_cpu fr
                    \<and> pol_cur (policies s p) \<noteq> 0 \<and> pol_cur (policies s p) \<noteq> fr_old fr
                 then fr\<lparr>fr_old := pol_cur (policies s p)\<rparr> else fr
             | None \<Rightarrow> fr)
         in (fr, adjust_jiffies scale const_loops PRECHANGE fr (trans_notify PRECHANGE fr s))
     | POSTCHANGE \<Rightarrow>
         let s = trans_notify POSTCHANGE fr (adjust_jiffies scale const_loops POSTCHANGE fr s) in
         (fr, case policy of
                Some p \<Rightarrow> if pol_cpu (policies s p) = fr_cpu fr then set_cur p (fr_new fr) s else s
              | None \<Rightarrow> s))"

section \<open>What an announcement keeps\<close>

lemma adjust_jiffies_keeps [simp]:
  "policies (adjust_jiffies scale c v ci s) = policies s" "online (adjust_jiffies scale c v ci s) = online s"
  "cpu_data (adjust_jiffies scale c v ci s) = cpu_data s" "drv (adjust_jiffies scale c v ci s) = drv s"
  "target_log (adjust_jiffies scale c v ci s) = target_log s"
  "trans_log (adjust_jiffies scale c v ci s) = trans_log s"
  "nr_cpu_ids (adjust_jiffies scale c v ci s) = nr_cpu_ids s"
  "has_driver (adjust_jiffies scale c v ci s) = has_driver s"
  "pol_refs (adjust_jiffies scale c v ci s) = pol_refs s"
  by (simp_all add: adjust_jiffies_def Let_def)

lemma trans_notify_keeps [simp]:
  "policies (trans_notify st fr s) = policies s" "online (trans_notify st fr s) = online s"
  "cpu_data (trans_notify st fr s) = cpu_data s" "drv (trans_notify st fr s) = drv s"
  "target_log (trans_notify st fr s) = target_log s" "loops_per_jiffy (trans_notify st fr s) = loops_per_jiffy s"
  "l_p_j_ref (trans_notify st fr s) = l_p_j_ref s" "l_p_j_ref_freq (trans_notify st fr s) = l_p_j_ref_freq s"
  "nr_cpu_ids (trans_notify st fr s) = nr_cpu_ids s" "has_driver (trans_notify st fr s) = has_driver s"
  "pol_refs (trans_notify st fr s) = pol_refs s"
  by (simp_all add: trans_notify_def)

lemma notify_keeps:
  assumes n: "cpufreq_notify_transition scale c st (fr, s) = (fr', s')"
  shows "online s' = online s" "cpu_data s' = cpu_data s" "drv s' = drv s" "target_log s' = target_log s"
    "limits_of (policies s' q) = limits_of (policies s q)" "fr_cpu fr' = fr_cpu fr" "fr_new fr' = fr_new fr"
    "nr_cpu_ids s' = nr_cpu_ids s" "has_driver s' = has_driver s" "pol_refs s' = pol_refs s"
proof -
  have *: "online s' = online s \<and> cpu_data s' = cpu_data s \<and> drv s' = drv s \<and> target_log s' = target_log s
    \<and> limits_of (policies s' q) = limits_of (policies s q) \<and> fr_cpu fr' = fr_cpu fr \<and> fr_new fr' = fr_new fr
    \<and> nr_cpu_ids s' = nr_cpu_ids s \<and> has_driver s' = has_driver s \<and> pol_refs s' = pol_refs s"
  proof (cases st)
    case PRECHANGE
    show ?thesis
      using n unfolding cpufreq_notify_transition_def PRECHANGE Let_def
      by (cases "cpu_data s (fr_cpu fr)") (clarsimp, clarsimp split: if_splits)
  next
    case POSTCHANGE
    show ?thesis
      using n unfolding cpufreq_notify_transition_def POSTCHANGE Let_def
      by (cases "cpu_data s (fr_cpu fr)"; clarsimp; simp add: limits_of_set_cur split: if_splits)
  qed
  then show "online s' = online s" "cpu_data s' = cpu_data s" "drv s' = drv s" "target_log s' = target_log s"
    "limits_of (policies s' q) = limits_of (policies s q)" "fr_cpu fr' = fr_cpu fr" "fr_new fr' = fr_new fr"
    "nr_cpu_ids s' = nr_cpu_ids s" "has_driver s' = has_driver s" "pol_refs s' = pol_refs s" by simp_all
qed

lemma notify_pre_policies:
  "cpufreq_notify_transition scale c PRECHANGE (fr, s) = (fr', s') \<Longrightarrow> policies s' = policies s"
  by (auto simp: cpufreq_notify_transition_def Let_def split: option.splits if_splits)

lemma notify_post_policies:
  "cpufreq_notify_transition scale c POSTCHANGE (fr, s) = (fr', s') \<Longrightarrow>
   fr' = fr \<and> policies s' = (case cpu_data s (fr_cpu fr) of
      Some p \<Rightarrow> if pol_cpu (policies s p) = fr_cpu fr
        then (policies s)(p := (policies s p)\<lparr>pol_cur := fr_new fr\<rparr>) else policies s
    | None \<Rightarrow> policies s)"
  by (auto simp: cpufreq_notify_transition_def Let_def set_cur_def split: option.splits if_splits)

section \<open>The delay calibration follows the frequency\<close>

definition lpj_ok :: "scale_fun \<Rightarrow> u32 \<Rightarrow> 'd sys \<Rightarrow> bool" where
  "lpj_ok scale f s \<longleftrightarrow> l_p_j_ref_freq s \<noteq> 0
     \<and> loops_per_jiffy s = scale (l_p_j_ref s) (l_p_j_ref_freq s) f"

definition announce ::
  "scale_fun \<Rightarrow> cpufreq_freqs \<times> 'd sys \<Rightarrow> (cpufreq_freqs \<times> 'd sys) \<times> (cpufreq_freqs \<times> 'd sys)" where
  "announce scale fs =
     (let mid = cpufreq_notify_transition scale False PRECHANGE fs
      in (mid, cpufreq_notify_transition scale False POSTCHANGE mid))"

lemma adjust_jiffies_ref:
  "l_p_j_ref_freq s \<noteq> 0 \<Longrightarrow> l_p_j_ref (adjust_jiffies scale c v ci s) = l_p_j_ref s
     \<and> l_p_j_ref_freq (adjust_jiffies scale c v ci s) = l_p_j_ref_freq s"
  by (simp add: adjust_jiffies_def)

lemma notify_keeps_ref:
  assumes "cpufreq_notify_transition scale c st (fr, s) = (fr', s')" "l_p_j_ref_freq s \<noteq> 0"
  shows "l_p_j_ref s' = l_p_j_ref s \<and> l_p_j_ref_freq s' = l_p_j_ref_freq s"
  using assms
  by (cases st; cases "cpu_data s (fr_cpu fr)")
    (auto simp: cpufreq_notify_transition_def Let_def adjust_jiffies_ref split: if_splits)

lemma announce_keeps_ref:
  assumes "announce scale (fr, s) = ((fr1, s1), (fr2, s2))" "l_p_j_ref_freq s \<noteq> 0"
  shows "l_p_j_ref s2 = l_p_j_ref s \<and> l_p_j_ref_freq s2 = l_p_j_ref_freq s"
proof -
  have "cpufreq_notify_transition scale False PRECHANGE (fr, s) = (fr1, s1)"
    "cpufreq_notify_transition scale False POSTCHANGE (fr1, s1) = (fr2, s2)"
    using assms(1) by (auto simp: announce_def Let_def)
  then show ?thesis using assms(2) by (metis notify_keeps_ref)
qed

lemma lpj_ok_notify [simp]: "lpj_ok scale f (trans_notify st fr s) = lpj_ok scale f s"
  by (simp add: lpj_ok_def)

lemma lpj_ok_policies: "lpj_ok scale f (s\<lparr>policies := ps\<rparr>) = lpj_ok scale f s"
  by (simp add: lpj_ok_def)

lemma adjust_pre:
  "lpj_ok scale cur s \<Longrightarrow> fr_old ci = cur \<Longrightarrow>
   lpj_ok scale (max cur (fr_new ci)) (adjust_jiffies scale False PRECHANGE ci s)"
  by (cases "cur < fr_new ci") (auto simp: lpj_ok_def adjust_jiffies_def max_def not_less)

lemma adjust_post:
  "lpj_ok scale (max (fr_old ci) (fr_new ci)) s \<Longrightarrow>
   lpj_ok scale (fr_new ci) (adjust_jiffies scale False POSTCHANGE ci s)"
  by (cases "fr_new ci < fr_old ci") (auto simp: lpj_ok_def adjust_jiffies_def max_def not_less)

text \<open>
  Claim C24. The delay calibration tracks the announced frequency: when it is right for the current
  frequency before a change, it is right for the new one after it, and between the two announcements
  it is the one of the faster of the two frequencies, so a delay loop is never too short.
\<close>

theorem lpj_tracks_frequency:
  assumes "cpu_data s (fr_cpu fr) = Some p" "pol_cpu (policies s p) = fr_cpu fr"
    and "pol_cur (policies s p) \<noteq> 0" "lpj_ok scale (pol_cur (policies s p)) s"
    and "announce scale (fr, s) = ((fr1, s1), (fr2, s2))"
  shows "lpj_ok scale (max (pol_cur (policies s p)) (fr_new fr)) s1
    \<and> lpj_ok scale (fr_new fr) s2 \<and> pol_cur (policies s2 p) = fr_new fr
    \<and> fr_old fr1 = pol_cur (policies s p)"
proof -
  let ?cur = "pol_cur (policies s p)"
  define mid where "mid = cpufreq_notify_transition scale False PRECHANGE (fr, s)"
  have pre: "mid = (fr\<lparr>fr_old := ?cur\<rparr>,
      adjust_jiffies scale False PRECHANGE (fr\<lparr>fr_old := ?cur\<rparr>) (trans_notify PRECHANGE (fr\<lparr>fr_old := ?cur\<rparr>) s))"
  proof (cases "fr_old fr = ?cur")
    case True
    then have eq: "fr\<lparr>fr_old := ?cur\<rparr> = fr" by (cases fr) simp
    show ?thesis
      unfolding eq using True assms(1-3) by (simp add: mid_def cpufreq_notify_transition_def)
  next
    case False
    then show ?thesis
      using assms(1-3) by (simp add: mid_def cpufreq_notify_transition_def Let_def)
  qed
  have 1: "fr1 = fr\<lparr>fr_old := ?cur\<rparr>"
      "s1 = adjust_jiffies scale False PRECHANGE fr1 (trans_notify PRECHANGE fr1 s)"
    and 2: "cpufreq_notify_transition scale False POSTCHANGE (fr1, s1) = (fr2, s2)"
    using assms(5) pre by (auto simp: announce_def mid_def Let_def)
  have s1: "lpj_ok scale (max ?cur (fr_new fr)) s1" "policies s1 = policies s" "cpu_data s1 = cpu_data s"
    using 1 assms(4) adjust_pre [of scale ?cur "trans_notify PRECHANGE fr1 s" fr1] by simp_all
  have "s2 = set_cur p (fr_new fr1) (trans_notify POSTCHANGE fr1 (adjust_jiffies scale False POSTCHANGE fr1 s1))"
    using 2 assms(1,2) s1 1(1) by (auto simp: cpufreq_notify_transition_def Let_def)
  then have "lpj_ok scale (fr_new fr) s2" "pol_cur (policies s2 p) = fr_new fr"
    using adjust_post [of scale fr1 s1] s1(1) 1(1) by (simp_all add: set_cur_def lpj_ok_policies)
  with s1 1(1) show ?thesis by simp
qed

definition demo_scale :: scale_fun where
  "demo_scale old d mult = old * (mult div 1000) div (d div 1000)"

definition demo_change :: "unit sys" where
  "demo_change = \<lparr>policies = (\<lambda>_. \<lparr>pol_cpu = 0, pol_cpus = [0, 1], pol_related = [0, 1],
       pol_min = 200000, pol_max = 1400000, pol_cur = 200000, cpuinfo_min = 200000,
       cpuinfo_max = 1400000, transition_latency = 100000, pol_policy = 0, pol_governor = None,
       user_min = 200000, user_max = 1400000, user_policy = 0, user_governor = None\<rparr>),
     pol_refs = (\<lambda>_. 1), cpu_data = (\<lambda>_. Some 0), nr_cpu_ids = 4, has_driver = True,
     online = (\<lambda>c. c < 4), l_p_j_ref = 1000, l_p_j_ref_freq = 200000,
     loops_per_jiffy = 1000, trans_log = [], target_log = [], drv = ()\<rparr>"

theorem lpj_tracks_frequency_witness:
  "\<exists>fr1 s1 fr2 s2. announce demo_scale (\<lparr>fr_cpu = 0, fr_old = 500000, fr_new = 1000000\<rparr>, demo_change)
      = ((fr1, s1), (fr2, s2))
    \<and> lpj_ok demo_scale 1000000 s1 \<and> loops_per_jiffy s2 = demo_scale 1000 200000 1000000
    \<and> fr_old fr1 = 200000"
proof -
  obtain fr1 s1 fr2 s2 where r: "announce demo_scale
      (\<lparr>fr_cpu = 0, fr_old = 500000, fr_new = 1000000\<rparr>, demo_change) = ((fr1, s1), (fr2, s2))"
    by (metis prod.exhaust)
  have pol: "pol_cur (policies demo_change 0) = 200000"
    by (simp add: demo_change_def)
  have 1: "cpu_data demo_change (fr_cpu \<lparr>fr_cpu = 0, fr_old = 500000, fr_new = 1000000\<rparr>) = Some 0"
    "pol_cpu (policies demo_change 0) = fr_cpu \<lparr>fr_cpu = 0, fr_old = 500000, fr_new = 1000000\<rparr>"
    "pol_cur (policies demo_change 0) \<noteq> 0"
    "lpj_ok demo_scale (pol_cur (policies demo_change 0)) demo_change"
    by (simp_all add: demo_change_def lpj_ok_def demo_scale_def)
  have *: "lpj_ok demo_scale 1000000 s1" "lpj_ok demo_scale 1000000 s2" "fr_old fr1 = 200000"
    using lpj_tracks_frequency [OF 1 r] by (simp_all add: pol max_def)
  have "l_p_j_ref s2 = 1000 \<and> l_p_j_ref_freq s2 = 200000"
    using announce_keeps_ref [OF r] by (simp add: demo_change_def)
  with *(2) have "loops_per_jiffy s2 = demo_scale 1000 200000 1000000"
    by (simp add: lpj_ok_def)
  with r *(1,3) show ?thesis by (intro exI conjI)
qed

end
