(* ===== verification/Sysfs_Text.thy ===== *)
theory Sysfs_Text
  imports Prelude
begin

text \<open>
  The text side of sysfs: \<open>sscanf(buf, "%u", ...)\<close> and \<open>sscanf(buf, "%d", ...)\<close> as the kernel's
  \<open>vsscanf\<close> reads them (leading white space skipped, digits up to the first other character, the
  value cut to 32 bits), \<open>sprintf\<close> with \<open>%u\<close> and \<open>%d\<close>, and the interface of a group of tunables:
  a store either rejects its text and changes nothing or keeps the group's invariant.
\<close>

definition is_space :: "char \<Rightarrow> bool" where
  "is_space c \<longleftrightarrow> of_char c \<in> {32, 160} \<union> {9::nat..13}"

definition is_digit :: "char \<Rightarrow> bool" where
  "is_digit c \<longleftrightarrow> 48 \<le> (of_char c :: nat) \<and> (of_char c :: nat) \<le> 57"

definition digit_val :: "char \<Rightarrow> nat" where
  "digit_val c = of_char c - 48"

definition dec_val :: "string \<Rightarrow> nat" where
  "dec_val s = foldl (\<lambda>a c. 10 * a + digit_val c) 0 s"

definition sscanf_u :: "string \<Rightarrow> u32 option" where
  "sscanf_u s = (let d = takeWhile is_digit (dropWhile is_space s) in
     if d = [] then None else Some (of_nat (dec_val d)))"

definition sscanf_d :: "string \<Rightarrow> int option" where
  "sscanf_d s = (let s1 = dropWhile is_space s in
     case s1 of
       [] \<Rightarrow> None
     | c # cs \<Rightarrow>
         (let (neg, ds) = (if c = CHR ''-'' then (True, cs) else (False, s1));
              d = takeWhile is_digit ds
          in if d = [] then None
             else Some (s32 (if neg then - int (dec_val d) else int (dec_val d)))))"

definition digit_char :: "nat \<Rightarrow> char" where
  "digit_char n = char_of (48 + n)"

fun dec_str :: "nat \<Rightarrow> string" where
  "dec_str n = (if n < 10 then [digit_char n] else dec_str (n div 10) @ [digit_char (n mod 10)])"

declare dec_str.simps [simp del]

definition sprintf_u :: "u32 \<Rightarrow> string" where
  "sprintf_u w = dec_str (unat w)"

definition sprintf_d :: "int \<Rightarrow> string" where
  "sprintf_d i = (if i < 0 then CHR ''-'' # dec_str (nat (- i)) else dec_str (nat i))"

abbreviation newline :: char where "newline \<equiv> CHR 0x0A"

text \<open>Field widths: blanks on the left, or zeros for \<open>%06lu\<close>.\<close>

definition pad_left :: "char \<Rightarrow> nat \<Rightarrow> string \<Rightarrow> string" where
  "pad_left c w s = replicate (w - length s) c @ s"

text \<open>\<open>strnicmp(a, b, CPUFREQ_NAME_LEN) == 0\<close> of two strings without a \<open>NUL\<close>; the length is 16.\<close>

definition to_lower :: "char \<Rightarrow> char" where
  "to_lower c = (if 65 \<le> (of_char c :: nat) \<and> (of_char c :: nat) \<le> 90 then char_of ((of_char c :: nat) + 32) else c)"

definition strnicmp_eq :: "string \<Rightarrow> string \<Rightarrow> bool" where
  "strnicmp_eq a b \<longleftrightarrow> map to_lower (take 16 a) = map to_lower (take 16 b)"

text \<open>\<open>sscanf(buf, "%15s", s)\<close>: the first word, at most 15 characters of it.\<close>

definition sscanf_s15 :: "string \<Rightarrow> string option" where
  "sscanf_s15 s = (let w = take 15 (takeWhile (\<lambda>c. \<not> is_space c) (dropWhile is_space s)) in
     if w = [] then None else Some w)"

text \<open>\<open>scnprintf(buf, n, ...)\<close> keeps the first \<open>n - 1\<close> characters.\<close>

definition scnprintf :: "int \<Rightarrow> string \<Rightarrow> string" where
  "scnprintf n s = take (nat (n - 1)) s"

abbreviation blank :: char where "blank \<equiv> CHR '' ''"
abbreviation NUL :: char where "NUL \<equiv> CHR 0x00"

lemma length_pad_left [simp]: "length (pad_left c w s) = max w (length s)"
  by (simp add: pad_left_def)

section \<open>Printing then scanning\<close>

lemma digit_char_props:
  assumes "n < 10"
  shows "is_digit (digit_char n)" "digit_val (digit_char n) = n" "\<not> is_space (digit_char n)"
    "digit_char n \<noteq> CHR ''-''"
proof -
  have of: "(of_char (digit_char n) :: nat) = 48 + n"
    using assms by (simp add: digit_char_def)
  show "is_digit (digit_char n)" "digit_val (digit_char n) = n"
    using assms by (simp_all add: is_digit_def digit_val_def of)
  show "\<not> is_space (digit_char n)"
  proof
    assume "is_space (digit_char n)"
    then show False using of assms by (auto simp: is_space_def)
  qed
  show "digit_char n \<noteq> CHR ''-''" using of by auto
qed

lemma dec_str_digits: "\<forall>c \<in> set (dec_str n). is_digit c"
proof (induction n rule: dec_str.induct)
  case (1 n)
  then show ?case
    by (subst dec_str.simps) (auto simp: digit_char_props)
qed

lemma dec_str_hd: "\<exists>c cs. dec_str n = c # cs \<and> \<not> is_space c \<and> c \<noteq> CHR ''-''"
proof (induction n rule: dec_str.induct)
  case (1 n)
  then show ?case by (subst dec_str.simps) (cases "n < 10"; auto simp: digit_char_props)
qed

lemma dec_val_append: "dec_val (xs @ [c]) = 10 * dec_val xs + digit_val c"
  by (simp add: dec_val_def)

lemma dec_val_str: "dec_val (dec_str n) = n"
proof (induction n rule: dec_str.induct)
  case (1 n)
  then show ?case
    by (subst dec_str.simps) (cases "n < 10"; simp add: dec_val_append dec_val_def [of "[_]"] digit_char_props)
qed

lemma not_digit_newline [simp]: "\<not> is_digit newline"
  by (simp add: is_digit_def)

lemma takeWhile_digits: "takeWhile is_digit (dec_str n @ [newline]) = dec_str n"
  using dec_str_digits [of n] by (simp add: takeWhile_append2)

lemma dropWhile_dec: "dropWhile is_space (dec_str n @ s) = dec_str n @ s"
  using dec_str_hd [of n] by auto

lemma dec_str_nonempty [simp]: "dec_str n \<noteq> []"
  using dec_str_hd [of n] by auto

lemma sscanf_u_sprintf_u: "sscanf_u (sprintf_u w @ [newline]) = Some w"
  by (simp add: sscanf_u_def sprintf_u_def dropWhile_dec takeWhile_digits dec_val_str)

lemma sscanf_u_sprintf_d:
  "0 \<le> i \<Longrightarrow> sscanf_u (sprintf_d i @ [newline]) = Some (c_uint i)"
  by (simp add: sscanf_u_def sprintf_d_def dropWhile_dec takeWhile_digits dec_val_str c_uint_def)

lemma sscanf_u_negative: "i < 0 \<Longrightarrow> sscanf_u (sprintf_d i @ [newline]) = None"
  by (simp add: sscanf_u_def sprintf_d_def is_space_def is_digit_def)

lemma sscanf_d_sprintf_d:
  assumes "- (2 ^ 31) \<le> i" "i < 2 ^ 31"
  shows "sscanf_d (sprintf_d i @ [newline]) = Some i"
proof (cases "i < 0")
  case True
  then show ?thesis
    using assms
    by (simp add: sscanf_d_def sprintf_d_def is_space_def takeWhile_digits dec_val_str s32_id)
next
  case False
  obtain c cs where hd: "dec_str (nat i) = c # cs" "\<not> is_space c" "c \<noteq> CHR ''-''"
    using dec_str_hd by blast
  moreover have "takeWhile is_digit (c # cs @ [newline]) = c # cs"
    using takeWhile_digits [of "nat i"] hd(1) by simp
  moreover have "dec_val (c # cs) = nat i"
    using dec_val_str [of "nat i"] hd(1) by simp
  ultimately show ?thesis
    using assms False by (simp add: sscanf_d_def sprintf_d_def s32_id)
qed

text \<open>How long a printed number is, and that no printed text holds a \<open>NUL\<close>.\<close>

lemma length_dec_str: "n < 10 ^ k \<Longrightarrow> 0 < k \<Longrightarrow> length (dec_str n) \<le> k"
proof (induction n arbitrary: k rule: dec_str.induct)
  case (1 n)
  show ?case
  proof (cases "n < 10")
    case True
    then show ?thesis using 1(3) by (subst dec_str.simps) simp
  next
    case False
    obtain j where j: "k = Suc j" using 1(3) by (cases k) auto
    with 1(2) False have k: "k = Suc j" "0 < j" by (auto intro: gr0I)
    then have "n div 10 < 10 ^ j" using 1(2) by (simp add: less_mult_imp_div_less mult.commute)
    then have "length (dec_str (n div 10)) \<le> j" using 1(1) False k(2) by blast
    then show ?thesis using False k(1) by (subst dec_str.simps) simp
  qed
qed

lemma digit_not_NUL: "is_digit c \<Longrightarrow> c \<noteq> NUL"
  by (auto simp: is_digit_def)

lemma dec_str_no_NUL: "NUL \<notin> set (dec_str n)"
  using dec_str_digits [of n] digit_not_NUL by blast

lemma sprintf_no_NUL [simp]: "NUL \<notin> set (sprintf_u w)" "NUL \<notin> set (sprintf_d i)"
  by (simp_all add: sprintf_u_def sprintf_d_def dec_str_no_NUL)

lemma pad_no_NUL [simp]: "NUL \<notin> set (pad_left c w s) \<longleftrightarrow> (c \<noteq> NUL \<or> w \<le> length s) \<and> NUL \<notin> set s"
  by (auto simp: pad_left_def)

lemma length_sprintf_u: "length (sprintf_u w) \<le> 10"
proof -
  have "unat w < 10 ^ 10" using unsigned_less [of w, where 'a = nat] by simp
  then show ?thesis unfolding sprintf_u_def by (rule length_dec_str) simp
qed

lemma length_sprintf_d:
  assumes "- (2 ^ 31) \<le> i" "i < 2 ^ 31"
  shows "length (sprintf_d i) \<le> 11"
proof -
  have "length (dec_str (nat \<bar>i\<bar>)) \<le> 10"
    using assms by (intro length_dec_str) (simp_all add: abs_if nat_less_iff)
  then show ?thesis by (auto simp: sprintf_d_def abs_if split: if_splits)
qed

section \<open>A group of tunables\<close>

locale tunable_group =
  fixes store :: "'a \<Rightarrow> string \<Rightarrow> 's \<Rightarrow> int \<times> 's"
    and inv :: "'s \<Rightarrow> bool"
  assumes store_inv: "inv s \<Longrightarrow> inv (snd (store a buf s))"
    and store_reject: "fst (store a buf s) < 0 \<Longrightarrow> snd (store a buf s) = s"
begin

text \<open>Any sequence of writes keeps the invariant, and the rejected ones leave no trace.\<close>

lemma writes_inv: "inv s \<Longrightarrow> inv (fold (\<lambda>(a, buf) s. snd (store a buf s)) ws s)"
  by (induction ws arbitrary: s) (auto intro: store_inv)

lemma writes_reject:
  "fst (store a buf s) < 0 \<Longrightarrow>
   fold (\<lambda>(a, buf) s. snd (store a buf s)) ((a, buf) # ws) s
     = fold (\<lambda>(a, buf) s. snd (store a buf s)) ws s"
  by (simp add: store_reject)

end

end
