(* ===== verification/Status_Monitor.thy ===== *)
theory Status_Monitor
  imports Sysfs_Text
begin

text \<open>
  The status monitor of \<open>drivers/cpufreq/cpufreq.c\<close> (lines 610 to 735): a 256 KiB buffer that the
  governor fills with log lines and that a delayed work writes to a file. The file system is a
  parameter: what the two \<open>filp_open\<close> calls return.
\<close>

section \<open>State and operations\<close>

datatype file_ptr = File_NULL | File_ERR int | File nat

record status_monitor =
  sm_work :: "u32 option"        \<comment> \<open>the delay of \<open>status_monitor_work\<close> when it is scheduled\<close>
  sm_period :: u32
  sm_flag :: int
  sm_buf :: string
  sm_filp :: file_ptr
  sm_offset :: nat

abbreviation (input) SM_SIZE :: nat where "SM_SIZE \<equiv> 262144"

definition status_monitor_init :: status_monitor where
  "status_monitor_init = \<lparr>sm_work = None, sm_period = 0, sm_flag = 0,
     sm_buf = replicate SM_SIZE NUL, sm_filp = File_NULL, sm_offset = 0\<rparr>"

definition get_status_monitor_flag :: "status_monitor \<Rightarrow> int" where
  "get_status_monitor_flag m = sm_flag m"

definition set_status_monitor_flag :: "int \<Rightarrow> status_monitor \<Rightarrow> status_monitor" where
  "set_status_monitor_flag flag m = m\<lparr>sm_flag := flag\<rparr>"

text \<open>\<open>strncpy(dst, data, size)\<close>: up to the first \<open>NUL\<close>, the rest of \<open>size\<close> filled with \<open>NUL\<close>;
  \<open>dst\<close> has to hold \<open>size\<close> bytes.\<close>

definition strncpy_at :: "string \<Rightarrow> nat \<Rightarrow> string \<Rightarrow> nat \<Rightarrow> string option" where
  "strncpy_at buf off data sz =
     (if off + sz \<le> length buf
      then Some (take off buf @ take sz (takeWhile (\<lambda>c. c \<noteq> NUL) data @ replicate sz NUL)
                 @ drop (off + sz) buf)
      else None)"

definition status_monitor_write_file :: "string \<Rightarrow> nat \<Rightarrow> status_monitor \<Rightarrow> status_monitor option" where
  "status_monitor_write_file data sz m = do {
     let m = (if sm_offset m + sz > SM_SIZE then m\<lparr>sm_offset := 0\<rparr> else m);
     buf \<leftarrow> strncpy_at (sm_buf m) (sm_offset m) data sz;
     Some (m\<lparr>sm_buf := buf, sm_offset := sm_offset m + sz\<rparr>)
   }"

text \<open>The delayed work: the new state and the bytes it writes to the file, if it opens one.
  \<open>sm_filp\<close> is not reset after \<open>filp_close\<close>; a run with an error pointer in it would follow it.\<close>

definition status_monitor_wq ::
  "file_ptr \<Rightarrow> file_ptr \<Rightarrow> status_monitor \<Rightarrow> (string option \<times> status_monitor) option" where
  "status_monitor_wq open1 open2 m =
     (let m = set_status_monitor_flag 0 (m\<lparr>sm_work := None\<rparr>);
          flush = (\<lambda>f m. Some (Some (take (sm_offset m) (sm_buf m)),
                               m\<lparr>sm_filp := f, sm_offset := 0\<rparr>))
      in case sm_filp m of
           File f \<Rightarrow> flush (File f) m
         | File_ERR e \<Rightarrow> None
         | File_NULL \<Rightarrow>
             (case open1 of
                File f \<Rightarrow> flush (File f) m
              | File_NULL \<Rightarrow> None
              | File_ERR _ \<Rightarrow>
                  (case open2 of
                     File f \<Rightarrow> flush (File f) m
                   | File_NULL \<Rightarrow> None
                   | File_ERR e \<Rightarrow> Some (None, m\<lparr>sm_filp := File_ERR e\<rparr>))))"

definition show_status_monitor :: string where
  "show_status_monitor = ''Usage : echo # > status_monitor'' @ [newline]
     @ ''This will monitor status for # seconds'' @ [newline]"

definition bracketed :: "nat \<Rightarrow> string \<Rightarrow> string" where
  "bracketed w s = ''['' @ pad_left blank w s @ '']''"

definition sm_header :: string where
  "sm_header = bracketed 10 ''time'' @ '','' @ bracketed 6 ''cpu'' @ '','' @ bracketed 6 ''freq_avg''
     @ '','' @ bracketed 6 ''freq_cur'' @ '','' @ bracketed 6 ''thread'' @ '','' @ bracketed 6 ''mem''
     @ '','' @ bracketed 6 ''cpu_on'' @ '','' @ bracketed 6 ''adj'' @ [newline]"

definition store_status_monitor ::
  "(u32 \<Rightarrow> u32) \<Rightarrow> string \<Rightarrow> status_monitor \<Rightarrow> (int \<times> status_monitor) option" where
  "store_status_monitor msecs_to_jiffies buf m =
     (case sscanf_d buf of
        None \<Rightarrow> Some (- EINVAL, m)
      | Some v \<Rightarrow> do {
          let period = c_uint v * 1000;
          let m = m\<lparr>sm_period := period, sm_buf := replicate SM_SIZE NUL, sm_filp := File_NULL,
                    sm_offset := 0\<rparr>;
          m \<leftarrow> status_monitor_write_file sm_header (length sm_header) m;
          let m = set_status_monitor_flag 1 (m\<lparr>sm_work := Some (msecs_to_jiffies period)\<rparr>);
          Some (c_int (sm_period m), m)
        })"

section \<open>The buffer holds whole lines\<close>

definition sm_ok :: "status_monitor \<Rightarrow> bool" where
  "sm_ok m \<longleftrightarrow> length (sm_buf m) = SM_SIZE \<and> sm_offset m \<le> SM_SIZE"

definition line_ok :: "string \<Rightarrow> bool" where
  "line_ok l \<longleftrightarrow> NUL \<notin> set l \<and> length l \<le> SM_SIZE"

definition log_line :: "string \<Rightarrow> status_monitor \<Rightarrow> status_monitor option" where
  "log_line l m = status_monitor_write_file l (length l) m"

fun log_lines :: "string list \<Rightarrow> status_monitor \<Rightarrow> status_monitor option" where
  "log_lines [] m = Some m"
| "log_lines (l # ls) m = Option.bind (log_line l m) (log_lines ls)"

lemma log_line_step:
  assumes "sm_ok m" "line_ok l"
  shows "\<exists>m'. log_line l m = Some m' \<and> sm_ok m' \<and> sm_flag m' = sm_flag m \<and> sm_filp m' = sm_filp m
    \<and> (if sm_offset m + length l > SM_SIZE
       then sm_offset m' = length l \<and> take (sm_offset m') (sm_buf m') = l
       else sm_offset m' = sm_offset m + length l
         \<and> take (sm_offset m') (sm_buf m') = take (sm_offset m) (sm_buf m) @ l)"
proof -
  have tw: "takeWhile (\<lambda>c. c \<noteq> NUL) l = l"
    using assms(2) by (simp add: line_ok_def takeWhile_eq_all_conv) blast
  show ?thesis
    using assms
    by (auto simp: log_line_def status_monitor_write_file_def strncpy_at_def tw sm_ok_def
        line_ok_def Let_def min_def)
qed

text \<open>The lines that are still in the buffer after a run: the ones since the last wrap.\<close>

fun kept_lines :: "string list \<Rightarrow> string list \<Rightarrow> string list" where
  "kept_lines acc [] = acc"
| "kept_lines acc (l # ls) =
     (if length (concat acc) + length l > SM_SIZE then kept_lines [l] ls
      else kept_lines (acc @ [l]) ls)"

lemma kept_suffix: "\<exists>pre. pre @ kept_lines acc ls = acc @ ls"
proof (induction acc ls rule: kept_lines.induct)
  case (2 acc l ls)
  show ?case
  proof (cases "length (concat acc) + length l > SM_SIZE")
    case True
    with 2(1) obtain pre where "pre @ kept_lines [l] ls = [l] @ ls" by blast
    then have "(acc @ pre) @ kept_lines acc (l # ls) = acc @ l # ls" using True by simp
    then show ?thesis by blast
  next
    case False
    with 2(2) show ?thesis by simp
  qed
qed simp

lemma log_lines_kept:
  assumes "sm_ok m" "\<forall>l \<in> set ls. line_ok l" "take (sm_offset m) (sm_buf m) = concat acc"
  shows "\<exists>m'. log_lines ls m = Some m' \<and> sm_ok m' \<and> sm_filp m' = sm_filp m
    \<and> take (sm_offset m') (sm_buf m') = concat (kept_lines acc ls)"
  using assms
proof (induction ls arbitrary: m acc)
  case (Cons l ls)
  have off: "sm_offset m = length (concat acc)"
    using arg_cong [OF Cons.prems(3), of length] Cons.prems(1) by (simp add: sm_ok_def)
  obtain m1 where m1: "log_line l m = Some m1" "sm_ok m1" "sm_filp m1 = sm_filp m"
    "take (sm_offset m1) (sm_buf m1) = (if length (concat acc) + length l > SM_SIZE then concat [l]
       else concat (acc @ [l]))"
    using log_line_step [OF Cons.prems(1), of l] Cons.prems(2,3) off
    by (cases "length (concat acc) + length l > SM_SIZE") auto
  show ?case
    using Cons.IH [OF m1(2), of "if length (concat acc) + length l > SM_SIZE then [l] else acc @ [l]"]
      Cons.prems(2) m1 by (auto split: if_splits)
qed auto



end
