(* ===== verification/Core_State.thy ===== *)
theory Core_State
  imports Transition Status_Monitor
begin

text \<open>
  The state of the cpufreq core (\<open>drivers/cpufreq/cpufreq.c\<close>) around the policies: the registered
  driver, the list of governors, the semaphore of each policy, the notifier lists, the governor that
  a removed CPU had, and the reference counts. A governor pointer is its name, \<open>ce_gov\<close> the structure
  it points to. A semaphore that cannot be taken by this thread of control, a completion that nothing
  has signalled, a null pointer and \<open>BUG\<close> are \<open>None\<close>: the call does not return.
\<close>

section \<open>Drivers and governors\<close>

record ('g, 'd) governor =
  gv_max_latency :: u32
  gv_op :: "('g, 'd) gov_op"
  gv_store_setspeed :: "(nat \<Rightarrow> u32 \<Rightarrow> 'g \<times> 'd sys \<Rightarrow> (int \<times> 'g \<times> 'd sys) option) option"
  gv_show_setspeed :: "(nat \<Rightarrow> 'g \<times> 'd sys \<Rightarrow> string \<times> 'g \<times> 'd sys) option"

record 'd cpufreq_driver =
  dr_name :: string
  dr_sticky :: bool                  \<comment> \<open>\<open>CPUFREQ_STICKY\<close>\<close>
  dr_const_loops :: bool             \<comment> \<open>\<open>CPUFREQ_CONST_LOOPS\<close>\<close>
  dr_init :: "(nat \<Rightarrow> 'd sys \<Rightarrow> (int \<times> 'd sys) option) option"
  dr_verify :: "(cpufreq_policy \<Rightarrow> 'd sys \<Rightarrow> (int \<times> cpufreq_policy) option) option"
  dr_setpolicy :: "(cpufreq_policy \<Rightarrow> 'd sys \<Rightarrow> (int \<times> 'd sys) option) option"
  dr_target :: "'d target_op option"
  dr_get :: "(cpuid \<Rightarrow> 'd sys \<Rightarrow> u32 option) option"
  dr_getavg :: "(nat \<Rightarrow> cpuid \<Rightarrow> 'd sys \<Rightarrow> int option) option"
  dr_exit :: "(nat \<Rightarrow> 'd sys \<Rightarrow> 'd sys option) option"
  dr_suspend :: "(nat \<Rightarrow> 'd sys \<Rightarrow> (int \<times> 'd sys) option) option"
  dr_resume :: "(nat \<Rightarrow> 'd sys \<Rightarrow> (int \<times> 'd sys) option) option"
  dr_bios_limit :: "(cpuid \<Rightarrow> 'd sys \<Rightarrow> int \<times> u32) option"
  dr_attr :: "string list"

datatype policy_event = ADJUST | INCOMPATIBLE | NOTIFY | START_POLICY

text \<open>What the core calls outside its source: the governors' and notifiers' code, modules, the notifier
  lists, allocation, and the results of sysfs and kobject calls.\<close>

record ('g, 'd) core_env =
  ce_scale :: scale_fun
  ce_gov :: "string \<Rightarrow> ('g, 'd) governor"
  ce_module_get :: "string \<Rightarrow> bool"                 \<comment> \<open>\<open>try_module_get(governor->owner)\<close>\<close>
  ce_driver_module :: bool                          \<comment> \<open>\<open>try_module_get(cpufreq_driver->owner)\<close>\<close>
  ce_request_module :: "string \<Rightarrow> int \<times> string list" \<comment> \<open>and the governors the module registers\<close>
  ce_policy_chain :: "nat list \<Rightarrow> policy_event \<Rightarrow> cpufreq_policy \<Rightarrow> 'd sys \<Rightarrow> (cpufreq_policy \<times> 'd sys) option"
  ce_chain_register :: "nat \<Rightarrow> nat list \<Rightarrow> int \<times> nat list"
  ce_chain_unregister :: "nat \<Rightarrow> nat list \<Rightarrow> int \<times> nat list"
  ce_default_governor :: string                     \<comment> \<open>\<open>CPUFREQ_DEFAULT_GOVERNOR\<close>\<close>
  ce_gov_performance :: "string option"             \<comment> \<open>with \<open>CONFIG_CPU_FREQ_GOV_PERFORMANCE\<close>\<close>
  ce_run_thread_number :: int
  ce_msecs_to_jiffies :: "u32 \<Rightarrow> u32"
  ce_alloc :: "nat option"                          \<comment> \<open>the allocation that fails: policy, \<open>cpus\<close>, \<open>related_cpus\<close>\<close>
  ce_kobject_rc :: int
  ce_file_rc :: "string \<Rightarrow> int"
  ce_link_rc :: "cpuid \<Rightarrow> int"
  ce_present :: "cpuid list"
  ce_boot_cpu :: cpuid
  ce_sysdev_register_rc :: int

datatype sem = Sem_free | Sem_read nat | Sem_write

record ('g, 'd) core =
  csys :: "'d sys"
  gsts :: 'g                                 \<comment> \<open>the variables of the governors\<close>
  the_driver :: "'d cpufreq_driver option"   \<comment> \<open>\<open>cpufreq_driver\<close>\<close>
  gov_list :: "string list"                  \<comment> \<open>\<open>cpufreq_governor_list\<close>\<close>
  saved_gov :: "cpuid \<Rightarrow> string"             \<comment> \<open>\<open>per_cpu(cpufreq_cpu_governor, cpu)\<close>\<close>
  policy_cpu :: "cpuid \<Rightarrow> cpuid option"      \<comment> \<open>\<open>per_cpu(cpufreq_policy_cpu, cpu)\<close>; \<open>None\<close> is -1\<close>
  rwsem :: "cpuid \<Rightarrow> sem"                    \<comment> \<open>\<open>per_cpu(cpu_policy_rwsem, cpu)\<close>\<close>
  gov_refs :: "string \<Rightarrow> int"                \<comment> \<open>module references of the governors\<close>
  policy_notifiers :: "nat list"
  trans_notifiers :: "nat list"
  kobj_done :: "nat \<Rightarrow> nat"                  \<comment> \<open>\<open>policy->kobj_unregister\<close>\<close>
  update_work :: "nat set"                   \<comment> \<open>policies whose \<open>update\<close> work is scheduled\<close>
  kobj_link :: "cpuid \<Rightarrow> nat option"         \<comment> \<open>the \<open>cpufreq\<close> entry of a CPU's directory\<close>
  next_pol :: nat                            \<comment> \<open>the next policy object\<close>
  freed_pols :: "nat set"
  use_pss_or_meminfo :: int
  monitor :: status_monitor
  hotcpu_notifier :: bool
  sysdev_driver :: bool

definition upd_sys :: "('d sys \<Rightarrow> 'd sys) \<Rightarrow> ('g, 'd) core \<Rightarrow> ('g, 'd) core" where
  "upd_sys f c = c\<lparr>csys := f (csys c)\<rparr>"

abbreviation pol :: "('g, 'd) core \<Rightarrow> nat \<Rightarrow> cpufreq_policy" where
  "pol c p \<equiv> policies (csys c) p"

definition set_pol :: "nat \<Rightarrow> (cpufreq_policy \<Rightarrow> cpufreq_policy) \<Rightarrow> ('g, 'd) core \<Rightarrow> ('g, 'd) core" where
  "set_pol p f c = upd_sys (\<lambda>s. s\<lparr>policies := (policies s)(p := f (policies s p))\<rparr>) c"

section \<open>References\<close>

definition core_get :: "cpuid \<Rightarrow> ('g, 'd) core \<Rightarrow> nat option \<times> ('g, 'd) core" where
  "core_get cpu c = (let (r, s) = cpufreq_cpu_get cpu (csys c) in (r, c\<lparr>csys := s\<rparr>))"

text \<open>\<open>kobject_put\<close>: the last reference takes the policy's directory away and runs
  \<open>cpufreq_sysfs_release\<close>, which signals the completion.\<close>

definition cpufreq_sysfs_release :: "nat \<Rightarrow> ('g, 'd) core \<Rightarrow> ('g, 'd) core" where
  "cpufreq_sysfs_release p c = c\<lparr>kobj_done := (kobj_done c)(p := kobj_done c p + 1)\<rparr>"

definition kobject_put :: "nat \<Rightarrow> ('g, 'd) core \<Rightarrow> ('g, 'd) core" where
  "kobject_put p c =
     (let c' = upd_sys (cpufreq_cpu_put p) c in
      if pol_refs (csys c) p = 1
      then cpufreq_sysfs_release p (c'\<lparr>kobj_link := (kobj_link c)(pol_cpu (pol c p) := None)\<rparr>)
      else c')"

definition wait_for_completion :: "nat \<Rightarrow> ('g, 'd) core \<Rightarrow> ('g, 'd) core option" where
  "wait_for_completion p c =
     (if kobj_done c p = 0 then None else Some (c\<lparr>kobj_done := (kobj_done c)(p := kobj_done c p - 1)\<rparr>))"

section \<open>The semaphores\<close>

definition set_sem :: "cpuid \<Rightarrow> sem \<Rightarrow> ('g, 'd) core \<Rightarrow> ('g, 'd) core" where
  "set_sem k v c = c\<lparr>rwsem := (rwsem c)(k := v)\<rparr>"

definition down_read :: "cpuid \<Rightarrow> ('g, 'd) core \<Rightarrow> ('g, 'd) core option" where
  "down_read k c = (case rwsem c k of
     Sem_free \<Rightarrow> Some (set_sem k (Sem_read 1) c)
   | Sem_read n \<Rightarrow> Some (set_sem k (Sem_read (n + 1)) c)
   | Sem_write \<Rightarrow> None)"

definition down_write :: "cpuid \<Rightarrow> ('g, 'd) core \<Rightarrow> ('g, 'd) core option" where
  "down_write k c = (if rwsem c k = Sem_free then Some (set_sem k Sem_write c) else None)"

definition up_read :: "cpuid \<Rightarrow> ('g, 'd) core \<Rightarrow> ('g, 'd) core option" where
  "up_read k c = (case rwsem c k of
     Sem_read n \<Rightarrow> Some (set_sem k (if n \<le> 1 then Sem_free else Sem_read (n - 1)) c)
   | _ \<Rightarrow> None)"

definition up_write :: "cpuid \<Rightarrow> ('g, 'd) core \<Rightarrow> ('g, 'd) core option" where
  "up_write k c = (if rwsem c k = Sem_write then Some (set_sem k Sem_free c) else None)"

definition lock_policy_rwsem_read :: "cpuid \<Rightarrow> ('g, 'd) core \<Rightarrow> (int \<times> ('g, 'd) core) option" where
  "lock_policy_rwsem_read cpu c = do {
     k \<leftarrow> policy_cpu c cpu;
     c \<leftarrow> down_read k c;
     if \<not> online (csys c) cpu then do { c \<leftarrow> up_read k c; Some (- 1, c) } else Some (0, c)
   }"

definition lock_policy_rwsem_write :: "cpuid \<Rightarrow> ('g, 'd) core \<Rightarrow> (int \<times> ('g, 'd) core) option" where
  "lock_policy_rwsem_write cpu c = do {
     k \<leftarrow> policy_cpu c cpu;
     c \<leftarrow> down_write k c;
     if \<not> online (csys c) cpu then do { c \<leftarrow> up_write k c; Some (- 1, c) } else Some (0, c)
   }"

definition unlock_policy_rwsem_read :: "cpuid \<Rightarrow> ('g, 'd) core \<Rightarrow> ('g, 'd) core option" where
  "unlock_policy_rwsem_read cpu c = do { k \<leftarrow> policy_cpu c cpu; up_read k c }"

definition unlock_policy_rwsem_write :: "cpuid \<Rightarrow> ('g, 'd) core \<Rightarrow> ('g, 'd) core option" where
  "unlock_policy_rwsem_write cpu c = do { k \<leftarrow> policy_cpu c cpu; up_write k c }"

section \<open>The governor list\<close>

fun find_governor_in :: "string \<Rightarrow> string list \<Rightarrow> string option" where
  "find_governor_in str [] = None"
| "find_governor_in str (t # ts) = (if strnicmp_eq str t then Some t else find_governor_in str ts)"

definition find_governor :: "string \<Rightarrow> ('g, 'd) core \<Rightarrow> string option" where
  "find_governor str c = find_governor_in str (gov_list c)"

text \<open>\<open>list_add\<close> puts the new governor at the head.\<close>

definition cpufreq_register_governor :: "string option \<Rightarrow> ('g, 'd) core \<Rightarrow> int \<times> ('g, 'd) core" where
  "cpufreq_register_governor governor c =
     (case governor of
        None \<Rightarrow> (- EINVAL, c)
      | Some g \<Rightarrow> if find_governor g c = None then (0, c\<lparr>gov_list := g # gov_list c\<rparr>) else (- EBUSY, c))"

definition cpufreq_unregister_governor ::
  "('g, 'd) core_env \<Rightarrow> string option \<Rightarrow> ('g, 'd) core \<Rightarrow> ('g, 'd) core" where
  "cpufreq_unregister_governor env governor c =
     (case governor of
        None \<Rightarrow> c
      | Some g \<Rightarrow> c\<lparr>saved_gov := (\<lambda>cpu.
            if cpu \<in> set (ce_present env) \<and> \<not> online (csys c) cpu \<and> saved_gov c cpu = g then [] else saved_gov c cpu),
          gov_list := remove1 g (gov_list c)\<rparr>)"

text \<open>The new values of \<open>*policy\<close> and \<open>*governor\<close> are in the result; a requested module registers its
  governors while it loads.\<close>

definition load_governors :: "string list \<Rightarrow> ('g, 'd) core \<Rightarrow> ('g, 'd) core" where
  "load_governors gs c = fold (\<lambda>g c. snd (cpufreq_register_governor (Some g) c)) gs c"

abbreviation CPUFREQ_POLICY_POWERSAVE :: u32 where "CPUFREQ_POLICY_POWERSAVE \<equiv> 1"
abbreviation CPUFREQ_POLICY_PERFORMANCE :: u32 where "CPUFREQ_POLICY_PERFORMANCE \<equiv> 2"

definition cpufreq_parse_governor ::
  "('g, 'd) core_env \<Rightarrow> string \<Rightarrow> u32 \<Rightarrow> string option \<Rightarrow> ('g, 'd) core
   \<Rightarrow> int \<times> u32 \<times> string option \<times> ('g, 'd) core" where
  "cpufreq_parse_governor env str pp gg c =
     (case the_driver c of
        None \<Rightarrow> (- EINVAL, pp, gg, c)
      | Some d \<Rightarrow>
          if dr_setpolicy d \<noteq> None then
            (if strnicmp_eq str ''performance'' then (0, CPUFREQ_POLICY_PERFORMANCE, gg, c)
             else if strnicmp_eq str ''powersave'' then (0, CPUFREQ_POLICY_POWERSAVE, gg, c)
             else (- EINVAL, pp, gg, c))
          else if dr_target d \<noteq> None then
            (case find_governor str c of
               Some t \<Rightarrow> (0, pp, Some t, c)
             | None \<Rightarrow>
                 let (ret, gs) = ce_request_module env str;
                     c = load_governors gs c;
                     t = (if ret = 0 then find_governor str c else None)
                 in (case t of Some t \<Rightarrow> (0, pp, Some t, c) | None \<Rightarrow> (- EINVAL, pp, gg, c)))
          else (- EINVAL, pp, gg, c))"

section \<open>The notifier lists\<close>

datatype notifier_list = TRANSITION_NOTIFIER | POLICY_NOTIFIER | OTHER_LIST

definition cpufreq_register_notifier ::
  "('g, 'd) core_env \<Rightarrow> nat \<Rightarrow> notifier_list \<Rightarrow> ('g, 'd) core \<Rightarrow> int \<times> ('g, 'd) core" where
  "cpufreq_register_notifier env nb l c = (case l of
     TRANSITION_NOTIFIER \<Rightarrow> (let (ret, ns) = ce_chain_register env nb (trans_notifiers c) in (ret, c\<lparr>trans_notifiers := ns\<rparr>))
   | POLICY_NOTIFIER \<Rightarrow> (let (ret, ns) = ce_chain_register env nb (policy_notifiers c) in (ret, c\<lparr>policy_notifiers := ns\<rparr>))
   | OTHER_LIST \<Rightarrow> (- EINVAL, c))"

definition cpufreq_unregister_notifier ::
  "('g, 'd) core_env \<Rightarrow> nat \<Rightarrow> notifier_list \<Rightarrow> ('g, 'd) core \<Rightarrow> int \<times> ('g, 'd) core" where
  "cpufreq_unregister_notifier env nb l c = (case l of
     TRANSITION_NOTIFIER \<Rightarrow> (let (ret, ns) = ce_chain_unregister env nb (trans_notifiers c) in (ret, c\<lparr>trans_notifiers := ns\<rparr>))
   | POLICY_NOTIFIER \<Rightarrow> (let (ret, ns) = ce_chain_unregister env nb (policy_notifiers c) in (ret, c\<lparr>policy_notifiers := ns\<rparr>))
   | OTHER_LIST \<Rightarrow> (- EINVAL, c))"

end
