(* ===== verification/Core_Policy.thy ===== *)
theory Core_Policy
  imports Core_State
begin

text \<open>
  The policies of the core: events to the governor, a new policy checked and put in force
  (\<open>__cpufreq_set_policy\<close>), the re-evaluation of a policy, the current frequency as the hardware reports
  it, requests from outside, and the suspend and resume of the boot CPU. Messages are left out.
\<close>

section \<open>Governor events\<close>

definition set_governor :: "nat \<Rightarrow> string option \<Rightarrow> ('g, 'd) core \<Rightarrow> ('g, 'd) core" where
  "set_governor p g c = set_pol p (\<lambda>q. q\<lparr>pol_governor := g\<rparr>) c"

definition gov_get :: "string \<Rightarrow> ('g, 'd) core \<Rightarrow> ('g, 'd) core" where
  "gov_get g c = c\<lparr>gov_refs := (gov_refs c)(g := gov_refs c g + 1)\<rparr>"

definition gov_put :: "string \<Rightarrow> ('g, 'd) core \<Rightarrow> ('g, 'd) core" where
  "gov_put g c = c\<lparr>gov_refs := (gov_refs c)(g := gov_refs c g - 1)\<rparr>"

text \<open>The latency check; \<open>None\<close> inside is its \<open>return -EINVAL\<close>.\<close>

definition latency_check :: "('g, 'd) core_env \<Rightarrow> nat \<Rightarrow> ('g, 'd) core \<Rightarrow> ('g, 'd) core option option" where
  "latency_check env p c = do {
     g \<leftarrow> pol_governor (pol c p);
     let limit = gv_max_latency (ce_gov env g);
     Some (if limit \<noteq> 0 \<and> transition_latency (pol c p) > limit
           then (case ce_gov_performance env of None \<Rightarrow> None | Some h \<Rightarrow> Some (set_governor p (Some h) c))
           else Some c)
   }"

definition cpufreq_governor :: "('g, 'd) core_env \<Rightarrow> nat \<Rightarrow> gov_event \<Rightarrow> ('g, 'd) core \<Rightarrow> (int \<times> ('g, 'd) core) option" where
  "cpufreq_governor env p event c = do {
     l \<leftarrow> latency_check env p c;
     case l of
       None \<Rightarrow> Some (- EINVAL, c)
     | Some c \<Rightarrow> do {
         g \<leftarrow> pol_governor (pol c p);
         if \<not> ce_module_get env g then Some (- EINVAL, c)
         else do {
           let c = gov_get g c;
           (ret, gs, s) \<leftarrow> gv_op (ce_gov env g) p event (gsts c, csys c);
           let c = c\<lparr>gsts := gs, csys := s\<rparr>;
           g \<leftarrow> pol_governor (pol c p);
           let c = (if event \<noteq> GOV_START \<or> ret \<noteq> 0 then gov_put g c else c);
           let c = (if event = GOV_STOP \<and> ret = 0 then gov_put g c else c);
           Some (ret, c)
         }
       }
   }"

section \<open>A new policy\<close>

text \<open>The caller's policy goes through the driver's check and the notifiers; the first error stops it.\<close>

definition driver_verify :: "cpufreq_policy \<Rightarrow> ('g, 'd) core \<Rightarrow> (int \<times> cpufreq_policy) option" where
  "driver_verify policy c = do {
     d \<leftarrow> the_driver c;
     verify \<leftarrow> dr_verify d;
     verify policy (csys c)
   }"

definition policy_chain ::
  "('g, 'd) core_env \<Rightarrow> policy_event \<Rightarrow> cpufreq_policy \<Rightarrow> ('g, 'd) core \<Rightarrow> (cpufreq_policy \<times> ('g, 'd) core) option" where
  "policy_chain env e policy c = do {
     (policy, s) \<leftarrow> ce_policy_chain env (policy_notifiers c) e policy (csys c);
     Some (policy, c\<lparr>csys := s\<rparr>)
   }"

definition check_policy ::
  "('g, 'd) core_env \<Rightarrow> cpufreq_policy \<Rightarrow> ('g, 'd) core \<Rightarrow> (int \<times> cpufreq_policy \<times> ('g, 'd) core) option" where
  "check_policy env policy c = do {
     (ret, policy) \<leftarrow> driver_verify policy c;
     if ret \<noteq> 0 then Some (ret, policy, c)
     else do {
       (policy, c) \<leftarrow> policy_chain env ADJUST policy c;
       (policy, c) \<leftarrow> policy_chain env INCOMPATIBLE policy c;
       (ret, policy) \<leftarrow> driver_verify policy c;
       if ret \<noteq> 0 then Some (ret, policy, c)
       else do {
         (policy, c) \<leftarrow> policy_chain env NOTIFY policy c;
         Some (0, policy, c)
       }
     }
   }"

text \<open>From the old governor to the new one.\<close>

definition switch_governor ::
  "('g, 'd) core_env \<Rightarrow> nat \<Rightarrow> string option \<Rightarrow> ('g, 'd) core \<Rightarrow> (int \<times> ('g, 'd) core) option" where
  "switch_governor env p new c = do {
     let old_gov = pol_governor (pol c p);
     c \<leftarrow> (if old_gov \<noteq> None then map_option snd (cpufreq_governor env p GOV_STOP c) else Some c);
     let c = set_governor p new c;
     (ret, c) \<leftarrow> cpufreq_governor env p GOV_START c;
     if ret \<noteq> 0 then
       (if old_gov \<noteq> None then do {
          (_, c) \<leftarrow> cpufreq_governor env p GOV_START (set_governor p old_gov c);
          Some (- EINVAL, c)
        }
        else Some (- EINVAL, c))
     else Some (0, c)
   }"

definition cpufreq_set_policy ::
  "('g, 'd) core_env \<Rightarrow> nat \<Rightarrow> cpufreq_policy \<Rightarrow> ('g, 'd) core \<Rightarrow> (int \<times> ('g, 'd) core) option" where
  "cpufreq_set_policy env p policy c = do {
     let policy = policy\<lparr>cpuinfo_min := cpuinfo_min (pol c p), cpuinfo_max := cpuinfo_max (pol c p),
       transition_latency := transition_latency (pol c p)\<rparr>;
     if pol_min policy > pol_max (pol c p) \<or> pol_max policy < pol_min (pol c p) then Some (- EINVAL, c)
     else do {
       (ret, policy, c) \<leftarrow> check_policy env policy c;
       if ret \<noteq> 0 then Some (ret, c)
       else do {
         let c = set_pol p (\<lambda>q. q\<lparr>pol_min := pol_min policy, pol_max := pol_max policy\<rparr>) c;
         d \<leftarrow> the_driver c;
         case dr_setpolicy d of
           Some setpolicy \<Rightarrow> do {
             let c = set_pol p (\<lambda>q. q\<lparr>pol_policy := pol_policy policy\<rparr>) c;
             (ret, s) \<leftarrow> setpolicy policy (csys c);
             Some (ret, c\<lparr>csys := s\<rparr>)
           }
         | None \<Rightarrow> do {
             (ret, c) \<leftarrow> (if pol_governor policy \<noteq> pol_governor (pol c p)
                         then switch_governor env p (pol_governor policy) c else Some (0, c));
             if ret \<noteq> 0 then Some (ret, c)
             else do {
               (_, c) \<leftarrow> cpufreq_governor env p GOV_LIMITS c;
               Some (0, c)
             }
           }
       }
     }
   }"

definition cpufreq_get_policy :: "cpuid \<Rightarrow> ('g, 'd) core \<Rightarrow> (int \<times> cpufreq_policy option) \<times> ('g, 'd) core" where
  "cpufreq_get_policy cpu c =
     (case core_get cpu c of
        (None, c) \<Rightarrow> ((- EINVAL, None), c)
      | (Some p, c) \<Rightarrow> ((0, Some (pol c p)), kobject_put p c))"

section \<open>The current frequency\<close>

definition cpufreq_out_of_sync ::
  "('g, 'd) core_env \<Rightarrow> cpuid \<Rightarrow> u32 \<Rightarrow> u32 \<Rightarrow> ('g, 'd) core \<Rightarrow> ('g, 'd) core option" where
  "cpufreq_out_of_sync env cpu old_freq new_freq c = do {
     d \<leftarrow> the_driver c;
     let fs = cpufreq_notify_transition (ce_scale env) (dr_const_loops d) PRECHANGE
       (\<lparr>fr_cpu = cpu, fr_old = old_freq, fr_new = new_freq\<rparr>, csys c);
     let (fr, s) = cpufreq_notify_transition (ce_scale env) (dr_const_loops d) POSTCHANGE fs;
     Some (c\<lparr>csys := s\<rparr>)
   }"

definition cpufreq_quick_get :: "cpuid \<Rightarrow> ('g, 'd) core \<Rightarrow> u32 \<times> ('g, 'd) core" where
  "cpufreq_quick_get cpu c =
     (case core_get cpu c of
        (None, c) \<Rightarrow> (0, c)
      | (Some p, c) \<Rightarrow> (pol_cur (pol c p), kobject_put p c))"

text \<open>\<open>__cpufreq_get\<close>.\<close>

definition cpufreq_get_locked :: "('g, 'd) core_env \<Rightarrow> cpuid \<Rightarrow> ('g, 'd) core \<Rightarrow> (u32 \<times> ('g, 'd) core) option" where
  "cpufreq_get_locked env cpu c = do {
     d \<leftarrow> the_driver c;
     case dr_get d of
       None \<Rightarrow> Some (0, c)
     | Some get \<Rightarrow> do {
         ret_freq \<leftarrow> get cpu (csys c);
         if ret_freq = 0 then Some (ret_freq, c)
         else do {
           p \<leftarrow> cpu_data (csys c) cpu;
           if pol_cur (pol c p) \<noteq> 0 \<and> \<not> dr_const_loops d \<and> ret_freq \<noteq> pol_cur (pol c p)
           then do {
             c \<leftarrow> cpufreq_out_of_sync env cpu (pol_cur (pol c p)) ret_freq c;
             Some (ret_freq, c\<lparr>update_work := insert p (update_work c)\<rparr>)
           }
           else Some (ret_freq, c)
         }
       }
   }"

definition cpufreq_get :: "('g, 'd) core_env \<Rightarrow> cpuid \<Rightarrow> ('g, 'd) core \<Rightarrow> (u32 \<times> ('g, 'd) core) option" where
  "cpufreq_get env cpu c =
     (case core_get cpu c of
        (None, c) \<Rightarrow> Some (0, c)
      | (Some p, c) \<Rightarrow> do {
          (l, c) \<leftarrow> lock_policy_rwsem_read cpu c;
          if l \<noteq> 0 then Some (0, kobject_put p c)
          else do {
            (f, c) \<leftarrow> cpufreq_get_locked env cpu c;
            c \<leftarrow> unlock_policy_rwsem_read cpu c;
            Some (f, kobject_put p c)
          }
        })"

section \<open>The re-evaluation of a policy\<close>

text \<open>The policy made of the user's choices.\<close>

definition user_choice :: "cpufreq_policy \<Rightarrow> cpufreq_policy" where
  "user_choice q = q\<lparr>pol_min := user_min q, pol_max := user_max q, pol_policy := user_policy q,
     pol_governor := user_governor q\<rparr>"

text \<open>The frequency the driver reports, and what the core does with it.\<close>

definition resync ::
  "('g, 'd) core_env \<Rightarrow> cpuid \<Rightarrow> nat \<Rightarrow> cpufreq_policy \<Rightarrow> ('g, 'd) core \<Rightarrow> (cpufreq_policy \<times> ('g, 'd) core) option" where
  "resync env cpu p policy c = do {
     d \<leftarrow> the_driver c;
     case dr_get d of
       None \<Rightarrow> Some (policy, c)
     | Some get \<Rightarrow> do {
         cur \<leftarrow> get cpu (csys c);
         let policy = policy\<lparr>pol_cur := cur\<rparr>;
         if pol_cur (pol c p) = 0 then Some (policy, set_pol p (\<lambda>q. q\<lparr>pol_cur := cur\<rparr>) c)
         else if pol_cur (pol c p) \<noteq> cur then do {
           c \<leftarrow> cpufreq_out_of_sync env cpu (pol_cur (pol c p)) cur c;
           Some (policy, c)
         }
         else Some (policy, c)
       }
   }"

definition cpufreq_update_policy :: "('g, 'd) core_env \<Rightarrow> cpuid \<Rightarrow> ('g, 'd) core \<Rightarrow> (int \<times> ('g, 'd) core) option" where
  "cpufreq_update_policy env cpu c =
     (case core_get cpu c of
        (None, c) \<Rightarrow> Some (- ENODEV, c)
      | (Some p, c) \<Rightarrow> do {
          (l, c) \<leftarrow> lock_policy_rwsem_write cpu c;
          if l \<noteq> 0 then Some (- EINVAL, kobject_put p c)
          else do {
            (policy, c) \<leftarrow> resync env cpu p (user_choice (pol c p)) c;
            (ret, c) \<leftarrow> cpufreq_set_policy env p policy c;
            c \<leftarrow> unlock_policy_rwsem_write cpu c;
            Some (ret, kobject_put p c)
          }
        })"

definition handle_update :: "('g, 'd) core_env \<Rightarrow> nat \<Rightarrow> ('g, 'd) core \<Rightarrow> ('g, 'd) core option" where
  "handle_update env p c =
     map_option snd (cpufreq_update_policy env (pol_cpu (pol c p)) (c\<lparr>update_work := update_work c - {p}\<rparr>))"

section \<open>Requests from outside\<close>

definition cpufreq_driver_target ::
  "nat \<Rightarrow> u32 \<Rightarrow> relation \<Rightarrow> ('g, 'd) core \<Rightarrow> (int \<times> ('g, 'd) core) option" where
  "cpufreq_driver_target p0 target_freq relation c =
     (case core_get (pol_cpu (pol c p0)) c of
        (None, c) \<Rightarrow> Some (- EINVAL, c)
      | (Some p, c) \<Rightarrow> do {
          (l, c) \<leftarrow> lock_policy_rwsem_write (pol_cpu (pol c p)) c;
          if l \<noteq> 0 then Some (- EINVAL, kobject_put p c)
          else do {
            d \<leftarrow> the_driver c;
            (ret, s) \<leftarrow> cpufreq_driver_target_locked (dr_target d) p target_freq relation (csys c);
            let c = c\<lparr>csys := s\<rparr>;
            c \<leftarrow> unlock_policy_rwsem_write (pol_cpu (pol c p)) c;
            Some (ret, kobject_put p c)
          }
        })"

definition cpufreq_driver_getavg :: "nat \<Rightarrow> cpuid \<Rightarrow> ('g, 'd) core \<Rightarrow> (int \<times> ('g, 'd) core) option" where
  "cpufreq_driver_getavg p0 cpu c =
     (case core_get (pol_cpu (pol c p0)) c of
        (None, c) \<Rightarrow> Some (- EINVAL, c)
      | (Some p, c) \<Rightarrow> do {
          d \<leftarrow> the_driver c;
          ret \<leftarrow> (case dr_getavg d of
             Some getavg \<Rightarrow> if online (csys c) cpu then getavg p cpu (csys c) else Some 0
           | None \<Rightarrow> Some 0);
          Some (ret, kobject_put p c)
        })"

section \<open>Suspend and resume of the boot CPU\<close>

definition cpufreq_bp_suspend :: "('g, 'd) core_env \<Rightarrow> ('g, 'd) core \<Rightarrow> (int \<times> ('g, 'd) core) option" where
  "cpufreq_bp_suspend env c =
     (case core_get (ce_boot_cpu env) c of
        (None, c) \<Rightarrow> Some (0, c)
      | (Some p, c) \<Rightarrow> do {
          d \<leftarrow> the_driver c;
          (ret, s) \<leftarrow> (case dr_suspend d of Some f \<Rightarrow> f p (csys c) | None \<Rightarrow> Some (0, csys c));
          Some (ret, kobject_put p (c\<lparr>csys := s\<rparr>))
        })"

definition cpufreq_bp_resume :: "('g, 'd) core_env \<Rightarrow> ('g, 'd) core \<Rightarrow> ('g, 'd) core option" where
  "cpufreq_bp_resume env c =
     (case core_get (ce_boot_cpu env) c of
        (None, c) \<Rightarrow> Some c
      | (Some p, c) \<Rightarrow> do {
          d \<leftarrow> the_driver c;
          (ret, s) \<leftarrow> (case dr_resume d of Some f \<Rightarrow> f p (csys c) | None \<Rightarrow> Some (0, csys c));
          let c = c\<lparr>csys := s\<rparr>;
          let c = (if ret \<noteq> 0 then c else c\<lparr>update_work := insert p (update_work c)\<rparr>);
          Some (kobject_put p c)
        })"

end
