(* ===== verification/Core_Sysfs.thy ===== *)
theory Core_Sysfs
  imports Core_Policy
begin

text \<open>
  The sysfs files of a policy: what each file prints and what a write does, and the wrappers \<open>show\<close>
  and \<open>store\<close> that take the reference and the semaphore. Files that a driver adds are not here. A result is the text, or the error of a read;
  a write answers with an error or the number of bytes. \<open>policy->cpu\<close> finds the policy again.
\<close>

datatype text_result = Text string | Text_error int

section \<open>Printing\<close>

datatype policy_attr =
    cpuinfo_cur_freq | cpuinfo_min_freq | cpuinfo_max_freq | cpuinfo_transition_latency
  | scaling_min_freq | scaling_max_freq | affected_cpus | related_cpus | scaling_governor
  | scaling_driver | scaling_available_governors | scaling_setspeed | scaling_cur_freq | bios_limit
  | run_thread | use_pss | status_monitor_file

definition default_attrs :: "policy_attr list" where
  "default_attrs = [cpuinfo_min_freq, cpuinfo_max_freq, cpuinfo_transition_latency, scaling_min_freq,
     scaling_max_freq, affected_cpus, related_cpus, scaling_governor, scaling_driver,
     scaling_available_governors, scaling_setspeed, run_thread, use_pss, status_monitor_file]"

definition show_one :: "u32 \<Rightarrow> text_result" where
  "show_one v = Text (sprintf_u v @ [newline])"

definition show_cpuinfo_cur_freq ::
  "('g, 'd) core_env \<Rightarrow> nat \<Rightarrow> ('g, 'd) core \<Rightarrow> (text_result \<times> ('g, 'd) core) option" where
  "show_cpuinfo_cur_freq env p c = do {
     (cur_freq, c) \<leftarrow> cpufreq_get_locked env (pol_cpu (pol c p)) c;
     Some (if cur_freq = 0 then Text ''<unknown>'' else show_one cur_freq, c)
   }"

abbreviation CPUFREQ_NAME_LEN :: int where "CPUFREQ_NAME_LEN \<equiv> 16"
abbreviation PAGE_SIZE :: int where "PAGE_SIZE \<equiv> 4096"

definition show_scaling_governor :: "cpufreq_policy \<Rightarrow> text_result" where
  "show_scaling_governor q =
     (if pol_policy q = CPUFREQ_POLICY_POWERSAVE then Text (''powersave'' @ [newline])
      else if pol_policy q = CPUFREQ_POLICY_PERFORMANCE then Text (''performance'' @ [newline])
      else case pol_governor q of
             Some g \<Rightarrow> Text (scnprintf CPUFREQ_NAME_LEN (g @ [newline]))
           | None \<Rightarrow> Text_error (- EINVAL))"

definition show_scaling_driver :: "('g, 'd) core \<Rightarrow> text_result option" where
  "show_scaling_driver c = do {
     d \<leftarrow> the_driver c;
     Some (Text (scnprintf CPUFREQ_NAME_LEN (dr_name d @ [newline])))
   }"

fun governor_names :: "string list \<Rightarrow> string \<Rightarrow> string" where
  "governor_names [] buf = buf"
| "governor_names (t # ts) buf =
     (if int (length buf) \<ge> PAGE_SIZE - (CPUFREQ_NAME_LEN + 2) then buf
      else governor_names ts (buf @ scnprintf CPUFREQ_NAME_LEN (t @ '' '')))"

definition show_scaling_available_governors :: "('g, 'd) core \<Rightarrow> text_result option" where
  "show_scaling_available_governors c = do {
     d \<leftarrow> the_driver c;
     Some (Text ((if dr_target d = None then ''performance powersave'' else governor_names (gov_list c) [])
       @ [newline]))
   }"

fun cpu_names :: "cpuid list \<Rightarrow> string \<Rightarrow> string" where
  "cpu_names [] buf = buf"
| "cpu_names (cpu # cpus) buf =
     (let buf = (if buf \<noteq> [] then buf @ scnprintf (PAGE_SIZE - int (length buf) - 2) '' '' else buf);
          buf = buf @ scnprintf (PAGE_SIZE - int (length buf) - 2) (sprintf_u (of_nat cpu))
      in if int (length buf) \<ge> PAGE_SIZE - 5 then buf else cpu_names cpus buf)"

definition show_cpus :: "cpuid list \<Rightarrow> text_result" where
  "show_cpus m = Text (cpu_names m [] @ [newline])"

definition show_related_cpus :: "cpufreq_policy \<Rightarrow> text_result" where
  "show_related_cpus q = (if pol_related q = [] then show_cpus (pol_cpus q) else show_cpus (pol_related q))"

definition show_affected_cpus :: "cpufreq_policy \<Rightarrow> text_result" where
  "show_affected_cpus q = show_cpus (pol_cpus q)"

definition show_scaling_setspeed ::
  "('g, 'd) core_env \<Rightarrow> nat \<Rightarrow> ('g, 'd) core \<Rightarrow> text_result \<times> ('g, 'd) core" where
  "show_scaling_setspeed env p c =
     (case Option.bind (pol_governor (pol c p)) (\<lambda>g. gv_show_setspeed (ce_gov env g)) of
        None \<Rightarrow> (Text (''<unsupported>'' @ [newline]), c)
      | Some f \<Rightarrow> (let (t, gs, s) = f p (gsts c, csys c) in (Text t, c\<lparr>gsts := gs, csys := s\<rparr>)))"

definition show_bios_limit :: "nat \<Rightarrow> ('g, 'd) core \<Rightarrow> text_result option" where
  "show_bios_limit p c = do {
     d \<leftarrow> the_driver c;
     Some (case dr_bios_limit d of
             None \<Rightarrow> show_one (cpuinfo_max (pol c p))
           | Some f \<Rightarrow> (let (ret, limit) = f (pol_cpu (pol c p)) (csys c)
                       in if ret = 0 then show_one limit else show_one (cpuinfo_max (pol c p))))
   }"

definition show_run_thread :: "('g, 'd) core_env \<Rightarrow> text_result" where
  "show_run_thread env = Text (sprintf_d (ce_run_thread_number env) @ [newline])"

definition show_use_pss :: "('g, 'd) core \<Rightarrow> text_result" where
  "show_use_pss c = Text (sprintf_d (use_pss_or_meminfo c) @ [newline])"

section \<open>Writing\<close>

datatype limit_file = Min_file | Max_file

definition set_limit :: "limit_file \<Rightarrow> u32 \<Rightarrow> cpufreq_policy \<Rightarrow> cpufreq_policy" where
  "set_limit l v q = (case l of Min_file \<Rightarrow> q\<lparr>pol_min := v\<rparr> | Max_file \<Rightarrow> q\<lparr>pol_max := v\<rparr>)"

definition keep_limit :: "limit_file \<Rightarrow> cpufreq_policy \<Rightarrow> cpufreq_policy" where
  "keep_limit l q = (case l of Min_file \<Rightarrow> q\<lparr>user_min := pol_min q\<rparr> | Max_file \<Rightarrow> q\<lparr>user_max := pol_max q\<rparr>)"

text \<open>\<open>store_scaling_min_freq\<close> and \<open>store_scaling_max_freq\<close>.\<close>

definition store_one ::
  "('g, 'd) core_env \<Rightarrow> limit_file \<Rightarrow> nat \<Rightarrow> string \<Rightarrow> ('g, 'd) core \<Rightarrow> (int \<times> ('g, 'd) core) option" where
  "store_one env l p buf c =
     (case cpufreq_get_policy (pol_cpu (pol c p)) c of
        ((_, None), c) \<Rightarrow> Some (- EINVAL, c)
      | ((_, Some new_policy), c) \<Rightarrow>
          (case sscanf_u buf of
             None \<Rightarrow> Some (- EINVAL, c)
           | Some v \<Rightarrow> do {
               (ret, c) \<leftarrow> cpufreq_set_policy env p (set_limit l v new_policy) c;
               let c = set_pol p (keep_limit l) c;
               Some (if ret \<noteq> 0 then ret else int (length buf), c)
             }))"

definition store_scaling_governor ::
  "('g, 'd) core_env \<Rightarrow> nat \<Rightarrow> string \<Rightarrow> ('g, 'd) core \<Rightarrow> (int \<times> ('g, 'd) core) option" where
  "store_scaling_governor env p buf c =
     (case cpufreq_get_policy (pol_cpu (pol c p)) c of
        ((ret, None), c) \<Rightarrow> Some (ret, c)
      | ((_, Some new_policy), c) \<Rightarrow>
          (case sscanf_s15 buf of
             None \<Rightarrow> Some (- EINVAL, c)
           | Some str_governor \<Rightarrow>
               let (err, pp, gg, c) = cpufreq_parse_governor env str_governor (pol_policy new_policy)
                     (pol_governor new_policy) c
               in if err \<noteq> 0 then Some (- EINVAL, c)
                  else do {
                    (ret, c) \<leftarrow> cpufreq_set_policy env p (new_policy\<lparr>pol_policy := pp, pol_governor := gg\<rparr>) c;
                    let c = set_pol p (\<lambda>q. q\<lparr>user_policy := pol_policy q, user_governor := pol_governor q\<rparr>) c;
                    Some (if ret \<noteq> 0 then ret else int (length buf), c)
                  }))"

definition store_scaling_setspeed ::
  "('g, 'd) core_env \<Rightarrow> nat \<Rightarrow> string \<Rightarrow> ('g, 'd) core \<Rightarrow> (int \<times> ('g, 'd) core) option" where
  "store_scaling_setspeed env p buf c =
     (case Option.bind (pol_governor (pol c p)) (\<lambda>g. gv_store_setspeed (ce_gov env g)) of
        None \<Rightarrow> Some (- EINVAL, c)
      | Some f \<Rightarrow>
          (case sscanf_u buf of
             None \<Rightarrow> Some (- EINVAL, c)
           | Some freq \<Rightarrow> do {
               (_, gs, s) \<leftarrow> f p freq (gsts c, csys c);
               Some (int (length buf), c\<lparr>gsts := gs, csys := s\<rparr>)
             }))"

definition store_use_pss :: "string \<Rightarrow> ('g, 'd) core \<Rightarrow> int \<times> ('g, 'd) core" where
  "store_use_pss buf c =
     (case sscanf_d buf of
        None \<Rightarrow> (- EINVAL, c)
      | Some v \<Rightarrow> (v, c\<lparr>use_pss_or_meminfo := v\<rparr>))"

section \<open>The wrappers\<close>

definition fattr_show ::
  "('g, 'd) core_env \<Rightarrow> policy_attr \<Rightarrow> nat \<Rightarrow> ('g, 'd) core \<Rightarrow> (text_result \<times> ('g, 'd) core) option" where
  "fattr_show env a p c =
     (let q = pol c p; pure = (\<lambda>t. Some (t, c)); opt = (map_option (\<lambda>t. (t, c))) in
      case a of
        cpuinfo_cur_freq \<Rightarrow> show_cpuinfo_cur_freq env p c
      | cpuinfo_min_freq \<Rightarrow> pure (show_one (cpuinfo_min q))
      | cpuinfo_max_freq \<Rightarrow> pure (show_one (cpuinfo_max q))
      | cpuinfo_transition_latency \<Rightarrow> pure (show_one (transition_latency q))
      | scaling_min_freq \<Rightarrow> pure (show_one (pol_min q))
      | scaling_max_freq \<Rightarrow> pure (show_one (pol_max q))
      | scaling_cur_freq \<Rightarrow> pure (show_one (pol_cur q))
      | affected_cpus \<Rightarrow> pure (show_affected_cpus q)
      | related_cpus \<Rightarrow> pure (show_related_cpus q)
      | scaling_governor \<Rightarrow> pure (show_scaling_governor q)
      | scaling_driver \<Rightarrow> opt (show_scaling_driver c)
      | scaling_available_governors \<Rightarrow> opt (show_scaling_available_governors c)
      | scaling_setspeed \<Rightarrow> Some (show_scaling_setspeed env p c)
      | bios_limit \<Rightarrow> opt (show_bios_limit p c)
      | run_thread \<Rightarrow> pure (show_run_thread env)
      | use_pss \<Rightarrow> pure (show_use_pss c)
      | status_monitor_file \<Rightarrow> pure (Text show_status_monitor))"

definition fattr_store ::
  "('g, 'd) core_env \<Rightarrow> policy_attr \<Rightarrow> nat \<Rightarrow> string \<Rightarrow> ('g, 'd) core \<Rightarrow> (int \<times> ('g, 'd) core) option" where
  "fattr_store env a p buf c = (case a of
        scaling_min_freq \<Rightarrow> store_one env Min_file p buf c
      | scaling_max_freq \<Rightarrow> store_one env Max_file p buf c
      | scaling_governor \<Rightarrow> store_scaling_governor env p buf c
      | scaling_setspeed \<Rightarrow> store_scaling_setspeed env p buf c
      | use_pss \<Rightarrow> Some (store_use_pss buf c)
      | status_monitor_file \<Rightarrow>
          map_option (\<lambda>(r, m). (r, c\<lparr>monitor := m\<rparr>)) (store_status_monitor (ce_msecs_to_jiffies env) buf (monitor c))
      | _ \<Rightarrow> Some (- EIO, c))"

definition cpufreq_show ::
  "('g, 'd) core_env \<Rightarrow> policy_attr \<Rightarrow> nat \<Rightarrow> ('g, 'd) core \<Rightarrow> (text_result \<times> ('g, 'd) core) option" where
  "cpufreq_show env a p0 c =
     (case core_get (pol_cpu (pol c p0)) c of
        (None, c) \<Rightarrow> Some (Text_error (- EINVAL), c)
      | (Some p, c) \<Rightarrow> do {
          (l, c) \<leftarrow> lock_policy_rwsem_read (pol_cpu (pol c p)) c;
          if l < 0 then Some (Text_error (- EINVAL), kobject_put p c)
          else do {
            (ret, c) \<leftarrow> fattr_show env a p c;
            c \<leftarrow> unlock_policy_rwsem_read (pol_cpu (pol c p)) c;
            Some (ret, kobject_put p c)
          }
        })"

definition cpufreq_store ::
  "('g, 'd) core_env \<Rightarrow> policy_attr \<Rightarrow> nat \<Rightarrow> string \<Rightarrow> ('g, 'd) core \<Rightarrow> (int \<times> ('g, 'd) core) option" where
  "cpufreq_store env a p0 buf c =
     (case core_get (pol_cpu (pol c p0)) c of
        (None, c) \<Rightarrow> Some (- EINVAL, c)
      | (Some p, c) \<Rightarrow> do {
          (l, c) \<leftarrow> lock_policy_rwsem_write (pol_cpu (pol c p)) c;
          if l < 0 then Some (- EINVAL, kobject_put p c)
          else do {
            (ret, c) \<leftarrow> fattr_store env a p buf c;
            c \<leftarrow> unlock_policy_rwsem_write (pol_cpu (pol c p)) c;
            Some (ret, kobject_put p c)
          }
        })"

end
