(* ===== verification/Core_Hotplug.thy ===== *)
theory Core_Hotplug
  imports Core_Sysfs
begin

text \<open>
  CPUs that come and go: \<open>cpufreq_add_dev\<close>, \<open>__cpufreq_remove_dev\<close> and the hotplug callback, and the
  registration of a driver. Policy objects are numbered in the order they are allocated; a free is
  recorded in \<open>freed_pols\<close>. \<open>sysdev_driver_register\<close> and its reverse call \<open>add\<close> and \<open>remove\<close> for every
  present CPU. The removal of a policy's own CPU calls itself once more after the next CPU has taken
  over: it runs on fuel.
\<close>

section \<open>Adding a CPU\<close>

definition zero_policy :: cpufreq_policy where
  "zero_policy = \<lparr>pol_cpu = 0, pol_cpus = [], pol_related = [], pol_min = 0, pol_max = 0, pol_cur = 0,
     cpuinfo_min = 0, cpuinfo_max = 0, transition_latency = 0, pol_policy = 0, pol_governor = None,
     user_min = 0, user_max = 0, user_policy = 0, user_governor = None\<rparr>"

definition set_cpu_data :: "cpuid \<Rightarrow> nat option \<Rightarrow> ('g, 'd) core \<Rightarrow> ('g, 'd) core" where
  "set_cpu_data j v c = upd_sys (\<lambda>s. s\<lparr>cpu_data := (cpu_data s)(j := v)\<rparr>) c"

definition driver_exit :: "nat \<Rightarrow> ('g, 'd) core \<Rightarrow> ('g, 'd) core option" where
  "driver_exit p c = do {
     d \<leftarrow> the_driver c;
     case dr_exit d of
       None \<Rightarrow> Some c
     | Some f \<Rightarrow> do { s \<leftarrow> f p (csys c); Some (c\<lparr>csys := s\<rparr>) }
   }"

text \<open>Joining the policy of another CPU of the mask.\<close>

definition join_policy ::
  "('g, 'd) core_env \<Rightarrow> cpuid \<Rightarrow> nat \<Rightarrow> nat \<Rightarrow> ('g, 'd) core \<Rightarrow> (int \<times> ('g, 'd) core) option" where
  "join_policy env cpu p managed c = do {
     c \<leftarrow> unlock_policy_rwsem_write cpu c;
     let c = c\<lparr>policy_cpu := (policy_cpu c)(cpu := Some (pol_cpu (pol c managed)))\<rparr>;
     (l, c) \<leftarrow> lock_policy_rwsem_write cpu c;
     if l < 0 then do {
       c \<leftarrow> driver_exit p c;
       Some (- EBUSY, kobject_put managed c)
     }
     else do {
       let c = set_cpu_data cpu (Some managed) (set_pol managed (\<lambda>q. q\<lparr>pol_cpus := pol_cpus (pol c p)\<rparr>) c);
       let ret = ce_link_rc env cpu;
       let c = (if ret = 0 then c\<lparr>kobj_link := (kobj_link c)(cpu := Some managed)\<rparr> else kobject_put managed c);
       c \<leftarrow> driver_exit p c;
       Some (if ret = 0 then 1 else ret, c)
     }
   }"

fun managed_scan ::
  "('g, 'd) core_env \<Rightarrow> cpuid \<Rightarrow> nat \<Rightarrow> cpuid list \<Rightarrow> ('g, 'd) core \<Rightarrow> (int \<times> ('g, 'd) core) option" where
  "managed_scan env cpu p [] c = Some (0, c)"
| "managed_scan env cpu p (j # js) c =
     (if cpu = j then managed_scan env cpu p js c
      else case core_get j c of
             (None, c) \<Rightarrow> managed_scan env cpu p js c
           | (Some managed, c) \<Rightarrow> join_policy env cpu p managed c)"

definition cpufreq_add_dev_policy ::
  "('g, 'd) core_env \<Rightarrow> cpuid \<Rightarrow> nat \<Rightarrow> ('g, 'd) core \<Rightarrow> (int \<times> ('g, 'd) core) option" where
  "cpufreq_add_dev_policy env cpu p c =
     (let c = (case find_governor (saved_gov c cpu) c of Some g \<Rightarrow> set_governor p (Some g) c | None \<Rightarrow> c)
      in managed_scan env cpu p (pol_cpus (pol c p)) c)"

fun symlink_scan ::
  "('g, 'd) core_env \<Rightarrow> cpuid \<Rightarrow> nat \<Rightarrow> cpuid list \<Rightarrow> ('g, 'd) core \<Rightarrow> (int \<times> ('g, 'd) core) option" where
  "symlink_scan env cpu p [] c = Some (0, c)"
| "symlink_scan env cpu p (j # js) c =
     (if j = cpu \<or> \<not> online (csys c) j then symlink_scan env cpu p js c
      else
        let (managed, c) = core_get cpu c in
        if ce_link_rc env j \<noteq> 0 then do { m \<leftarrow> managed; Some (ce_link_rc env j, kobject_put m c) }
        else symlink_scan env cpu p js (c\<lparr>kobj_link := (kobj_link c)(j := Some p)\<rparr>))"

definition cpufreq_add_dev_symlink ::
  "('g, 'd) core_env \<Rightarrow> cpuid \<Rightarrow> nat \<Rightarrow> ('g, 'd) core \<Rightarrow> (int \<times> ('g, 'd) core) option" where
  "cpufreq_add_dev_symlink env cpu p c = symlink_scan env cpu p (pol_cpus (pol c p)) c"

text \<open>The files of the policy, and the first error of their creation.\<close>

definition policy_files :: "'d cpufreq_driver \<Rightarrow> string list" where
  "policy_files d = dr_attr d
     @ (if dr_get d \<noteq> None then [''cpuinfo_cur_freq''] else [])
     @ (if dr_target d \<noteq> None then [''scaling_cur_freq''] else [])
     @ (if dr_bios_limit d \<noteq> None then [''bios_limit''] else [])"

definition files_rc :: "('g, 'd) core_env \<Rightarrow> 'd cpufreq_driver \<Rightarrow> int" where
  "files_rc env d = (case filter (\<lambda>f. ce_file_rc env f \<noteq> 0) (policy_files d) of [] \<Rightarrow> 0 | f # _ \<Rightarrow> ce_file_rc env f)"

definition publish_policy :: "nat \<Rightarrow> ('g, 'd) core \<Rightarrow> ('g, 'd) core" where
  "publish_policy p c = fold (\<lambda>j c.
     if online (csys c) j
     then (set_cpu_data j (Some p) c)\<lparr>policy_cpu := (policy_cpu c)(j := Some (pol_cpu (pol c p)))\<rparr> else c)
     (pol_cpus (pol c p)) c"

definition put_and_wait :: "nat \<Rightarrow> ('g, 'd) core \<Rightarrow> ('g, 'd) core option" where
  "put_and_wait p c = wait_for_completion p (kobject_put p c)"

definition cpufreq_add_dev_interface ::
  "('g, 'd) core_env \<Rightarrow> cpuid \<Rightarrow> nat \<Rightarrow> ('g, 'd) core \<Rightarrow> (int \<times> ('g, 'd) core) option" where
  "cpufreq_add_dev_interface env cpu p c = do {
     d \<leftarrow> the_driver c;
     let c = upd_sys (\<lambda>s. s\<lparr>pol_refs := (pol_refs s)(p := 1)\<rparr>) c;
     if ce_kobject_rc env \<noteq> 0 then Some (ce_kobject_rc env, c)
     else do {
       let c = c\<lparr>kobj_link := (kobj_link c)(cpu := Some p)\<rparr>;
       if files_rc env d \<noteq> 0 then do { c \<leftarrow> put_and_wait p c; Some (files_rc env d, c) }
       else do {
         (ret, c) \<leftarrow> cpufreq_add_dev_symlink env cpu p (publish_policy p c);
         if ret \<noteq> 0 then do { c \<leftarrow> put_and_wait p c; Some (ret, c) }
         else do {
           let new_policy = pol c p;
           (ret, c) \<leftarrow> cpufreq_set_policy env p new_policy (set_governor p None c);
           let c = set_pol p (\<lambda>q. q\<lparr>user_policy := pol_policy q, user_governor := pol_governor q\<rparr>) c;
           c \<leftarrow> (if ret \<noteq> 0 then driver_exit p c else Some c);
           Some (ret, c)
         }
       }
     }
   }"

text \<open>The governor of an online CPU that counts the new one among its related CPUs.\<close>

definition sibling_governor :: "cpuid \<Rightarrow> ('g, 'd) core \<Rightarrow> string option" where
  "sibling_governor cpu c =
     (let gs = [g. sibling \<leftarrow> [0..<nr_cpu_ids (csys c)], online (csys c) sibling,
                   cp \<leftarrow> (case cpu_data (csys c) sibling of Some p \<Rightarrow> [pol c p] | None \<Rightarrow> []),
                   g \<leftarrow> (case pol_governor cp of Some g \<Rightarrow> [g] | None \<Rightarrow> []), cpu \<in> set (pol_related cp)]
      in (case gs of [] \<Rightarrow> None | g # _ \<Rightarrow> Some g))"

definition alloc_policy :: "cpuid \<Rightarrow> ('g, 'd) core \<Rightarrow> ('g, 'd) core" where
  "alloc_policy cpu c =
     (set_pol (next_pol c) (\<lambda>_. zero_policy\<lparr>pol_cpu := cpu, pol_cpus := [cpu]\<rparr>) c)
       \<lparr>next_pol := next_pol c + 1, policy_cpu := (policy_cpu c)(cpu := Some cpu),
        kobj_done := (kobj_done c)(next_pol c := 0)\<rparr>"

text \<open>The way out through \<open>err_unlock_policy\<close>.\<close>

definition unlock_and_free :: "int \<Rightarrow> cpuid \<Rightarrow> nat \<Rightarrow> ('g, 'd) core \<Rightarrow> (int \<times> ('g, 'd) core) option" where
  "unlock_and_free ret cpu p c = do {
     c \<leftarrow> unlock_policy_rwsem_write cpu c;
     Some (ret, c\<lparr>freed_pols := insert p (freed_pols c)\<rparr>)
   }"

definition register_policy ::
  "('g, 'd) core_env \<Rightarrow> cpuid \<Rightarrow> nat \<Rightarrow> ('g, 'd) core \<Rightarrow> (int \<times> ('g, 'd) core) option" where
  "register_policy env cpu p c = do {
     (ret, c) \<leftarrow> cpufreq_add_dev_policy env cpu p c;
     if ret \<noteq> 0 then unlock_and_free (if ret > 0 then 0 else ret) cpu p c
     else do {
       (ret, c) \<leftarrow> cpufreq_add_dev_interface env cpu p c;
       if ret \<noteq> 0 then do {
         let c = fold (\<lambda>j. set_cpu_data j None) (pol_cpus (pol c p)) c;
         c \<leftarrow> put_and_wait p c;
         unlock_and_free ret cpu p c
       }
       else do { c \<leftarrow> unlock_policy_rwsem_write cpu c; Some (0, c) }
     }
   }"

definition cpufreq_add_dev :: "('g, 'd) core_env \<Rightarrow> cpuid \<Rightarrow> ('g, 'd) core \<Rightarrow> (int \<times> ('g, 'd) core) option" where
  "cpufreq_add_dev env cpu c =
     (if \<not> online (csys c) cpu then Some (0, c)
      else case core_get cpu c of
        (Some p, c) \<Rightarrow> Some (0, kobject_put p c)
      | (None, c) \<Rightarrow> do {
          d \<leftarrow> the_driver c;
          if \<not> ce_driver_module env then Some (- EINVAL, c)
          else if ce_alloc env \<noteq> None then Some (- ENOMEM, c)
          else do {
            let p = next_pol c;
            let c = alloc_policy cpu c;
            (_, c) \<leftarrow> lock_policy_rwsem_write cpu c;
            let c = set_governor p (Some (case sibling_governor cpu c of Some g \<Rightarrow> g | None \<Rightarrow> ce_default_governor env)) c;
            init \<leftarrow> dr_init d;
            (ret, s) \<leftarrow> init p (csys c);
            let c = c\<lparr>csys := s\<rparr>;
            if ret \<noteq> 0 then unlock_and_free ret cpu p c
            else do {
              let c = set_pol p (\<lambda>q. q\<lparr>user_min := pol_min q, user_max := pol_max q\<rparr>) c;
              (q, c) \<leftarrow> policy_chain env START_POLICY (pol c p) c;
              register_policy env cpu p (set_pol p (\<lambda>_. q) c)
            }
          }
        })"

section \<open>Removing a CPU\<close>

text \<open>One other CPU of the mask: its link goes while the semaphore is released.\<close>

fun unlink_scan ::
  "cpuid \<Rightarrow> nat \<Rightarrow> string \<Rightarrow> cpuid list \<Rightarrow> ('g, 'd) core \<Rightarrow> ('g, 'd) core option" where
  "unlink_scan cpu p g [] c = Some c"
| "unlink_scan cpu p g (j # js) c =
     (if j = cpu then unlink_scan cpu p g js c
      else do {
        let c = c\<lparr>saved_gov := (saved_gov c)(j := take 16 g)\<rparr>;
        c \<leftarrow> unlock_policy_rwsem_write cpu c;
        let c = c\<lparr>kobj_link := (kobj_link c)(j := None)\<rparr>;
        (_, c) \<leftarrow> lock_policy_rwsem_write cpu c;
        unlink_scan cpu p g js (kobject_put p c)
      })"

text \<open>A CPU that shares the policy of another one.\<close>

definition leave_policy :: "cpuid \<Rightarrow> nat \<Rightarrow> ('g, 'd) core \<Rightarrow> (int \<times> ('g, 'd) core) option" where
  "leave_policy cpu p c = do {
     let c = kobject_put p (set_pol p (\<lambda>q. q\<lparr>pol_cpus := filter (\<lambda>j. j \<noteq> cpu) (pol_cpus q)\<rparr>) c);
     c \<leftarrow> unlock_policy_rwsem_write cpu c;
     Some (0, c\<lparr>kobj_link := (kobj_link c)(cpu := None)\<rparr>)
   }"

text \<open>From the CPU that owns the policy until the policy is at rest: links, governor, last reference.\<close>

definition retire_policy :: "('g, 'd) core_env \<Rightarrow> cpuid \<Rightarrow> nat \<Rightarrow> ('g, 'd) core \<Rightarrow> ('g, 'd) core option" where
  "retire_policy env cpu p c = do {
     g \<leftarrow> pol_governor (pol c p);
     let c = c\<lparr>saved_gov := (saved_gov c)(cpu := take 16 g)\<rparr>;
     let cpus = pol_cpus (pol c p);
     let c = fold (\<lambda>j c. if j = cpu then c else set_cpu_data j None c) (if length cpus > 1 then cpus else []) c;
     c \<leftarrow> (if length cpus > 1 then unlink_scan cpu p g cpus c else Some c);
     d \<leftarrow> the_driver c;
     c \<leftarrow> (if dr_target d \<noteq> None then map_option snd (cpufreq_governor env p GOV_STOP c) else Some c);
     c \<leftarrow> unlock_policy_rwsem_write cpu c;
     c \<leftarrow> put_and_wait p c;
     (_, c) \<leftarrow> lock_policy_rwsem_write cpu c;
     c \<leftarrow> driver_exit p c;
     unlock_policy_rwsem_write cpu c
   }"

fun cpufreq_remove_dev_locked ::
  "('g, 'd) core_env \<Rightarrow> nat \<Rightarrow> cpuid \<Rightarrow> ('g, 'd) core \<Rightarrow> (int \<times> ('g, 'd) core) option" where
  "cpufreq_remove_dev_locked env 0 cpu c = None"
| "cpufreq_remove_dev_locked env (Suc fuel) cpu c =
     (case cpu_data (csys c) cpu of
        None \<Rightarrow> do { c \<leftarrow> unlock_policy_rwsem_write cpu c; Some (- EINVAL, c) }
      | Some p \<Rightarrow>
          let c = set_cpu_data cpu None c in
          if cpu \<noteq> pol_cpu (pol c p) then leave_policy cpu p c
          else do {
            c \<leftarrow> retire_policy env cpu p c;
            c \<leftarrow> (if length (pol_cpus (pol c p)) > 1 then do {
                   let c = set_pol p (\<lambda>q. q\<lparr>pol_cpus := filter (\<lambda>j. j \<noteq> cpu) (pol_cpus q)\<rparr>) c;
                   (_, c) \<leftarrow> cpufreq_add_dev env (hd (pol_cpus (pol c p))) c;
                   (_, c) \<leftarrow> lock_policy_rwsem_write cpu c;
                   (_, c) \<leftarrow> cpufreq_remove_dev_locked env fuel cpu c;
                   Some c
                 } else Some c);
            Some (0, c\<lparr>freed_pols := insert p (freed_pols c)\<rparr>)
          })"

definition cpufreq_remove_dev :: "('g, 'd) core_env \<Rightarrow> nat \<Rightarrow> cpuid \<Rightarrow> ('g, 'd) core \<Rightarrow> (int \<times> ('g, 'd) core) option" where
  "cpufreq_remove_dev env fuel cpu c =
     (if \<not> online (csys c) cpu then Some (0, c)
      else do {
        (l, c) \<leftarrow> lock_policy_rwsem_write cpu c;
        if l \<noteq> 0 then None else cpufreq_remove_dev_locked env fuel cpu c
      })"

section \<open>Hotplug and registration\<close>

datatype cpu_action = CPU_ONLINE | CPU_DOWN_PREPARE | CPU_DOWN_FAILED | CPU_OTHER

definition cpufreq_cpu_callback ::
  "('g, 'd) core_env \<Rightarrow> nat \<Rightarrow> cpu_action \<Rightarrow> cpuid \<Rightarrow> ('g, 'd) core \<Rightarrow> ('g, 'd) core option" where
  "cpufreq_cpu_callback env fuel action cpu c = (case action of
     CPU_ONLINE \<Rightarrow> map_option snd (cpufreq_add_dev env cpu c)
   | CPU_DOWN_PREPARE \<Rightarrow> do {
       (l, c) \<leftarrow> lock_policy_rwsem_write cpu c;
       if l \<noteq> 0 then None else map_option snd (cpufreq_remove_dev_locked env fuel cpu c)
     }
   | CPU_DOWN_FAILED \<Rightarrow> map_option snd (cpufreq_add_dev env cpu c)
   | CPU_OTHER \<Rightarrow> Some c)"

fun each_cpu ::
  "(cpuid \<Rightarrow> ('g, 'd) core \<Rightarrow> (int \<times> ('g, 'd) core) option) \<Rightarrow> cpuid list \<Rightarrow> ('g, 'd) core \<Rightarrow> ('g, 'd) core option" where
  "each_cpu f [] c = Some c"
| "each_cpu f (j # js) c = do { (_, c) \<leftarrow> f j c; each_cpu f js c }"

definition set_driver :: "'d cpufreq_driver option \<Rightarrow> ('g, 'd) core_env \<Rightarrow> ('g, 'd) core \<Rightarrow> ('g, 'd) core" where
  "set_driver d env c = upd_sys (\<lambda>s. s\<lparr>has_driver := (d \<noteq> None \<and> ce_driver_module env)\<rparr>) (c\<lparr>the_driver := d\<rparr>)"

definition cpufreq_register_driver ::
  "('g, 'd) core_env \<Rightarrow> nat \<Rightarrow> 'd cpufreq_driver option \<Rightarrow> ('g, 'd) core \<Rightarrow> (int \<times> ('g, 'd) core) option" where
  "cpufreq_register_driver env fuel driver_data c =
     (case driver_data of
        None \<Rightarrow> Some (- EINVAL, c)
      | Some d \<Rightarrow>
          if dr_verify d = None \<or> dr_init d = None \<or> dr_setpolicy d = None \<and> dr_target d = None
          then Some (- EINVAL, c)
          else if the_driver c \<noteq> None then Some (- EBUSY, c)
          else do {
            let d = d\<lparr>dr_const_loops := dr_const_loops d \<or> dr_setpolicy d \<noteq> None\<rparr>;
            let c = set_driver (Some d) env c;
            if ce_sysdev_register_rc env \<noteq> 0 then Some (ce_sysdev_register_rc env, set_driver None env c)
            else do {
              c \<leftarrow> each_cpu (cpufreq_add_dev env) (ce_present env) (c\<lparr>sysdev_driver := True\<rparr>);
              if \<not> dr_sticky d \<and> (\<forall>i < nr_cpu_ids (csys c). cpu_data (csys c) i = None) then do {
                c \<leftarrow> each_cpu (cpufreq_remove_dev env fuel) (ce_present env) (c\<lparr>sysdev_driver := False\<rparr>);
                Some (- ENODEV, set_driver None env c)
              }
              else Some (0, c\<lparr>hotcpu_notifier := True\<rparr>)
            }
          })"

definition cpufreq_unregister_driver ::
  "('g, 'd) core_env \<Rightarrow> nat \<Rightarrow> 'd cpufreq_driver \<Rightarrow> ('g, 'd) core \<Rightarrow> (int \<times> ('g, 'd) core) option" where
  "cpufreq_unregister_driver env fuel driver c =
     (case the_driver c of
        None \<Rightarrow> Some (- EINVAL, c)
      | Some d \<Rightarrow>
          if dr_name driver \<noteq> dr_name d then Some (- EINVAL, c)
          else do {
            c \<leftarrow> each_cpu (cpufreq_remove_dev env fuel) (ce_present env) (c\<lparr>sysdev_driver := False\<rparr>);
            Some (0, set_driver None env (c\<lparr>hotcpu_notifier := False\<rparr>))
          })"

definition cpufreq_core_init :: "('g, 'd) core \<Rightarrow> ('g, 'd) core" where
  "cpufreq_core_init c = c\<lparr>policy_cpu := (\<lambda>_. None), rwsem := (\<lambda>_. Sem_free)\<rparr>"

end
