(* ===== verification/Core_Safety.thy ===== *)
theory Core_Safety
  imports Core_Hotplug
begin

text \<open>
  What the operations of the core leave alone: the frames of a core state, of the system around one
  policy, and of the system as a governor sees it.
\<close>

section \<open>Frames\<close>

text \<open>Only the system, the governors' variables and their module references differ.\<close>

definition core_frame :: "('g, 'd) core \<Rightarrow> ('g, 'd) core \<Rightarrow> bool" where
  "core_frame c c' \<longleftrightarrow> (\<exists>s g r. c' = c\<lparr>csys := s, gsts := g, gov_refs := r\<rparr>)"

lemma core_frame_refl [simp]: "core_frame c c"
  unfolding core_frame_def by (rule exI [of _ "csys c"], rule exI [of _ "gsts c"], rule exI [of _ "gov_refs c"]) simp

lemma core_frame_trans [trans]: "core_frame c c1 \<Longrightarrow> core_frame c1 c2 \<Longrightarrow> core_frame c c2"
  unfolding core_frame_def by (elim exE) (simp, blast)

lemma core_frame_sys [simp]: "core_frame c (c\<lparr>csys := s\<rparr>)" "core_frame c (c\<lparr>gsts := g, csys := s\<rparr>)"
  unfolding core_frame_def
  by (rule exI [of _ s], rule exI [of _ "gsts c"], rule exI [of _ "gov_refs c"], simp)
    (rule exI [of _ s], rule exI [of _ g], rule exI [of _ "gov_refs c"], simp)

lemma core_frame_upd [simp]: "core_frame c (upd_sys f c)" "core_frame c (set_pol p h c)"
  "core_frame c (set_governor p g c)"
  by (simp_all add: upd_sys_def set_pol_def set_governor_def)

lemma core_frame_refs [simp]: "core_frame c (gov_get g c)" "core_frame c (gov_put g c)"
  unfolding core_frame_def gov_get_def gov_put_def
  by (rule exI [of _ "csys c"], rule exI [of _ "gsts c"], rule exI, simp)+

lemma core_frameD:
  assumes "core_frame c c'"
  shows "the_driver c' = the_driver c" "gov_list c' = gov_list c" "rwsem c' = rwsem c" "policy_cpu c' = policy_cpu c"
    "policy_notifiers c' = policy_notifiers c" "kobj_done c' = kobj_done c" "update_work c' = update_work c"
    "kobj_link c' = kobj_link c" "next_pol c' = next_pol c" "freed_pols c' = freed_pols c" "saved_gov c' = saved_gov c"
    "monitor c' = monitor c" "use_pss_or_meminfo c' = use_pss_or_meminfo c"
  using assms unfolding core_frame_def by auto

text \<open>The system as seen by a governor, but for limits, choices and reference counts.\<close>

definition alike :: "'d sys \<Rightarrow> 'd sys \<Rightarrow> bool" where
  "alike s s' \<longleftrightarrow> drv s' = drv s \<and> online s' = online s \<and> cpu_data s' = cpu_data s \<and> nr_cpu_ids s' = nr_cpu_ids s
     \<and> has_driver s' = has_driver s
     \<and> (\<forall>q. pol_cpu (policies s' q) = pol_cpu (policies s q) \<and> pol_cpus (policies s' q) = pol_cpus (policies s q)
          \<and> (pol_cur (policies s q) \<noteq> 0 \<longrightarrow> pol_cur (policies s' q) \<noteq> 0))"

definition same_limits :: "nat \<Rightarrow> 'd sys \<Rightarrow> 'd sys \<Rightarrow> bool" where
  "same_limits p s s' \<longleftrightarrow> pol_min (policies s' p) = pol_min (policies s p) \<and> pol_max (policies s' p) = pol_max (policies s p)"

definition in_range :: "cpufreq_policy \<Rightarrow> bool" where
  "in_range q \<longleftrightarrow> cpuinfo_min q \<le> pol_min q \<and> pol_min q \<le> pol_max q \<and> pol_max q \<le> cpuinfo_max q"

text \<open>Everything of the system but the limits and choices of policy \<open>p\<close>, the current frequencies, the
  delay calibration, the logs and the driver's state.\<close>

definition fixed_of :: "cpufreq_policy \<Rightarrow> cpufreq_policy" where
  "fixed_of q = q\<lparr>pol_min := 0, pol_max := 0, pol_cur := 0, pol_policy := 0, pol_governor := None,
     user_min := 0, user_max := 0, user_policy := 0, user_governor := None\<rparr>"

definition sys_rest where
  "sys_rest p s = (online s, cpu_data s, nr_cpu_ids s, has_driver s, pol_refs s, (\<lambda>q. fixed_of (policies s q)),
     \<lambda>q. if q = p then zero_policy else limits_of (policies s q))"

lemma fixed_of_eq:
  fixes q q' :: cpufreq_policy
  shows "fixed_of q' = fixed_of q \<longleftrightarrow> pol_cpu q' = pol_cpu q \<and> pol_cpus q' = pol_cpus q
    \<and> pol_related q' = pol_related q \<and> cpuinfo_min q' = cpuinfo_min q \<and> cpuinfo_max q' = cpuinfo_max q
    \<and> transition_latency q' = transition_latency q"
  by (cases q; cases q') (auto simp: fixed_of_def)

lemma fixed_of_limits: "fixed_of (limits_of q) = fixed_of q"
  by (simp add: fixed_of_def limits_of_def)

lemma sys_rest_frame: "sys_frame s' = sys_frame s \<Longrightarrow> sys_rest p s' = sys_rest p s"
  using sys_frameD [of s' s] fixed_of_limits
  by (simp add: sys_rest_def fun_eq_iff) metis

lemma sys_restD:
  assumes "sys_rest p s' = sys_rest p s"
  shows "online s' = online s" "cpu_data s' = cpu_data s" "nr_cpu_ids s' = nr_cpu_ids s"
    "has_driver s' = has_driver s" "pol_refs s' = pol_refs s" "fixed_of (policies s' q) = fixed_of (policies s q)"
    "q \<noteq> p \<Longrightarrow> limits_of (policies s' q) = limits_of (policies s q)"
  using assms unfolding sys_rest_def by (simp_all only: prod.inject) (metis fun_cong, metis (full_types) fun_cong)

lemma sys_rest_set_pol:
  assumes "\<And>q. fixed_of (f q) = fixed_of q"
  shows "sys_rest p (csys (set_pol p f c)) = sys_rest p (csys c)"
  by (auto simp: sys_rest_def set_pol_def upd_sys_def fun_eq_iff assms)

end
