(* ===== verification/Core_Parts.thy ===== *)
theory Core_Parts
  imports Core_Safety
begin

text \<open>
  What the core relies on when it changes a policy, as a locale over its driver, governors and
  notifiers, and what a change then guarantees: it returns, the limits stay in the driver's range, the
  governor of the policy runs, and the driver is only asked for frequencies inside the limits.
  A governor is \<open>idle\<close> on a policy when nothing runs there and that governor would start, \<open>running\<close> after
  its start, and \<open>tuned\<close> when it also knows the limits in force.
\<close>

definition fits :: "('g, 'd) core_env \<Rightarrow> string \<Rightarrow> cpufreq_policy \<Rightarrow> bool" where
  "fits env n q \<longleftrightarrow> gv_max_latency (ce_gov env n) = 0 \<or> transition_latency q \<le> gv_max_latency (ce_gov env n)"

text \<open>An event that reaches the governor: a successful start keeps a module reference, a stop returns it.\<close>

lemma governor_event:
  assumes "pol_governor (pol c p) = Some n" "fits env n (pol c p)" "ce_module_get env n"
    and "gv_op (ce_gov env n) p e (gsts c, csys c) = Some (rc, g', s')" "sys_frame s' = sys_frame (csys c)"
  shows "cpufreq_governor env p e c = Some (rc, c\<lparr>gsts := g', csys := s', gov_refs := (gov_refs c)(n := gov_refs c n
    + (if e = GOV_START \<and> rc = 0 then 1 else 0) - (if e = GOV_STOP \<and> rc = 0 then 1 else 0))\<rparr>)"
proof -
  have l: "latency_check env p c = Some (Some c)"
    using assms(1,2) by (auto simp: latency_check_def fits_def Let_def not_less)
  have op: "gv_op (ce_gov env n) p e (gsts (gov_get n c), csys (gov_get n c)) = Some (rc, g', s')"
    using assms(4) by (simp add: gov_get_def)
  have g: "pol_governor (policies s' p) = Some n"
    using sys_frameD(6) [OF assms(5), of p] assms(1) by (simp add: limits_of_eq)
  show ?thesis
    unfolding cpufreq_governor_def l
    using assms(1,3) op g by (cases e; cases "rc = 0") (simp_all add: gov_get_def gov_put_def)
qed

lemma pol_set_pol [simp]: "pol (set_pol p f c) q = (if q = p then f (pol c p) else pol c q)"
  by (simp add: set_pol_def upd_sys_def)

lemma set_governor_simps [simp]:
  "pol (set_governor p g c) q = (if q = p then (pol c p)\<lparr>pol_governor := g\<rparr> else pol c q)"
  "gsts (set_governor p g c) = gsts c" "the_driver (set_governor p g c) = the_driver c"
  "target_log (csys (set_governor p g c)) = target_log (csys c)"
  by (simp_all add: set_governor_def) (simp_all add: set_pol_def upd_sys_def)

lemma governor_too_slow:
  assumes "pol_governor (pol c p) = Some n" "\<not> fits env n (pol c p)"
  shows "ce_gov_performance env = None \<Longrightarrow> cpufreq_governor env p e c = Some (- EINVAL, c)"
    "ce_gov_performance env = Some h \<Longrightarrow> gv_max_latency (ce_gov env h) = 0 \<Longrightarrow>
     cpufreq_governor env p e c = cpufreq_governor env p e (set_governor p (Some h) c)"
proof -
  have slow: "gv_max_latency (ce_gov env n) \<noteq> 0" "gv_max_latency (ce_gov env n) < transition_latency (pol c p)"
    using assms(2) by (simp_all add: fits_def not_le)
  show "ce_gov_performance env = None \<Longrightarrow> cpufreq_governor env p e c = Some (- EINVAL, c)"
    using assms(1) slow by (simp add: cpufreq_governor_def latency_check_def Let_def)
  assume h: "ce_gov_performance env = Some h" "gv_max_latency (ce_gov env h) = 0"
  have "latency_check env p c = Some (Some (set_governor p (Some h) c))"
    using assms(1) slow h by (simp add: latency_check_def Let_def)
  moreover have "latency_check env p (set_governor p (Some h) c) = Some (Some (set_governor p (Some h) c))"
    using h by (simp add: latency_check_def Let_def)
  ultimately show "cpufreq_governor env p e c = cpufreq_governor env p e (set_governor p (Some h) c)"
    by (simp only: cpufreq_governor_def bind.bind_lunit option.case)
qed

section \<open>Policies in force\<close>

text \<open>A policy in force: its governor runs with the limits it has.\<close>

definition live_policy ::
  "('g, 'd) core_env \<Rightarrow> 'd cpufreq_driver \<Rightarrow> string set \<Rightarrow> ('g \<times> 'd sys \<Rightarrow> nat \<Rightarrow> string \<Rightarrow> bool)
   \<Rightarrow> ('g, 'd) core \<Rightarrow> nat \<Rightarrow> string \<Rightarrow> bool" where
  "live_policy env d names tuned c p n \<longleftrightarrow> the_driver c = Some d \<and> pol_governor (pol c p) = Some n \<and> n \<in> names
     \<and> fits env n (pol c p) \<and> tuned (gsts c, csys c) p n \<and> in_range (pol c p)"

text \<open>What a policy change keeps in every case, and what a change of governor keeps.\<close>

definition change_frame :: "nat \<Rightarrow> ('g, 'd) core \<Rightarrow> ('g, 'd) core \<Rightarrow> bool" where
  "change_frame p c c' \<longleftrightarrow> core_frame c c' \<and> sys_rest p (csys c') = sys_rest p (csys c)"

definition same_but_governor :: "nat \<Rightarrow> ('g, 'd) core \<Rightarrow> ('g, 'd) core \<Rightarrow> bool" where
  "same_but_governor p c c' \<longleftrightarrow> change_frame p c c' \<and> target_log (csys c') = target_log (csys c)
     \<and> limits_of ((pol c' p)\<lparr>pol_governor := None\<rparr>) = limits_of ((pol c p)\<lparr>pol_governor := None\<rparr>)"

lemma change_frame_refl [simp]: "change_frame p c c"
  by (simp add: change_frame_def)

lemma change_frame_trans [trans]: "change_frame p c c1 \<Longrightarrow> change_frame p c1 c2 \<Longrightarrow> change_frame p c c2"
  by (auto simp: change_frame_def intro: core_frame_trans)

lemma same_but_governor_refl [simp]: "same_but_governor p c c"
  by (simp add: same_but_governor_def)

lemma same_but_governor_trans [trans]:
  "same_but_governor p c c1 \<Longrightarrow> same_but_governor p c1 c2 \<Longrightarrow> same_but_governor p c c2"
  by (auto simp: same_but_governor_def intro: change_frame_trans)

lemma same_but_governor_set [simp]: "same_but_governor p c (set_governor p g c)"
  by (simp add: same_but_governor_def change_frame_def)
    (simp add: set_governor_def sys_rest_set_pol fixed_of_def)

lemma same_but_governorD:
  assumes "same_but_governor p c c'"
  shows "fits env n (pol c' p) = fits env n (pol c p)" "in_range (pol c' p) = in_range (pol c p)"
    "the_driver c' = the_driver c" "same_limits p (csys c) (csys c')"
proof -
  have "limits_of ((pol c' p)\<lparr>pol_governor := None\<rparr>) = limits_of ((pol c p)\<lparr>pol_governor := None\<rparr>)"
    "core_frame c c'"
    using assms by (simp_all add: same_but_governor_def change_frame_def)
  then show "fits env n (pol c' p) = fits env n (pol c p)" "in_range (pol c' p) = in_range (pol c p)"
    "the_driver c' = the_driver c" "same_limits p (csys c) (csys c')"
    by (simp_all add: limits_of_eq fits_def in_range_def same_limits_def core_frameD(1) [of c c'])
qed

lemma alike_set_pol:
  "(\<And>q. pol_cpu (f q) = pol_cpu q \<and> pol_cpus (f q) = pol_cpus q \<and> (pol_cur q \<noteq> 0 \<longrightarrow> pol_cur (f q) \<noteq> 0)) \<Longrightarrow>
   alike (csys c) (csys (set_pol p f c))"
  by (simp add: alike_def set_pol_def upd_sys_def)

lemma alike_governor [simp]: "alike (csys c) (csys (set_governor p g c))"
  unfolding set_governor_def by (rule alike_set_pol) simp

text \<open>An event delivered by a governor that keeps its contract.\<close>

lemma event_frame:
  assumes gov: "governor_ops (gv_op (ce_gov env n))"
    and "pol_governor (pol c p) = Some n" "fits env n (pol c p)" "ce_module_get env n"
    and op: "gv_op (ce_gov env n) p e (gsts c, csys c) = Some (rc, x')"
  shows "\<exists>c'. cpufreq_governor env p e c = Some (rc, c') \<and> (gsts c', csys c') = x' \<and> core_frame c c'
    \<and> sys_frame (csys c') = sys_frame (csys c)
    \<and> (e \<noteq> GOV_LIMITS \<longrightarrow> target_log (csys c') = target_log (csys c))
    \<and> (e = GOV_LIMITS \<longrightarrow> pol_min (pol c p) \<le> pol_max (pol c p) \<longrightarrow> requests_within p (csys c) (csys c'))"
proof -
  obtain g' s' where x: "x' = (g', s')" by (cases x')
  have f: "sys_frame s' = sys_frame (csys c)"
    using governor_ops.gov_frame [OF gov] op x by blast
  have q: "e \<noteq> GOV_LIMITS \<Longrightarrow> target_log s' = target_log (csys c)"
    using governor_ops.gov_quiet [OF gov] op x by blast
  have l: "e = GOV_LIMITS \<Longrightarrow> pol_min (pol c p) \<le> pol_max (pol c p) \<Longrightarrow> requests_within p (csys c) s'"
    using governor_ops.gov_requests [OF gov] op x by blast
  obtain r where r: "cpufreq_governor env p e c = Some (rc, c\<lparr>gsts := g', csys := s', gov_refs := r\<rparr>)"
    using governor_event [OF assms(2-4) op [unfolded x] f] by blast
  have "core_frame c (c\<lparr>gsts := g', csys := s', gov_refs := r\<rparr>)"
    unfolding core_frame_def by (rule exI [of _ s'], rule exI [of _ g'], rule exI [of _ r]) simp
  with r x f q l show ?thesis by auto
qed

lemma event_same:
  assumes "sys_frame (csys c') = sys_frame (csys c)" "core_frame c c'" "target_log (csys c') = target_log (csys c)"
  shows "same_but_governor p c c'" "pol_governor (pol c' p) = pol_governor (pol c p)"
  using assms sys_frameD(6) [OF assms(1), of p]
  by (simp_all add: same_but_governor_def change_frame_def sys_rest_frame [OF assms(1)] limits_of_eq)

section \<open>The contract of the parts\<close>

locale core_parts =
  fixes env :: "('g, 'd) core_env" and d :: "'d cpufreq_driver" and names :: "string set"
    and verify :: "cpufreq_policy \<Rightarrow> 'd sys \<Rightarrow> (int \<times> cpufreq_policy) option"
    and running tuned idle :: "'g \<times> 'd sys \<Rightarrow> nat \<Rightarrow> string \<Rightarrow> bool"
  assumes driver_verify_op: "dr_verify d = Some verify" and driver_setpolicy: "dr_setpolicy d = None"
    and gov: "n \<in> names \<Longrightarrow> governor_ops (gv_op (ce_gov env n))"
    and module: "n \<in> names \<Longrightarrow> ce_module_get env n"
    and fallback: "ce_gov_performance env = Some h \<Longrightarrow> h \<in> names \<and> gv_max_latency (ce_gov env h) = 0"
    and start: "idle x p n \<Longrightarrow> m \<in> names \<Longrightarrow> \<exists>rc x'. gv_op (ce_gov env m) p GOV_START x = Some (rc, x')
      \<and> (if rc = 0 then tuned x' p m else idle x' p n) \<and> (m = n \<longrightarrow> rc = 0)"
    and stop: "running x p n \<Longrightarrow> \<exists>x'. gv_op (ce_gov env n) p GOV_STOP x = Some (0, x') \<and> idle x' p n"
    and limits: "running x p n \<Longrightarrow> \<exists>rc x'. gv_op (ce_gov env n) p GOV_LIMITS x = Some (rc, x') \<and> tuned x' p n"
    and tuned_running: "tuned x p n \<Longrightarrow> running x p n"
    and running_alike: "running (g, s) p n \<Longrightarrow> alike s s' \<Longrightarrow> running (g, s') p n"
    and tuned_alike: "tuned (g, s) p n \<Longrightarrow> alike s s' \<Longrightarrow> same_limits p s s' \<Longrightarrow> tuned (g, s') p n"
    and idle_alike: "idle (g, s) p n \<Longrightarrow> alike s s' \<Longrightarrow> idle (g, s') p n"
    and verify_total: "running (g, s) p n \<Longrightarrow> \<exists>rc a b. verify q s = Some (rc, q\<lparr>pol_min := a, pol_max := b\<rparr>)"
    and verify_range: "verify q s = Some (0, q') \<Longrightarrow> cpuinfo_min q \<le> cpuinfo_max q \<Longrightarrow> in_range q'"
    and chain: "running (g, s) p n \<Longrightarrow> pol_governor q \<noteq> None \<Longrightarrow>
      \<exists>a b s'. ce_policy_chain env l e q s = Some (q\<lparr>pol_min := a, pol_max := b\<rparr>, s')
      \<and> running (g, s') p n \<and> (tuned (g, s) p n \<longrightarrow> tuned (g, s') p n)
      \<and> sys_frame s' = sys_frame s \<and> target_log s' = target_log s
      \<and> (e = NOTIFY \<longrightarrow> a = pol_min q \<and> b = pol_max q)"
begin

lemma stop_event:
  assumes "running (gsts c, csys c) p n" "n \<in> names" "pol_governor (pol c p) = Some n" "fits env n (pol c p)"
  shows "\<exists>c'. cpufreq_governor env p GOV_STOP c = Some (0, c') \<and> idle (gsts c', csys c') p n
    \<and> same_but_governor p c c' \<and> pol_governor (pol c' p) = Some n"
proof -
  obtain x' where x: "gv_op (ce_gov env n) p GOV_STOP (gsts c, csys c) = Some (0, x')" "idle x' p n"
    using stop [OF assms(1)] by blast
  from event_frame [OF gov [OF assms(2)] assms(3,4) module [OF assms(2)] x(1)]
  obtain c' where c: "cpufreq_governor env p GOV_STOP c = Some (0, c')" "(gsts c', csys c') = x'" "core_frame c c'"
    "sys_frame (csys c') = sys_frame (csys c)" "target_log (csys c') = target_log (csys c)" by auto
  show ?thesis using c x(2) event_same [OF c(4,3,5)] assms(3) by auto
qed

lemma start_event:
  assumes "idle (gsts c, csys c) p n" "m \<in> names" "pol_governor (pol c p) = Some m"
  shows "\<exists>rc c'. cpufreq_governor env p GOV_START c = Some (rc, c') \<and> same_but_governor p c c'
    \<and> (if rc = 0 then \<exists>h. h \<in> names \<and> pol_governor (pol c' p) = Some h \<and> fits env h (pol c' p)
          \<and> tuned (gsts c', csys c') p h \<and> (fits env m (pol c p) \<longrightarrow> h = m)
        else idle (gsts c', csys c') p n) \<and> (m = n \<longrightarrow> fits env n (pol c p) \<longrightarrow> rc = 0)"
proof -
  have fit: "\<exists>rc c'. cpufreq_governor env p GOV_START b = Some (rc, c') \<and> same_but_governor p b c'
    \<and> (if rc = 0 then pol_governor (pol c' p) = Some h \<and> fits env h (pol c' p) \<and> tuned (gsts c', csys c') p h
        else idle (gsts c', csys c') p n) \<and> (h = n \<longrightarrow> rc = 0)"
    if b: "idle (gsts b, csys b) p n" "h \<in> names" "pol_governor (pol b p) = Some h" "fits env h (pol b p)" for b h
  proof -
    obtain rc x' where x: "gv_op (ce_gov env h) p GOV_START (gsts b, csys b) = Some (rc, x')"
      "if rc = 0 then tuned x' p h else idle x' p n" "h = n \<longrightarrow> rc = 0"
      using start [OF b(1,2)] by blast
    from event_frame [OF gov [OF b(2)] b(3,4) module [OF b(2)] x(1)]
    obtain c' where c: "cpufreq_governor env p GOV_START b = Some (rc, c')" "(gsts c', csys c') = x'" "core_frame b c'"
      "sys_frame (csys c') = sys_frame (csys b)" "target_log (csys c') = target_log (csys b)" by auto
    note same = event_same [OF c(4,3,5), of p]
    show ?thesis
      using c(1,2) x(2,3) same b(3,4) same_but_governorD(1) [OF same(1)] by (intro exI [of _ rc] exI [of _ c']) auto
  qed
  show ?thesis
  proof (cases "fits env m (pol c p)")
    case True
    then show ?thesis using fit [OF assms] assms(2) by (auto split: if_splits)
  next
    case False
    show ?thesis
    proof (cases "ce_gov_performance env")
      case None
      then show ?thesis using False assms governor_too_slow(1) [OF assms(3) False None] by auto
    next
      case (Some h)
      let ?b = "set_governor p (Some h) c"
      have h: "h \<in> names" "gv_max_latency (ce_gov env h) = 0" using fallback [OF Some] by simp_all
      have e: "cpufreq_governor env p GOV_START c = cpufreq_governor env p GOV_START ?b"
        using governor_too_slow(2) [OF assms(3) False Some h(2)] .
      have "idle (gsts ?b, csys ?b) p n"
        using idle_alike [OF assms(1) alike_governor] by simp
      moreover have "fits env h (pol ?b p)" using h(2) by (simp add: fits_def)
      ultimately obtain rc c' where c: "cpufreq_governor env p GOV_START c = Some (rc, c')" "same_but_governor p ?b c'"
        "if rc = 0 then pol_governor (pol c' p) = Some h \<and> fits env h (pol c' p) \<and> tuned (gsts c', csys c') p h
         else idle (gsts c', csys c') p n"
        using fit [of ?b h] h(1) unfolding e by auto
      have "same_but_governor p c c'"
        using same_but_governor_trans [OF same_but_governor_set c(2)] .
      with c(1,3) h(1) False show ?thesis by (intro exI [of _ rc] exI [of _ c']) auto
    qed
  qed
qed

text \<open>A switch ends with a governor that runs: the new one, or the old one again.\<close>

lemma switch_run:
  assumes "running (gsts c, csys c) p n" "n \<in> names" "pol_governor (pol c p) = Some n" "fits env n (pol c p)"
    "m \<in> names"
  shows "\<exists>ret c' h. switch_governor env p (Some m) c = Some (ret, c') \<and> same_but_governor p c c'
    \<and> h \<in> names \<and> pol_governor (pol c' p) = Some h \<and> fits env h (pol c' p) \<and> tuned (gsts c', csys c') p h
    \<and> (ret \<noteq> 0 \<longrightarrow> h = n) \<and> (ret = 0 \<longrightarrow> fits env m (pol c p) \<longrightarrow> h = m)"
proof -
  obtain c1 where c1: "cpufreq_governor env p GOV_STOP c = Some (0, c1)" "idle (gsts c1, csys c1) p n"
    "same_but_governor p c c1" using stop_event [OF assms(1-4)] by blast
  let ?c2 = "set_governor p (Some m) c1"
  have i2: "idle (gsts ?c2, csys ?c2) p n" using idle_alike [OF c1(2) alike_governor] by simp
  obtain rc c3 where c3: "cpufreq_governor env p GOV_START ?c2 = Some (rc, c3)" "same_but_governor p ?c2 c3"
    and k: "if rc = 0 then \<exists>h. h \<in> names \<and> pol_governor (pol c3 p) = Some h \<and> fits env h (pol c3 p)
        \<and> tuned (gsts c3, csys c3) p h \<and> (fits env m (pol ?c2 p) \<longrightarrow> h = m) else idle (gsts c3, csys c3) p n"
    using start_event [OF i2 assms(5)] by (auto split: if_splits)
  have same3: "same_but_governor p c c3"
    using c1(3) same_but_governor_trans [OF same_but_governor_set c3(2)] same_but_governor_trans by blast
  have fit: "fits env m (pol ?c2 p) = fits env m (pol c p)"
    using same_but_governorD(1) [OF same_but_governor_trans [OF c1(3) same_but_governor_set]] by blast
  show ?thesis
  proof (cases "rc = 0")
    case True
    have "switch_governor env p (Some m) c = Some (0, c3)"
      using assms(3) c1(1) c3(1) True by (simp add: switch_governor_def)
    with True k same3 fit show ?thesis by auto
  next
    case False
    let ?c4 = "set_governor p (Some n) c3"
    have i4: "idle (gsts ?c4, csys ?c4) p n"
      using idle_alike [OF _ alike_governor, of "gsts c3" c3 p n p "Some n"] False k by simp
    have f4: "fits env n (pol ?c4 p)"
      using same_but_governorD(1) [OF same_but_governor_trans [OF same3 same_but_governor_set]] assms(4) by blast
    obtain rc5 c5 where c5: "cpufreq_governor env p GOV_START ?c4 = Some (rc5, c5)" "same_but_governor p ?c4 c5"
      "rc5 = 0" and k5: "\<exists>h. h \<in> names \<and> pol_governor (pol c5 p) = Some h \<and> fits env h (pol c5 p)
        \<and> tuned (gsts c5, csys c5) p h \<and> (fits env n (pol ?c4 p) \<longrightarrow> h = n)"
      using start_event [OF i4 assms(2)] f4 by auto
    have "switch_governor env p (Some m) c = Some (- EINVAL, c5)"
      using assms(3) c1(1) c3(1) c5(1) False by (simp add: switch_governor_def)
    moreover have "same_but_governor p c c5"
      using same3 same_but_governor_trans [OF same_but_governor_set c5(2)] same_but_governor_trans by blast
    ultimately show ?thesis using k5 f4 by auto
  qed
qed

lemma check_run:
  assumes "running (gsts c, csys c) p n" "the_driver c = Some d" "pol_governor q \<noteq> None"
  shows "\<exists>ret a b s'. check_policy env q c = Some (ret, q\<lparr>pol_min := a, pol_max := b\<rparr>, c\<lparr>csys := s'\<rparr>)
    \<and> sys_frame s' = sys_frame (csys c) \<and> target_log s' = target_log (csys c) \<and> running (gsts c, s') p n
    \<and> (tuned (gsts c, csys c) p n \<longrightarrow> tuned (gsts c, s') p n)
    \<and> (ret = 0 \<longrightarrow> cpuinfo_min q \<le> cpuinfo_max q \<longrightarrow> in_range (q\<lparr>pol_min := a, pol_max := b\<rparr>))"
proof -
  have v: "driver_verify q' (c\<lparr>csys := s\<rparr>) = verify q' s" for q' s
    using assms(2) driver_verify_op by (simp add: driver_verify_def)
  have same: "c\<lparr>csys := csys c\<rparr> = c" by simp
  obtain r1 a1 b1 where v1: "verify q (csys c) = Some (r1, q\<lparr>pol_min := a1, pol_max := b1\<rparr>)"
    using verify_total [OF assms(1)] by blast
  have v1': "driver_verify q c = Some (r1, q\<lparr>pol_min := a1, pol_max := b1\<rparr>)" using v [of q "csys c"] v1 same by simp
  show ?thesis
  proof (cases "r1 = 0")
    case False
    have "check_policy env q c = Some (r1, q\<lparr>pol_min := a1, pol_max := b1\<rparr>, c\<lparr>csys := csys c\<rparr>)"
      using v1' False by (simp add: check_policy_def)
    with False assms(1) show ?thesis by blast
  next
    case True
    have ch: "\<exists>a' b' s'. policy_chain env e (q\<lparr>pol_min := a, pol_max := b\<rparr>) (c\<lparr>csys := s\<rparr>)
          = Some (q\<lparr>pol_min := a', pol_max := b'\<rparr>, c\<lparr>csys := s'\<rparr>)
        \<and> running (gsts c, s') p n \<and> (tuned (gsts c, s) p n \<longrightarrow> tuned (gsts c, s') p n)
        \<and> sys_frame s' = sys_frame s \<and> target_log s' = target_log s \<and> (e = NOTIFY \<longrightarrow> a' = a \<and> b' = b)"
      if run: "running (gsts c, s) p n" for e a b s
    proof -
      obtain a' b' s' where k: "ce_policy_chain env (policy_notifiers c) e (q\<lparr>pol_min := a, pol_max := b\<rparr>) s
            = Some (q\<lparr>pol_min := a, pol_max := b\<rparr>\<lparr>pol_min := a', pol_max := b'\<rparr>, s')"
        "running (gsts c, s') p n" "tuned (gsts c, s) p n \<longrightarrow> tuned (gsts c, s') p n"
        "sys_frame s' = sys_frame s" "target_log s' = target_log s"
        "e = NOTIFY \<longrightarrow> a' = pol_min (q\<lparr>pol_min := a, pol_max := b\<rparr>) \<and> b' = pol_max (q\<lparr>pol_min := a, pol_max := b\<rparr>)"
        using chain [OF run, of "q\<lparr>pol_min := a, pol_max := b\<rparr>" "policy_notifiers c" e] assms(3) by auto
      have "policy_chain env e (q\<lparr>pol_min := a, pol_max := b\<rparr>) (c\<lparr>csys := s\<rparr>)
          = Some (q\<lparr>pol_min := a', pol_max := b'\<rparr>, c\<lparr>csys := s'\<rparr>)"
        using k(1) by (simp add: policy_chain_def)
      moreover have "e = NOTIFY \<longrightarrow> a' = a \<and> b' = b" using k(6) by simp
      ultimately show ?thesis using k(2-5) by blast
    qed
    obtain a2 b2 s2 where s2: "policy_chain env ADJUST (q\<lparr>pol_min := a1, pol_max := b1\<rparr>) c
          = Some (q\<lparr>pol_min := a2, pol_max := b2\<rparr>, c\<lparr>csys := s2\<rparr>)"
      "running (gsts c, s2) p n" "tuned (gsts c, csys c) p n \<longrightarrow> tuned (gsts c, s2) p n"
      "sys_frame s2 = sys_frame (csys c)" "target_log s2 = target_log (csys c)"
      using ch [OF assms(1), where e = ADJUST and a = a1 and b = b1] unfolding same by blast
    obtain a3 b3 s3 where s3: "policy_chain env INCOMPATIBLE (q\<lparr>pol_min := a2, pol_max := b2\<rparr>) (c\<lparr>csys := s2\<rparr>)
          = Some (q\<lparr>pol_min := a3, pol_max := b3\<rparr>, c\<lparr>csys := s3\<rparr>)"
      "running (gsts c, s3) p n" "tuned (gsts c, s2) p n \<longrightarrow> tuned (gsts c, s3) p n"
      "sys_frame s3 = sys_frame s2" "target_log s3 = target_log s2"
      using ch [OF s2(2), where e = INCOMPATIBLE and a = a2 and b = b2] by blast
    obtain r4 a4 b4 where v4: "verify (q\<lparr>pol_min := a3, pol_max := b3\<rparr>) s3 = Some (r4, q\<lparr>pol_min := a4, pol_max := b4\<rparr>)"
      using verify_total [OF s3(2), of "q\<lparr>pol_min := a3, pol_max := b3\<rparr>"] by auto
    show ?thesis
    proof (cases "r4 = 0")
      case False
      have "check_policy env q c = Some (r4, q\<lparr>pol_min := a4, pol_max := b4\<rparr>, c\<lparr>csys := s3\<rparr>)"
        using v1' True s2(1) s3(1) v v4 False by (simp add: check_policy_def)
      with False s2 s3 show ?thesis
        by (intro exI [of _ r4] exI [of _ a4] exI [of _ b4] exI [of _ s3]) auto
    next
      case r4: True
      obtain s5 where s5: "policy_chain env NOTIFY (q\<lparr>pol_min := a4, pol_max := b4\<rparr>) (c\<lparr>csys := s3\<rparr>)
            = Some (q\<lparr>pol_min := a4, pol_max := b4\<rparr>, c\<lparr>csys := s5\<rparr>)"
        "running (gsts c, s5) p n" "tuned (gsts c, s3) p n \<longrightarrow> tuned (gsts c, s5) p n"
        "sys_frame s5 = sys_frame s3" "target_log s5 = target_log s3"
        using ch [OF s3(2), where e = NOTIFY and a = a4 and b = b4] by blast
      have "check_policy env q c = Some (0, q\<lparr>pol_min := a4, pol_max := b4\<rparr>, c\<lparr>csys := s5\<rparr>)"
        using v1' True s2(1) s3(1) v v4 r4 s5(1) by (simp add: check_policy_def)
      moreover have "cpuinfo_min q \<le> cpuinfo_max q \<longrightarrow> in_range (q\<lparr>pol_min := a4, pol_max := b4\<rparr>)"
        using verify_range v4 r4 by auto
      ultimately show ?thesis using s2 s3 s5
        by (intro exI [of _ 0] exI [of _ a4] exI [of _ b4] exI [of _ s5]) auto
    qed
  qed
qed

end

end
