(* ===== verification/Core_Change.thy ===== *)
theory Core_Change
  imports Core_Parts
begin

text \<open>
  A change of policy under the contract of \<open>core_parts\<close>: \<open>__cpufreq_set_policy\<close> from the check of the new
  limits to the event that tells the governor, with every error on the way.
\<close>

section \<open>One policy change\<close>

definition choices where
  "choices q = (user_min q, user_max q, user_policy q, user_governor q, pol_policy q)"

text \<open>The requests of a change, inside the limits it leaves.\<close>

definition requests_in :: "nat \<Rightarrow> ('g, 'd) core \<Rightarrow> ('g, 'd) core \<Rightarrow> bool" where
  "requests_in p c c' \<longleftrightarrow> (\<exists>reqs. target_log (csys c') = target_log (csys c) @ reqs
     \<and> (\<forall>(r, f, rel) \<in> set reqs. pol_min (pol c' p) \<le> f \<and> f \<le> pol_max (pol c' p)))"

lemma requests_in_same [simp]: "target_log (csys c') = target_log (csys c) \<Longrightarrow> requests_in p c c'"
  by (simp add: requests_in_def)

lemma change_frame_sys: "sys_frame s' = sys_frame (csys c) \<Longrightarrow> change_frame p c (c\<lparr>csys := s'\<rparr>)"
  by (simp add: change_frame_def sys_rest_frame [of s' "csys c"])

lemma change_frame_set: "(\<And>q. fixed_of (f q) = fixed_of q) \<Longrightarrow> change_frame p c (set_pol p f c)"
  by (simp add: change_frame_def sys_rest_set_pol)

lemma fits_frame: "change_frame p c c' \<Longrightarrow> fits env n (pol c' p) = fits env n (pol c p)"
  using sys_restD(6) [of p "csys c'" "csys c" p] by (simp add: change_frame_def fits_def fixed_of_eq)

lemma same_but_governor_fields:
  assumes "same_but_governor p c c'"
  shows "pol_min (pol c' p) = pol_min (pol c p)" "pol_max (pol c' p) = pol_max (pol c p)"
    "choices (pol c' p) = choices (pol c p)" "change_frame p c c'" "target_log (csys c') = target_log (csys c)"
  using assms by (simp_all add: same_but_governor_def limits_of_eq choices_def)

context core_parts begin

lemma live_frame:
  assumes "live_policy env d names tuned c p n" "change_frame p c c'"
    and "pol_governor (pol c' p) = Some h" "h \<in> names" "fits env h (pol c p)"
    and "tuned (gsts c', csys c') p h" "in_range (pol c' p)"
  shows "live_policy env d names tuned c' p h"
  using assms fits_frame [OF assms(2), of env h] core_frameD(1) [of c c']
  by (simp add: live_policy_def change_frame_def)

text \<open>From the limits in force in the policy to the governor that should hear of them.\<close>

lemma choose_governor:
  assumes "running (gsts c, csys c) p n" "n \<in> names" "pol_governor (pol c p) = Some n" "fits env n (pol c p)"
    "m \<in> names"
  shows "\<exists>ret c' h. (if Some m \<noteq> pol_governor (pol c p) then switch_governor env p (Some m) c else Some (0, c)) = Some (ret, c')
    \<and> same_but_governor p c c' \<and> h \<in> names \<and> pol_governor (pol c' p) = Some h \<and> fits env h (pol c' p)
    \<and> running (gsts c', csys c') p h \<and> (ret \<noteq> 0 \<longrightarrow> tuned (gsts c', csys c') p h \<and> h = n)
    \<and> (ret = 0 \<longrightarrow> fits env m (pol c p) \<longrightarrow> h = m)"
proof (cases "m = n")
  case True
  show ?thesis
    by (rule exI [of _ 0], rule exI [of _ c], rule exI [of _ n]) (simp add: True assms)
next
  case False
  obtain ret c' h where s: "switch_governor env p (Some m) c = Some (ret, c')" "same_but_governor p c c'"
    "h \<in> names" "pol_governor (pol c' p) = Some h" "fits env h (pol c' p)" "tuned (gsts c', csys c') p h"
    "ret \<noteq> 0 \<longrightarrow> h = n" "ret = 0 \<longrightarrow> fits env m (pol c p) \<longrightarrow> h = m"
    using switch_run [OF assms] by blast
  have "(if Some m \<noteq> pol_governor (pol c p) then switch_governor env p (Some m) c else Some (0, c)) = Some (ret, c')"
    using False assms(3) s(1) by simp
  with s tuned_running [OF s(6)] show ?thesis by blast
qed

lemma limits_event:
  assumes "running (gsts c, csys c) p h" "h \<in> names" "pol_governor (pol c p) = Some h" "fits env h (pol c p)"
    "pol_min (pol c p) \<le> pol_max (pol c p)"
  shows "\<exists>rc c'. cpufreq_governor env p GOV_LIMITS c = Some (rc, c') \<and> tuned (gsts c', csys c') p h
    \<and> change_frame p c c' \<and> limits_of (pol c' p) = limits_of (pol c p) \<and> requests_in p c c'"
proof -
  obtain rc x' where x: "gv_op (ce_gov env h) p GOV_LIMITS (gsts c, csys c) = Some (rc, x')" "tuned x' p h"
    using limits [OF assms(1)] by blast
  from event_frame [OF gov [OF assms(2)] assms(3,4) module [OF assms(2)] x(1)]
  obtain c' where c: "cpufreq_governor env p GOV_LIMITS c = Some (rc, c')" "(gsts c', csys c') = x'" "core_frame c c'"
    "sys_frame (csys c') = sys_frame (csys c)" "requests_within p (csys c) (csys c')" using assms(5) by auto
  have l: "limits_of (pol c' p) = limits_of (pol c p)" by (rule sys_frameD(6) [OF c(4)])
  then have "requests_in p c c'"
    using c(5) by (simp add: requests_in_def requests_within_def limits_of_eq)
  with c x(2) l show ?thesis
    by (auto simp: change_frame_def sys_rest_frame [OF c(4)])
qed

lemma set_policy_run:
  assumes live: "live_policy env d names tuned c p n" and q: "pol_governor q = Some m" "m \<in> names"
  shows "\<exists>ret c' h. cpufreq_set_policy env p q c = Some (ret, c') \<and> change_frame p c c'
    \<and> live_policy env d names tuned c' p h \<and> requests_in p c c' \<and> choices (pol c' p) = choices (pol c p)
    \<and> (ret \<noteq> 0 \<longrightarrow> h = n \<and> target_log (csys c') = target_log (csys c))
    \<and> (ret = 0 \<longrightarrow> fits env m (pol c p) \<longrightarrow> h = m)"
proof -
  have l: "the_driver c = Some d" "pol_governor (pol c p) = Some n" "n \<in> names" "fits env n (pol c p)"
    "tuned (gsts c, csys c) p n" "in_range (pol c p)"
    using live by (simp_all add: live_policy_def)
  define q1 where "q1 = q\<lparr>cpuinfo_min := cpuinfo_min (pol c p), cpuinfo_max := cpuinfo_max (pol c p),
       transition_latency := transition_latency (pol c p)\<rparr>"
  have q1: "pol_governor q1 = Some m" "cpuinfo_min q1 \<le> cpuinfo_max q1"
    "cpuinfo_min q1 = cpuinfo_min (pol c p)" "cpuinfo_max q1 = cpuinfo_max (pol c p)"
    using q l(6) by (auto simp: q1_def in_range_def)
  show ?thesis
  proof (cases "pol_min q1 > pol_max (pol c p) \<or> pol_max q1 < pol_min (pol c p)")
    case True
    then have "cpufreq_set_policy env p q c = Some (- EINVAL, c)"
      by (simp add: cpufreq_set_policy_def q1_def)
    with live show ?thesis by (intro exI conjI) auto
  next
    case False
    obtain ret a b s1 where ch: "check_policy env q1 c = Some (ret, q1\<lparr>pol_min := a, pol_max := b\<rparr>, c\<lparr>csys := s1\<rparr>)"
      "sys_frame s1 = sys_frame (csys c)" "target_log s1 = target_log (csys c)" "running (gsts c, s1) p n"
      "tuned (gsts c, s1) p n" "ret = 0 \<longrightarrow> in_range (q1\<lparr>pol_min := a, pol_max := b\<rparr>)"
      using check_run [OF tuned_running [OF l(5)] l(1), of q1] q1 l(5) by auto
    let ?c1 = "c\<lparr>csys := s1\<rparr>"
    have f1: "change_frame p c ?c1" by (rule change_frame_sys) (rule ch(2))
    have p1: "limits_of (policies s1 p) = limits_of (pol c p)" by (rule sys_frameD(6) [OF ch(2)])
    show ?thesis
    proof (cases "ret = 0")
      case ret: False
      have "cpufreq_set_policy env p q c = Some (ret, ?c1)"
        using False ch(1) ret by (simp add: cpufreq_set_policy_def q1_def [symmetric])
      moreover have "live_policy env d names tuned ?c1 p n"
        using live_frame [OF live f1, of n] l p1 ch(5) by (simp add: limits_of_eq in_range_def)
      ultimately show ?thesis
        using f1 ch(3) p1 ret by (intro exI [of _ ret] exI [of _ ?c1] exI [of _ n]) (simp add: choices_def limits_of_eq)
    next
      case ret: True
      let ?c2 = "set_pol p (\<lambda>r. r\<lparr>pol_min := a, pol_max := b\<rparr>) ?c1"
      have f2: "change_frame p c ?c2"
        by (rule change_frame_trans [OF f1 change_frame_set]) (simp add: fixed_of_def)
      have r2: "running (gsts ?c2, csys ?c2) p n"
        using running_alike [OF ch(4), of "csys ?c2"] alike_set_pol [of "\<lambda>r. r\<lparr>pol_min := a, pol_max := b\<rparr>" ?c1 p]
        by (simp add: set_pol_def upd_sys_def)
      have g2: "pol_governor (pol ?c2 p) = Some n" "the_driver ?c2 = Some d" "fits env n (pol ?c2 p)"
        "choices (pol ?c2 p) = choices (pol c p)" "target_log (csys ?c2) = target_log (csys c)"
        using l p1 fits_frame [OF f2, of env n] core_frameD(1) [of c ?c2] f2 ch(3)
        by (simp_all add: limits_of_eq choices_def change_frame_def) (simp_all add: set_pol_def upd_sys_def)
      have rng: "in_range (pol ?c2 p)"
        using ch(6) ret q1(3,4) p1 by (simp add: in_range_def limits_of_eq)
      obtain ret3 c3 h where c3: "(if Some m \<noteq> pol_governor (pol ?c2 p) then switch_governor env p (Some m) ?c2
            else Some (0, ?c2)) = Some (ret3, c3)"
        "same_but_governor p ?c2 c3" "h \<in> names" "pol_governor (pol c3 p) = Some h" "fits env h (pol c3 p)"
        "running (gsts c3, csys c3) p h" "ret3 \<noteq> 0 \<longrightarrow> tuned (gsts c3, csys c3) p h \<and> h = n"
        "ret3 = 0 \<longrightarrow> fits env m (pol ?c2 p) \<longrightarrow> h = m"
        using choose_governor [OF r2 l(3) g2(1,3) q(2)] by blast
      note s3 = same_but_governor_fields [OF c3(2)]
      have f3: "change_frame p c c3" by (rule change_frame_trans [OF f2 s3(4)])
      have rng3: "in_range (pol c3 p)" using rng same_but_governorD(2) [OF c3(2)] by blast
      have run: "cpufreq_set_policy env p q c = (if ret3 \<noteq> 0 then Some (ret3, c3)
          else do { (_, c) \<leftarrow> cpufreq_governor env p GOV_LIMITS c3; Some (0, c) })"
        using False ch(1) ret g2(2) driver_setpolicy c3(1) q1(1)
        by (simp add: cpufreq_set_policy_def q1_def [symmetric] Let_def cong: if_cong)
      have fh: "fits env h (pol c p)" using c3(5) fits_frame [OF f3, of env h] by simp
      show ?thesis
      proof (cases "ret3 = 0")
        case r3: False
        have "live_policy env d names tuned c3 p h"
          using live_frame [OF live f3 c3(4,3) fh] c3(7) r3 rng3 by blast
        then show ?thesis
          using run r3 f3 s3 g2 c3(7) by (intro exI [of _ ret3] exI [of _ c3] exI [of _ h]) simp
      next
        case r3: True
        obtain rc c4 where c4: "cpufreq_governor env p GOV_LIMITS c3 = Some (rc, c4)" "tuned (gsts c4, csys c4) p h"
          "change_frame p c3 c4" "limits_of (pol c4 p) = limits_of (pol c3 p)" "requests_in p c3 c4"
          using limits_event [OF c3(6,3-5)] rng3 by (auto simp: in_range_def)
        have f4: "change_frame p c c4" by (rule change_frame_trans [OF f3 c4(3)])
        have "live_policy env d names tuned c4 p h"
          using live_frame [OF live f4 _ c3(3) fh c4(2)] c4(4) c3(4) rng3 by (simp add: limits_of_eq in_range_def)
        moreover have "requests_in p c c4" using c4(5) s3(5) g2(5) by (simp add: requests_in_def)
        moreover have "choices (pol c4 p) = choices (pol c p)"
          using c4(4) s3(3) g2(4) by (simp add: limits_of_eq choices_def)
        moreover have "fits env m (pol c p) \<longrightarrow> h = m" using c3(8) r3 fits_frame [OF f2, of env m] by simp
        ultimately show ?thesis
          using run r3 c4(1) f4 by (intro exI [of _ 0] exI [of _ c4] exI [of _ h]) simp
      qed
    qed
  qed
qed

end

end
