(* ===== verification/Core_Calls.thy ===== *)
theory Core_Calls
  imports Core_Change
begin

text \<open>
  Calls into the core from outside, in any order: reads and writes of a policy's sysfs files, the
  re-evaluation of the policy and the reading of its frequency. Under the contract of \<open>core_stack\<close> every
  call returns, with the semaphore and the reference given back, the policy in force, and the driver
  asked only for frequencies in its own range.
\<close>

datatype core_call = Write policy_attr string | Read policy_attr | Update | Get_freq | Resume_work

fun core_call_step :: "('g, 'd) core_env \<Rightarrow> nat \<Rightarrow> core_call \<Rightarrow> ('g, 'd) core \<Rightarrow> ('g, 'd) core option" where
  "core_call_step env p (Write a buf) c = map_option snd (cpufreq_store env a p buf c)"
| "core_call_step env p (Read a) c = map_option snd (cpufreq_show env a p c)"
| "core_call_step env p Update c = map_option snd (cpufreq_update_policy env (pol_cpu (pol c p)) c)"
| "core_call_step env p Get_freq c = map_option snd (cpufreq_get env (pol_cpu (pol c p)) c)"
| "core_call_step env p Resume_work c = handle_update env p c"

fun core_calls :: "('g, 'd) core_env \<Rightarrow> nat \<Rightarrow> core_call list \<Rightarrow> ('g, 'd) core \<Rightarrow> ('g, 'd) core option" where
  "core_calls env p [] c = Some c"
| "core_calls env p (x # xs) c = Option.bind (core_call_step env p x c) (core_calls env p xs)"

section \<open>References and semaphores\<close>

definition ref_up :: "nat \<Rightarrow> ('g, 'd) core \<Rightarrow> ('g, 'd) core" where
  "ref_up p c = upd_sys (\<lambda>s. s\<lparr>pol_refs := (pol_refs s)(p := pol_refs s p + 1)\<rparr>) c"

definition ref_down :: "nat \<Rightarrow> ('g, 'd) core \<Rightarrow> ('g, 'd) core" where
  "ref_down p c = upd_sys (\<lambda>s. s\<lparr>pol_refs := (pol_refs s)(p := pol_refs s p - 1)\<rparr>) c"

text \<open>The core can find policy \<open>p\<close>, whose semaphore is in state \<open>sem\<close>.\<close>

definition findable :: "('g, 'd) core \<Rightarrow> nat \<Rightarrow> sem \<Rightarrow> bool" where
  "findable c p sem \<longleftrightarrow> cpu_data (csys c) (pol_cpu (pol c p)) = Some p \<and> pol_cpu (pol c p) < nr_cpu_ids (csys c)
     \<and> has_driver (csys c) \<and> online (csys c) (pol_cpu (pol c p)) \<and> 0 < pol_refs (csys c) p
     \<and> (\<exists>k. policy_cpu c (pol_cpu (pol c p)) = Some k \<and> rwsem c k = sem)"

lemma get_findable: "findable c p sem \<Longrightarrow> core_get (pol_cpu (pol c p)) c = (Some p, ref_up p c)"
  by (simp add: findable_def core_get_def cpufreq_cpu_get_def ref_up_def upd_sys_def)

lemma put_ref: "1 < pol_refs (csys c) p \<Longrightarrow> kobject_put p c = ref_down p c"
  by (simp add: kobject_put_def ref_down_def cpufreq_cpu_put_def upd_sys_def)

lemma ref_simps [simp]:
  "pol (ref_up p c) q = pol c q" "pol (ref_down p c) q = pol c q" "the_driver (ref_up p c) = the_driver c"
  "the_driver (ref_down p c) = the_driver c" "gsts (ref_up p c) = gsts c" "gsts (ref_down p c) = gsts c"
  "gov_list (ref_up p c) = gov_list c" "gov_list (ref_down p c) = gov_list c"
  "rwsem (ref_up p c) = rwsem c" "rwsem (ref_down p c) = rwsem c" "policy_cpu (ref_up p c) = policy_cpu c"
  "policy_cpu (ref_down p c) = policy_cpu c" "monitor (ref_up p c) = monitor c" "monitor (ref_down p c) = monitor c"
  "target_log (csys (ref_up p c)) = target_log (csys c)" "target_log (csys (ref_down p c)) = target_log (csys c)"
  "pol_refs (csys (ref_up p c)) p = pol_refs (csys c) p + 1" "pol_refs (csys (ref_down p c)) p = pol_refs (csys c) p - 1"
  by (simp_all add: ref_up_def ref_down_def upd_sys_def)

lemma alike_ref [simp]: "alike (csys c) (csys (ref_up p c))" "alike (csys c) (csys (ref_down p c))"
  "same_limits p (csys c) (csys (ref_up q c))" "same_limits p (csys c) (csys (ref_down q c))"
  by (simp_all add: ref_up_def ref_down_def upd_sys_def alike_def same_limits_def)

lemma sem_simps [simp]:
  "csys (set_sem k v c) = csys c" "gsts (set_sem k v c) = gsts c" "the_driver (set_sem k v c) = the_driver c"
  "gov_list (set_sem k v c) = gov_list c" "policy_cpu (set_sem k v c) = policy_cpu c"
  "monitor (set_sem k v c) = monitor c" "rwsem (set_sem k v c) = (rwsem c)(k := v)"
  by (simp_all add: set_sem_def)

lemma lock_write_run:
  assumes "findable c p Sem_free" "policy_cpu c (pol_cpu (pol c p)) = Some k"
  shows "lock_policy_rwsem_write (pol_cpu (pol c p)) c = Some (0, set_sem k Sem_write c)"
  using assms by (auto simp: findable_def lock_policy_rwsem_write_def down_write_def)

lemma lock_read_run:
  assumes "findable c p Sem_free" "policy_cpu c (pol_cpu (pol c p)) = Some k"
  shows "lock_policy_rwsem_read (pol_cpu (pol c p)) c = Some (0, set_sem k (Sem_read 1) c)"
  using assms by (auto simp: findable_def lock_policy_rwsem_read_def down_read_def)

lemma unlock_write_run:
  "policy_cpu c cpu = Some k \<Longrightarrow> rwsem c k = Sem_write \<Longrightarrow> unlock_policy_rwsem_write cpu c = Some (set_sem k Sem_free c)"
  by (simp add: unlock_policy_rwsem_write_def up_write_def)

lemma unlock_read_run:
  "policy_cpu c cpu = Some k \<Longrightarrow> rwsem c k = Sem_read 1 \<Longrightarrow> unlock_policy_rwsem_read cpu c = Some (set_sem k Sem_free c)"
  by (simp add: unlock_policy_rwsem_read_def up_read_def)

lemma findable_ref: "findable c p sem \<Longrightarrow> findable (ref_up p c) p sem"
  by (simp add: findable_def) (simp add: ref_up_def upd_sys_def)

lemma get_policy_run:
  assumes "findable c p sem"
  shows "cpufreq_get_policy (pol_cpu (pol c p)) c = ((0, Some (pol c p)), c)"
proof -
  have "ref_down p (ref_up p c) = c"
    by (simp add: ref_up_def ref_down_def upd_sys_def)
  moreover have "1 < pol_refs (csys (ref_up p c)) p" using assms by (simp add: findable_def)
  ultimately show ?thesis
    by (simp add: cpufreq_get_policy_def get_findable [OF assms] put_ref)
qed

section \<open>The contract of the stack\<close>

text \<open>What the calls from outside rely on besides \<open>core_parts\<close>: a requested module registers known governors,
  the driver reads a frequency, and the governors' own speed files keep to the limits.\<close>

locale core_stack = core_parts +
  assumes modules_known: "set (snd (ce_request_module env str)) \<subseteq> names"
    and target_op: "dr_target d \<noteq> None"
    and get_total: "tuned (g, s) p n \<Longrightarrow> dr_get d = Some get \<Longrightarrow> \<exists>f. get cpu s = Some f \<and> f \<noteq> 0"
    and store_speed: "tuned (g, s) p n \<Longrightarrow> gv_store_setspeed (ce_gov env n) = Some store \<Longrightarrow>
      pol_min (policies s p) \<le> pol_max (policies s p) \<Longrightarrow>
      \<exists>rc g' s'. store p v (g, s) = Some (rc, g', s') \<and> tuned (g', s') p n \<and> sys_frame s' = sys_frame s
        \<and> requests_within p s s'"
    and show_speed: "tuned (g, s) p n \<Longrightarrow> gv_show_setspeed (ce_gov env n) = Some show \<Longrightarrow>
      show p (g, s) = (t, g', s') \<Longrightarrow> tuned (g', s') p n \<and> s' = s"

text \<open>A policy in force that the core can find, with its semaphore in state \<open>sem\<close>.\<close>

definition policy_at ::
  "('g, 'd) core_env \<Rightarrow> 'd cpufreq_driver \<Rightarrow> string set \<Rightarrow> ('g \<times> 'd sys \<Rightarrow> nat \<Rightarrow> string \<Rightarrow> bool)
   \<Rightarrow> ('g, 'd) core \<Rightarrow> nat \<Rightarrow> sem \<Rightarrow> bool" where
  "policy_at env d names tuned c p sem \<longleftrightarrow> (\<exists>n. live_policy env d names tuned c p n) \<and> findable c p sem
     \<and> set (gov_list c) \<subseteq> names \<and> (\<exists>m \<in> names. user_governor (pol c p) = Some m)"

text \<open>What every operation leaves as it was, and the range of its requests.\<close>

definition op_ok :: "nat \<Rightarrow> ('g, 'd) core \<Rightarrow> ('g, 'd) core \<Rightarrow> bool" where
  "op_ok p c c' \<longleftrightarrow> rwsem c' = rwsem c \<and> policy_cpu c' = policy_cpu c \<and> sys_rest p (csys c') = sys_rest p (csys c)
     \<and> (\<exists>reqs. target_log (csys c') = target_log (csys c) @ reqs
          \<and> (\<forall>(r, f, rel) \<in> set reqs. cpuinfo_min (pol c p) \<le> f \<and> f \<le> cpuinfo_max (pol c p)))"

lemma op_ok_refl [simp]: "op_ok p c c"
  by (simp add: op_ok_def)

lemma op_ok_range:
  assumes "op_ok p c c'"
  shows "cpuinfo_min (pol c' p) = cpuinfo_min (pol c p)" "cpuinfo_max (pol c' p) = cpuinfo_max (pol c p)"
    "pol_cpu (pol c' p) = pol_cpu (pol c p)"
  using assms sys_restD(6) [of p "csys c'" "csys c" p] by (simp_all add: op_ok_def fixed_of_eq)

lemma op_ok_trans [trans]:
  assumes "op_ok p c c1" "op_ok p c1 c2"
  shows "op_ok p c c2"
proof -
  obtain r1 where r1: "target_log (csys c1) = target_log (csys c) @ r1"
    "\<forall>(r, f, rel) \<in> set r1. cpuinfo_min (pol c p) \<le> f \<and> f \<le> cpuinfo_max (pol c p)"
    using assms(1) by (auto simp: op_ok_def)
  obtain r2 where r2: "target_log (csys c2) = target_log (csys c1) @ r2"
    "\<forall>(r, f, rel) \<in> set r2. cpuinfo_min (pol c p) \<le> f \<and> f \<le> cpuinfo_max (pol c p)"
    using assms(2) op_ok_range [OF assms(1)] by (auto simp: op_ok_def)
  have "target_log (csys c2) = target_log (csys c) @ (r1 @ r2)"
    "\<forall>(r, f, rel) \<in> set (r1 @ r2). cpuinfo_min (pol c p) \<le> f \<and> f \<le> cpuinfo_max (pol c p)"
    using r1 r2 by auto
  moreover have "rwsem c2 = rwsem c" "policy_cpu c2 = policy_cpu c" "sys_rest p (csys c2) = sys_rest p (csys c)"
    using assms by (simp_all add: op_ok_def)
  ultimately show ?thesis unfolding op_ok_def by blast
qed

lemma findable_op:
  assumes "findable c p sem" "op_ok p c c'"
  shows "findable c' p sem"
  using assms sys_restD [of p "csys c'" "csys c"] op_ok_range(3) [OF assms(2)]
  by (simp add: findable_def op_ok_def)

lemma change_op:
  assumes "change_frame p c c'" "requests_in p c c'" "in_range (pol c' p)"
  shows "op_ok p c c'"
proof -
  have f: "fixed_of (pol c' p) = fixed_of (pol c p)"
    using assms(1) sys_restD(6) [of p "csys c'" "csys c" p] by (simp add: change_frame_def)
  obtain reqs where "target_log (csys c') = target_log (csys c) @ reqs"
    "\<forall>(r, f, rel) \<in> set reqs. pol_min (pol c' p) \<le> f \<and> f \<le> pol_max (pol c' p)"
    using assms(2) by (auto simp: requests_in_def)
  moreover have "cpuinfo_min (pol c p) \<le> pol_min (pol c' p)" "pol_max (pol c' p) \<le> cpuinfo_max (pol c p)"
    using assms(3) f by (simp_all add: in_range_def fixed_of_eq)
  ultimately show ?thesis
    using assms(1) core_frameD(3,4) [of c c'] by (fastforce simp: op_ok_def change_frame_def)
qed

section \<open>The operations under the semaphore\<close>

text \<open>Parts of the state that the invariant does not see.\<close>

lemma policy_at_same:
  assumes "policy_at env d names tuned c p sem"
    and "csys c' = csys c" "gsts c' = gsts c" "the_driver c' = the_driver c" "rwsem c' = rwsem c" "policy_cpu c' = policy_cpu c"
    and "set (gov_list c') \<subseteq> names"
  shows "policy_at env d names tuned c' p sem \<and> op_ok p c c'"
  using assms by (simp add: policy_at_def live_policy_def findable_def op_ok_def)

context core_stack begin

abbreviation (input) at where "at \<equiv> policy_at env d names tuned"

lemma set_policy_op:
  assumes "at c p sem" "pol_governor q = Some m" "m \<in> names"
  shows "\<exists>ret c'. cpufreq_set_policy env p q c = Some (ret, c') \<and> at c' p sem \<and> op_ok p c c'"
proof -
  obtain n where n: "live_policy env d names tuned c p n" using assms(1) by (auto simp: policy_at_def)
  obtain ret c' h where r: "cpufreq_set_policy env p q c = Some (ret, c')" "change_frame p c c'"
    "live_policy env d names tuned c' p h" "requests_in p c c'" "choices (pol c' p) = choices (pol c p)"
    using set_policy_run [OF n assms(2,3)] by blast
  have o: "op_ok p c c'"
    using change_op [OF r(2,4)] r(3) by (simp add: live_policy_def)
  have "at c' p sem"
    using assms(1) r(2,3,5) findable_op [OF _ o] core_frameD(2) [of c c']
    by (auto simp: policy_at_def change_frame_def choices_def)
  with r(1) o show ?thesis by blast
qed

text \<open>Recording the user's choice.\<close>

lemma record_op:
  assumes "at c p sem" "\<And>q. limits_of (f q) = limits_of (q\<lparr>user_min := user_min (f q), user_max := user_max (f q),
      user_policy := user_policy (f q), user_governor := user_governor (f q)\<rparr>) \<and> pol_cur (f q) = pol_cur q"
    and "\<exists>m \<in> names. user_governor (f (pol c p)) = Some m"
  shows "at (set_pol p f c) p sem \<and> op_ok p c (set_pol p f c)"
proof -
  let ?c = "set_pol p f c"
  obtain n where n: "live_policy env d names tuned c p n" using assms(1) by (auto simp: policy_at_def)
  have q: "pol_min (f q) = pol_min q" "pol_max (f q) = pol_max q" "pol_cpu (f q) = pol_cpu q" "pol_cpus (f q) = pol_cpus q"
    "pol_governor (f q) = pol_governor q" "fixed_of (f q) = fixed_of q" "pol_cur (f q) = pol_cur q" for q
    using assms(2) [of q] by (simp_all add: limits_of_eq fixed_of_eq)
  have fr: "change_frame p c ?c" by (rule change_frame_set) (rule q(6))
  have "tuned (gsts ?c, csys ?c) p n"
    using tuned_alike [of "gsts c" "csys c" p n "csys ?c"] n alike_set_pol [of f c p] q
    by (simp add: live_policy_def same_limits_def) (simp add: set_pol_def upd_sys_def)
  then have l: "live_policy env d names tuned ?c p n"
    using live_frame [OF n fr, of n] n q fixed_of_eq [of "f (pol c p)" "pol c p"]
    by (simp add: live_policy_def in_range_def)
  have o: "op_ok p c ?c"
    using change_op [OF fr] l by (simp add: live_policy_def) (simp add: requests_in_same set_pol_def upd_sys_def)
  show ?thesis
    using assms(1,3) l o findable_op [OF _ o] core_frameD(2) [of c ?c] by (auto simp: policy_at_def)
qed

lemma at_governor: "at c p sem \<Longrightarrow> \<exists>m. pol_governor (pol c p) = Some m \<and> m \<in> names"
  by (auto simp: policy_at_def live_policy_def)

lemma store_one_op:
  assumes "at c p sem"
  shows "\<exists>ret c'. store_one env l p buf c = Some (ret, c') \<and> at c' p sem \<and> op_ok p c c'"
proof (cases "sscanf_u buf")
  case None
  then show ?thesis
    using assms get_policy_run [of c p sem] by (simp add: store_one_def policy_at_def)
next
  case (Some v)
  obtain m where m: "pol_governor (set_limit l v (pol c p)) = Some m" "m \<in> names"
    using at_governor [OF assms] by (cases l) (auto simp: set_limit_def)
  obtain ret c1 where c1: "cpufreq_set_policy env p (set_limit l v (pol c p)) c = Some (ret, c1)" "at c1 p sem" "op_ok p c c1"
    using set_policy_op [OF assms m] by blast
  let ?c2 = "set_pol p (keep_limit l) c1"
  have c2: "at ?c2 p sem \<and> op_ok p c1 ?c2"
    by (rule record_op [OF c1(2)])
      (use c1(2) in \<open>cases l; auto simp: keep_limit_def limits_of_eq policy_at_def\<close>)+
  have "store_one env l p buf c = Some (if ret \<noteq> 0 then ret else int (length buf), ?c2)"
    using assms get_policy_run [of c p sem] Some c1(1) by (simp add: store_one_def policy_at_def)
  then show ?thesis using c2 op_ok_trans [OF c1(3)] by blast
qed

lemma load_governors_list: "set gs \<subseteq> names \<Longrightarrow> set (gov_list c) \<subseteq> names \<Longrightarrow>
    set (gov_list (load_governors gs c)) \<subseteq> names"
  by (induction gs arbitrary: c) (auto simp: load_governors_def cpufreq_register_governor_def)

lemma load_governors_keeps:
  "csys (load_governors gs c) = csys c \<and> gsts (load_governors gs c) = gsts c \<and> the_driver (load_governors gs c) = the_driver c
   \<and> rwsem (load_governors gs c) = rwsem c \<and> policy_cpu (load_governors gs c) = policy_cpu c"
  by (induction gs arbitrary: c) (auto simp: load_governors_def cpufreq_register_governor_def)

lemma find_governor_in_list: "find_governor_in str gs = Some g \<Longrightarrow> g \<in> set gs"
  by (induction gs) (auto split: if_splits)

lemma parse_governor_op:
  assumes "at c p sem"
  shows "\<exists>err gg c'. cpufreq_parse_governor env str pp g0 c = (err, pp, gg, c') \<and> at c' p sem \<and> op_ok p c c'
    \<and> (err = 0 \<longrightarrow> (\<exists>m \<in> names. gg = Some m))"
proof -
  have d: "the_driver c = Some d" "set (gov_list c) \<subseteq> names" using assms by (auto simp: policy_at_def live_policy_def)
  show ?thesis
  proof (cases "find_governor str c")
    case (Some t)
    then have "t \<in> names" using d(2) find_governor_in_list by (auto simp: find_governor_def)
    then show ?thesis
      using Some d(1) assms by (simp add: cpufreq_parse_governor_def driver_setpolicy target_op)
  next
    case None
    obtain ret gs where rm: "ce_request_module env str = (ret, gs)" by (cases "ce_request_module env str")
    have gs: "set gs \<subseteq> names" using modules_known [of str] by (simp add: rm)
    let ?c = "load_governors gs c"
    have k: "at ?c p sem \<and> op_ok p c ?c"
      using policy_at_same [OF assms, of ?c] load_governors_keeps [of gs c] load_governors_list [OF gs d(2)] by blast
    have l: "set (gov_list ?c) \<subseteq> names" by (rule load_governors_list [OF gs d(2)])
    have "t \<in> names" if "find_governor str ?c = Some t" for t
      using that l find_governor_in_list by (auto simp: find_governor_def)
    with None d(1) k show ?thesis
      by (cases "if ret = 0 then find_governor str ?c else None")
        (auto simp: cpufreq_parse_governor_def driver_setpolicy target_op rm Let_def split: if_splits)
  qed
qed

lemma store_governor_op:
  assumes "at c p sem"
  shows "\<exists>ret c'. store_scaling_governor env p buf c = Some (ret, c') \<and> at c' p sem \<and> op_ok p c c'"
proof (cases "sscanf_s15 buf")
  case None
  then show ?thesis
    using assms get_policy_run [of c p sem] by (simp add: store_scaling_governor_def policy_at_def)
next
  case (Some str)
  obtain err gg c1 where g: "cpufreq_parse_governor env str (pol_policy (pol c p)) (pol_governor (pol c p)) c
        = (err, pol_policy (pol c p), gg, c1)" "at c1 p sem" "op_ok p c c1" "err = 0 \<longrightarrow> (\<exists>m \<in> names. gg = Some m)"
    using parse_governor_op [OF assms, of str "pol_policy (pol c p)" "pol_governor (pol c p)"]
    by (elim exE conjE) (rule that)
  have run: "store_scaling_governor env p buf c = (if err \<noteq> 0 then Some (- EINVAL, c1)
      else do {
        (ret, c) \<leftarrow> cpufreq_set_policy env p ((pol c p)\<lparr>pol_policy := pol_policy (pol c p), pol_governor := gg\<rparr>) c1;
        let c = set_pol p (\<lambda>q. q\<lparr>user_policy := pol_policy q, user_governor := pol_governor q\<rparr>) c;
        Some (if ret \<noteq> 0 then ret else int (length buf), c)
      })"
    using assms get_policy_run [of c p sem] Some g(1) by (simp add: store_scaling_governor_def policy_at_def)
  show ?thesis
  proof (cases "err = 0")
    case False
    then show ?thesis using run g by auto
  next
    case True
    then obtain m where m: "gg = Some m" "m \<in> names" using g(4) by blast
    obtain ret c2 where c2: "cpufreq_set_policy env p ((pol c p)\<lparr>pol_policy := pol_policy (pol c p), pol_governor := gg\<rparr>) c1
        = Some (ret, c2)" "at c2 p sem" "op_ok p c1 c2"
      using set_policy_op [OF g(2), of "(pol c p)\<lparr>pol_policy := pol_policy (pol c p), pol_governor := gg\<rparr>" m] m by auto
    let ?c3 = "set_pol p (\<lambda>q. q\<lparr>user_policy := pol_policy q, user_governor := pol_governor q\<rparr>) c2"
    have "at ?c3 p sem \<and> op_ok p c2 ?c3"
      by (rule record_op [OF c2(2)]) (use at_governor [OF c2(2)] in \<open>auto simp: limits_of_eq\<close>)
    then show ?thesis
      using run True c2(1) op_ok_trans [OF g(3) c2(3)] op_ok_trans by fastforce
  qed
qed

text \<open>A step of the governor's own code.\<close>

lemma governor_code_op:
  assumes "at c p sem" "pol_governor (pol c p) = Some n" "tuned (g', s') p n" "sys_frame s' = sys_frame (csys c)"
    and "requests_within p (csys c) s'"
  shows "at (c\<lparr>gsts := g', csys := s'\<rparr>) p sem \<and> op_ok p c (c\<lparr>gsts := g', csys := s'\<rparr>)"
proof -
  let ?c = "c\<lparr>gsts := g', csys := s'\<rparr>"
  have n: "live_policy env d names tuned c p n" using assms(1,2) by (auto simp: policy_at_def live_policy_def)
  have fr: "change_frame p c ?c" by (simp add: change_frame_def sys_rest_frame [OF assms(4)])
  have q: "limits_of (policies s' p) = limits_of (pol c p)" by (rule sys_frameD(6) [OF assms(4)])
  have l: "live_policy env d names tuned ?c p n"
    using live_frame [OF n fr, of n] n assms(3) q by (simp add: live_policy_def limits_of_eq in_range_def)
  have "requests_in p c ?c" using assms(5) q by (simp add: requests_in_def requests_within_def limits_of_eq)
  then have o: "op_ok p c ?c" using change_op [OF fr] l by (simp add: live_policy_def)
  show ?thesis
    using assms(1) l o findable_op [OF _ o] q by (auto simp: policy_at_def limits_of_eq)
qed

lemma store_speed_op:
  assumes "at c p sem"
  shows "\<exists>ret c'. store_scaling_setspeed env p buf c = Some (ret, c') \<and> at c' p sem \<and> op_ok p c c'"
proof -
  obtain n where n: "live_policy env d names tuned c p n" using assms by (auto simp: policy_at_def)
  then have l: "pol_governor (pol c p) = Some n" "tuned (gsts c, csys c) p n" "pol_min (pol c p) \<le> pol_max (pol c p)"
    by (simp_all add: live_policy_def in_range_def)
  show ?thesis
  proof (cases "gv_store_setspeed (ce_gov env n)")
    case None
    then show ?thesis using assms l(1) by (simp add: store_scaling_setspeed_def)
  next
    case (Some f)
    show ?thesis
    proof (cases "sscanf_u buf")
      case None
      then show ?thesis using assms l(1) Some by (simp add: store_scaling_setspeed_def)
    next
      case v: (Some v)
      obtain rc g' s' where r: "f p v (gsts c, csys c) = Some (rc, g', s')" "tuned (g', s') p n"
        "sys_frame s' = sys_frame (csys c)" "requests_within p (csys c) s'"
        using store_speed [OF l(2) Some l(3)] by blast
      then show ?thesis
        using governor_code_op [OF assms l(1) r(2-4)] l(1) Some v by (simp add: store_scaling_setspeed_def)
    qed
  qed
qed

lemma show_speed_op:
  assumes "at c p sem"
  shows "\<exists>t c'. show_scaling_setspeed env p c = (t, c') \<and> at c' p sem \<and> op_ok p c c'"
proof -
  obtain n where n: "live_policy env d names tuned c p n" using assms by (auto simp: policy_at_def)
  then have l: "pol_governor (pol c p) = Some n" "tuned (gsts c, csys c) p n"
    by (simp_all add: live_policy_def)
  show ?thesis
  proof (cases "gv_show_setspeed (ce_gov env n)")
    case None
    then show ?thesis using assms l(1) by (simp add: show_scaling_setspeed_def)
  next
    case (Some f)
    obtain t g' s' where r: "f p (gsts c, csys c) = (t, g', s')" by (metis prod.exhaust)
    have "tuned (g', csys c) p n \<and> s' = csys c" using show_speed [OF l(2) Some r] by auto
    then show ?thesis
      using governor_code_op [OF assms l(1), of g' "csys c"] l(1) Some r by (simp add: show_scaling_setspeed_def)
  qed
qed

end

end
