(* ===== verification/Core_Stack.thy ===== *)
theory Core_Stack
  imports Core_Calls
begin

text \<open>
  The whole calls under the contract of \<open>core_stack\<close>: reading the frequency, re-evaluating the policy, the
  files, and the wrappers that take and return the reference and the semaphore; and their sequences.
\<close>

section \<open>The frequency the hardware reports\<close>

lemma out_of_sync_run:
  assumes "the_driver c = Some d" "new \<noteq> 0"
  shows "\<exists>s'. cpufreq_out_of_sync env cpu old new c = Some (c\<lparr>csys := s'\<rparr>) \<and> sys_frame s' = sys_frame (csys c)
    \<and> alike (csys c) s' \<and> target_log s' = target_log (csys c)"
proof -
  let ?n = "cpufreq_notify_transition (ce_scale env) (dr_const_loops d)"
  obtain fr1 s1 where 1: "?n PRECHANGE (\<lparr>fr_cpu = cpu, fr_old = old, fr_new = new\<rparr>, csys c) = (fr1, s1)"
    by (metis prod.exhaust)
  obtain fr2 s2 where 2: "?n POSTCHANGE (fr1, s1) = (fr2, s2)" by (metis prod.exhaust)
  note k1 = notify_keeps [OF 1] and k2 = notify_keeps [OF 2]
  have p1: "policies s1 = policies (csys c)" by (rule notify_pre_policies [OF 1])
  note p2 = notify_post_policies [OF 2]
  have f: "sys_frame s2 = sys_frame (csys c)"
    using k1(1,2,5,8-10) k2(1,2,5,8-10) by (simp add: sys_frame_def)
  have "pol_cur (policies (csys c) q) \<noteq> 0 \<longrightarrow> pol_cur (policies s2 q) \<noteq> 0" for q
    using p1 p2 k1(7) assms(2) by (auto split: option.splits)
  moreover have "pol_cpu (policies s2 q) = pol_cpu (policies (csys c) q) \<and> pol_cpus (policies s2 q) = pol_cpus (policies (csys c) q)" for q
    using sys_frameD(6) [OF f, of q] by (simp add: limits_of_eq)
  ultimately have "alike (csys c) s2"
    using k1(1-3,8,9) k2(1-3,8,9) by (simp add: alike_def)
  moreover have "cpufreq_out_of_sync env cpu old new c = Some (c\<lparr>csys := s2\<rparr>)"
    using assms(1) 1 2 by (simp add: cpufreq_out_of_sync_def)
  ultimately show ?thesis using f k1(4) k2(4) by auto
qed

context core_stack begin

lemma sys_op:
  assumes "policy_at env d names tuned c p sem" "alike (csys c) s'" "sys_frame s' = sys_frame (csys c)"
    "target_log s' = target_log (csys c)"
  shows "policy_at env d names tuned (c\<lparr>csys := s'\<rparr>) p sem \<and> op_ok p c (c\<lparr>csys := s'\<rparr>)"
proof -
  obtain n where n: "live_policy env d names tuned c p n" using assms(1) by (auto simp: policy_at_def)
  have l: "limits_of (policies s' p) = limits_of (pol c p)" by (rule sys_frameD(6) [OF assms(3)])
  have "tuned (gsts c, s') p n"
    using tuned_alike [of "gsts c" "csys c" p n s'] n assms(2) l by (simp add: live_policy_def same_limits_def limits_of_eq)
  moreover have "requests_within p (csys c) s'" using assms(4) by simp
  moreover have "pol_governor (pol c p) = Some n" using n by (simp add: live_policy_def)
  ultimately have "policy_at env d names tuned (c\<lparr>gsts := gsts c, csys := s'\<rparr>) p sem
      \<and> op_ok p c (c\<lparr>gsts := gsts c, csys := s'\<rparr>)"
    using governor_code_op [OF assms(1) _ _ assms(3)] by blast
  then show ?thesis by simp
qed

lemma get_locked_op:
  assumes "policy_at env d names tuned c p sem"
  shows "\<exists>f c'. cpufreq_get_locked env (pol_cpu (pol c p)) c = Some (f, c') \<and> policy_at env d names tuned c' p sem \<and> op_ok p c c'"
proof -
  obtain n where n: "live_policy env d names tuned c p n" using assms by (auto simp: policy_at_def)
  then have l: "the_driver c = Some d" "tuned (gsts c, csys c) p n" by (simp_all add: live_policy_def)
  have cd: "cpu_data (csys c) (pol_cpu (pol c p)) = Some p" using assms by (simp add: policy_at_def findable_def)
  show ?thesis
  proof (cases "dr_get d")
    case None
    then show ?thesis using assms l(1) by (simp add: cpufreq_get_locked_def)
  next
    case (Some get)
    obtain f where f: "get (pol_cpu (pol c p)) (csys c) = Some f" "f \<noteq> 0" using get_total [OF l(2) Some] by blast
    show ?thesis
    proof (cases "pol_cur (pol c p) \<noteq> 0 \<and> \<not> dr_const_loops d \<and> f \<noteq> pol_cur (pol c p)")
      case False
      then show ?thesis using assms l(1) Some f cd by (auto simp: cpufreq_get_locked_def)
    next
      case True
      obtain s' where s: "cpufreq_out_of_sync env (pol_cpu (pol c p)) (pol_cur (pol c p)) f c = Some (c\<lparr>csys := s'\<rparr>)"
        "sys_frame s' = sys_frame (csys c)" "alike (csys c) s'" "target_log s' = target_log (csys c)"
        using out_of_sync_run [OF l(1) f(2)] by blast
      let ?c = "c\<lparr>csys := s'\<rparr>"
      let ?w = "?c\<lparr>update_work := insert p (update_work c)\<rparr>"
      have 1: "policy_at env d names tuned ?c p sem \<and> op_ok p c ?c" by (rule sys_op [OF assms s(3,2,4)])
      have "policy_at env d names tuned ?w p sem \<and> op_ok p ?c ?w"
        using policy_at_same [of env d names tuned ?c p sem ?w] 1 by (simp add: policy_at_def)
      then show ?thesis
        using 1 l(1) Some f cd s(1) True op_ok_trans by (fastforce simp: cpufreq_get_locked_def)
    qed
  qed
qed

lemma resync_op:
  assumes "policy_at env d names tuned c p sem"
  shows "\<exists>cur c'. resync env (pol_cpu (pol c p)) p q c = Some (q\<lparr>pol_cur := cur\<rparr>, c')
    \<and> policy_at env d names tuned c' p sem \<and> op_ok p c c'"
proof -
  obtain n where n: "live_policy env d names tuned c p n" using assms by (auto simp: policy_at_def)
  then have l: "the_driver c = Some d" "tuned (gsts c, csys c) p n" by (simp_all add: live_policy_def)
  show ?thesis
  proof (cases "dr_get d")
    case None
    have "resync env (pol_cpu (pol c p)) p q c = Some (q\<lparr>pol_cur := pol_cur q\<rparr>, c)"
      using None l(1) by (simp add: resync_def)
    then show ?thesis using assms by (intro exI [of _ "pol_cur q"] exI [of _ c]) simp
  next
    case (Some get)
    obtain f where f: "get (pol_cpu (pol c p)) (csys c) = Some f" "f \<noteq> 0" using get_total [OF l(2) Some] by blast
    consider "pol_cur (pol c p) = 0" | "pol_cur (pol c p) \<noteq> 0" "pol_cur (pol c p) \<noteq> f" | "pol_cur (pol c p) = f"
      by blast
    then show ?thesis
    proof cases
      case 1
      let ?s = "csys (set_pol p (\<lambda>q. q\<lparr>pol_cur := f\<rparr>) c)"
      have e: "set_pol p (\<lambda>q. q\<lparr>pol_cur := f\<rparr>) c = c\<lparr>csys := ?s\<rparr>" by (simp add: set_pol_def upd_sys_def)
      have "policy_at env d names tuned (c\<lparr>csys := ?s\<rparr>) p sem \<and> op_ok p c (c\<lparr>csys := ?s\<rparr>)"
        by (rule sys_op [OF assms]) (use f(2) in \<open>simp_all add: set_pol_def upd_sys_def alike_def sys_frame_def limits_of_def fun_eq_iff\<close>)
      moreover have "resync env (pol_cpu (pol c p)) p q c = Some (q\<lparr>pol_cur := f\<rparr>, c\<lparr>csys := ?s\<rparr>)"
        using 1 l(1) Some f(1) e by (simp add: resync_def)
      ultimately show ?thesis by blast
    next
      case 2
      obtain s' where s: "cpufreq_out_of_sync env (pol_cpu (pol c p)) (pol_cur (pol c p)) f c = Some (c\<lparr>csys := s'\<rparr>)"
        "sys_frame s' = sys_frame (csys c)" "alike (csys c) s'" "target_log s' = target_log (csys c)"
        using out_of_sync_run [OF l(1) f(2)] by blast
      have "policy_at env d names tuned (c\<lparr>csys := s'\<rparr>) p sem \<and> op_ok p c (c\<lparr>csys := s'\<rparr>)"
        by (rule sys_op [OF assms s(3,2,4)])
      then show ?thesis using 2 l(1) Some f s(1) by (auto simp: resync_def)
    next
      case 3
      then show ?thesis using assms l(1) Some f by (auto simp: resync_def)
    qed
  qed
qed

section \<open>The files\<close>

lemma status_monitor_store_total: "\<exists>r. store_status_monitor f buf m = Some r"
proof (cases "sscanf_d buf")
  case (Some v)
  have "length sm_header \<le> SM_SIZE" by (simp add: sm_header_def bracketed_def)
  then show ?thesis
    using Some by (simp add: store_status_monitor_def status_monitor_write_file_def strncpy_at_def Let_def)
qed (simp add: store_status_monitor_def)

lemma fattr_store_op:
  assumes "policy_at env d names tuned c p sem"
  shows "\<exists>ret c'. fattr_store env a p buf c = Some (ret, c') \<and> policy_at env d names tuned c' p sem \<and> op_ok p c c'"
proof -
  have g: "set (gov_list c) \<subseteq> names" using assms by (simp add: policy_at_def)
  consider "a = scaling_min_freq" | "a = scaling_max_freq" | "a = scaling_governor" | "a = scaling_setspeed"
    | "a = use_pss" | "a = status_monitor_file"
    | "a \<notin> {scaling_min_freq, scaling_max_freq, scaling_governor, scaling_setspeed, use_pss, status_monitor_file}"
    by blast
  then show ?thesis
  proof cases
    case 5
    obtain r c' where r: "store_use_pss buf c = (r, c')" by (metis prod.exhaust)
    have "policy_at env d names tuned c' p sem \<and> op_ok p c c'"
      by (rule policy_at_same [OF assms]) (use r g in \<open>auto simp: store_use_pss_def split: option.splits\<close>)
    then show ?thesis using 5 r by (simp add: fattr_store_def)
  next
    case 6
    obtain r m where r: "store_status_monitor (ce_msecs_to_jiffies env) buf (monitor c) = Some (r, m)"
      using status_monitor_store_total by (metis prod.exhaust)
    have "policy_at env d names tuned (c\<lparr>monitor := m\<rparr>) p sem \<and> op_ok p c (c\<lparr>monitor := m\<rparr>)"
      by (rule policy_at_same [OF assms]) (use g in simp_all)
    then show ?thesis using 6 r by (simp add: fattr_store_def)
  next
    case 7
    then have "fattr_store env a p buf c = Some (- EIO, c)" by (cases a) (simp_all add: fattr_store_def)
    then show ?thesis using assms op_ok_refl by blast
  qed (use store_one_op [OF assms] store_governor_op [OF assms] store_speed_op [OF assms]
      in \<open>simp_all add: fattr_store_def\<close>)
qed

lemma fattr_show_op:
  assumes "policy_at env d names tuned c p sem"
  shows "\<exists>t c'. fattr_show env a p c = Some (t, c') \<and> policy_at env d names tuned c' p sem \<and> op_ok p c c'"
proof -
  have d: "the_driver c = Some d" using assms by (auto simp: policy_at_def live_policy_def)
  have other: "\<exists>t. fattr_show env a p c = Some (t, c)" if "a \<noteq> cpuinfo_cur_freq" "a \<noteq> scaling_setspeed"
    using that d by (cases a) (simp_all add: fattr_show_def Let_def show_scaling_driver_def
        show_scaling_available_governors_def show_bios_limit_def)
  then consider "a = cpuinfo_cur_freq" | "a = scaling_setspeed" | "\<exists>t. fattr_show env a p c = Some (t, c)"
    by blast
  then show ?thesis
  proof cases
    case 1
    obtain f c' where f: "cpufreq_get_locked env (pol_cpu (pol c p)) c = Some (f, c')"
      "policy_at env d names tuned c' p sem" "op_ok p c c'"
      using get_locked_op [OF assms] by blast
    then show ?thesis by (simp add: 1 fattr_show_def Let_def show_cpuinfo_cur_freq_def)
  next
    case 2
    then show ?thesis using show_speed_op [OF assms] by (auto simp: fattr_show_def Let_def)
  next
    case 3
    then show ?thesis using assms op_ok_refl by blast
  qed
qed

end

section \<open>The wrappers\<close>

lemma sys_rest_ref:
  "sys_rest p (csys x) = sys_rest p (csys y) \<Longrightarrow> sys_rest p (csys (ref_down q x)) = sys_rest p (csys (ref_down q y))"
  by (simp add: sys_rest_def ref_down_def upd_sys_def cong: if_cong)

lemma ref_down_up: "csys (ref_down p (set_sem k v (ref_up p c))) = csys c"
  by (simp add: ref_up_def ref_down_def upd_sys_def set_sem_def)

context core_stack begin

lemma policy_at_ref:
  assumes "policy_at env d names tuned c p sem" "policy_cpu c (pol_cpu (pol c p)) = Some k"
  shows "policy_at env d names tuned (set_sem k v (ref_up p c)) p v"
    "1 < pol_refs (csys c) p \<Longrightarrow> policy_at env d names tuned (ref_down p (set_sem k v c)) p v"
proof -
  obtain n where n: "live_policy env d names tuned c p n" using assms(1) by (auto simp: policy_at_def)
  have t: "tuned (gsts c, csys (ref_up p c)) p n" "tuned (gsts c, csys (ref_down p c)) p n"
    using tuned_alike [of "gsts c" "csys c" p n] n by (simp_all add: live_policy_def)
  have "live_policy env d names tuned (set_sem k v (ref_up p c)) p n"
    "live_policy env d names tuned (ref_down p (set_sem k v c)) p n"
    using n t by (simp_all add: live_policy_def) (simp add: ref_down_def upd_sys_def set_sem_def)
  then show "policy_at env d names tuned (set_sem k v (ref_up p c)) p v"
    "1 < pol_refs (csys c) p \<Longrightarrow> policy_at env d names tuned (ref_down p (set_sem k v c)) p v"
    using assms by (auto simp: policy_at_def findable_def) (auto simp: ref_up_def ref_down_def upd_sys_def)
qed

text \<open>One call: the reference and the semaphore are taken, the operation runs, both are given back.\<close>

lemma locked_call:
  assumes at: "policy_at env d names tuned c p Sem_free" and k: "policy_cpu c (pol_cpu (pol c p)) = Some k"
    and held: "held = Sem_write \<or> held = Sem_read 1"
    and oper: "policy_at env d names tuned (set_sem k held (ref_up p c)) p held \<Longrightarrow>
      \<exists>r c3. oper (set_sem k held (ref_up p c)) = Some (r, c3) \<and> policy_at env d names tuned c3 p held
        \<and> op_ok p (set_sem k held (ref_up p c)) c3"
  shows "\<exists>r c3 c5. oper (set_sem k held (ref_up p c)) = Some (r, c3)
    \<and> policy_cpu c3 (pol_cpu (pol c p)) = Some k \<and> pol_cpu (pol c3 p) = pol_cpu (pol c p)
    \<and> rwsem c3 k = held \<and> kobject_put p (set_sem k Sem_free c3) = c5
    \<and> policy_at env d names tuned c5 p Sem_free \<and> op_ok p c c5"
proof -
  let ?c2 = "set_sem k held (ref_up p c)"
  obtain r c3 where c3: "oper ?c2 = Some (r, c3)" "policy_at env d names tuned c3 p held" "op_ok p ?c2 c3"
    using oper policy_at_ref(1) [OF at k] by blast
  have pc: "policy_cpu c3 = policy_cpu c" "rwsem c3 = (rwsem c)(k := held)" "pol_cpu (pol c3 p) = pol_cpu (pol c p)"
    "sys_rest p (csys c3) = sys_rest p (csys ?c2)"
    using c3(3) op_ok_range(3) [OF c3(3)] by (simp_all add: op_ok_def)
  have refs: "pol_refs (csys c3) p = pol_refs (csys c) p + 1"
    using sys_restD(5) [OF pc(4)] by simp
  then have r1: "1 < pol_refs (csys (set_sem k Sem_free c3)) p"
    using at by (simp add: policy_at_def findable_def)
  let ?c5 = "ref_down p (set_sem k Sem_free c3)"
  have put: "kobject_put p (set_sem k Sem_free c3) = ?c5" by (rule put_ref [OF r1])
  have k3: "policy_cpu c3 (pol_cpu (pol c3 p)) = Some k" using pc(1,3) k by simp
  have at5: "policy_at env d names tuned ?c5 p Sem_free"
    using policy_at_ref(2) [OF c3(2) k3] r1 by simp
  have free: "rwsem c k = Sem_free" using at k by (auto simp: policy_at_def findable_def)
  have "sys_rest p (csys ?c5) = sys_rest p (csys (ref_down p (set_sem k held (ref_up p c))))"
    by (rule sys_rest_ref) (simp add: pc(4))
  then have rest: "sys_rest p (csys ?c5) = sys_rest p (csys c)" by (simp add: ref_down_up)
  have log: "target_log (csys ?c5) = target_log (csys c3)" "target_log (csys ?c2) = target_log (csys c)"
    "pol ?c2 p = pol c p"
    by simp_all
  have "op_ok p c ?c5"
    using c3(3) log rest free pc(1,2) unfolding op_ok_def by (simp add: fun_upd_idem)
  with c3(1) put at5 pc k k3 show ?thesis by auto
qed

lemma store_call:
  assumes "policy_at env d names tuned c p Sem_free"
  shows "\<exists>r c'. cpufreq_store env a p buf c = Some (r, c') \<and> policy_at env d names tuned c' p Sem_free \<and> op_ok p c c'"
proof -
  have f: "findable c p Sem_free" using assms by (simp add: policy_at_def)
  obtain k where k: "policy_cpu c (pol_cpu (pol c p)) = Some k" using f by (auto simp: findable_def)
  obtain r c3 c5 where c: "fattr_store env a p buf (set_sem k Sem_write (ref_up p c)) = Some (r, c3)"
    "policy_cpu c3 (pol_cpu (pol c p)) = Some k" "pol_cpu (pol c3 p) = pol_cpu (pol c p)" "rwsem c3 k = Sem_write"
    "kobject_put p (set_sem k Sem_free c3) = c5" "policy_at env d names tuned c5 p Sem_free" "op_ok p c c5"
    using locked_call [OF assms k disjI1 [OF refl], of "fattr_store env a p buf"] fattr_store_op by blast
  have "lock_policy_rwsem_write (pol_cpu (pol c p)) (ref_up p c) = Some (0, set_sem k Sem_write (ref_up p c))"
    using lock_write_run [OF findable_ref [OF f], of k] k by simp
  then have "cpufreq_store env a p buf c = Some (r, c5)"
    using get_findable [OF f] c(1-5) unlock_write_run [of c3 "pol_cpu (pol c p)" k] by (simp add: cpufreq_store_def)
  with c(6,7) show ?thesis by blast
qed

lemma show_call:
  assumes "policy_at env d names tuned c p Sem_free"
  shows "\<exists>r c'. cpufreq_show env a p c = Some (r, c') \<and> policy_at env d names tuned c' p Sem_free \<and> op_ok p c c'"
proof -
  have f: "findable c p Sem_free" using assms by (simp add: policy_at_def)
  obtain k where k: "policy_cpu c (pol_cpu (pol c p)) = Some k" using f by (auto simp: findable_def)
  obtain r c3 c5 where c: "fattr_show env a p (set_sem k (Sem_read 1) (ref_up p c)) = Some (r, c3)"
    "policy_cpu c3 (pol_cpu (pol c p)) = Some k" "pol_cpu (pol c3 p) = pol_cpu (pol c p)" "rwsem c3 k = Sem_read 1"
    "kobject_put p (set_sem k Sem_free c3) = c5" "policy_at env d names tuned c5 p Sem_free" "op_ok p c c5"
    using locked_call [OF assms k disjI2 [OF refl], of "fattr_show env a p"] fattr_show_op by blast
  have "lock_policy_rwsem_read (pol_cpu (pol c p)) (ref_up p c) = Some (0, set_sem k (Sem_read 1) (ref_up p c))"
    using lock_read_run [OF findable_ref [OF f], of k] k by simp
  then have "cpufreq_show env a p c = Some (r, c5)"
    using get_findable [OF f] c(1-5) unlock_read_run [of c3 "pol_cpu (pol c p)" k] by (simp add: cpufreq_show_def)
  with c(6,7) show ?thesis by blast
qed

lemma get_call:
  assumes "policy_at env d names tuned c p Sem_free"
  shows "\<exists>r c'. cpufreq_get env (pol_cpu (pol c p)) c = Some (r, c') \<and> policy_at env d names tuned c' p Sem_free \<and> op_ok p c c'"
proof -
  have f: "findable c p Sem_free" using assms by (simp add: policy_at_def)
  obtain k where k: "policy_cpu c (pol_cpu (pol c p)) = Some k" using f by (auto simp: findable_def)
  obtain r c3 c5 where c: "cpufreq_get_locked env (pol_cpu (pol c p)) (set_sem k (Sem_read 1) (ref_up p c)) = Some (r, c3)"
    "policy_cpu c3 (pol_cpu (pol c p)) = Some k" "pol_cpu (pol c3 p) = pol_cpu (pol c p)" "rwsem c3 k = Sem_read 1"
    "kobject_put p (set_sem k Sem_free c3) = c5" "policy_at env d names tuned c5 p Sem_free" "op_ok p c c5"
    using locked_call [OF assms k disjI2 [OF refl], of "cpufreq_get_locked env (pol_cpu (pol c p))"]
      get_locked_op [of "set_sem k (Sem_read 1) (ref_up p c)" p "Sem_read 1"] by auto
  have "lock_policy_rwsem_read (pol_cpu (pol c p)) (ref_up p c) = Some (0, set_sem k (Sem_read 1) (ref_up p c))"
    using lock_read_run [OF findable_ref [OF f], of k] k by simp
  then have "cpufreq_get env (pol_cpu (pol c p)) c = Some (r, c5)"
    using get_findable [OF f] c(1-5) unlock_read_run [of c3 "pol_cpu (pol c p)" k] by (simp add: cpufreq_get_def)
  with c(6,7) show ?thesis by blast
qed

lemma update_call:
  assumes "policy_at env d names tuned c p Sem_free"
  shows "\<exists>r c'. cpufreq_update_policy env (pol_cpu (pol c p)) c = Some (r, c') \<and> policy_at env d names tuned c' p Sem_free
    \<and> op_ok p c c'"
proof -
  define oper where "oper = (\<lambda>b. do { (policy, b) \<leftarrow> resync env (pol_cpu (pol c p)) p (user_choice (pol b p)) b;
     cpufreq_set_policy env p policy b })"
  have f: "findable c p Sem_free" using assms by (simp add: policy_at_def)
  obtain k where k: "policy_cpu c (pol_cpu (pol c p)) = Some k" using f by (auto simp: findable_def)
  have oper: "\<exists>r b'. oper b = Some (r, b') \<and> policy_at env d names tuned b' p Sem_write \<and> op_ok p b b'"
    if b: "policy_at env d names tuned b p Sem_write" "pol_cpu (pol b p) = pol_cpu (pol c p)" for b
  proof -
    obtain cur b1 where b1: "resync env (pol_cpu (pol b p)) p (user_choice (pol b p)) b
        = Some ((user_choice (pol b p))\<lparr>pol_cur := cur\<rparr>, b1)" "policy_at env d names tuned b1 p Sem_write" "op_ok p b b1"
      using resync_op [OF b(1)] by blast
    obtain m where m: "pol_governor ((user_choice (pol b p))\<lparr>pol_cur := cur\<rparr>) = Some m" "m \<in> names"
      using b(1) by (auto simp: policy_at_def user_choice_def)
    obtain r b2 where b2: "cpufreq_set_policy env p ((user_choice (pol b p))\<lparr>pol_cur := cur\<rparr>) b1 = Some (r, b2)"
      "policy_at env d names tuned b2 p Sem_write" "op_ok p b1 b2"
      using set_policy_op [OF b1(2) m] by blast
    have "oper b = Some (r, b2)" using b1(1) b2(1) by (simp add: oper_def b(2))
    with b2(2) op_ok_trans [OF b1(3) b2(3)] show ?thesis by blast
  qed
  obtain r c3 c5 where c: "oper (set_sem k Sem_write (ref_up p c)) = Some (r, c3)"
    "policy_cpu c3 (pol_cpu (pol c p)) = Some k" "rwsem c3 k = Sem_write"
    "kobject_put p (set_sem k Sem_free c3) = c5" "policy_at env d names tuned c5 p Sem_free" "op_ok p c c5"
    using locked_call [OF assms k disjI1 [OF refl], of oper] oper [of "set_sem k Sem_write (ref_up p c)"] by auto
  have "lock_policy_rwsem_write (pol_cpu (pol c p)) (ref_up p c) = Some (0, set_sem k Sem_write (ref_up p c))"
    using lock_write_run [OF findable_ref [OF f], of k] k by simp
  moreover obtain policy b where b: "resync env (pol_cpu (pol c p)) p (user_choice (pol (set_sem k Sem_write (ref_up p c)) p))
      (set_sem k Sem_write (ref_up p c)) = Some (policy, b)" "cpufreq_set_policy env p policy b = Some (r, c3)"
    using c(1) by (auto simp: oper_def fault_simps)
  ultimately have "cpufreq_update_policy env (pol_cpu (pol c p)) c = Some (r, c5)"
    using get_findable [OF f] c(2-4) unlock_write_run [of c3 "pol_cpu (pol c p)" k]
    by (simp add: cpufreq_update_policy_def)
  with c(5,6) show ?thesis by blast
qed

section \<open>Sequences\<close>

lemma step_call:
  assumes "policy_at env d names tuned c p Sem_free"
  shows "\<exists>c'. core_call_step env p x c = Some c' \<and> policy_at env d names tuned c' p Sem_free \<and> op_ok p c c'"
proof (cases x)
  case Resume_work
  let ?c = "c\<lparr>update_work := update_work c - {p}\<rparr>"
  have "policy_at env d names tuned ?c p Sem_free \<and> op_ok p c ?c"
    by (rule policy_at_same [OF assms]) (use assms in \<open>simp_all add: policy_at_def\<close>)
  then show ?thesis
    using update_call [of ?c p] op_ok_trans [of p c ?c] by (fastforce simp: Resume_work handle_update_def)
qed (use store_call [OF assms] show_call [OF assms] update_call [OF assms] get_call [OF assms] in \<open>fastforce+\<close>)

lemma core_calls_run:
  "policy_at env d names tuned c p Sem_free \<Longrightarrow>
   \<exists>c'. core_calls env p xs c = Some c' \<and> policy_at env d names tuned c' p Sem_free \<and> op_ok p c c'"
proof (induction xs arbitrary: c)
  case (Cons x xs)
  obtain c1 where c1: "core_call_step env p x c = Some c1" "policy_at env d names tuned c1 p Sem_free" "op_ok p c c1"
    using step_call [OF Cons.prems] by blast
  obtain c2 where "core_calls env p xs c1 = Some c2" "policy_at env d names tuned c2 p Sem_free" "op_ok p c1 c2"
    using Cons.IH [OF c1(2)] by blast
  with c1 op_ok_trans [OF c1(3)] show ?case by auto
qed simp

end

end
