(* ===== verification/Exynos_Votes.thy ===== *)
theory Exynos_Votes
  imports Prelude
begin

text \<open>
  The arbitration of frequency levels in \<open>arch/arm/mach-exynos/cpufreq.c\<close>. The lock and the limit each
  have a mask of the devices that hold a level, the level of every device and the level in force:
  \<open>g_cpufreq_lock_{id,val,level}\<close> and \<open>g_cpufreq_limit_{id,val,level}\<close>. A level is an index into the
  frequency table, 0 the fastest: the smallest lock and the largest limit are in force.
\<close>

record votes =
  v_id :: u32
  v_val :: "u32 list"
  v_level :: u32

definition vote_held :: "votes \<Rightarrow> nat \<Rightarrow> bool" where
  "vote_held v nId \<longleftrightarrow> bit (v_id v) nId"

text \<open>Taking a level (under \<open>set_cpu_freq_lock\<close>): \<open>better\<close> is \<open><\<close> for the lock, \<open>>\<close> for the limit.\<close>

definition vote_take :: "(u32 \<Rightarrow> u32 \<Rightarrow> bool) \<Rightarrow> nat \<Rightarrow> u32 \<Rightarrow> votes \<Rightarrow> votes" where
  "vote_take better nId lvl v =
     v\<lparr>v_id := v_id v OR push_bit nId 1, v_val := (v_val v)[nId := lvl],
       v_level := (if better lvl (v_level v) then lvl else v_level v)\<rparr>"

text \<open>Freeing it: \<open>rest\<close> is the level in force when nobody holds one.\<close>

definition vote_free :: "(u32 \<Rightarrow> u32 \<Rightarrow> bool) \<Rightarrow> u32 \<Rightarrow> nat \<Rightarrow> votes \<Rightarrow> votes" where
  "vote_free better rest nId v =
     (let ids = v_id v AND NOT (push_bit nId 1); vals = (v_val v)[nId := rest] in
      \<lparr>v_id = ids, v_val = vals,
       v_level = (if ids \<noteq> 0
                  then fold (\<lambda>x lvl. if better x lvl then x else lvl) vals rest else rest)\<rparr>)"

definition votes_init :: "nat \<Rightarrow> u32 \<Rightarrow> votes \<Rightarrow> votes" where
  "votes_init n rest v = v\<lparr>v_val := replicate n rest, v_level := rest\<rparr>"

lemma bit_u32_exp [simp]: "bit (2 ^ k :: u32) i \<longleftrightarrow> i = k \<and> i < 32"
  by (auto simp: bit_exp_iff)

section \<open>The level in force is the best one held\<close>

text \<open>The contract of both arbitrations, over an order on levels.\<close>

locale level_order =
  fixes better :: "u32 \<Rightarrow> u32 \<Rightarrow> bool"
  assumes irrefl: "\<not> better x x"
    and trans: "better x y \<Longrightarrow> better y z \<Longrightarrow> better x z"
    and total: "better x y \<or> x = y \<or> better y x"
begin

definition best_of :: "u32 \<Rightarrow> u32 set \<Rightarrow> bool" where
  "best_of lvl xs \<longleftrightarrow> lvl \<in> xs \<and> (\<forall>x \<in> xs. \<not> better x lvl)"

lemma not_better_trans: "\<not> better x y \<Longrightarrow> \<not> better y z \<Longrightarrow> \<not> better x z"
  using total trans irrefl by metis

lemma best_unique: "best_of a xs \<Longrightarrow> best_of b xs \<Longrightarrow> a = b"
  unfolding best_of_def using total by blast

lemma fold_best:
  "best_of (fold (\<lambda>x lvl. if better x lvl then x else lvl) xs a) (insert a (set xs))"
proof (induction xs arbitrary: a)
  case Nil
  then show ?case by (simp add: best_of_def irrefl)
next
  case (Cons x xs)
  let ?b = "if better x a then x else a"
  let ?r = "fold (\<lambda>x lvl. if better x lvl then x else lvl) xs ?b"
  have r: "best_of ?r (insert ?b (set xs))" by (rule Cons.IH)
  have b: "\<not> better x ?b" "\<not> better a ?b" using irrefl trans by auto
  have br: "\<not> better ?b ?r" using r by (simp add: best_of_def)
  have "\<not> better x ?r" "\<not> better a ?r"
    by (rule not_better_trans [OF b(1) br], rule not_better_trans [OF b(2) br])
  with r show ?case by (auto simp: best_of_def)
qed

definition votes_ok :: "nat \<Rightarrow> u32 \<Rightarrow> votes \<Rightarrow> bool" where
  "votes_ok n rest v \<longleftrightarrow> length (v_val v) = n \<and> n \<le> 32
     \<and> (\<forall>i. bit (v_id v) i \<longrightarrow> i < n) \<and> (\<forall>i < n. \<not> bit (v_id v) i \<longrightarrow> v_val v ! i = rest)
     \<and> best_of (v_level v) (insert rest (set (v_val v)))"

lemma init_ok: "v_id v = 0 \<Longrightarrow> n \<le> 32 \<Longrightarrow> votes_ok n rest (votes_init n rest v)"
  by (auto simp: votes_ok_def votes_init_def best_of_def irrefl)

lemma take_ok:
  assumes "votes_ok n rest v" "nId < n" "\<not> vote_held v nId"
  shows "votes_ok n rest (vote_take better nId lvl v)"
proof -
  let ?l = "if better lvl (v_level v) then lvl else v_level v"
  have len: "length (v_val v) = n" "nId < 32" "v_val v ! nId = rest"
    and best: "best_of (v_level v) (insert rest (set (v_val v)))"
    using assms by (auto simp: votes_ok_def vote_held_def)
  have set: "insert rest (set ((v_val v)[nId := lvl])) = insert lvl (insert rest (set (v_val v)))"
  proof -
    have "set ((v_val v)[nId := lvl]) \<subseteq> insert lvl (set (v_val v))" by (rule set_update_subset_insert)
    moreover have "lvl \<in> set ((v_val v)[nId := lvl])" using assms(2) len(1) by (simp add: set_update_memI)
    moreover have "set (v_val v) \<subseteq> insert rest (set ((v_val v)[nId := lvl]))"
    proof
      fix x assume "x \<in> set (v_val v)"
      then obtain i where i: "i < n" "x = v_val v ! i" using len(1) by (auto simp: in_set_conv_nth)
      show "x \<in> insert rest (set ((v_val v)[nId := lvl]))"
        using i len assms(2) by (cases "i = nId") (auto simp: in_set_conv_nth nth_list_update)
    qed
    ultimately show ?thesis by blast
  qed
  have "best_of ?l (insert lvl (insert rest (set (v_val v))))"
  proof (cases "better lvl (v_level v)")
    case True
    then show ?thesis using best irrefl trans by (auto simp: best_of_def)
  next
    case False
    then show ?thesis using best by (auto simp: best_of_def)
  qed
  with set have "best_of ?l (insert rest (set ((v_val v)[nId := lvl])))" by simp
  then show ?thesis
    using assms len(1)
    by (auto simp: votes_ok_def vote_take_def bit_or_iff nth_list_update)
qed

lemma free_ok:
  assumes "votes_ok n rest v" "nId < n"
  shows "votes_ok n rest (vote_free better rest nId v)"
proof -
  let ?ids = "v_id v AND NOT (push_bit nId 1)"
  let ?vals = "(v_val v)[nId := rest]"
  have len: "length (v_val v) = n" "n \<le> 32" using assms by (auto simp: votes_ok_def)
  have bits: "bit ?ids i \<longleftrightarrow> bit (v_id v) i \<and> i \<noteq> nId" if "i < n" for i
    using that len by (auto simp: bit_and_iff bit_not_iff)
  have lt: "bit ?ids i \<Longrightarrow> i < n" for i
    using assms(1) by (auto simp: votes_ok_def bit_and_iff)
  have rest: "\<forall>i < n. \<not> bit ?ids i \<longrightarrow> ?vals ! i = rest"
    using assms bits by (auto simp: votes_ok_def nth_list_update)
  have "best_of (v_level (vote_free better rest nId v)) (insert rest (set ?vals))"
  proof (cases "?ids = 0")
    case False
    then show ?thesis using fold_best [of ?vals rest] by (simp add: vote_free_def Let_def)
  next
    case True
    then have "\<forall>x \<in> set ?vals. x = rest"
      using rest len(1) by (auto simp: in_set_conv_nth)
    then show ?thesis using True irrefl by (auto simp: vote_free_def Let_def best_of_def)
  qed
  then show ?thesis
    using len rest lt by (simp add: votes_ok_def vote_free_def Let_def)
qed

end

interpretation lock_order: level_order "(<)"
  by unfold_locales auto

interpretation limit_order: level_order "(>)"
  by unfold_locales auto

section \<open>Who holds what\<close>

text \<open>The abstract value of an arbitration: the devices that hold a level.\<close>

definition held :: "votes \<Rightarrow> nat \<Rightarrow> u32 option" where
  "held v i = (if bit (v_id v) i then nth_opt (v_val v) i else None)"

lemma held_take: "nId < 32 \<Longrightarrow> nId < length (v_val v) \<Longrightarrow>
   held (vote_take better nId lvl v) = (held v)(nId \<mapsto> lvl)"
  by (rule ext) (auto simp: held_def vote_take_def nth_opt_def bit_or_iff)

lemma held_free: "nId < 32 \<Longrightarrow> nId < length (v_val v) \<Longrightarrow>
   held (vote_free better rest nId v) = (held v)(nId := None)"
  by (rule ext)
    (auto simp: held_def vote_free_def Let_def nth_opt_def bit_and_iff bit_not_iff dest: bit_imp_possible_bit)

lemma insert_ran_held:
  assumes "\<forall>i. bit (v_id v) i \<longrightarrow> i < length (v_val v)"
    and "\<forall>i < length (v_val v). \<not> bit (v_id v) i \<longrightarrow> v_val v ! i = rest"
  shows "insert rest (ran (held v)) = insert rest (set (v_val v))"
proof (intro equalityI subsetI)
  fix x assume "x \<in> insert rest (ran (held v))"
  then show "x \<in> insert rest (set (v_val v))"
    by (auto simp: ran_def held_def nth_opt_def split: if_splits)
next
  fix x assume x: "x \<in> insert rest (set (v_val v))"
  show "x \<in> insert rest (ran (held v))"
  proof (cases "x = rest")
    case False
    with x obtain i where i: "i < length (v_val v)" "x = v_val v ! i" by (auto simp: in_set_conv_nth)
    with assms(2) False have "held v i = Some x" by (auto simp: held_def nth_opt_def)
    then show ?thesis by (simp add: ranI)
  qed simp
qed

text \<open>The level in force is at one with the abstract value: the least lock held, the largest limit.\<close>

lemma lock_level_Min:
  assumes "lock_order.votes_ok n rest v"
  shows "v_level v = Min (insert rest (ran (held v)))"
proof -
  have "lock_order.best_of (v_level v) (insert rest (set (v_val v)))"
    using assms by (simp add: lock_order.votes_ok_def)
  then have "v_level v = Min (insert rest (set (v_val v)))"
    unfolding lock_order.best_of_def by (intro Min_eqI [symmetric]) (auto simp: not_less)
  then show ?thesis
    using assms insert_ran_held [of v rest] by (simp add: lock_order.votes_ok_def)
qed

lemma limit_level_Max:
  assumes "limit_order.votes_ok n rest v"
  shows "v_level v = Max (insert rest (ran (held v)))"
proof -
  have "limit_order.best_of (v_level v) (insert rest (set (v_val v)))"
    using assms by (simp add: limit_order.votes_ok_def)
  then have "v_level v = Max (insert rest (set (v_val v)))"
    unfolding limit_order.best_of_def by (intro Max_eqI [symmetric]) (auto simp: not_less)
  then show ?thesis
    using assms insert_ran_held [of v rest] by (simp add: limit_order.votes_ok_def)
qed

end
