(* ===== verification/Exynos_Driver.thy ===== *)
theory Exynos_Driver
  imports Exynos_Votes Transition Sysfs_Text
begin

text \<open>
  The Exynos driver, \<open>arch/arm/mach-exynos/cpufreq.c\<close>: what it does to the voltage regulator and the
  clock (the list of hardware events), the frequency lock and limit, the fixed level, the suspend and
  reboot notifiers, and its initialisation. The tables of a chip and \<open>need_apll_change\<close> come from the
  chip's own file and are data of \<open>dvfs_info\<close> (its fields \<open>unsigned\<close>, as \<open>mach/cpufreq.h\<close> declares
  them); the frequency table helpers, the clock's rate and the numbers of the lock holders are the
  parameters of \<open>exynos_env\<close>. A null or freed \<open>exynos_info\<close>, a table read out of range and a null
  governor are \<open>None\<close>; so is a read of the row that ends the frequency table, which is no frequency.
\<close>

record dvfs_info =
  mpll_freq_khz :: u32
  pll_safe_idx :: u32
  pm_lock_idx :: u32
  max_support_idx :: u32
  min_support_idx :: u32
  volt_table :: "u32 list"
  ex_freq_table :: ftable
  need_apll_change :: "(u32 \<Rightarrow> u32 \<Rightarrow> bool) option"

datatype info_ptr = Info_null | Info_freed | Info dvfs_info

text \<open>\<open>Set_volt\<close> is \<open>regulator_set_voltage(arm_regulator, min, max)\<close>, \<open>Set_freq\<close> is
  \<open>exynos_info->set_freq(old_index, new_index)\<close>.\<close>

datatype hw_event = Set_volt u32 u32 | Set_freq u32 u32

record exynos =
  exynos_info :: info_ptr
  g_freqs :: cpufreq_freqs
  exynos_cpufreq_disable :: bool
  exynos_cpufreq_lock_disable :: bool
  exynos_cpufreq_init_done :: bool
  g_limit :: votes
  g_lock :: votes
  ex_pm_notifier :: bool
  ex_reboot_notifier :: bool
  ex_policy_notifier :: bool
  ex_regulator :: bool            \<comment> \<open>\<open>arm_regulator\<close> is held\<close>
  hw :: "hw_event list"

record exynos_env =
  xe_ftt :: ftt_fun
  xe_scale :: scale_fun
  xe_id_end :: nat                 \<comment> \<open>\<open>DVFS_LOCK_ID_END\<close>\<close>
  xe_id_pm :: nat                  \<comment> \<open>\<open>DVFS_LOCK_ID_PM\<close>\<close>
  xe_id_tmu :: nat                 \<comment> \<open>\<open>DVFS_LOCK_ID_TMU\<close>\<close>
  xe_clk_get_rate :: "hw_event list \<Rightarrow> u32"
  xe_get_table :: "ftable option"  \<comment> \<open>\<open>cpufreq_frequency_get_table(0)\<close>\<close>
  xe_verify :: "cpufreq_policy \<Rightarrow> ftable \<Rightarrow> int \<times> cpufreq_policy"
  xe_cpuinfo :: "cpufreq_policy \<Rightarrow> ftable \<Rightarrow> int \<times> cpufreq_policy"

type_synonym esys = "exynos sys"

definition deref :: "info_ptr \<Rightarrow> dvfs_info option" where
  "deref q = (case q of Info i \<Rightarrow> Some i | _ \<Rightarrow> None)"

definition upd_drv :: "(exynos \<Rightarrow> exynos) \<Rightarrow> esys \<Rightarrow> esys" where
  "upd_drv f s = s\<lparr>drv := f (drv s)\<rparr>"

definition regulator_set_voltage :: "u32 \<Rightarrow> u32 \<Rightarrow> esys \<Rightarrow> esys" where
  "regulator_set_voltage lo hi s = upd_drv (\<lambda>d. d\<lparr>hw := hw d @ [Set_volt lo hi]\<rparr>) s"

definition set_arm_volt :: "u32 \<Rightarrow> esys \<Rightarrow> esys" where
  "set_arm_volt v s = regulator_set_voltage v (v + 25000) s"

definition ex_set_freq :: "u32 \<Rightarrow> u32 \<Rightarrow> esys \<Rightarrow> esys" where
  "ex_set_freq old new s = upd_drv (\<lambda>d. d\<lparr>hw := hw d @ [Set_freq old new]\<rparr>) s"

text \<open>\<open>cpufreq_notify_transition(&freqs, state)\<close>; the driver's flags are \<open>CPUFREQ_STICKY\<close> only.\<close>

definition ex_notify :: "exynos_env \<Rightarrow> transition \<Rightarrow> esys \<Rightarrow> esys" where
  "ex_notify xe st s =
     (let (fr, s') = cpufreq_notify_transition (xe_scale xe) False st (g_freqs (drv s), s)
      in upd_drv (\<lambda>d. d\<lparr>g_freqs := fr\<rparr>) s')"

section \<open>Speed\<close>

text \<open>The policy is the caller's, often a local copy: its new value is part of the result.\<close>

definition exynos_verify_speed :: "exynos_env \<Rightarrow> cpufreq_policy \<Rightarrow> esys \<Rightarrow> (int \<times> cpufreq_policy) option" where
  "exynos_verify_speed xe policy s = do {
     info \<leftarrow> deref (exynos_info (drv s));
     Some (xe_verify xe policy (ex_freq_table info))
   }"

definition exynos_getspeed :: "exynos_env \<Rightarrow> cpuid \<Rightarrow> esys \<Rightarrow> u32 option" where
  "exynos_getspeed xe cpu s = do {
     info \<leftarrow> deref (exynos_info (drv s));
     Some (xe_clk_get_rate xe (hw (drv s)) div 1000)
   }"

definition exynos_get_safe_armvolt :: "dvfs_info \<Rightarrow> u32 \<Rightarrow> u32 \<Rightarrow> u32 option" where
  "exynos_get_safe_armvolt info old_index new_index =
     (case need_apll_change info of
        None \<Rightarrow> Some 0
      | Some need \<Rightarrow>
          if need old_index new_index then do {
            fnew \<leftarrow> table_freq (ex_freq_table info) new_index;
            if fnew < mpll_freq_khz info then do {
              fcur \<leftarrow> table_freq (ex_freq_table info) old_index;
              if fcur < mpll_freq_khz info
              then nth_opt (volt_table info) (unat (pll_safe_idx info)) else Some 0
            }
            else Some 0
          }
          else Some 0)"

text \<open>The index after the lock and the limit in force.\<close>

definition clamp_index :: "exynos \<Rightarrow> u32 \<Rightarrow> u32" where
  "clamp_index d index =
     (let index = (if \<not> exynos_cpufreq_lock_disable d \<and> index > v_level (g_lock d)
                   then v_level (g_lock d) else index)
      in if index < v_level (g_limit d) then v_level (g_limit d) else index)"

text \<open>From the announcement to the last voltage change.\<close>

definition target_change ::
  "exynos_env \<Rightarrow> u32 \<Rightarrow> u32 \<Rightarrow> u32 \<Rightarrow> u32 \<Rightarrow> esys \<Rightarrow> esys" where
  "target_change xe old_index index safe_arm_volt arm_volt s =
     (let s = ex_notify xe PRECHANGE s;
          s = (if fr_new (g_freqs (drv s)) > fr_old (g_freqs (drv s)) \<and> safe_arm_volt = 0
               then set_arm_volt arm_volt s else s);
          s = (if safe_arm_volt \<noteq> 0 then set_arm_volt safe_arm_volt s else s);
          s = (if fr_new (g_freqs (drv s)) \<noteq> fr_old (g_freqs (drv s))
               then ex_set_freq old_index index s else s);
          s = ex_notify xe POSTCHANGE s
      in if fr_new (g_freqs (drv s)) < fr_old (g_freqs (drv s))
            \<or> fr_new (g_freqs (drv s)) > fr_old (g_freqs (drv s)) \<and> safe_arm_volt \<noteq> 0
         then set_arm_volt arm_volt s else s)"

definition exynos_target :: "exynos_env \<Rightarrow> exynos target_op" where
  "exynos_target xe p target_freq relation s = do {
     info \<leftarrow> deref (exynos_info (drv s));
     let t = ex_freq_table info;
     if exynos_cpufreq_disable (drv s) then Some (0, s)
     else
       let s = upd_drv (\<lambda>d. d\<lparr>g_freqs := (g_freqs d)\<lparr>fr_old := pol_cur (policies s p)\<rparr>\<rparr>) s in
       case xe_ftt xe (policies s p) t (fr_old (g_freqs (drv s))) relation of
         None \<Rightarrow> Some (- EINVAL, s)
       | Some old_index \<Rightarrow>
           (case xe_ftt xe (policies s p) t target_freq relation of
              None \<Rightarrow> Some (- EINVAL, s)
            | Some index \<Rightarrow> do {
                let index = clamp_index (drv s) index;
                f \<leftarrow> table_freq t index;
                let s = upd_drv (\<lambda>d. d\<lparr>g_freqs := (g_freqs d)\<lparr>fr_new := f, fr_cpu := pol_cpu (policies s p)\<rparr>\<rparr>) s;
                safe_arm_volt \<leftarrow> exynos_get_safe_armvolt info old_index index;
                arm_volt \<leftarrow> nth_opt (volt_table info) (unat index);
                Some (0, target_change xe old_index index safe_arm_volt arm_volt s)
              })
   }"

section \<open>Levels\<close>

text \<open>The scan for a voltage goes down from the slowest level; \<open>i\<close> is an \<open>int\<close>, compared unsigned.\<close>

function volt_scan :: "u32 list \<Rightarrow> u32 \<Rightarrow> u32 \<Rightarrow> int \<Rightarrow> u32 option option" where
  "volt_scan volts maxidx arm_volt i =
     (if c_uint i \<ge> maxidx
      then case nth_int volts i of
             None \<Rightarrow> None
           | Some v \<Rightarrow> if v \<ge> arm_volt then Some (Some (c_uint i)) else volt_scan volts maxidx arm_volt (i - 1)
      else Some None)"
  by auto
termination
  by (relation "measure (\<lambda>(_, _, _, i). nat (i + 1))") (auto simp: nth_int_def split: if_splits)

declare volt_scan.simps [simp del]

definition exynos_find_cpufreq_level_by_volt ::
  "exynos_env \<Rightarrow> u32 \<Rightarrow> esys \<Rightarrow> (int \<times> u32 option) option" where
  "exynos_find_cpufreq_level_by_volt xe arm_volt s = do {
     info \<leftarrow> deref (exynos_info (drv s));
     if \<not> exynos_cpufreq_init_done (drv s) then Some (- EINVAL, None)
     else case xe_get_table xe of
       None \<Rightarrow> Some (- EINVAL, None)
     | Some table \<Rightarrow>
         if arm_volt = 0 then Some (- EINVAL, None)
         else do {
           r \<leftarrow> volt_scan (volt_table info) (max_support_idx info) arm_volt (c_int (min_support_idx info));
           Some (case r of Some level \<Rightarrow> (0, Some level) | None \<Rightarrow> (- EINVAL, None))
         }
   }"

fun freq_scan :: "ftable \<Rightarrow> nat \<Rightarrow> u32 \<Rightarrow> u32 option" where
  "freq_scan [] i freq = None"
| "freq_scan (r # rs) i freq = (if frequency r = freq then Some (of_nat i) else freq_scan rs (Suc i) freq)"

definition exynos_cpufreq_get_level ::
  "exynos_env \<Rightarrow> u32 \<Rightarrow> esys \<Rightarrow> (int \<times> u32 option) option" where
  "exynos_cpufreq_get_level xe freq s =
     (if \<not> exynos_cpufreq_init_done (drv s) then Some (- EINVAL, None)
      else case xe_get_table xe of
        None \<Rightarrow> Some (- EINVAL, None)
      | Some table \<Rightarrow> do {
          info \<leftarrow> deref (exynos_info (drv s));
          if unat (max_support_idx info) > length table then None
          else Some (case freq_scan (drop (unat (max_support_idx info)) table) (unat (max_support_idx info)) freq of
                       Some level \<Rightarrow> (0, Some level) | None \<Rightarrow> (- EINVAL, None))
        })"

text \<open>The row of the current frequency, searched up to \<open>min_support_idx\<close>: \<open>Some None\<close> is
  \<open>Level not found\<close>.\<close>

fun row_scan :: "ftable \<Rightarrow> nat \<Rightarrow> u32 \<Rightarrow> u32 \<Rightarrow> u32 option option" where
  "row_scan [] i minidx freq = None"
| "row_scan (r # rs) i minidx freq =
     (if freq = frequency r then Some (Some (fe_index r))
      else if of_nat i = minidx then Some None
      else row_scan rs (Suc i) minidx freq)"

section \<open>The lock and the limit\<close>

definition set_freqs :: "u32 \<Rightarrow> u32 \<Rightarrow> esys \<Rightarrow> esys" where
  "set_freqs old new s = upd_drv (\<lambda>d. d\<lparr>g_freqs := (g_freqs d)\<lparr>fr_old := old, fr_new := new\<rparr>\<rparr>) s"

definition lock_change :: "exynos_env \<Rightarrow> dvfs_info \<Rightarrow> nat \<Rightarrow> u32 \<Rightarrow> esys \<Rightarrow> (int \<times> esys) option" where
  "lock_change xe info p level s = do {
     let freq_old = pol_cur (policies s p);
     freq_new \<leftarrow> table_freq (ex_freq_table info) level;
     if freq_old < freq_new then do {
       row \<leftarrow> row_scan (ex_freq_table info) 0 (min_support_idx info) freq_old;
       case row of
         None \<Rightarrow> Some (- EINVAL, s)
       | Some old_idx \<Rightarrow> do {
           let s = ex_notify xe PRECHANGE (set_freqs freq_old freq_new s);
           safe_arm_volt \<leftarrow> exynos_get_safe_armvolt info old_idx level;
           let s = (if safe_arm_volt \<noteq> 0 then set_arm_volt safe_arm_volt s else s);
           arm_volt \<leftarrow> nth_opt (volt_table info) (unat level);
           let s = set_arm_volt arm_volt s;
           let s = ex_set_freq old_idx level s;
           Some (0, ex_notify xe POSTCHANGE s)
         }
     }
     else Some (0, s)
   }"

definition exynos_cpufreq_lock :: "exynos_env \<Rightarrow> nat \<Rightarrow> u32 \<Rightarrow> esys \<Rightarrow> (int \<times> esys) option" where
  "exynos_cpufreq_lock xe nId level s =
     (if \<not> exynos_cpufreq_init_done (drv s) then Some (- EPERM, s)
      else if exynos_info (drv s) = Info_null then Some (- EPERM, s)
      else if exynos_cpufreq_disable (drv s) \<and> nId \<noteq> xe_id_tmu xe then Some (- EPERM, s)
      else case cpufreq_cpu_get 0 s of
        (None, s) \<Rightarrow> Some (- EPERM, s)
      | (Some p, s) \<Rightarrow> do {
          info \<leftarrow> deref (exynos_info (drv s));
          if nId \<ge> 32 \<or> nId \<ge> length (v_val (g_lock (drv s))) then None
          else if vote_held (g_lock (drv s)) nId then Some (0, s)
          else
            let s = upd_drv (\<lambda>d. d\<lparr>g_lock := vote_take (<) nId level (g_lock d)\<rparr>) s in
            if v_level (g_lock (drv s)) < v_level (g_limit (drv s)) \<and> nId \<noteq> xe_id_pm xe then Some (0, s)
            else if exynos_cpufreq_lock_disable (drv s) \<and> nId \<noteq> xe_id_pm xe then Some (0, s)
            else lock_change xe info p level s
        })"

definition exynos_cpufreq_lock_free :: "nat \<Rightarrow> esys \<Rightarrow> esys option" where
  "exynos_cpufreq_lock_free nId s =
     (if \<not> exynos_cpufreq_init_done (drv s) then Some s
      else do {
        info \<leftarrow> deref (exynos_info (drv s));
        if nId \<ge> 32 \<or> nId \<ge> length (v_val (g_lock (drv s))) then None
        else Some (upd_drv (\<lambda>d. d\<lparr>g_lock := vote_free (<) (min_support_idx info) nId (g_lock d)\<rparr>) s)
      })"

definition limit_change :: "exynos_env \<Rightarrow> dvfs_info \<Rightarrow> nat \<Rightarrow> u32 \<Rightarrow> esys \<Rightarrow> (int \<times> esys) option" where
  "limit_change xe info p level s = do {
     let freq_old = pol_cur (policies s p);
     freq_new \<leftarrow> table_freq (ex_freq_table info) level;
     if freq_old > freq_new then do {
       row \<leftarrow> row_scan (ex_freq_table info) 0 (min_support_idx info) freq_old;
       case row of
         None \<Rightarrow> Some (- EINVAL, s)
       | Some old_idx \<Rightarrow> do {
           let s = ex_notify xe PRECHANGE (set_freqs freq_old freq_new s);
           let s = ex_set_freq old_idx level s;
           safe_arm_volt \<leftarrow> exynos_get_safe_armvolt info old_idx level;
           let s = (if safe_arm_volt \<noteq> 0 then set_arm_volt safe_arm_volt s else s);
           arm_volt \<leftarrow> nth_opt (volt_table info) (unat level);
           let s = set_arm_volt arm_volt s;
           Some (0, ex_notify xe POSTCHANGE s)
         }
     }
     else Some (0, s)
   }"

definition exynos_cpufreq_upper_limit :: "exynos_env \<Rightarrow> nat \<Rightarrow> u32 \<Rightarrow> esys \<Rightarrow> (int \<times> esys) option" where
  "exynos_cpufreq_upper_limit xe nId level s =
     (if \<not> exynos_cpufreq_init_done (drv s) then Some (- EPERM, s)
      else if exynos_info (drv s) = Info_null then Some (- EPERM, s)
      else if exynos_cpufreq_disable (drv s) then Some (- EPERM, s)
      else case cpufreq_cpu_get 0 s of
        (None, s) \<Rightarrow> Some (- EPERM, s)
      | (Some p, s) \<Rightarrow> do {
          info \<leftarrow> deref (exynos_info (drv s));
          if nId \<ge> 32 \<or> nId \<ge> length (v_val (g_limit (drv s))) then None
          else if vote_held (g_limit (drv s)) nId then Some (0, s)
          else
            limit_change xe info p level
              (upd_drv (\<lambda>d. d\<lparr>g_limit := vote_take (>) nId level (g_limit d)\<rparr>) s)
        })"

definition exynos_cpufreq_upper_limit_free :: "nat \<Rightarrow> esys \<Rightarrow> esys option" where
  "exynos_cpufreq_upper_limit_free nId s =
     (if \<not> exynos_cpufreq_init_done (drv s) then Some s
      else do {
        info \<leftarrow> deref (exynos_info (drv s));
        if nId \<ge> 32 \<or> nId \<ge> length (v_val (g_limit (drv s))) then None
        else Some (upd_drv (\<lambda>d. d\<lparr>g_limit := vote_free (>) (max_support_idx info) nId (g_limit d)\<rparr>) s)
      })"

section \<open>A fixed level\<close>

definition exynos_cpufreq_level_fix :: "exynos_env \<Rightarrow> u32 \<Rightarrow> esys \<Rightarrow> (int \<times> esys) option" where
  "exynos_cpufreq_level_fix xe freq s =
     (if \<not> exynos_cpufreq_init_done (drv s) then Some (- EPERM, s)
      else case cpufreq_cpu_get 0 s of
        (None, s) \<Rightarrow> Some (- EPERM, s)
      | (Some p, s) \<Rightarrow>
          if exynos_cpufreq_disable (drv s) then Some (- EPERM, s)
          else do {
            (ret, s) \<leftarrow> exynos_target xe p freq RELATION_L s;
            Some (ret, upd_drv (\<lambda>d. d\<lparr>exynos_cpufreq_disable := True\<rparr>) s)
          })"

definition exynos_cpufreq_level_unfix :: "esys \<Rightarrow> esys" where
  "exynos_cpufreq_level_unfix s =
     (if \<not> exynos_cpufreq_init_done (drv s) then s
      else upd_drv (\<lambda>d. d\<lparr>exynos_cpufreq_disable := False\<rparr>) s)"

definition exynos_cpufreq_is_fixed :: "esys \<Rightarrow> bool" where
  "exynos_cpufreq_is_fixed s = exynos_cpufreq_disable (drv s)"

section \<open>Notifiers\<close>

datatype notify_ret = NOTIFY_DONE | NOTIFY_OK | NOTIFY_BAD
definition exynos_cpufreq_suspend :: "nat \<Rightarrow> int" where "exynos_cpufreq_suspend p = 0"
definition exynos_cpufreq_resume :: "nat \<Rightarrow> int" where "exynos_cpufreq_resume p = 0"

text \<open>After a suspend with the lock disabled the highest level is set, from the suspend level.\<close>

definition wakeup_change :: "exynos_env \<Rightarrow> dvfs_info \<Rightarrow> esys \<Rightarrow> esys option" where
  "wakeup_change xe info s = do {
     let s = ex_notify xe PRECHANGE s;
     safe_arm_volt \<leftarrow> exynos_get_safe_armvolt info (pm_lock_idx info) (max_support_idx info);
     let s = (if safe_arm_volt \<noteq> 0 then set_arm_volt safe_arm_volt s else s);
     arm_volt \<leftarrow> nth_opt (volt_table info) (unat (max_support_idx info));
     let s = set_arm_volt arm_volt s;
     let s = ex_set_freq (pm_lock_idx info) (max_support_idx info) s;
     Some (ex_notify xe POSTCHANGE s)
   }"

definition exynos_cpufreq_notifier_event ::
  "exynos_env \<Rightarrow> pm_event \<Rightarrow> esys \<Rightarrow> (notify_ret \<times> esys) option" where
  "exynos_cpufreq_notifier_event xe event s = do {
     info \<leftarrow> deref (exynos_info (drv s));
     case event of
       PM_SUSPEND_PREPARE \<Rightarrow> do {
         (ret, s) \<leftarrow> exynos_cpufreq_lock xe (xe_id_pm xe) (pm_lock_idx info) s;
         if ret < 0 then Some (NOTIFY_BAD, s)
         else Some (NOTIFY_OK, upd_drv (\<lambda>d. d\<lparr>exynos_cpufreq_disable := True\<rparr>) s)
       }
     | PM_OTHER \<Rightarrow> Some (NOTIFY_DONE, s)
     | _ \<Rightarrow> do {
         s \<leftarrow> exynos_cpufreq_lock_free (xe_id_pm xe) s;
         s \<leftarrow> (if exynos_cpufreq_lock_disable (drv s) then wakeup_change xe info s else Some s);
         Some (NOTIFY_OK, upd_drv (\<lambda>d. d\<lparr>exynos_cpufreq_disable := False\<rparr>) s)
       }
   }"

text \<open>Built with \<open>CONFIG_CPU_FREQ_DBG\<close>; \<open>adjust\<close> is the event \<open>CPUFREQ_ADJUST\<close>, the others do nothing.\<close>

definition exynos_cpufreq_policy_notifier_call :: "bool \<Rightarrow> cpufreq_policy \<Rightarrow> esys \<Rightarrow> esys option" where
  "exynos_cpufreq_policy_notifier_call adjust policy s =
     (if \<not> adjust then Some s
      else do {
        name \<leftarrow> pol_governor policy;
        Some (upd_drv (\<lambda>d. d\<lparr>exynos_cpufreq_lock_disable :=
          strnicmp_eq name ''powersave'' \<or> strnicmp_eq name ''performance''\<rparr>) s)
      })"

definition exynos_cpufreq_reboot_notifier_call :: "exynos_env \<Rightarrow> esys \<Rightarrow> (notify_ret \<times> esys) option" where
  "exynos_cpufreq_reboot_notifier_call xe s = do {
     info \<leftarrow> deref (exynos_info (drv s));
     (ret, s) \<leftarrow> exynos_cpufreq_lock xe (xe_id_pm xe) (pm_lock_idx info) s;
     Some (if ret < 0 then NOTIFY_BAD else NOTIFY_DONE, s)
   }"

section \<open>Initialisation\<close>

definition exynos_cpufreq_cpu_init :: "exynos_env \<Rightarrow> nat \<Rightarrow> esys \<Rightarrow> (int \<times> esys) option" where
  "exynos_cpufreq_cpu_init xe p s = do {
     f \<leftarrow> exynos_getspeed xe (pol_cpu (policies s p)) s;
     info \<leftarrow> deref (exynos_info (drv s));
     let online_cpus = filter (online s) [0..<nr_cpu_ids s];
     let pol = (policies s p)\<lparr>pol_cur := f, pol_min := f, pol_max := f, transition_latency := 100000\<rparr>;
     let pol = (if length online_cpus = 1
                then pol\<lparr>pol_related := [0..<nr_cpu_ids s], pol_cpus := online_cpus\<rparr>
                else pol\<lparr>pol_cpus := [0..<nr_cpu_ids s]\<rparr>);
     let (rc, pol) = xe_cpuinfo xe pol (ex_freq_table info);
     Some (rc, s\<lparr>policies := (policies s)(p := pol)\<rparr>)
   }"

text \<open>\<open>soc\<close> is the result of the chip's own initialisation, which fills \<open>exynos_info\<close>, with whether it
  set \<open>set_freq\<close>; \<open>None\<close> is an unknown chip. \<open>register_driver\<close> is \<open>cpufreq_register_driver\<close>.\<close>

definition exynos_cpufreq_init ::
  "exynos_env \<Rightarrow> bool \<Rightarrow> (int \<times> dvfs_info \<times> bool) option \<Rightarrow> bool
   \<Rightarrow> (esys \<Rightarrow> (int \<times> esys) option) \<Rightarrow> esys \<Rightarrow> (int \<times> esys) option" where
  "exynos_cpufreq_init xe kzalloc_ok soc regulator_ok register_driver s =
     (if \<not> kzalloc_ok then Some (- ENOMEM, upd_drv (\<lambda>d. d\<lparr>exynos_info := Info_null\<rparr>) s)
      else case soc of
        None \<Rightarrow> Some (- EINVAL, upd_drv (\<lambda>d. d\<lparr>exynos_info := Info_freed\<rparr>) s)
      | Some (ret, info, has_set_freq) \<Rightarrow>
          if ret \<noteq> 0 \<or> \<not> has_set_freq \<or> \<not> regulator_ok
          then Some (- EINVAL, upd_drv (\<lambda>d. d\<lparr>exynos_info := Info_freed\<rparr>) s)
          else do {
            let s = upd_drv (\<lambda>d. d\<lparr>exynos_info := Info info, ex_regulator := True,
              exynos_cpufreq_disable := False, ex_pm_notifier := True, ex_reboot_notifier := True,
              ex_policy_notifier := True, exynos_cpufreq_init_done := True,
              g_lock := votes_init (xe_id_end xe) (min_support_idx info) (g_lock d),
              g_limit := votes_init (xe_id_end xe) (max_support_idx info) (g_limit d)\<rparr>) s;
            (rc, s) \<leftarrow> register_driver s;
            if rc \<noteq> 0
            then Some (- EINVAL, upd_drv (\<lambda>d. d\<lparr>ex_reboot_notifier := False, ex_pm_notifier := False,
              ex_regulator := False, exynos_info := Info_freed\<rparr>) s)
            else Some (0, s)
          })"

end
