(* ===== verification/Gov_Common.thy ===== *)
theory Gov_Common
  imports Cpufreq_Types
begin

text \<open>
  What \<open>cpufreq_vbfs.c\<close> and \<open>cpufreq_ondemand.c\<close> share line for line: the per-CPU record, the
  idle-time accounting, one CPU's load sample and the powersave-bias split of a sampling period
  into a high and a low phase. The kernel's clocks and counters are readings of a \<open>kenv\<close>
  record: what \<open>get_cpu_idle_time_us\<close>, \<open>kstat_cpu\<close>, the jiffy conversions and the driver's
  average report at the time of the call.
\<close>

section \<open>Readings of the kernel\<close>

record cpustat =
  st_user :: u64
  st_nice :: u64
  st_system :: u64
  st_irq :: u64
  st_softirq :: u64
  st_steal :: u64

record kenv =
  idle_time_us :: "cpuid \<Rightarrow> u64 \<times> u64"    \<comment> \<open>the result and what it stores in \<open>*wall\<close>\<close>
  iowait_time_us :: "cpuid \<Rightarrow> u64 \<times> u64"
  jiffies_64 :: u64
  jiffies_now :: u32
  kstat :: "cpuid \<Rightarrow> cpustat"
  driver_getavg :: "cpuid \<Rightarrow> int"
  jiffies_to_usecs :: "u32 \<Rightarrow> u32"
  usecs_to_jiffies :: "u32 \<Rightarrow> u32"
  online_cpus :: "cpuid list"              \<comment> \<open>\<open>for_each_online_cpu\<close>\<close>
  get_table :: "cpuid \<Rightarrow> ftable option"   \<comment> \<open>\<open>cpufreq_frequency_get_table\<close>\<close>
  sysfs_create_rc :: int                   \<comment> \<open>what \<open>sysfs_create_group\<close> returns\<close>

section \<open>The per-CPU record\<close>

datatype sample = NORMAL_SAMPLE | SUB_SAMPLE

record gov_cpu_info =
  prev_cpu_idle :: u64
  prev_cpu_iowait :: u64
  prev_cpu_wall :: u64
  prev_cpu_nice :: u64
  cur_policy :: "nat option"        \<comment> \<open>a pointer to a policy object\<close>
  work :: "int option"              \<comment> \<open>the delay of the pending timer work\<close>
  freq_table :: "ftable option"
  freq_lo :: u32
  freq_lo_jiffies :: u32
  freq_hi_jiffies :: u32
  rate_mult :: u32
  info_cpu :: cpuid
  sample_type :: sample

section \<open>Idle time\<close>

definition get_cpu_idle_time_jiffy :: "kenv \<Rightarrow> cpuid \<Rightarrow> u64 \<times> u64" where
  "get_cpu_idle_time_jiffy env cpu =
     (let cur_wall_time = jiffies_64 env;
          k = kstat env cpu;
          busy_time = st_user k + st_system k;
          busy_time = busy_time + st_irq k;
          busy_time = busy_time + st_softirq k;
          busy_time = busy_time + st_steal k;
          busy_time = busy_time + st_nice k;
          idle_time = cur_wall_time - busy_time
      in (ucast (jiffies_to_usecs env (ucast idle_time)),
          ucast (jiffies_to_usecs env (ucast cur_wall_time))))"

definition get_cpu_idle_time :: "kenv \<Rightarrow> cpuid \<Rightarrow> u64 \<times> u64" where
  "get_cpu_idle_time env cpu =
     (let (idle_time, wall) = idle_time_us env cpu in
      if idle_time = - 1 then get_cpu_idle_time_jiffy env cpu else (idle_time, wall))"

text \<open>The wall time is overwritten only when the counter is supported.\<close>

definition get_cpu_iowait_time :: "kenv \<Rightarrow> cpuid \<Rightarrow> u64 \<Rightarrow> u64 \<times> u64" where
  "get_cpu_iowait_time env cpu wall0 =
     (let (iowait_time, wall) = iowait_time_us env cpu in
      if iowait_time = - 1 then (0, wall0) else (iowait_time, wall))"

section \<open>One CPU's load\<close>

record load_sample =
  ls_load :: u32
  ls_load_freq :: u32
  ls_freq_avg :: int

definition sample_load :: "kenv \<Rightarrow> u32 \<Rightarrow> cpuid \<Rightarrow> u32 \<Rightarrow> u32 \<Rightarrow> load_sample option" where
  "sample_load env cur j wall_time idle_time =
     (if wall_time = 0 \<or> wall_time < idle_time then None
      else
        let load = 100 * (wall_time - idle_time) div wall_time;
            avg = driver_getavg env j;
            freq_avg = (if avg \<le> 0 then c_int cur else avg)
        in Some \<lparr>ls_load = load, ls_load_freq = load * c_uint freq_avg, ls_freq_avg = freq_avg\<rparr>)"

definition sample_cpu ::
  "kenv \<Rightarrow> bool \<Rightarrow> bool \<Rightarrow> u32 \<Rightarrow> cpuid \<Rightarrow> gov_cpu_info \<Rightarrow> gov_cpu_info \<times> load_sample option" where
  "sample_cpu env ignore_nice io_is_busy cur j i =
     (let (cur_idle_time, wall) = get_cpu_idle_time env j;
          (cur_iowait_time, cur_wall_time) = get_cpu_iowait_time env j wall;
          wall_time = (ucast (cur_wall_time - prev_cpu_wall i) :: u32);
          idle_time = (ucast (cur_idle_time - prev_cpu_idle i) :: u32);
          iowait_time = (ucast (cur_iowait_time - prev_cpu_iowait i) :: u32);
          i1 = i\<lparr>prev_cpu_wall := cur_wall_time, prev_cpu_idle := cur_idle_time,
                 prev_cpu_iowait := cur_iowait_time\<rparr>;
          nice = st_nice (kstat env j);
          (i2, idle_time) =
            (if ignore_nice
             then (i1\<lparr>prev_cpu_nice := nice\<rparr>,
                   idle_time + jiffies_to_usecs env (ucast (nice - prev_cpu_nice i1)))
             else (i1, idle_time));
          idle_time = (if io_is_busy \<and> iowait_time \<le> idle_time then idle_time - iowait_time
                       else idle_time)
      in (i2, sample_load env cur j wall_time idle_time))"

text \<open>A load is a percentage as long as the window is shorter than 42.9 seconds: the product
  \<open>100 * wall_time\<close> is computed in 32 bits.\<close>

lemma load_percent:
  assumes "wall \<noteq> 0" "idle \<le> wall" "100 * unat wall < 2 ^ 32"
  shows "unat (100 * (wall - idle) div wall) = 100 * (unat wall - unat idle) div unat wall"
    and "unat (100 * (wall - idle) div (wall::u32)) \<le> 100"
proof -
  have d: "unat (wall - idle) = unat wall - unat idle"
    using assms(2) by (rule unat_sub_le)
  then have m: "unat (100 * (wall - idle)) = 100 * (unat wall - unat idle)"
    using assms(3) by (subst unat_mult_small) (simp_all add: d)
  show eq: "unat (100 * (wall - idle) div wall) = 100 * (unat wall - unat idle) div unat wall"
    by (simp only: unat_div m)
  have "100 * (unat wall - unat idle) \<le> 100 * unat wall" by simp
  then have "100 * (unat wall - unat idle) div unat wall \<le> 100 * unat wall div unat wall"
    by (rule div_le_mono)
  also have "\<dots> = 100" using assms(1) by (simp add: unat_gt_0)
  finally show "unat (100 * (wall - idle) div wall) \<le> 100" by (simp only: eq)
qed

lemma sample_load_percent:
  assumes "sample_load env cur j wall idle = Some l" "100 * unat wall < 2 ^ 32"
  shows "unat (ls_load l) = 100 * (unat wall - unat idle) div unat wall" "unat (ls_load l) \<le> 100"
  using assms load_percent [of wall idle]
  by (auto simp: sample_load_def Let_def not_less split: if_splits)

lemma sample_cpu_keeps:
  assumes "sample_cpu env nice io cur j i = (i', l)"
  shows "cur_policy i' = cur_policy i" "freq_table i' = freq_table i" "work i' = work i"
    "freq_lo i' = freq_lo i" "freq_lo_jiffies i' = freq_lo_jiffies i"
    "freq_hi_jiffies i' = freq_hi_jiffies i" "rate_mult i' = rate_mult i"
    "info_cpu i' = info_cpu i" "sample_type i' = sample_type i"
  using assms by (auto simp: sample_cpu_def Let_def split: prod.splits if_splits)

section \<open>Powersave bias: a high and a low phase\<close>

definition powersave_bias_target ::
  "kenv \<Rightarrow> ftt_fun \<Rightarrow> u32 \<Rightarrow> u32 \<Rightarrow> cpufreq_policy \<Rightarrow> u32 \<Rightarrow> relation \<Rightarrow> gov_cpu_info
   \<Rightarrow> (u32 \<times> gov_cpu_info) option" where
  "powersave_bias_target env ftt bias rate pol freq_next rel i =
     (case freq_table i of
        None \<Rightarrow> Some (freq_next, i\<lparr>freq_lo := 0, freq_lo_jiffies := 0\<rparr>)
      | Some t \<Rightarrow> do {
          freq_req \<leftarrow> table_freq t (ftt_index ftt pol t freq_next rel 0);
          let freq_reduc = freq_req * bias div 1000;
          let freq_avg = freq_req - freq_reduc;
          lo \<leftarrow> table_freq t (ftt_index ftt pol t freq_avg RELATION_H 0);
          hi \<leftarrow> table_freq t (ftt_index ftt pol t freq_avg RELATION_L 0);
          if hi = lo then Some (lo, i\<lparr>freq_lo := 0, freq_lo_jiffies := 0\<rparr>)
          else do {
            let jiffies_total = usecs_to_jiffies env rate;
            let jiffies_hi = (freq_avg - lo) * jiffies_total;
            let jiffies_hi = jiffies_hi + (hi - lo) div 2;
            let jiffies_hi = jiffies_hi div (hi - lo);
            let jiffies_lo = jiffies_total - jiffies_hi;
            Some (hi, i\<lparr>freq_lo := lo, freq_lo_jiffies := jiffies_lo,
                        freq_hi_jiffies := jiffies_hi\<rparr>)
          }
        })"

lemma best_bracket:
  assumes L: "best_L p t f j" and H: "best_H p t f i"
    and ne: "frequency (t ! i) \<noteq> frequency (t ! j)"
  shows "frequency (t ! i) \<le> f" "f \<le> frequency (t ! j)"
proof -
  have u: "usable p t i" "usable p t j" using L H by (auto dest: best_usable)
  show i: "frequency (t ! i) \<le> f"
  proof (rule ccontr)
    assume "\<not> frequency (t ! i) \<le> f"
    then have "frequency (t ! i) \<le> frequency (t ! j)" "f \<le> frequency (t ! i)"
      using H u(2) by (auto simp: best_H_def)
    moreover have "frequency (t ! j) \<le> frequency (t ! i)"
      using L u(1) \<open>f \<le> frequency (t ! i)\<close> \<open>frequency (t ! i) \<le> frequency (t ! j)\<close>
      by (auto simp: best_L_def split: if_splits)
    ultimately show False using ne by simp
  qed
  show "f \<le> frequency (t ! j)"
  proof (rule ccontr)
    assume "\<not> f \<le> frequency (t ! j)"
    then have "frequency (t ! i) \<le> frequency (t ! j)" "frequency (t ! j) \<le> f"
      using L u(1) by (auto simp: best_L_def)
    moreover have "frequency (t ! j) \<le> frequency (t ! i)"
      using H u(2) i \<open>frequency (t ! j) \<le> f\<close> by (auto simp: best_H_def split: if_splits)
    ultimately show False using ne by simp
  qed
qed

text \<open>Rounded division: the number of high jiffies is within half a unit of the exact share.\<close>

lemma rounded_share:
  assumes "a \<le> d" "0 < d"
  shows "(a * n + d div 2) div d \<le> (n::nat)"
    and "2 * \<bar>int ((a * n + d div 2) div d) * int d - int (a * n)\<bar> \<le> int d"
proof -
  have "a * n + d div 2 < d * n + d"
  proof -
    have "a * n \<le> d * n" using assms(1) by (rule mult_le_mono1)
    moreover have "d div 2 < d" using assms(2) by simp
    ultimately show ?thesis by linarith
  qed
  then have "(a * n + d div 2) div d < n + 1"
    by (subst div_less_iff_less_mult) (simp_all add: assms(2) algebra_simps)
  then show "(a * n + d div 2) div d \<le> n" by simp
  define x where "x = a * n + d div 2"
  have "x div d * d + x mod d = x"
    by (rule div_mult_mod_eq)
  then have "int (x div d * d + x mod d) = int x"
    by (simp only:)
  then have "int (x div d) * int d + int (x mod d) = int (a * n) + int (d div 2)"
    by (simp only: of_nat_add of_nat_mult x_def)
  moreover have "int (x mod d) < int d" "0 \<le> int (x mod d)"
    using assms(2) by (simp_all only: of_nat_less_iff mod_less_divisor of_nat_0_le_iff)
  moreover have "2 * int (d div 2) \<le> int d" "int d \<le> 2 * int (d div 2) + 1"
    by linarith+
  moreover have "2 * \<bar>q - A\<bar> \<le> D"
    if "q + R = A + H" "R < D" "0 \<le> R" "2 * H \<le> D" "D \<le> 2 * H + 1" for q R A H D :: int
    using that by (cases "q \<le> A") (simp_all add: abs_if)
  ultimately have "2 * \<bar>int (x div d) * int d - int (a * n)\<bar> \<le> int d"
    by blast
  then show "2 * \<bar>int ((a * n + d div 2) div d) * int d - int (a * n)\<bar> \<le> int d"
    by (simp only: x_def)
qed

definition bias_split :: "u32 \<Rightarrow> u32 \<Rightarrow> u32 \<Rightarrow> u32 \<Rightarrow> u32" where
  "bias_split lo avg hi jt = ((avg - lo) * jt + (hi - lo) div 2) div (hi - lo)"

lemma bias_split_unat:
  assumes "lo \<le> avg" "avg \<le> hi" "lo \<noteq> hi"
    and small: "(unat hi - unat lo) * (unat jt + 1) < 2 ^ 32"
  shows "unat (bias_split lo avg hi jt)
    = ((unat avg - unat lo) * unat jt + (unat hi - unat lo) div 2) div (unat hi - unat lo)"
proof -
  have a: "unat (avg - lo) = unat avg - unat lo" using assms(1) by (rule unat_sub_le)
  have d: "unat (hi - lo) = unat hi - unat lo" using assms(1,2) by (intro unat_sub_le) simp
  have le: "unat avg \<le> unat hi" using assms(2) by (simp add: word_le_nat_alt)
  then have m: "(unat avg - unat lo) * unat jt \<le> (unat hi - unat lo) * unat jt"
    by (intro mult_le_mono1) simp
  have half: "unat ((hi - lo) div 2) = (unat hi - unat lo) div 2"
    by (simp add: unat_div d)
  have "(unat hi - unat lo) * (unat jt + 1)
      = (unat hi - unat lo) * unat jt + (unat hi - unat lo)" by simp
  then have s1: "(unat avg - unat lo) * unat jt + (unat hi - unat lo) div 2 < 2 ^ 32"
    using small m by linarith
  then have p: "unat ((avg - lo) * jt) = (unat avg - unat lo) * unat jt"
    by (subst unat_mult_small) (simp_all add: a)
  have "unat ((avg - lo) * jt + (hi - lo) div 2)
      = (unat avg - unat lo) * unat jt + (unat hi - unat lo) div 2"
    using s1 by (subst unat_add_small) (simp_all add: p half)
  then show ?thesis
    by (simp only: bias_split_def unat_div d)
qed

lemma bias_split_mean:
  assumes "lo \<le> avg" "avg \<le> hi" "lo \<noteq> hi"
    and small: "(unat hi - unat lo) * (unat jt + 1) < 2 ^ 32"
  defines "h \<equiv> bias_split lo avg hi jt"
  shows "h \<le> jt" "unat h + unat (jt - h) = unat jt"
    "2 * \<bar>int (unat h) * int (unat hi) + int (unat (jt - h)) * int (unat lo)
          - int (unat jt) * int (unat avg)\<bar> \<le> int (unat hi) - int (unat lo)"
proof -
  have le: "unat lo \<le> unat avg" "unat avg \<le> unat hi" "unat lo \<noteq> unat hi"
    using assms(1-3) by (simp_all add: word_le_nat_alt word_unat_eq_iff)
  then have a: "unat avg - unat lo \<le> unat hi - unat lo" and d: "0 < unat hi - unat lo"
    by simp_all
  have h: "unat h = ((unat avg - unat lo) * unat jt + (unat hi - unat lo) div 2)
      div (unat hi - unat lo)"
    unfolding h_def using assms(1-4) by (rule bias_split_unat)
  have hn: "unat h \<le> unat jt" unfolding h by (rule rounded_share(1) [OF a d])
  then show ht: "h \<le> jt" by (simp add: word_le_nat_alt)
  have sub: "unat (jt - h) = unat jt - unat h" using ht by (rule unat_sub_le)
  with hn show "unat h + unat (jt - h) = unat jt" by simp
  have "2 * \<bar>int (unat h) * int (unat hi - unat lo) - int ((unat avg - unat lo) * unat jt)\<bar>
      \<le> int (unat hi - unat lo)"
    unfolding h by (rule rounded_share(2) [OF a d])
  moreover have "int (unat h) * int (unat hi) + int (unat (jt - h)) * int (unat lo)
        - int (unat jt) * int (unat avg)
      = int (unat h) * int (unat hi - unat lo) - int ((unat avg - unat lo) * unat jt)"
    using le hn by (simp add: sub of_nat_diff algebra_simps)
  moreover have "int (unat hi - unat lo) = int (unat hi) - int (unat lo)"
    using le by simp
  ultimately show "2 * \<bar>int (unat h) * int (unat hi) + int (unat (jt - h)) * int (unat lo)
          - int (unat jt) * int (unat avg)\<bar> \<le> int (unat hi) - int (unat lo)"
    by simp
qed

text \<open>The search always lands on a usable row, so the reads of the table never fault.\<close>

lemma ftt_index_row:
  assumes "ftt_contract ftt" "length t < 2 ^ 31" "usable p t k"
  obtains w where "ftt_index ftt p t f r 0 = w" "usable p t (unat w)"
    "table_freq t w = Some (frequency (t ! unat w))"
    "r = RELATION_L \<Longrightarrow> best_L p t f (unat w)" "r = RELATION_H \<Longrightarrow> best_H p t f (unat w)"
proof -
  obtain w where w: "ftt p t f r = Some w" "usable p t (unat w)"
    "r = RELATION_L \<longrightarrow> best_L p t f (unat w)" "r = RELATION_H \<longrightarrow> best_H p t f (unat w)"
    using ftt_contractD [OF assms] by blast
  then show ?thesis
    by (intro that [of w]) (auto simp: ftt_index_def table_freq_Some usable_def)
qed

definition bias_avg :: "u32 \<Rightarrow> u32 \<Rightarrow> u32" where
  "bias_avg bias req = req - req * bias div 1000"


definition demo_policy :: cpufreq_policy where
  "demo_policy = \<lparr>pol_cpu = 0, pol_cpus = [0], pol_related = [0], pol_min = 200000,
     pol_max = 1700000, pol_cur = 1000000, cpuinfo_min = 200000, cpuinfo_max = 1700000,
     transition_latency = 100000, pol_policy = 0, pol_governor = Some ''vbfs'',
     user_min = 200000, user_max = 1700000, user_policy = 0, user_governor = Some ''vbfs''\<rparr>"

definition demo_table :: ftable where
  "demo_table = [\<lparr>fe_index = 0, frequency = 1700000\<rparr>, \<lparr>fe_index = 1, frequency = 1000000\<rparr>,
     \<lparr>fe_index = 2, frequency = 600000\<rparr>, \<lparr>fe_index = 3, frequency = 200000\<rparr>]"

definition demo_env :: kenv where
  "demo_env = \<lparr>idle_time_us = (\<lambda>_. (100, 1000)), iowait_time_us = (\<lambda>_. (0, 1000)),
     jiffies_64 = 200, jiffies_now = 200,
     kstat = (\<lambda>_. \<lparr>st_user = 1, st_nice = 0, st_system = 1, st_irq = 0, st_softirq = 0, st_steal = 0\<rparr>),
     driver_getavg = (\<lambda>_. 0), jiffies_to_usecs = (\<lambda>j. 5000 * j), usecs_to_jiffies = (\<lambda>u. u div 5000),
     online_cpus = [0, 1, 2, 3], get_table = (\<lambda>_. Some demo_table), sysfs_create_rc = 0\<rparr>"

definition demo_info :: gov_cpu_info where
  "demo_info = \<lparr>prev_cpu_idle = 0, prev_cpu_iowait = 0, prev_cpu_wall = 0, prev_cpu_nice = 0,
     cur_policy = Some 0, work = None, freq_table = Some demo_table, freq_lo = 0,
     freq_lo_jiffies = 0, freq_hi_jiffies = 0, rate_mult = 1, info_cpu = 0,
     sample_type = NORMAL_SAMPLE\<rparr>"

lemma demo_usable: "usable demo_policy demo_table 0"
  by (simp add: usable_def demo_policy_def demo_table_def)


end
