(* ===== verification/Freq_Rows.thy ===== *)
theory Freq_Rows
  imports Gov_Common
begin

text \<open>
  Rows of a frequency table in the order the Exynos tables have, fastest first: inside the limits
  they are contiguous, and the two searches of the table bracket a frequency.
\<close>

definition desc_table :: "ftable \<Rightarrow> bool" where
  "desc_table t \<longleftrightarrow> sorted_wrt (\<lambda>x y. frequency y < frequency x) t"

lemma desc_less:
  assumes "desc_table t" "i < length t" "j < length t"
  shows "frequency (t ! i) < frequency (t ! j) \<longleftrightarrow> j < i"
    "frequency (t ! i) \<le> frequency (t ! j) \<longleftrightarrow> j \<le> i"
    "frequency (t ! i) = frequency (t ! j) \<longleftrightarrow> j = i"
proof -
  have *: "b < length t \<Longrightarrow> a < b \<Longrightarrow> frequency (t ! b) < frequency (t ! a)" for a b
    using assms(1) by (auto simp: desc_table_def sorted_wrt_iff_nth_less)
  have "i < j \<or> i = j \<or> j < i" by arith
  then show "frequency (t ! i) < frequency (t ! j) \<longleftrightarrow> j < i"
    "frequency (t ! i) \<le> frequency (t ! j) \<longleftrightarrow> j \<le> i"
    "frequency (t ! i) = frequency (t ! j) \<longleftrightarrow> j = i"
    using *[OF assms(2), of j] *[OF assms(3), of i] by auto
qed

text \<open>Rows of a descending table inside the limits are contiguous, and the two searches at a
  frequency bracket it.\<close>

lemma best_L_geD: "best_L p t f i \<Longrightarrow> usable p t j \<Longrightarrow> f \<le> frequency (t ! j) \<Longrightarrow>
    f \<le> frequency (t ! i) \<and> frequency (t ! i) \<le> frequency (t ! j)"
  by (auto simp: best_L_def split: if_splits dest: order_trans)

lemma best_H_leD: "best_H p t f i \<Longrightarrow> usable p t j \<Longrightarrow> frequency (t ! j) \<le> f \<Longrightarrow>
    frequency (t ! i) \<le> f \<and> frequency (t ! j) \<le> frequency (t ! i)"
  by (auto simp: best_H_def split: if_splits dest: order_trans)

lemma desc_rows:
  assumes "desc_table t" "usable p t i" "usable p t j"
  shows "frequency (t ! i) \<le> frequency (t ! j) \<longleftrightarrow> j \<le> i"
    "frequency (t ! i) < frequency (t ! j) \<longleftrightarrow> j < i"
  using desc_less [OF assms(1), of i j] usable_bounds [OF assms(2)] usable_bounds [OF assms(3)]
  by simp_all

lemma less_not_max: "(x::u32) < y \<Longrightarrow> x \<noteq> 0xFFFFFFFF"
  using unsigned_less [of y, where 'a = nat] by (auto simp: word_less_nat_alt)

lemma usable_between:
  assumes "desc_table t" "usable p t a" "usable p t b" "a \<le> m" "m \<le> b"
  shows "usable p t m"
proof (cases "m = a")
  case False
  then have "a < m" using assms(4) by simp
  moreover have "m < length t" using assms(3,5) by (simp add: usable_def)
  ultimately have lt: "frequency (t ! m) < frequency (t ! a)"
    using assms(2) by (subst desc_less [OF assms(1)]) (simp_all add: usable_def)
  have "frequency (t ! b) \<le> frequency (t ! m)"
    using assms(3,5) \<open>m < length t\<close> by (subst desc_less [OF assms(1)]) (simp_all add: usable_def)
  then show ?thesis
    using lt less_not_max [OF lt] usable_bounds [OF assms(2)] usable_bounds [OF assms(3)]
      \<open>m < length t\<close> unfolding usable_def by (meson order_trans order_less_imp_le)
qed (use assms(2) in simp)

lemma top_row:
  assumes "desc_table t" "best_H p t (pol_max p) e" "usable p t j"
  shows "e \<le> j"
  using best_H_leD [OF assms(2,3)] usable_bounds [OF assms(3)]
    desc_rows(1) [OF assms(1,3) best_usable(2) [OF assms(2)]] by blast

lemma bottom_row:
  assumes "desc_table t" "best_L p t (pol_min p) s" "usable p t j"
  shows "j \<le> s"
  using best_L_geD [OF assms(2,3)] usable_bounds [OF assms(3)]
    desc_rows(1) [OF assms(1) best_usable(1) [OF assms(2)] assms(3)] by blast

lemma bracket_rows:
  assumes "desc_table t" "best_L p t f s" "best_H p t f fi"
  shows "s \<le> fi"
proof -
  have "frequency (t ! fi) \<le> frequency (t ! s)"
    using best_bracket [OF assms(2,3)] by (cases "frequency (t ! fi) = frequency (t ! s)") auto
  then show ?thesis
    using desc_rows(1) [OF assms(1) best_usable(2) [OF assms(3)] best_usable(1) [OF assms(2)]] by blast
qed

lemma bracket_above:
  assumes "desc_table t" "best_L p t f s" "best_H p t f fi" "usable p t m" "m \<le> s"
    "m < fi \<or> (\<forall>j. usable p t j \<longrightarrow> fi \<le> j)" "usable p t k" "f < frequency (t ! k)"
  shows "f < frequency (t ! m)"
proof -
  note us = best_usable(1) [OF assms(2)] and uf = best_usable(2) [OF assms(3)]
  have fs: "f \<le> frequency (t ! s)"
    using best_L_geD [OF assms(2,7)] assms(8) by simp
  have sm: "frequency (t ! s) \<le> frequency (t ! m)"
    using desc_rows(1) [OF assms(1) us assms(4)] assms(5) by blast
  show ?thesis
  proof (cases "frequency (t ! s) = f")
    case True
    then have ff: "frequency (t ! fi) = f"
      using best_H_leD [OF assms(3) us] by (auto intro: antisym)
    then have "k < fi" using desc_rows(2) [OF assms(1) uf assms(7)] assms(8) by simp
    then have "m < fi" using assms(6,7) by auto
    then show ?thesis using desc_rows(2) [OF assms(1) uf assms(4)] ff by simp
  qed (use fs sm in simp)
qed

lemma bracket_below:
  assumes "desc_table t" "best_L p t f fi" "best_H p t f e" "usable p t m" "e \<le> m"
    "fi < m \<or> (\<forall>j. usable p t j \<longrightarrow> j \<le> fi)" "usable p t k" "frequency (t ! k) < f"
  shows "frequency (t ! m) < f"
proof -
  note uf = best_usable(1) [OF assms(2)] and ue = best_usable(2) [OF assms(3)]
  have fe: "frequency (t ! e) \<le> f"
    using best_H_leD [OF assms(3,7)] assms(8) by simp
  have me: "frequency (t ! m) \<le> frequency (t ! e)"
    using desc_rows(1) [OF assms(1,4) ue] assms(5) by blast
  show ?thesis
  proof (cases "frequency (t ! e) = f")
    case True
    then have ff: "frequency (t ! fi) = f"
      using best_L_geD [OF assms(2) ue] by (auto intro: antisym)
    then have "fi < k" using desc_rows(2) [OF assms(1,7) uf] assms(8) by simp
    then have "fi < m" using assms(6,7) by auto
    then show ?thesis using desc_rows(2) [OF assms(1,4) uf] ff by simp
  qed (use fe me in simp)
qed


end
