(* ===== verification/Exynos_Safety.thy ===== *)
theory Exynos_Safety
  imports Exynos_Driver Freq_Rows
begin

text \<open>
  What a request to the Exynos driver touches: its runs in two phases around the change of the clock,
  the frame of each, and the driver's contract towards the governors (the requests keep the other
  policies, the references and the online CPUs, and answer on every request), which is the
  interpretation of \<open>cpufreq_driver_ops\<close> on \<open>exynos_target\<close>.
\<close>

section \<open>Frames\<close>

lemma upd_drv_simps [simp]:
  "drv (upd_drv f s) = f (drv s)" "policies (upd_drv f s) = policies s" "pol_refs (upd_drv f s) = pol_refs s"
  "cpu_data (upd_drv f s) = cpu_data s" "online (upd_drv f s) = online s" "target_log (upd_drv f s) = target_log s"
  "nr_cpu_ids (upd_drv f s) = nr_cpu_ids s" "has_driver (upd_drv f s) = has_driver s"
  "trans_log (upd_drv f s) = trans_log s"
  by (simp_all add: upd_drv_def)

lemma set_arm_volt_simps [simp]:
  "hw (drv (set_arm_volt v s)) = hw (drv s) @ [Set_volt v (v + 25000)]"
  "g_freqs (drv (set_arm_volt v s)) = g_freqs (drv s)"
  "policies (set_arm_volt v s) = policies s" "cpu_data (set_arm_volt v s) = cpu_data s"
  by (simp_all add: set_arm_volt_def regulator_set_voltage_def)

lemma ex_set_freq_simps [simp]:
  "hw (drv (ex_set_freq a b s)) = hw (drv s) @ [Set_freq a b]"
  "g_freqs (drv (ex_set_freq a b s)) = g_freqs (drv s)"
  "policies (ex_set_freq a b s) = policies s" "cpu_data (ex_set_freq a b s) = cpu_data s"
  by (simp_all add: ex_set_freq_def)

text \<open>What no operation on the hardware or the announcement touches: everything but the event list,
  \<open>freqs\<close> and the current frequencies.\<close>

definition drv_part where
  "drv_part d = (exynos_info d, exynos_cpufreq_disable d, exynos_cpufreq_lock_disable d,
     exynos_cpufreq_init_done d, g_limit d, g_lock d, ex_pm_notifier d, ex_reboot_notifier d,
     ex_policy_notifier d, ex_regulator d)"

definition fixed_part where
  "fixed_part s = (drv_part (drv s), online s, cpu_data s, target_log s, nr_cpu_ids s, has_driver s,
     pol_refs s, \<lambda>q. limits_of (policies s q))"

definition same_frame :: "esys \<Rightarrow> esys \<Rightarrow> bool" where
  "same_frame s s' \<longleftrightarrow> fixed_part s' = fixed_part s"

lemma same_frame_refl [simp]: "same_frame s s"
  by (simp add: same_frame_def)

lemma same_frame_trans [trans]: "same_frame s s1 \<Longrightarrow> same_frame s1 s2 \<Longrightarrow> same_frame s s2"
  by (simp add: same_frame_def)

lemma same_frame_upd: "drv_part (f (drv s)) = drv_part (drv s) \<Longrightarrow> same_frame s (upd_drv f s)"
  by (simp add: same_frame_def fixed_part_def)

lemma same_frame_volt [simp]: "same_frame s (set_arm_volt v s)"
  unfolding set_arm_volt_def regulator_set_voltage_def
  by (rule same_frame_upd) (simp add: drv_part_def)

lemma same_frame_freq [simp]: "same_frame s (ex_set_freq a b s)"
  unfolding ex_set_freq_def by (rule same_frame_upd) (simp add: drv_part_def)

lemma same_frame_freqs [simp]: "same_frame s (upd_drv (\<lambda>d. d\<lparr>g_freqs := f d\<rparr>) s)"
  by (rule same_frame_upd) (simp add: drv_part_def)

lemma same_frameD:
  assumes "same_frame s s'"
  shows "exynos_info (drv s') = exynos_info (drv s)" "g_limit (drv s') = g_limit (drv s)"
    "g_lock (drv s') = g_lock (drv s)" "exynos_cpufreq_disable (drv s') = exynos_cpufreq_disable (drv s)"
    "exynos_cpufreq_lock_disable (drv s') = exynos_cpufreq_lock_disable (drv s)"
    "exynos_cpufreq_init_done (drv s') = exynos_cpufreq_init_done (drv s)"
    "online s' = online s" "cpu_data s' = cpu_data s" "target_log s' = target_log s"
    "pol_refs s' = pol_refs s" "limits_of (policies s' q) = limits_of (policies s q)"
    "nr_cpu_ids s' = nr_cpu_ids s" "has_driver s' = has_driver s"
  using assms unfolding same_frame_def fixed_part_def drv_part_def
  by (simp_all only: prod.inject) (metis fun_cong)+

lemma ex_notify_run:
  assumes "cpufreq_notify_transition (xe_scale xe) False st (g_freqs (drv s), s) = (fr, s')"
  shows "ex_notify xe st s = upd_drv (\<lambda>d. d\<lparr>g_freqs := fr\<rparr>) s'"
  using assms by (simp add: ex_notify_def)

lemma same_frame_notify [simp]: "same_frame s (ex_notify xe st s)"
proof -
  obtain fr s' where r: "cpufreq_notify_transition (xe_scale xe) False st (g_freqs (drv s), s) = (fr, s')"
    by (metis prod.exhaust)
  note k = notify_keeps [OF r]
  have "same_frame s s'" by (simp add: same_frame_def fixed_part_def k)
  also have "same_frame s' (ex_notify xe st s)" unfolding ex_notify_run [OF r] by simp
  finally show ?thesis .
qed

lemma ex_notify_hw [simp]:
  "hw (drv (ex_notify xe st s)) = hw (drv s)" "cpu_data (ex_notify xe st s) = cpu_data s"
  "fr_new (g_freqs (drv (ex_notify xe st s))) = fr_new (g_freqs (drv s))"
  "fr_cpu (g_freqs (drv (ex_notify xe st s))) = fr_cpu (g_freqs (drv s))"
proof -
  obtain fr s' where r: "cpufreq_notify_transition (xe_scale xe) False st (g_freqs (drv s), s) = (fr, s')"
    by (metis prod.exhaust)
  show "hw (drv (ex_notify xe st s)) = hw (drv s)" "cpu_data (ex_notify xe st s) = cpu_data s"
    "fr_new (g_freqs (drv (ex_notify xe st s))) = fr_new (g_freqs (drv s))"
    "fr_cpu (g_freqs (drv (ex_notify xe st s))) = fr_cpu (g_freqs (drv s))"
    using notify_keeps [OF r] by (simp_all add: ex_notify_run [OF r])
qed

text \<open>The announcements of a change by a CPU whose policy is registered: \<open>freqs.old\<close> is what the core
  holds, and afterwards the core holds \<open>freqs.new\<close>.\<close>

definition announces :: "nat \<Rightarrow> esys \<Rightarrow> bool" where
  "announces p s \<longleftrightarrow> cpu_data s (fr_cpu (g_freqs (drv s))) = Some p
     \<and> pol_cpu (policies s p) = fr_cpu (g_freqs (drv s))"

lemma ex_notify_pre:
  assumes "announces p s" "fr_old (g_freqs (drv s)) = pol_cur (policies s p)"
  shows "g_freqs (drv (ex_notify xe PRECHANGE s)) = g_freqs (drv s)"
    "policies (ex_notify xe PRECHANGE s) = policies s"
  using assms
  by (simp_all add: ex_notify_def cpufreq_notify_transition_def announces_def Let_def)

lemma ex_notify_post:
  assumes "announces p s"
  shows "g_freqs (drv (ex_notify xe POSTCHANGE s)) = g_freqs (drv s)"
    "pol_cur (policies (ex_notify xe POSTCHANGE s) p) = fr_new (g_freqs (drv s))"
    "q \<noteq> p \<Longrightarrow> policies (ex_notify xe POSTCHANGE s) q = policies s q"
  using assms
  by (simp_all add: ex_notify_def cpufreq_notify_transition_def announces_def set_cur_def Let_def)

lemma announces_simps [simp]:
  "announces p (set_arm_volt v s) = announces p s" "announces p (ex_set_freq a b s) = announces p s"
  by (simp_all add: announces_def)

section \<open>The driver meets the core's contract\<close>

definition exynos_ok :: "exynos_env \<Rightarrow> esys \<Rightarrow> bool" where
  "exynos_ok xe s \<longleftrightarrow> ftt_contract (xe_ftt xe) \<and>
     (\<exists>info. exynos_info (drv s) = Info info
        \<and> length (ex_freq_table info) < 2 ^ 31 \<and> length (volt_table info) = length (ex_freq_table info)
        \<and> unat (pll_safe_idx info) < length (ex_freq_table info)
        \<and> unat (v_level (g_lock (drv s))) < length (ex_freq_table info)
        \<and> unat (v_level (g_limit (drv s))) < length (ex_freq_table info))"

lemma exynos_ok_frame: "same_frame s s' \<Longrightarrow> exynos_ok xe s' = exynos_ok xe s"
  by (simp add: exynos_ok_def same_frameD)

lemma ftt_row:
  assumes "ftt_contract ftt" "length t < 2 ^ 31" "ftt p t f r = Some w"
  shows "usable p t (unat w)"
proof -
  have "case ftt p t f r of
        None \<Rightarrow> \<forall>i. \<not> usable p t i
      | Some w \<Rightarrow> (case r of RELATION_L \<Rightarrow> best_L p t f (unat w) | RELATION_H \<Rightarrow> best_H p t f (unat w))"
    using assms(1,2) by (simp add: ftt_contract_def)
  with assms(3) show ?thesis by (cases r) (auto dest: best_usable)
qed

lemma safe_armvolt_total:
  assumes "unat old < length (ex_freq_table info)" "unat new < length (ex_freq_table info)"
    "unat (pll_safe_idx info) < length (volt_table info)"
  shows "exynos_get_safe_armvolt info old new \<noteq> None"
  using assms by (auto simp: exynos_get_safe_armvolt_def table_freq_def split: option.splits)

lemma clamp_index_row:
  "unat w < n \<Longrightarrow> unat (v_level (g_lock d)) < n \<Longrightarrow> unat (v_level (g_limit d)) < n \<Longrightarrow>
   unat (clamp_index d w) < n"
  by (simp add: clamp_index_def Let_def)

lemma same_frame_if: "same_frame s a \<Longrightarrow> same_frame s b \<Longrightarrow> same_frame s (if c then a else b)"
  by simp

lemma same_frame_target_change: "same_frame s (target_change xe o' i sv av s)"
  unfolding target_change_def Let_def
  by (intro same_frame_if same_frame_trans [OF _ same_frame_volt] same_frame_trans [OF _ same_frame_freq]
      same_frame_trans [OF _ same_frame_notify] same_frame_refl)

text \<open>A request that is not refused, from the searches to the change.\<close>

definition old_set :: "nat \<Rightarrow> esys \<Rightarrow> esys" where
  "old_set p s = upd_drv (\<lambda>d. d\<lparr>g_freqs := (g_freqs d)\<lparr>fr_old := pol_cur (policies s p)\<rparr>\<rparr>) s"

definition new_set :: "nat \<Rightarrow> u32 \<Rightarrow> esys \<Rightarrow> esys" where
  "new_set p f s = upd_drv (\<lambda>d. d\<lparr>g_freqs :=
     \<lparr>fr_cpu = pol_cpu (policies s p), fr_old = pol_cur (policies s p), fr_new = f\<rparr>\<rparr>) s"

lemma new_set_simps [simp]:
  "g_freqs (drv (new_set p f s)) = \<lparr>fr_cpu = pol_cpu (policies s p), fr_old = pol_cur (policies s p), fr_new = f\<rparr>"
  "policies (new_set p f s) = policies s" "cpu_data (new_set p f s) = cpu_data s"
  "hw (drv (new_set p f s)) = hw (drv s)" "hw (drv (old_set p s)) = hw (drv s)"
  "policies (old_set p s) = policies s"
  by (simp_all add: new_set_def old_set_def)

lemma same_frame_set [simp]: "same_frame s (old_set p s)" "same_frame s (new_set p f s)"
  by (simp_all add: old_set_def new_set_def)

lemma clamp_index_freqs [simp]: "clamp_index (drv (old_set p s)) w = clamp_index (drv s) w"
  by (simp add: clamp_index_def old_set_def Let_def)

lemma new_set_old_set:
  "upd_drv (\<lambda>d. d\<lparr>g_freqs := (g_freqs d)\<lparr>fr_new := f, fr_cpu := pol_cpu (policies s p)\<rparr>\<rparr>) (old_set p s)
     = new_set p f s"
  by (cases "g_freqs (drv s)") (simp add: new_set_def old_set_def upd_drv_def)

lemma exynos_target_run:
  assumes "exynos_info (drv s) = Info info" "\<not> exynos_cpufreq_disable (drv s)"
  shows "exynos_target xe p f r s =
    (case xe_ftt xe (policies s p) (ex_freq_table info) (pol_cur (policies s p)) r of
       None \<Rightarrow> Some (- EINVAL, old_set p s)
     | Some old_index \<Rightarrow>
         (case xe_ftt xe (policies s p) (ex_freq_table info) f r of
            None \<Rightarrow> Some (- EINVAL, old_set p s)
          | Some w \<Rightarrow> do {
              fnew \<leftarrow> table_freq (ex_freq_table info) (clamp_index (drv s) w);
              sv \<leftarrow> exynos_get_safe_armvolt info old_index (clamp_index (drv s) w);
              av \<leftarrow> nth_opt (volt_table info) (unat (clamp_index (drv s) w));
              Some (0, target_change xe old_index (clamp_index (drv s) w) sv av (new_set p fnew s))
            }))"
proof -
  have "fr_old (g_freqs (drv (old_set p s))) = pol_cur (policies s p)" by (simp add: old_set_def)
  then show ?thesis
    unfolding exynos_target_def assms(1) deref_def
    using assms(2) by (simp add: Let_def new_set_old_set flip: old_set_def cong: option.case_cong)
qed

lemma exynos_target_info:
  assumes "exynos_target xe p f r s = Some (rc, s')"
  obtains info where "exynos_info (drv s) = Info info"
  using assms by (auto simp: exynos_target_def fault_simps deref_def split: info_ptr.splits)

lemma exynos_target_fixed:
  "exynos_info (drv s) = Info info \<Longrightarrow> exynos_cpufreq_disable (drv s) \<Longrightarrow>
   exynos_target xe p f r s = Some (0, s)"
  by (simp add: exynos_target_def deref_def)

lemma exynos_target_frame:
  assumes "exynos_target xe p f r s = Some (rc, s')"
  shows "same_frame s s'"
proof -
  obtain info where i: "exynos_info (drv s) = Info info" using assms by (rule exynos_target_info)
  show ?thesis
  proof (cases "exynos_cpufreq_disable (drv s)")
    case True
    then show ?thesis using assms exynos_target_fixed [OF i] by simp
  next
    case False
    have tc: "same_frame s (target_change xe o' w sv av (new_set p fnew s))" for o' w sv av fnew
      by (rule same_frame_trans [OF same_frame_set(2) same_frame_target_change])
    show ?thesis
      using assms unfolding exynos_target_run [OF i False]
      by (auto simp: fault_simps tc split: option.splits)
  qed
qed

lemma exynos_target_total:
  assumes "exynos_ok xe s"
  shows "exynos_target xe p f r s \<noteq> None"
proof -
  obtain info where i: "exynos_info (drv s) = Info info"
    and ftt: "ftt_contract (xe_ftt xe)" and len: "length (ex_freq_table info) < 2 ^ 31"
      "length (volt_table info) = length (ex_freq_table info)"
      "unat (pll_safe_idx info) < length (volt_table info)"
    and lv: "unat (v_level (g_lock (drv s))) < length (ex_freq_table info)"
      "unat (v_level (g_limit (drv s))) < length (ex_freq_table info)"
    using assms by (auto simp: exynos_ok_def)
  show ?thesis
  proof (cases "exynos_cpufreq_disable (drv s)")
    case False
    have row: "unat w < length (ex_freq_table info)"
      if "xe_ftt xe (policies s p) (ex_freq_table info) x r = Some w" for x w
      using ftt_row [OF ftt len(1) that] by (simp add: usable_def)
    have "\<exists>y. table_freq (ex_freq_table info) (clamp_index (drv s) w) = Some y"
      "\<exists>y. nth_opt (volt_table info) (unat (clamp_index (drv s) w)) = Some y"
      "\<exists>y. exynos_get_safe_armvolt info o' (clamp_index (drv s) w) = Some y"
      if "unat w < length (ex_freq_table info)" "unat o' < length (ex_freq_table info)" for w o'
      using clamp_index_row [OF that(1) lv] that len safe_armvolt_total [of o' info "clamp_index (drv s) w"]
      by (simp_all add: table_freq_def)
    then show ?thesis
      unfolding exynos_target_run [OF i False] using row by (fastforce split: option.splits)
  qed (simp add: exynos_target_fixed [OF i])
qed

interpretation exynos: cpufreq_driver_ops "exynos_target xe" "exynos_ok xe" for xe :: exynos_env
proof unfold_locales
  fix s s' :: esys and p f r rc l
  show "exynos_ok xe s \<Longrightarrow> exynos_target xe p f r s \<noteq> None" by (rule exynos_target_total)
  show "exynos_ok xe s \<Longrightarrow> exynos_target xe p f r s = Some (rc, s') \<Longrightarrow> exynos_ok xe s'"
    by (simp add: exynos_ok_frame [OF exynos_target_frame])
  show "exynos_target xe p f r s = Some (rc, s') \<Longrightarrow> sys_frame s' = sys_frame s"
    by (simp add: sys_frame_def same_frameD [OF exynos_target_frame])
  show "exynos_target xe p f r s = Some (rc, s') \<Longrightarrow> target_log s' = target_log s"
    by (rule same_frameD [OF exynos_target_frame])
  show "exynos_ok xe (s\<lparr>target_log := l\<rparr>) = exynos_ok xe s" by (simp add: exynos_ok_def)
qed

end
