(* ===== verification/Exynos_Hw.thy ===== *)
theory Exynos_Hw
  imports Exynos_Safety
begin

text \<open>
  The order of voltage and frequency changes in the Exynos driver. A run of hardware events is safe
  when at every moment the voltage is enough for the level the clock runs at, a change of frequency
  names the level it starts from, its voltage is enough for both levels, and a change that moves the
  clock to MPLL on the way finds the voltage of \<open>pll_safe_idx\<close>.
\<close>

section \<open>Safe runs of events\<close>

text \<open>The state of the hardware: the regulator's voltage and the level of the clock.\<close>

fun hw_step :: "hw_event \<Rightarrow> u32 \<times> u32 \<Rightarrow> u32 \<times> u32" where
  "hw_step (Set_volt lo hi) (v, i) = (lo, i)"
| "hw_step (Set_freq old new) (v, i) = (v, new)"

definition level_volt :: "dvfs_info \<Rightarrow> u32 \<Rightarrow> u32" where
  "level_volt info i = volt_table info ! unat i"

definition apll_switch :: "dvfs_info \<Rightarrow> u32 \<Rightarrow> u32 \<Rightarrow> bool" where
  "apll_switch info old new \<longleftrightarrow> (case need_apll_change info of
     None \<Rightarrow> False
   | Some need \<Rightarrow> need old new \<and> frequency (ex_freq_table info ! unat new) < mpll_freq_khz info
       \<and> frequency (ex_freq_table info ! unat old) < mpll_freq_khz info)"

fun step_safe :: "dvfs_info \<Rightarrow> hw_event \<Rightarrow> u32 \<times> u32 \<Rightarrow> bool" where
  "step_safe info (Set_volt lo hi) (v, i) \<longleftrightarrow> level_volt info i \<le> lo"
| "step_safe info (Set_freq old new) (v, i) \<longleftrightarrow>
     old = i \<and> level_volt info i \<le> v \<and> level_volt info new \<le> v
     \<and> (apll_switch info old new \<longrightarrow> level_volt info (pll_safe_idx info) \<le> v)"

fun hw_run :: "hw_event list \<Rightarrow> u32 \<times> u32 \<Rightarrow> u32 \<times> u32" where
  "hw_run [] st = st"
| "hw_run (e # es) st = hw_run es (hw_step e st)"

fun hw_safe :: "dvfs_info \<Rightarrow> hw_event list \<Rightarrow> u32 \<times> u32 \<Rightarrow> bool" where
  "hw_safe info [] st = True"
| "hw_safe info (e # es) st = (step_safe info e st \<and> hw_safe info es (hw_step e st))"

lemma hw_run_append: "hw_run (xs @ ys) st = hw_run ys (hw_run xs st)"
  by (induction xs st rule: hw_run.induct) simp_all

lemma hw_safe_append: "hw_safe info (xs @ ys) st \<longleftrightarrow> hw_safe info xs st \<and> hw_safe info ys (hw_run xs st)"
  by (induction xs arbitrary: st) simp_all

text \<open>What the tables of a chip promise: fastest level first, the voltage not higher for a slower
  level, enough voltage at \<open>pll_safe_idx\<close> for every level below MPLL, and never 0, which the code uses
  for \<open>not needed\<close>.\<close>

definition chip_ok :: "dvfs_info \<Rightarrow> bool" where
  "chip_ok info \<longleftrightarrow> desc_table (ex_freq_table info) \<and> length (ex_freq_table info) < 2 ^ 31
     \<and> length (volt_table info) = length (ex_freq_table info)
     \<and> sorted_wrt (\<lambda>a b. b \<le> a) (volt_table info)
     \<and> unat (pll_safe_idx info) < length (ex_freq_table info)
     \<and> level_volt info (pll_safe_idx info) \<noteq> 0
     \<and> (\<forall>i < length (ex_freq_table info). frequency (ex_freq_table info ! i) < mpll_freq_khz info
          \<longrightarrow> volt_table info ! i \<le> level_volt info (pll_safe_idx info))"

lemma volt_mono:
  assumes "chip_ok info" "i \<le> j" "j < length (ex_freq_table info)"
  shows "volt_table info ! j \<le> volt_table info ! i"
proof (cases "i = j")
  case False
  then show ?thesis
    using assms by (auto simp: chip_ok_def sorted_wrt_iff_nth_less)
qed simp

lemma volt_of_freq:
  assumes "chip_ok info" "i < length (ex_freq_table info)" "j < length (ex_freq_table info)"
    and "frequency (ex_freq_table info ! j) \<le> frequency (ex_freq_table info ! i)"
  shows "volt_table info ! j \<le> volt_table info ! i"
proof -
  have "desc_table (ex_freq_table info)" using assms(1) by (simp add: chip_ok_def)
  then have "i \<le> j" using desc_less(2) [of _ j i] assms(2-4) by simp
  then show ?thesis using volt_mono [OF assms(1) _ assms(3)] by simp
qed

lemma safe_armvolt:
  assumes "chip_ok info" "unat a < length (ex_freq_table info)" "unat b < length (ex_freq_table info)"
  shows "exynos_get_safe_armvolt info a b
    = Some (if apll_switch info a b then level_volt info (pll_safe_idx info) else 0)"
  using assms
  by (auto simp: exynos_get_safe_armvolt_def apll_switch_def table_freq_def level_volt_def chip_ok_def
      split: option.splits)

lemma safe_volt_level:
  assumes "chip_ok info" "apll_switch info a b"
    "unat a < length (ex_freq_table info)" "unat b < length (ex_freq_table info)"
  shows "level_volt info a \<le> level_volt info (pll_safe_idx info)"
    "level_volt info b \<le> level_volt info (pll_safe_idx info)"
  using assms by (auto simp: chip_ok_def apll_switch_def level_volt_def split: option.splits)

section \<open>A request to the driver\<close>

definition change_events :: "u32 \<Rightarrow> u32 \<Rightarrow> u32 \<Rightarrow> u32 \<Rightarrow> u32 \<Rightarrow> u32 \<Rightarrow> hw_event list" where
  "change_events fcur fnew a b sv av =
     (if fnew > fcur \<and> sv = 0 then [Set_volt av (av + 25000)] else [])
     @ (if sv \<noteq> 0 then [Set_volt sv (sv + 25000)] else [])
     @ (if fnew \<noteq> fcur then [Set_freq a b] else [])
     @ (if fnew < fcur \<or> fnew > fcur \<and> sv \<noteq> 0 then [Set_volt av (av + 25000)] else [])"

lemma if_volt [simp]:
  "hw (drv (if c then set_arm_volt v s else s)) = hw (drv s) @ (if c then [Set_volt v (v + 25000)] else [])"
  "g_freqs (drv (if c then set_arm_volt v s else s)) = g_freqs (drv s)"
  "policies (if c then set_arm_volt v s else s) = policies s"
  "announces p (if c then set_arm_volt v s else s) = announces p s"
  by simp_all

lemma if_freq [simp]:
  "hw (drv (if c then ex_set_freq a b s else s)) = hw (drv s) @ (if c then [Set_freq a b] else [])"
  "g_freqs (drv (if c then ex_set_freq a b s else s)) = g_freqs (drv s)"
  "policies (if c then ex_set_freq a b s else s) = policies s"
  "announces p (if c then ex_set_freq a b s else s) = announces p s"
  by simp_all

lemma target_change_run:
  assumes "announces p s" "fr_old (g_freqs (drv s)) = pol_cur (policies s p)"
  shows "hw (drv (target_change xe a b sv av s))
      = hw (drv s) @ change_events (fr_old (g_freqs (drv s))) (fr_new (g_freqs (drv s))) a b sv av"
    "pol_cur (policies (target_change xe a b sv av s) p) = fr_new (g_freqs (drv s))"
proof -
  note pre = ex_notify_pre [OF assms, of xe]
  have an: "announces p (ex_notify xe PRECHANGE s)"
    using assms(1) by (simp add: announces_def pre)
  note [simp del] = if_split
  define fo fn where "fo = fr_old (g_freqs (drv s))" and "fn = fr_new (g_freqs (drv s))"
  define s1 where "s1 = (if fn > fo \<and> sv = 0 then set_arm_volt av (ex_notify xe PRECHANGE s)
    else ex_notify xe PRECHANGE s)"
  define s2 where "s2 = (if sv \<noteq> 0 then set_arm_volt sv s1 else s1)"
  define s3 where "s3 = (if fn \<noteq> fo then ex_set_freq a b s2 else s2)"
  have f: "g_freqs (drv s1) = g_freqs (drv s)" "g_freqs (drv s2) = g_freqs (drv s)"
    "g_freqs (drv s3) = g_freqs (drv s)" "announces p s3"
    using an by (simp_all add: s1_def s2_def s3_def pre)
  note post = ex_notify_post [OF f(4), where xe = xe]
  have t: "target_change xe a b sv av s = (if fn < fo \<or> fn > fo \<and> sv \<noteq> 0
      then set_arm_volt av (ex_notify xe POSTCHANGE s3) else ex_notify xe POSTCHANGE s3)"
    unfolding target_change_def Let_def pre
    by (simp only: f post fo_def [symmetric] fn_def [symmetric] s1_def [symmetric] s2_def [symmetric]
        s3_def [symmetric])
  show "hw (drv (target_change xe a b sv av s))
      = hw (drv s) @ change_events (fr_old (g_freqs (drv s))) (fr_new (g_freqs (drv s))) a b sv av"
    unfolding t fo_def [symmetric] fn_def [symmetric] change_events_def
    by (simp add: s1_def s2_def s3_def)
  show "pol_cur (policies (target_change xe a b sv av s) p) = fr_new (g_freqs (drv s))"
    unfolding t by (simp add: post f)
qed

lemma change_events_safe:
  assumes "chip_ok info" "unat a < length (ex_freq_table info)" "unat b < length (ex_freq_table info)"
    and "fcur = frequency (ex_freq_table info ! unat a)" "fnew = frequency (ex_freq_table info ! unat b)"
    and "level_volt info a \<le> v"
    and "sv = (if apll_switch info a b then level_volt info (pll_safe_idx info) else 0)"
    and "av = level_volt info b"
  shows "hw_safe info (change_events fcur fnew a b sv av) (v, a)
    \<and> snd (hw_run (change_events fcur fnew a b sv av) (v, a)) = b
    \<and> level_volt info b \<le> fst (hw_run (change_events fcur fnew a b sv av) (v, a))"
proof -
  have d: "desc_table (ex_freq_table info)" and sv0: "level_volt info (pll_safe_idx info) \<noteq> 0"
    using assms(1) by (simp_all add: chip_ok_def)
  have sw: "level_volt info a \<le> sv" "level_volt info b \<le> sv" "sv = level_volt info (pll_safe_idx info)"
    if "sv \<noteq> 0"
    using that assms(7) safe_volt_level [OF assms(1) _ assms(2,3)] by (auto split: if_splits)
  have sw0: "apll_switch info a b \<longleftrightarrow> sv \<noteq> 0" using assms(7) sv0 by simp
  consider "fnew = fcur" | "fnew < fcur" | "fcur < fnew" by (rule linorder_cases)
  then show ?thesis
  proof cases
    case 1
    have "a = b"
      using desc_less(3) [OF d assms(3,2)] assms(4,5) 1 by (simp add: word_unat_eq_iff)
    then show ?thesis
      using assms(6) sw by (cases "sv = 0") (simp_all add: change_events_def 1)
  next
    case 2
    have "level_volt info b \<le> level_volt info a"
      using volt_of_freq [OF assms(1-3)] assms(4,5) 2 by (simp add: level_volt_def)
    then have "level_volt info b \<le> v" using assms(6) by (rule order_trans)
    moreover have "\<not> fcur < fnew" "fnew \<noteq> fcur" using 2 by auto
    ultimately show ?thesis
      using 2 assms(6) sw by (cases "sv = 0") (simp_all add: change_events_def assms(8) sw0)
  next
    case 3
    have "level_volt info a \<le> level_volt info b"
      using volt_of_freq [OF assms(1,3,2)] assms(4,5) 3 by (simp add: level_volt_def)
    moreover have "\<not> fnew < fcur" "fnew \<noteq> fcur" using 3 by auto
    ultimately show ?thesis
      using 3 assms(6) sw by (cases "sv = 0") (simp_all add: change_events_def assms(8) sw0)
  qed
qed

text \<open>A level inside the limits is found exactly, whatever the relation.\<close>

lemma ftt_exact:
  assumes "ftt_contract ftt" "length t < 2 ^ 31" "desc_table t" "usable p t i"
  shows "\<exists>w. ftt p t (frequency (t ! i)) r = Some w \<and> unat w = i"
proof -
  obtain w where w: "ftt p t (frequency (t ! i)) r = Some w" "usable p t (unat w)"
    "r = RELATION_L \<longrightarrow> best_L p t (frequency (t ! i)) (unat w)"
    "r = RELATION_H \<longrightarrow> best_H p t (frequency (t ! i)) (unat w)"
    using ftt_contractD [OF assms(1,2,4)] by blast
  have "frequency (t ! unat w) = frequency (t ! i)"
  proof (cases r)
    case RELATION_L
    with w(3) have b: "best_L p t (frequency (t ! i)) (unat w)" by simp
    show ?thesis
      using best_L_geD [OF b assms(4) order_refl] by (elim conjE) (rule order_antisym)
  next
    case RELATION_H
    with w(4) have b: "best_H p t (frequency (t ! i)) (unat w)" by simp
    show ?thesis
      using best_H_leD [OF b assms(4) order_refl] by (elim conjE) (rule order_antisym)
  qed
  then have "unat w = i"
    using desc_less(3) [OF assms(3) conjunct1 [OF usable_bounds [OF w(2)]] conjunct1 [OF usable_bounds [OF assms(4)]]]
    by blast
  with w(1) show ?thesis by blast
qed

definition at_level :: "dvfs_info \<Rightarrow> nat \<Rightarrow> esys \<Rightarrow> u32 \<times> u32 \<Rightarrow> bool" where
  "at_level info p s st \<longleftrightarrow> (case st of (v, a) \<Rightarrow>
     unat a < length (ex_freq_table info)
     \<and> pol_cur (policies s p) = frequency (ex_freq_table info ! unat a) \<and> level_volt info a \<le> v)"

definition exynos_ready :: "exynos_env \<Rightarrow> dvfs_info \<Rightarrow> nat \<Rightarrow> esys \<Rightarrow> bool" where
  "exynos_ready xe info p s \<longleftrightarrow> ftt_contract (xe_ftt xe) \<and> chip_ok info
     \<and> exynos_info (drv s) = Info info \<and> cpu_data s (pol_cpu (policies s p)) = Some p
     \<and> unat (v_level (g_lock (drv s))) < length (ex_freq_table info)
     \<and> unat (v_level (g_limit (drv s))) < length (ex_freq_table info)"

lemma announces_new_set: "cpu_data s (pol_cpu (policies s p)) = Some p \<Longrightarrow> announces p (new_set p f s)"
  by (simp add: announces_def)

text \<open>What a request does once its two rows are known.\<close>

lemma exynos_target_found:
  assumes "exynos_ready xe info p s" "\<not> exynos_cpufreq_disable (drv s)"
    and "xe_ftt xe (policies s p) (ex_freq_table info) (pol_cur (policies s p)) r = Some o'"
    and "xe_ftt xe (policies s p) (ex_freq_table info) f r = Some w"
  defines "i \<equiv> clamp_index (drv s) w"
  shows "unat o' < length (ex_freq_table info)" "unat w < length (ex_freq_table info)"
    "unat i < length (ex_freq_table info)"
    "\<exists>s'. exynos_target xe p f r s = Some (0, s')
      \<and> pol_cur (policies s' p) = frequency (ex_freq_table info ! unat i)
      \<and> hw (drv s') = hw (drv s) @ change_events (pol_cur (policies s p)) (frequency (ex_freq_table info ! unat i)) o' i
          (if apll_switch info o' i then level_volt info (pll_safe_idx info) else 0) (level_volt info i)"
proof -
  let ?t = "ex_freq_table info"
  have ftt: "ftt_contract (xe_ftt xe)" and chip: "chip_ok info" and inf: "exynos_info (drv s) = Info info"
    and reg: "cpu_data s (pol_cpu (policies s p)) = Some p"
    using assms(1) by (simp_all add: exynos_ready_def)
  have len: "length ?t < 2 ^ 31" "length (volt_table info) = length ?t" using chip by (simp_all add: chip_ok_def)
  show o: "unat o' < length ?t" and w: "unat w < length ?t"
    using ftt_row [OF ftt len(1) assms(3)] ftt_row [OF ftt len(1) assms(4)] by (simp_all add: usable_def)
  show row: "unat i < length ?t"
    unfolding i_def using w assms(1) by (intro clamp_index_row) (simp_all add: exynos_ready_def)
  have tf: "table_freq ?t i = Some (frequency (?t ! unat i))" using row by (simp add: table_freq_def)
  have av: "nth_opt (volt_table info) (unat i) = Some (level_volt info i)"
    using row len by (simp add: level_volt_def)
  note sv = safe_armvolt [OF chip o row]
  let ?n = "new_set p (frequency (?t ! unat i)) s"
  have "announces p ?n" "fr_old (g_freqs (drv ?n)) = pol_cur (policies ?n p)"
    using announces_new_set [OF reg] by simp_all
  note tc = target_change_run [OF this, where xe = xe and a = o' and b = i]
  have run: "exynos_target xe p f r s = Some (0, target_change xe o' i
      (if apll_switch info o' i then level_volt info (pll_safe_idx info) else 0) (level_volt info i)
      (new_set p (frequency (?t ! unat i)) s))"
    by (simp add: exynos_target_run [OF inf assms(2)] assms(3,4) tf sv av del: if_split flip: i_def)
  show "\<exists>s'. exynos_target xe p f r s = Some (0, s')
      \<and> pol_cur (policies s' p) = frequency (?t ! unat i)
      \<and> hw (drv s') = hw (drv s) @ change_events (pol_cur (policies s p)) (frequency (?t ! unat i)) o' i
          (if apll_switch info o' i then level_volt info (pll_safe_idx info) else 0) (level_volt info i)"
    unfolding run by (rule exI, rule conjI, rule refl) (simp add: tc del: if_split)
qed

text \<open>
  Claim C4. A request to the Exynos driver changes voltage and frequency in a safe order: from a
  clock at a level inside the policy's limits with enough voltage, the driver raises the voltage
  before the clock and lowers it after, goes through the safe voltage when the clock has to run on
  MPLL on the way, and ends at the requested level clamped between the limit and the lock, again
  with enough voltage and with the core's current frequency at one with the clock.
\<close>

theorem exynos_target_voltage_safe:
  assumes "exynos_ready xe info p s" "\<not> exynos_cpufreq_disable (drv s)"
    and "at_level info p s (v, a)" "usable (policies s p) (ex_freq_table info) (unat a)"
  shows "\<exists>s' evs w. exynos_target xe p f r s = Some (0, s') \<and> hw (drv s') = hw (drv s) @ evs
    \<and> hw_safe info evs (v, a) \<and> at_level info p s' (hw_run evs (v, a))
    \<and> xe_ftt xe (policies s p) (ex_freq_table info) f r = Some w
    \<and> snd (hw_run evs (v, a)) = clamp_index (drv s) w"
proof -
  let ?t = "ex_freq_table info"
  have ftt: "ftt_contract (xe_ftt xe)" and chip: "chip_ok info" using assms(1) by (simp_all add: exynos_ready_def)
  have len: "length ?t < 2 ^ 31" and desc: "desc_table ?t" using chip by (simp_all add: chip_ok_def)
  have a: "unat a < length ?t" "pol_cur (policies s p) = frequency (?t ! unat a)" "level_volt info a \<le> v"
    using assms(3) by (simp_all add: at_level_def)
  obtain o' where "xe_ftt xe (policies s p) ?t (pol_cur (policies s p)) r = Some o'" "unat o' = unat a"
    using ftt_exact [OF ftt len desc assms(4)] a(2) by metis
  then have old: "xe_ftt xe (policies s p) ?t (pol_cur (policies s p)) r = Some a"
    by (simp add: word_unat_eq_iff)
  obtain w where w: "xe_ftt xe (policies s p) ?t f r = Some w"
    using ftt_contractD [OF ftt len assms(4)] by blast
  note found = exynos_target_found [OF assms(1,2) old w]
  obtain s' where s': "exynos_target xe p f r s = Some (0, s')"
    "pol_cur (policies s' p) = frequency (?t ! unat (clamp_index (drv s) w))"
    and h: "hw (drv s') = hw (drv s) @ change_events (pol_cur (policies s p)) (frequency (?t ! unat (clamp_index (drv s) w)))
      a (clamp_index (drv s) w)
      (if apll_switch info a (clamp_index (drv s) w) then level_volt info (pll_safe_idx info) else 0)
      (level_volt info (clamp_index (drv s) w))"
    using found(4) by blast
  note safe = change_events_safe [OF chip a(1) found(3) a(2) refl a(3) refl refl]
  show ?thesis
    using s' h safe w found(3)
    by (intro exI conjI) (assumption | simp add: at_level_def case_prod_unfold)+
qed

end
