(* ===== verification/Exynos_Levels.thy ===== *)
theory Exynos_Levels
  imports Exynos_Hw
begin

text \<open>
  The frequency lock and limit of the Exynos driver: which level is in force after any sequence of
  calls, the voltage order of the changes they make themselves, the fixed level and the suspend.
\<close>

section \<open>A chip and a system for the examples\<close>

definition demo_chip :: dvfs_info where
  "demo_chip = \<lparr>mpll_freq_khz = 800000, pll_safe_idx = 2, pm_lock_idx = 2, max_support_idx = 0,
     min_support_idx = 4, volt_table = [1300000, 1200000, 1000000, 950000, 900000],
     ex_freq_table = [\<lparr>fe_index = 0, frequency = 1400000\<rparr>, \<lparr>fe_index = 1, frequency = 1200000\<rparr>,
       \<lparr>fe_index = 2, frequency = 800000\<rparr>, \<lparr>fe_index = 3, frequency = 500000\<rparr>,
       \<lparr>fe_index = 4, frequency = 200000\<rparr>],
     need_apll_change = Some (\<lambda>a b. a \<noteq> b)\<rparr>"

definition demo_xe :: exynos_env where
  "demo_xe = \<lparr>xe_ftt = scan_ftt, xe_scale = demo_scale, xe_id_end = 10, xe_id_pm = 0, xe_id_tmu = 1,
     xe_clk_get_rate = (\<lambda>_. 500000000), xe_get_table = Some (ex_freq_table demo_chip),
     xe_verify = (\<lambda>pol t. (0, pol)), xe_cpuinfo = (\<lambda>pol t. (0, pol))\<rparr>"

definition demo_exynos :: exynos where
  "demo_exynos = \<lparr>exynos_info = Info demo_chip, g_freqs = \<lparr>fr_cpu = 0, fr_old = 0, fr_new = 0\<rparr>,
     exynos_cpufreq_disable = False, exynos_cpufreq_lock_disable = False, exynos_cpufreq_init_done = True,
     g_limit = \<lparr>v_id = 0, v_val = replicate 10 0, v_level = 0\<rparr>,
     g_lock = \<lparr>v_id = 0, v_val = replicate 10 4, v_level = 4\<rparr>,
     ex_pm_notifier = True, ex_reboot_notifier = True, ex_policy_notifier = True, ex_regulator = True, hw = []\<rparr>"

text \<open>Running at 500 MHz.\<close>

definition demo_pol :: cpufreq_policy where
  "demo_pol = \<lparr>pol_cpu = 0, pol_cpus = [0, 1], pol_related = [0, 1], pol_min = 200000, pol_max = 1400000,
     pol_cur = 500000, cpuinfo_min = 200000, cpuinfo_max = 1400000, transition_latency = 100000,
     pol_policy = 0, pol_governor = Some ''vbfs'', user_min = 200000, user_max = 1400000,
     user_policy = 0, user_governor = Some ''vbfs''\<rparr>"

definition demo_esys :: esys where
  "demo_esys = \<lparr>policies = (\<lambda>_. demo_pol), pol_refs = (\<lambda>_. 1), cpu_data = (\<lambda>c. if c < 4 then Some 0 else None),
     nr_cpu_ids = 4, has_driver = True, online = (\<lambda>c. c < 4), l_p_j_ref = 1000, l_p_j_ref_freq = 200000,
     loops_per_jiffy = 1000, trans_log = [], target_log = [], drv = demo_exynos\<rparr>"

lemma demo_chip_ok: "chip_ok demo_chip"
  unfolding chip_ok_def demo_chip_def desc_table_def level_volt_def by (simp add: All_less_Suc)

lemma demo_exynos_ready: "exynos_ready demo_xe demo_chip 0 demo_esys"
  using demo_chip_ok scan_ftt_contract
  by (simp add: exynos_ready_def demo_xe_def demo_esys_def demo_exynos_def demo_pol_def)
    (simp add: demo_chip_def)

lemma demo_at_level: "at_level demo_chip 0 demo_esys (950000, 3)"
  by (simp add: at_level_def demo_esys_def demo_pol_def demo_chip_def level_volt_def)

lemma demo_level_usable: "usable (policies demo_esys 0) (ex_freq_table demo_chip) 3"
  by (simp add: usable_def demo_esys_def demo_pol_def demo_chip_def)

theorem exynos_target_voltage_safe_witness:
  "\<exists>s' evs w. exynos_target demo_xe 0 1400000 RELATION_H demo_esys = Some (0, s')
    \<and> hw_safe demo_chip evs (950000, 3) \<and> at_level demo_chip 0 s' (hw_run evs (950000, 3))
    \<and> snd (hw_run evs (950000, 3)) = clamp_index demo_exynos w"
proof -
  have "\<not> exynos_cpufreq_disable (drv demo_esys)" "unat (3 :: u32) = 3" "drv demo_esys = demo_exynos"
    by (simp_all add: demo_esys_def demo_exynos_def)
  then show ?thesis
    using exynos_target_voltage_safe [OF demo_exynos_ready _ demo_at_level, of 1400000 RELATION_H]
      demo_level_usable by metis
qed

section \<open>The changes that the lock and the limit make\<close>

definition rows_indexed :: "ftable \<Rightarrow> bool" where
  "rows_indexed t \<longleftrightarrow> (\<forall>i < length t. fe_index (t ! i) = of_nat i)"

lemma row_scan_found:
  assumes "rows_indexed t" "desc_table t" "length t < 2 ^ 31" "k < length t" "k \<le> unat m" "j \<le> k"
  shows "row_scan (drop j t) j m (frequency (t ! k)) = Some (Some (of_nat k))"
  using assms(6)
proof (induction rule: inc_induct)
  case base
  show ?case
    using assms(1,4) by (simp add: Cons_nth_drop_Suc [symmetric] rows_indexed_def)
next
  case (step n)
  have n: "n < length t" using step(2) assms(4) by simp
  have "frequency (t ! k) \<noteq> frequency (t ! n)"
    using desc_less(3) [OF assms(2,4) n] step(2) by simp
  moreover have "(of_nat n :: u32) \<noteq> m"
  proof
    assume "of_nat n = m"
    moreover have "unat (of_nat n :: u32) = n"
      using n assms(3) by (intro unat_of_nat_small) simp
    ultimately have "unat m = n" by simp
    then show False using step(2) assms(5) by simp
  qed
  ultimately show ?case
    using step(3) n by (simp add: Cons_nth_drop_Suc [symmetric])
qed

lemma row_of_level:
  assumes "rows_indexed (ex_freq_table info)" "chip_ok info" "at_level info p s (v, a)"
    "a \<le> min_support_idx info"
  shows "row_scan (ex_freq_table info) 0 (min_support_idx info) (pol_cur (policies s p)) = Some (Some a)"
  using row_scan_found [OF assms(1), of "unat a" "min_support_idx info" 0] assms(2-4)
  by (simp add: chip_ok_def at_level_def word_le_nat_alt)

lemma set_freqs_simps [simp]:
  "g_freqs (drv (set_freqs x y s)) = (g_freqs (drv s))\<lparr>fr_old := x, fr_new := y\<rparr>"
  "policies (set_freqs x y s) = policies s" "hw (drv (set_freqs x y s)) = hw (drv s)"
  "announces p (set_freqs x y s) = announces p s"
  by (simp_all add: set_freqs_def announces_def)

lemma hw_appends [simp]:
  "hw (drv (ex_set_freq a b (set_arm_volt v s))) = hw (drv s) @ [Set_volt v (v + 25000), Set_freq a b]"
  by simp

lemma lock_change_run:
  assumes "chip_ok info" "rows_indexed (ex_freq_table info)" "announces p s" "at_level info p s (v, a)"
    and "a \<le> min_support_idx info" "unat level < length (ex_freq_table info)"
    and "pol_cur (policies s p) < frequency (ex_freq_table info ! unat level)"
  shows "\<exists>s'. lock_change xe info p level s = Some (0, s')
    \<and> pol_cur (policies s' p) = frequency (ex_freq_table info ! unat level)
    \<and> hw (drv s') = hw (drv s)
        @ (if apll_switch info a level
           then [Set_volt (level_volt info (pll_safe_idx info)) (level_volt info (pll_safe_idx info) + 25000)] else [])
        @ [Set_volt (level_volt info level) (level_volt info level + 25000), Set_freq a level]"
proof -
  let ?t = "ex_freq_table info"
  let ?s1 = "set_freqs (pol_cur (policies s p)) (frequency (?t ! unat level)) s"
  have a: "unat a < length ?t" using assms(4) by (simp add: at_level_def)
  have len: "length (volt_table info) = length ?t" and sv0: "level_volt info (pll_safe_idx info) \<noteq> 0"
    using assms(1) by (simp_all add: chip_ok_def)
  have an: "announces p ?s1" and old: "fr_old (g_freqs (drv ?s1)) = pol_cur (policies ?s1 p)"
    using assms(3) by simp_all
  have pre: "announces p (ex_notify xe PRECHANGE ?s1)"
    using an ex_notify_pre [OF an old, of xe] by (simp add: announces_def)
  note row = row_of_level [OF assms(2,1,4,5)]
  have nf: "table_freq ?t level = Some (frequency (?t ! unat level))"
    and nv: "nth_opt (volt_table info) (unat level) = Some (level_volt info level)"
    using assms(6) len by (simp_all add: table_freq_def level_volt_def)
  note sv = safe_armvolt [OF assms(1) a assms(6)]
  show ?thesis
    using assms(7) pre sv0
    by (cases "apll_switch info a level")
      (simp_all add: lock_change_def Let_def row nf nv sv ex_notify_post)
qed

lemma limit_change_run:
  assumes "chip_ok info" "rows_indexed (ex_freq_table info)" "announces p s" "at_level info p s (v, a)"
    and "a \<le> min_support_idx info" "unat level < length (ex_freq_table info)"
    and "frequency (ex_freq_table info ! unat level) < pol_cur (policies s p)"
  shows "\<exists>s'. limit_change xe info p level s = Some (0, s')
    \<and> pol_cur (policies s' p) = frequency (ex_freq_table info ! unat level)
    \<and> hw (drv s') = hw (drv s) @ [Set_freq a level]
        @ (if apll_switch info a level
           then [Set_volt (level_volt info (pll_safe_idx info)) (level_volt info (pll_safe_idx info) + 25000)] else [])
        @ [Set_volt (level_volt info level) (level_volt info level + 25000)]"
proof -
  let ?t = "ex_freq_table info"
  let ?s1 = "set_freqs (pol_cur (policies s p)) (frequency (?t ! unat level)) s"
  have a: "unat a < length ?t" using assms(4) by (simp add: at_level_def)
  have len: "length (volt_table info) = length ?t" and sv0: "level_volt info (pll_safe_idx info) \<noteq> 0"
    using assms(1) by (simp_all add: chip_ok_def)
  have an: "announces p ?s1" and old: "fr_old (g_freqs (drv ?s1)) = pol_cur (policies ?s1 p)"
    using assms(3) by simp_all
  have pre: "announces p (ex_notify xe PRECHANGE ?s1)"
    using an ex_notify_pre [OF an old, of xe] by (simp add: announces_def)
  note row = row_of_level [OF assms(2,1,4,5)]
  have nf: "table_freq ?t level = Some (frequency (?t ! unat level))"
    and nv: "nth_opt (volt_table info) (unat level) = Some (level_volt info level)"
    using assms(6) len by (simp_all add: table_freq_def level_volt_def)
  note sv = safe_armvolt [OF assms(1) a assms(6)]
  show ?thesis
    using assms(7) pre sv0
    by (cases "apll_switch info a level")
      (simp_all add: limit_change_def Let_def row nf nv sv ex_notify_post)
qed

text \<open>The states in which a lock reaches the change: nothing refuses it, nobody holds a faster limit.\<close>

definition lock_granted :: "exynos_env \<Rightarrow> nat \<Rightarrow> u32 \<Rightarrow> nat \<Rightarrow> esys \<Rightarrow> bool" where
  "lock_granted xe nId level p s \<longleftrightarrow> exynos_cpufreq_init_done (drv s)
     \<and> (exynos_cpufreq_disable (drv s) \<longrightarrow> nId = xe_id_tmu xe)
     \<and> 0 < nr_cpu_ids s \<and> has_driver s \<and> cpu_data s 0 = Some p
     \<and> nId < 32 \<and> nId < length (v_val (g_lock (drv s))) \<and> \<not> vote_held (g_lock (drv s)) nId
     \<and> \<not> exynos_cpufreq_lock_disable (drv s)
     \<and> v_level (g_limit (drv s)) \<le> level \<and> v_level (g_limit (drv s)) \<le> v_level (g_lock (drv s))"

definition limit_granted :: "nat \<Rightarrow> nat \<Rightarrow> esys \<Rightarrow> bool" where
  "limit_granted nId p s \<longleftrightarrow> exynos_cpufreq_init_done (drv s) \<and> \<not> exynos_cpufreq_disable (drv s)
     \<and> 0 < nr_cpu_ids s \<and> has_driver s \<and> cpu_data s 0 = Some p
     \<and> nId < 32 \<and> nId < length (v_val (g_limit (drv s))) \<and> \<not> vote_held (g_limit (drv s)) nId"

definition ref_taken :: "nat \<Rightarrow> esys \<Rightarrow> esys" where
  "ref_taken p s = s\<lparr>pol_refs := (pol_refs s)(p := pol_refs s p + 1)\<rparr>"

lemma lock_granted_run:
  assumes "lock_granted xe nId level p s" "exynos_info (drv s) = Info info"
  shows "exynos_cpufreq_lock xe nId level s = lock_change xe info p level
    (upd_drv (\<lambda>d. d\<lparr>g_lock := vote_take (<) nId level (g_lock d)\<rparr>) (ref_taken p s))"
proof -
  have "\<not> (v_level (vote_take (<) nId level (g_lock (drv s))) < v_level (g_limit (drv s)))"
    using assms(1) by (auto simp: lock_granted_def vote_take_def)
  moreover have "(exynos_cpufreq_disable (drv s) \<and> nId \<noteq> xe_id_tmu xe) = False"
    using assms(1) by (auto simp: lock_granted_def)
  moreover have "exynos_cpufreq_init_done (drv s)" "\<not> nr_cpu_ids s \<le> 0" "has_driver s" "cpu_data s 0 = Some p"
    "\<not> 32 \<le> nId" "\<not> length (v_val (g_lock (drv s))) \<le> nId" "\<not> vote_held (g_lock (drv s)) nId"
    "\<not> exynos_cpufreq_lock_disable (drv s)"
    using assms(1) by (auto simp: lock_granted_def)
  ultimately show ?thesis
    using assms(2) by (auto simp: exynos_cpufreq_lock_def cpufreq_cpu_get_def ref_taken_def deref_def Let_def)
qed

lemma limit_granted_run:
  assumes "limit_granted nId p s" "exynos_info (drv s) = Info info"
  shows "exynos_cpufreq_upper_limit xe nId level s = limit_change xe info p level
    (upd_drv (\<lambda>d. d\<lparr>g_limit := vote_take (>) nId level (g_limit d)\<rparr>) (ref_taken p s))"
  using assms
  by (simp add: exynos_cpufreq_upper_limit_def limit_granted_def cpufreq_cpu_get_def ref_taken_def deref_def Let_def)

lemma ref_taken_simps [simp]:
  "drv (ref_taken p s) = drv s" "policies (ref_taken p s) = policies s" "cpu_data (ref_taken p s) = cpu_data s"
  by (simp_all add: ref_taken_def)

text \<open>
  Claim C37. A granted lock that has to raise the clock does so with the right order of voltage and
  frequency, except for one thing: the safe voltage for the time on MPLL is set and then overwritten
  by the voltage of the new level before the frequency changes. The change is safe exactly when no
  such switch is needed or the new level's own voltage is enough for it.
\<close>

theorem exynos_lock_safe_iff:
  assumes "exynos_ready xe info p s" "lock_granted xe nId level p s" "announces p s"
    and "at_level info p s (v, a)" "rows_indexed (ex_freq_table info)" "a \<le> min_support_idx info"
    and "unat level < length (ex_freq_table info)"
    and "pol_cur (policies s p) < frequency (ex_freq_table info ! unat level)"
  shows "\<exists>s' evs. exynos_cpufreq_lock xe nId level s = Some (0, s') \<and> hw (drv s') = hw (drv s) @ evs
    \<and> at_level info p s' (hw_run evs (v, a)) \<and> snd (hw_run evs (v, a)) = level
    \<and> (hw_safe info evs (v, a) \<longleftrightarrow>
         \<not> apll_switch info a level \<or> level_volt info (pll_safe_idx info) \<le> level_volt info level)"
proof -
  let ?s = "upd_drv (\<lambda>d. d\<lparr>g_lock := vote_take (<) nId level (g_lock d)\<rparr>) (ref_taken p s)"
  let ?evs = "(if apll_switch info a level
      then [Set_volt (level_volt info (pll_safe_idx info)) (level_volt info (pll_safe_idx info) + 25000)] else [])
      @ [Set_volt (level_volt info level) (level_volt info level + 25000), Set_freq a level]"
  have chip: "chip_ok info" and i: "exynos_info (drv s) = Info info"
    using assms(1) by (simp_all add: exynos_ready_def)
  have an: "announces p ?s" and at: "at_level info p ?s (v, a)"
    using assms(3,4) by (simp_all add: announces_def at_level_def)
  have "pol_cur (policies ?s p) < frequency (ex_freq_table info ! unat level)" using assms(8) by simp
  note r = lock_change_run [OF chip assms(5) an at assms(6,7) this, of xe]
  obtain s' where s': "lock_change xe info p level ?s = Some (0, s')"
      "pol_cur (policies s' p) = frequency (ex_freq_table info ! unat level)" "hw (drv s') = hw (drv s) @ ?evs"
    using r by auto
  have a: "unat a < length (ex_freq_table info)" "level_volt info a \<le> v"
      "pol_cur (policies s p) = frequency (ex_freq_table info ! unat a)"
    using assms(4) by (simp_all add: at_level_def)
  have up: "level_volt info a \<le> level_volt info level"
    using volt_of_freq [OF chip assms(7) a(1)] assms(8) a(3) by (simp add: level_volt_def)
  have sw: "apll_switch info a level \<Longrightarrow> level_volt info a \<le> level_volt info (pll_safe_idx info)"
    using safe_volt_level(1) [OF chip _ a(1) assms(7)] by blast
  have "hw_safe info ?evs (v, a) \<longleftrightarrow>
      \<not> apll_switch info a level \<or> level_volt info (pll_safe_idx info) \<le> level_volt info level"
    using up sw by (cases "apll_switch info a level") simp_all
  moreover have "hw_run ?evs (v, a) = (level_volt info level, level)" by simp
  ultimately show ?thesis
    using s' assms(7) lock_granted_run [OF assms(2) i]
    by (intro exI [of _ s'] exI [of _ ?evs] conjI) (simp_all add: at_level_def)
qed

text \<open>
  A granted limit that has to lower the clock changes the frequency first and then sets the
  safe voltage: the change is safe exactly when the clock needs no time on MPLL or the voltage it
  happens to run with is already enough for it.
\<close>

theorem exynos_limit_safe_iff:
  assumes "exynos_ready xe info p s" "limit_granted nId p s" "announces p s"
    and "at_level info p s (v, a)" "rows_indexed (ex_freq_table info)" "a \<le> min_support_idx info"
    and "unat level < length (ex_freq_table info)"
    and "frequency (ex_freq_table info ! unat level) < pol_cur (policies s p)"
  shows "\<exists>s' evs. exynos_cpufreq_upper_limit xe nId level s = Some (0, s') \<and> hw (drv s') = hw (drv s) @ evs
    \<and> at_level info p s' (hw_run evs (v, a)) \<and> snd (hw_run evs (v, a)) = level
    \<and> (hw_safe info evs (v, a) \<longleftrightarrow>
         \<not> apll_switch info a level \<or> level_volt info (pll_safe_idx info) \<le> v)"
proof -
  let ?s = "upd_drv (\<lambda>d. d\<lparr>g_limit := vote_take (>) nId level (g_limit d)\<rparr>) (ref_taken p s)"
  let ?evs = "[Set_freq a level] @ (if apll_switch info a level
      then [Set_volt (level_volt info (pll_safe_idx info)) (level_volt info (pll_safe_idx info) + 25000)] else [])
      @ [Set_volt (level_volt info level) (level_volt info level + 25000)]"
  have chip: "chip_ok info" and i: "exynos_info (drv s) = Info info"
    using assms(1) by (simp_all add: exynos_ready_def)
  have an: "announces p ?s" and at: "at_level info p ?s (v, a)"
    using assms(3,4) by (simp_all add: announces_def at_level_def)
  have "frequency (ex_freq_table info ! unat level) < pol_cur (policies ?s p)" using assms(8) by simp
  note r = limit_change_run [OF chip assms(5) an at assms(6,7) this, of xe]
  obtain s' where s': "limit_change xe info p level ?s = Some (0, s')"
      "pol_cur (policies s' p) = frequency (ex_freq_table info ! unat level)" "hw (drv s') = hw (drv s) @ ?evs"
    using r by auto
  have a: "unat a < length (ex_freq_table info)" "level_volt info a \<le> v"
      "pol_cur (policies s p) = frequency (ex_freq_table info ! unat a)"
    using assms(4) by (simp_all add: at_level_def)
  have "level_volt info level \<le> level_volt info a"
    using volt_of_freq [OF chip a(1) assms(7)] assms(8) a(3) by (simp add: level_volt_def)
  then have down: "level_volt info level \<le> v" using a(2) by (rule order_trans)
  have sw: "apll_switch info a level \<Longrightarrow> level_volt info level \<le> level_volt info (pll_safe_idx info)"
    using safe_volt_level(2) [OF chip _ a(1) assms(7)] by blast
  have "hw_safe info ?evs (v, a) \<longleftrightarrow>
      \<not> apll_switch info a level \<or> level_volt info (pll_safe_idx info) \<le> v"
    using down a(2) sw by (cases "apll_switch info a level") simp_all
  moreover have "hw_run ?evs (v, a) = (level_volt info level, level)" by simp
  ultimately show ?thesis
    using s' assms(7) limit_granted_run [OF assms(2) i]
    by (intro exI [of _ s'] exI [of _ ?evs] conjI) (simp_all add: at_level_def)
qed

lemma demo_rows_indexed: "rows_indexed (ex_freq_table demo_chip)"
  unfolding rows_indexed_def demo_chip_def by (simp add: All_less_Suc)

lemma demo_announces: "announces 0 demo_esys"
  by (simp add: announces_def demo_esys_def demo_exynos_def demo_pol_def)

lemma demo_at: "unat level < 5 \<Longrightarrow> unat level < length (ex_freq_table demo_chip)"
  by (simp add: demo_chip_def)

theorem exynos_lock_safe_iff_witness:
  "\<exists>s' evs. exynos_cpufreq_lock demo_xe 3 2 demo_esys = Some (0, s') \<and> hw (drv s') = evs
    \<and> snd (hw_run evs (950000, 3)) = 2 \<and> hw_safe demo_chip evs (950000, 3)"
proof -
  have 1: "lock_granted demo_xe 3 2 0 demo_esys"
    by (simp add: lock_granted_def demo_esys_def demo_exynos_def demo_xe_def vote_held_def)
  have 2: "(3 :: u32) \<le> min_support_idx demo_chip" "unat (2 :: u32) < length (ex_freq_table demo_chip)"
    by (simp_all add: demo_chip_def)
  have 3: "pol_cur (policies demo_esys 0) < frequency (ex_freq_table demo_chip ! unat (2 :: u32))"
    by (simp add: demo_esys_def demo_pol_def demo_chip_def)
  have 4: "\<not> apll_switch demo_chip 3 2" "hw (drv demo_esys) = []"
    by (simp_all add: apll_switch_def demo_chip_def demo_esys_def demo_exynos_def)
  show ?thesis
    using exynos_lock_safe_iff [OF demo_exynos_ready 1 demo_announces demo_at_level demo_rows_indexed 2 3] 4
    by auto
qed

theorem exynos_limit_safe_iff_witness:
  "\<exists>s' evs. exynos_cpufreq_upper_limit demo_xe 3 4 demo_esys = Some (0, s') \<and> hw (drv s') = evs
    \<and> snd (hw_run evs (950000, 3)) = 4 \<and> \<not> hw_safe demo_chip evs (950000, 3)"
proof -
  have 1: "limit_granted 3 0 demo_esys"
    by (simp add: limit_granted_def demo_esys_def demo_exynos_def vote_held_def)
  have 2: "(3 :: u32) \<le> min_support_idx demo_chip" "unat (4 :: u32) < length (ex_freq_table demo_chip)"
    by (simp_all add: demo_chip_def)
  have 3: "frequency (ex_freq_table demo_chip ! unat (4 :: u32)) < pol_cur (policies demo_esys 0)"
    by (simp add: demo_esys_def demo_pol_def demo_chip_def)
  have 4: "apll_switch demo_chip 3 4" "hw (drv demo_esys) = []"
    "\<not> level_volt demo_chip (pll_safe_idx demo_chip) \<le> 950000"
    by (simp_all add: apll_switch_def level_volt_def demo_chip_def demo_esys_def demo_exynos_def)
  show ?thesis
    using exynos_limit_safe_iff [OF demo_exynos_ready 1 demo_announces demo_at_level demo_rows_indexed 2 3] 4
    by auto
qed

end
