(* ===== verification/Exynos_Calls.thy ===== *)
theory Exynos_Calls
  imports Exynos_Levels
begin

text \<open>
  Sequences of calls into the Exynos driver: the governors' requests, the lock and the limit, the
  fixed level, and the suspend, policy and reboot notifiers, in any order. What is in force after
  them, what a suspend freezes, and what is left of references and of a failed initialisation.
\<close>

section \<open>Calls\<close>

datatype exynos_call =
    Lock nat u32 | Unlock nat | Limit nat u32 | Unlimit nat | Target nat u32 relation
  | Fix u32 | Unfix | Pm pm_event | Policy_change bool cpufreq_policy | Reboot

fun exynos_call_step :: "exynos_env \<Rightarrow> exynos_call \<Rightarrow> esys \<Rightarrow> esys option" where
  "exynos_call_step xe (Lock nId level) s = map_option snd (exynos_cpufreq_lock xe nId level s)"
| "exynos_call_step xe (Unlock nId) s = exynos_cpufreq_lock_free nId s"
| "exynos_call_step xe (Limit nId level) s = map_option snd (exynos_cpufreq_upper_limit xe nId level s)"
| "exynos_call_step xe (Unlimit nId) s = exynos_cpufreq_upper_limit_free nId s"
| "exynos_call_step xe (Target p f r) s = map_option snd (exynos_target xe p f r s)"
| "exynos_call_step xe (Fix f) s = map_option snd (exynos_cpufreq_level_fix xe f s)"
| "exynos_call_step xe Unfix s = Some (exynos_cpufreq_level_unfix s)"
| "exynos_call_step xe (Pm e) s = map_option snd (exynos_cpufreq_notifier_event xe e s)"
| "exynos_call_step xe (Policy_change adjust pol) s = exynos_cpufreq_policy_notifier_call adjust pol s"
| "exynos_call_step xe Reboot s = map_option snd (exynos_cpufreq_reboot_notifier_call xe s)"

fun exynos_calls :: "exynos_env \<Rightarrow> exynos_call list \<Rightarrow> esys \<Rightarrow> esys option" where
  "exynos_calls xe [] s = Some s"
| "exynos_calls xe (c # cs) s = Option.bind (exynos_call_step xe c s) (exynos_calls xe cs)"

lemma same_frame_notify_set [simp]: "same_frame s (set_freqs x y s)"
  by (simp add: set_freqs_def)

lemmas frame_intros = same_frame_trans [OF _ same_frame_notify] same_frame_trans [OF _ same_frame_freq]
  same_frame_trans [OF _ same_frame_volt] same_frame_notify_set same_frame_refl

lemma lock_change_frame:
  assumes "lock_change xe info p level s = Some (rc, s')"
  shows "same_frame s s'"
proof -
  have *: "same_frame s (ex_notify xe POSTCHANGE (ex_set_freq a level (set_arm_volt av
      (set_arm_volt sv (ex_notify xe PRECHANGE (set_freqs x y s))))))"
    "same_frame s (ex_notify xe POSTCHANGE (ex_set_freq a level (set_arm_volt av
      (ex_notify xe PRECHANGE (set_freqs x y s)))))" for a av sv x y
    by (intro frame_intros)+
  show ?thesis
    using assms unfolding lock_change_def Let_def
    by (auto simp: fault_simps * split: option.splits if_splits)
qed

lemma limit_change_frame:
  assumes "limit_change xe info p level s = Some (rc, s')"
  shows "same_frame s s'"
proof -
  have *: "same_frame s (ex_notify xe POSTCHANGE (set_arm_volt av (set_arm_volt sv
      (ex_set_freq a level (ex_notify xe PRECHANGE (set_freqs x y s))))))"
    "same_frame s (ex_notify xe POSTCHANGE (set_arm_volt av
      (ex_set_freq a level (ex_notify xe PRECHANGE (set_freqs x y s)))))" for a av sv x y
    by (intro frame_intros)+
  show ?thesis
    using assms unfolding limit_change_def Let_def
    by (auto simp: fault_simps * split: option.splits if_splits)
qed

lemma wakeup_change_frame:
  assumes "wakeup_change xe info s = Some s'"
  shows "same_frame s s'"
proof -
  have *: "same_frame s (ex_notify xe POSTCHANGE (ex_set_freq a b (set_arm_volt av
      (set_arm_volt sv (ex_notify xe PRECHANGE s)))))"
    "same_frame s (ex_notify xe POSTCHANGE (ex_set_freq a b (set_arm_volt av (ex_notify xe PRECHANGE s))))"
    for a b av sv
    by (intro frame_intros)+
  show ?thesis
    using assms unfolding wakeup_change_def Let_def by (auto simp: fault_simps * split: if_splits)
qed

section \<open>The levels in force\<close>

text \<open>The abstract arbitration: who holds a lock, who holds a limit. A call is open when the driver does
  not refuse it before it looks at its holders.\<close>

type_synonym holders = "nat \<Rightarrow> u32 option"

definition cpu0_policy :: "esys \<Rightarrow> nat option" where
  "cpu0_policy s = (if 0 < nr_cpu_ids s \<and> has_driver s then cpu_data s 0 else None)"

definition lock_open :: "exynos_env \<Rightarrow> esys \<Rightarrow> nat \<Rightarrow> bool" where
  "lock_open xe s nId \<longleftrightarrow> (exynos_cpufreq_disable (drv s) \<longrightarrow> nId = xe_id_tmu xe) \<and> cpu0_policy s \<noteq> None"

definition limit_open :: "esys \<Rightarrow> bool" where
  "limit_open s \<longleftrightarrow> \<not> exynos_cpufreq_disable (drv s) \<and> cpu0_policy s \<noteq> None"

definition arb_take :: "bool \<Rightarrow> nat \<Rightarrow> u32 \<Rightarrow> holders \<Rightarrow> holders" where
  "arb_take open nId level A = (if open \<and> A nId = None then A(nId \<mapsto> level) else A)"

fun arb_step ::
  "exynos_env \<Rightarrow> dvfs_info \<Rightarrow> esys \<Rightarrow> exynos_call \<Rightarrow> holders \<times> holders \<Rightarrow> holders \<times> holders" where
  "arb_step xe info s (Lock nId level) (L, U) = (arb_take (lock_open xe s nId) nId level L, U)"
| "arb_step xe info s (Unlock nId) (L, U) = (L(nId := None), U)"
| "arb_step xe info s (Limit nId level) (L, U) = (L, arb_take (limit_open s) nId level U)"
| "arb_step xe info s (Unlimit nId) (L, U) = (L, U(nId := None))"
| "arb_step xe info s (Pm PM_SUSPEND_PREPARE) (L, U) =
     (arb_take (lock_open xe s (xe_id_pm xe)) (xe_id_pm xe) (pm_lock_idx info) L, U)"
| "arb_step xe info s (Pm PM_POST_SUSPEND) (L, U) = (L(xe_id_pm xe := None), U)"
| "arb_step xe info s (Pm PM_POST_RESTORE) (L, U) = (L(xe_id_pm xe := None), U)"
| "arb_step xe info s Reboot (L, U) =
     (arb_take (lock_open xe s (xe_id_pm xe)) (xe_id_pm xe) (pm_lock_idx info) L, U)"
| "arb_step xe info s c (L, U) = (L, U)"

definition arb_abs :: "esys \<Rightarrow> holders \<times> holders" where
  "arb_abs s = (held (g_lock (drv s)), held (g_limit (drv s)))"

definition arb_inv :: "dvfs_info \<Rightarrow> nat \<Rightarrow> esys \<Rightarrow> bool" where
  "arb_inv info n s \<longleftrightarrow> exynos_info (drv s) = Info info \<and> exynos_cpufreq_init_done (drv s)
     \<and> lock_order.votes_ok n (min_support_idx info) (g_lock (drv s))
     \<and> limit_order.votes_ok n (max_support_idx info) (g_limit (drv s))"

lemma arb_frame: "same_frame s s' \<Longrightarrow> arb_inv info n s' = arb_inv info n s \<and> arb_abs s' = arb_abs s"
  by (simp add: arb_inv_def arb_abs_def same_frameD)

lemma cpu_get_0:
  "cpufreq_cpu_get 0 s = (case cpu0_policy s of None \<Rightarrow> (None, s) | Some p \<Rightarrow> (Some p, ref_taken p s))"
  by (auto simp: cpufreq_cpu_get_def cpu0_policy_def ref_taken_def split: option.splits)

lemma held_vote: "vote_held v i \<Longrightarrow> i < length (v_val v) \<Longrightarrow> held v i \<noteq> None"
  "\<not> vote_held v i \<Longrightarrow> held v i = None"
  by (simp_all add: vote_held_def held_def)

text \<open>What a lock call does to the arbitration, on every branch.\<close>

lemma lock_cases:
  assumes "arb_inv info n s" "exynos_cpufreq_lock xe nId level s = Some (rc, s')"
  shows "(\<not> lock_open xe s nId \<and> s' = s \<and> rc = - EPERM) \<or>
    (\<exists>p. lock_open xe s nId \<and> cpu0_policy s = Some p \<and> nId < n \<and>
      (vote_held (g_lock (drv s)) nId \<and> s' = ref_taken p s \<and> rc = 0 \<or>
       \<not> vote_held (g_lock (drv s)) nId \<and>
         same_frame (upd_drv (\<lambda>d. d\<lparr>g_lock := vote_take (<) nId level (g_lock d)\<rparr>) (ref_taken p s)) s'))"
proof -
  have inv: "exynos_info (drv s) = Info info" "exynos_cpufreq_init_done (drv s)"
    "length (v_val (g_lock (drv s))) = n" "n \<le> 32"
    using assms(1) by (simp_all add: arb_inv_def lock_order.votes_ok_def)
  show ?thesis
  proof (cases "lock_open xe s nId")
    case False
    then show ?thesis
      using assms(2) inv
      by (cases "exynos_cpufreq_disable (drv s) \<and> nId \<noteq> xe_id_tmu xe"; cases "cpu0_policy s")
        (auto simp: exynos_cpufreq_lock_def lock_open_def cpu_get_0)
  next
    case True
    then obtain p where p: "cpu0_policy s = Some p" by (auto simp: lock_open_def)
    have d: "\<not> (exynos_cpufreq_disable (drv s) \<and> nId \<noteq> xe_id_tmu xe)" using True by (auto simp: lock_open_def)
    note run = assms(2) [unfolded exynos_cpufreq_lock_def if_not_P [OF d] cpu_get_0 p]
    have "nId < n" using run inv by (auto simp: deref_def split: if_splits)
    then show ?thesis
      using run inv True p
      by (auto simp: deref_def Let_def split: if_splits dest: lock_change_frame)
  qed
qed

lemma limit_cases:
  assumes "arb_inv info n s" "exynos_cpufreq_upper_limit xe nId level s = Some (rc, s')"
  shows "(\<not> limit_open s \<and> s' = s \<and> rc = - EPERM) \<or>
    (\<exists>p. limit_open s \<and> cpu0_policy s = Some p \<and> nId < n \<and>
      (vote_held (g_limit (drv s)) nId \<and> s' = ref_taken p s \<and> rc = 0 \<or>
       \<not> vote_held (g_limit (drv s)) nId \<and>
         same_frame (upd_drv (\<lambda>d. d\<lparr>g_limit := vote_take (>) nId level (g_limit d)\<rparr>) (ref_taken p s)) s'))"
proof -
  have inv: "exynos_info (drv s) = Info info" "exynos_cpufreq_init_done (drv s)"
    "length (v_val (g_limit (drv s))) = n" "n \<le> 32"
    using assms(1) by (simp_all add: arb_inv_def limit_order.votes_ok_def)
  show ?thesis
  proof (cases "limit_open s")
    case False
    then show ?thesis
      using assms(2) inv
      by (cases "exynos_cpufreq_disable (drv s)"; cases "cpu0_policy s")
        (simp_all add: exynos_cpufreq_upper_limit_def limit_open_def cpu_get_0)
  next
    case True
    then obtain p where p: "cpu0_policy s = Some p" and d: "\<not> exynos_cpufreq_disable (drv s)"
      by (auto simp: limit_open_def)
    note run = assms(2) [unfolded exynos_cpufreq_upper_limit_def if_not_P [OF d] cpu_get_0 p]
    have "nId < n" using run inv by (auto simp: deref_def split: if_splits)
    then show ?thesis
      using run inv True p
      by (auto simp: deref_def Let_def split: if_splits dest: limit_change_frame)
  qed
qed

lemma arb_lock_step:
  assumes "arb_inv info n s" "exynos_cpufreq_lock xe nId level s = Some (rc, s')"
  shows "arb_inv info n s' \<and> exynos_cpufreq_disable (drv s') = exynos_cpufreq_disable (drv s)
    \<and> arb_abs s' = (arb_take (lock_open xe s nId) nId level (held (g_lock (drv s))), held (g_limit (drv s)))"
  using lock_cases [OF assms]
proof (elim disjE conjE exE)
  assume "\<not> lock_open xe s nId" "s' = s"
  then show ?thesis using assms(1) by (simp add: arb_abs_def arb_take_def)
next
  fix p assume "lock_open xe s nId" "nId < n" "vote_held (g_lock (drv s)) nId" "s' = ref_taken p s"
  then show ?thesis
    using assms(1) held_vote(1) [of "g_lock (drv s)" nId]
    by (auto simp: arb_inv_def arb_abs_def arb_take_def lock_order.votes_ok_def)
next
  fix p
  let ?s1 = "upd_drv (\<lambda>d. d\<lparr>g_lock := vote_take (<) nId level (g_lock d)\<rparr>) (ref_taken p s)"
  assume opn: "lock_open xe s nId" and n: "nId < n" and v: "\<not> vote_held (g_lock (drv s)) nId"
    and fr: "same_frame ?s1 s'"
  have ok: "lock_order.votes_ok n (min_support_idx info) (g_lock (drv s))"
    using assms(1) by (simp add: arb_inv_def)
  then have len: "nId < 32" "nId < length (v_val (g_lock (drv s)))"
    using n by (simp_all add: lock_order.votes_ok_def)
  have "arb_inv info n ?s1"
    using assms(1) lock_order.take_ok [OF ok n v] by (simp add: arb_inv_def)
  moreover have "arb_abs ?s1
      = (arb_take (lock_open xe s nId) nId level (held (g_lock (drv s))), held (g_limit (drv s)))"
    using opn held_vote(2) [OF v] by (simp add: arb_abs_def arb_take_def held_take [OF len])
  ultimately show ?thesis
    using arb_frame [OF fr] same_frameD [OF fr] by simp
qed

lemma arb_limit_step:
  assumes "arb_inv info n s" "exynos_cpufreq_upper_limit xe nId level s = Some (rc, s')"
  shows "arb_inv info n s' \<and> exynos_cpufreq_disable (drv s') = exynos_cpufreq_disable (drv s)
    \<and> arb_abs s' = (held (g_lock (drv s)), arb_take (limit_open s) nId level (held (g_limit (drv s))))"
  using limit_cases [OF assms]
proof (elim disjE conjE exE)
  assume "\<not> limit_open s" "s' = s"
  then show ?thesis using assms(1) by (simp add: arb_abs_def arb_take_def)
next
  fix p assume "limit_open s" "nId < n" "vote_held (g_limit (drv s)) nId" "s' = ref_taken p s"
  then show ?thesis
    using assms(1) held_vote(1) [of "g_limit (drv s)" nId]
    by (auto simp: arb_inv_def arb_abs_def arb_take_def limit_order.votes_ok_def)
next
  fix p
  let ?s1 = "upd_drv (\<lambda>d. d\<lparr>g_limit := vote_take (>) nId level (g_limit d)\<rparr>) (ref_taken p s)"
  assume opn: "limit_open s" and n: "nId < n" and v: "\<not> vote_held (g_limit (drv s)) nId"
    and fr: "same_frame ?s1 s'"
  have ok: "limit_order.votes_ok n (max_support_idx info) (g_limit (drv s))"
    using assms(1) by (simp add: arb_inv_def)
  then have len: "nId < 32" "nId < length (v_val (g_limit (drv s)))"
    using n by (simp_all add: limit_order.votes_ok_def)
  have "arb_inv info n ?s1"
    using assms(1) limit_order.take_ok [OF ok n v] by (simp add: arb_inv_def)
  moreover have "arb_abs ?s1
      = (held (g_lock (drv s)), arb_take (limit_open s) nId level (held (g_limit (drv s))))"
    using opn held_vote(2) [OF v] by (simp add: arb_abs_def arb_take_def held_take [OF len])
  ultimately show ?thesis
    using arb_frame [OF fr] same_frameD [OF fr] by simp
qed

lemma arb_unlock_step:
  assumes "arb_inv info n s" "exynos_cpufreq_lock_free nId s = Some s'"
  shows "arb_inv info n s' \<and> exynos_cpufreq_disable (drv s') = exynos_cpufreq_disable (drv s)
    \<and> arb_abs s' = ((held (g_lock (drv s)))(nId := None), held (g_limit (drv s)))"
proof -
  have ok: "lock_order.votes_ok n (min_support_idx info) (g_lock (drv s))"
    and i: "exynos_info (drv s) = Info info" "exynos_cpufreq_init_done (drv s)"
    using assms(1) by (simp_all add: arb_inv_def)
  have r: "nId < 32" "nId < length (v_val (g_lock (drv s)))"
    "s' = upd_drv (\<lambda>d. d\<lparr>g_lock := vote_free (<) (min_support_idx info) nId (g_lock d)\<rparr>) s"
    using assms(2) i by (auto simp: exynos_cpufreq_lock_free_def deref_def split: if_splits)
  then have "nId < n" using ok by (simp add: lock_order.votes_ok_def)
  then show ?thesis
    using assms(1) lock_order.free_ok [OF ok] by (simp add: r(3) arb_inv_def arb_abs_def held_free [OF r(1,2)])
qed

lemma arb_unlimit_step:
  assumes "arb_inv info n s" "exynos_cpufreq_upper_limit_free nId s = Some s'"
  shows "arb_inv info n s' \<and> exynos_cpufreq_disable (drv s') = exynos_cpufreq_disable (drv s)
    \<and> arb_abs s' = (held (g_lock (drv s)), (held (g_limit (drv s)))(nId := None))"
proof -
  have ok: "limit_order.votes_ok n (max_support_idx info) (g_limit (drv s))"
    and i: "exynos_info (drv s) = Info info" "exynos_cpufreq_init_done (drv s)"
    using assms(1) by (simp_all add: arb_inv_def)
  have r: "nId < 32" "nId < length (v_val (g_limit (drv s)))"
    "s' = upd_drv (\<lambda>d. d\<lparr>g_limit := vote_free (>) (max_support_idx info) nId (g_limit d)\<rparr>) s"
    using assms(2) i by (auto simp: exynos_cpufreq_upper_limit_free_def deref_def split: if_splits)
  then have "nId < n" using ok by (simp add: limit_order.votes_ok_def)
  then show ?thesis
    using assms(1) limit_order.free_ok [OF ok] by (simp add: r(3) arb_inv_def arb_abs_def held_free [OF r(1,2)])
qed

lemma arb_flag:
  assumes "g_lock (f (drv s)) = g_lock (drv s)" "g_limit (f (drv s)) = g_limit (drv s)"
  shows "arb_abs (upd_drv f s) = arb_abs s"
    "exynos_info (f (drv s)) = exynos_info (drv s) \<Longrightarrow>
     exynos_cpufreq_init_done (f (drv s)) = exynos_cpufreq_init_done (drv s) \<Longrightarrow>
     arb_inv info n (upd_drv f s) = arb_inv info n s"
  using assms by (simp_all add: arb_inv_def arb_abs_def)

lemma arb_ref: "arb_inv info n (ref_taken p s) = arb_inv info n s" "arb_abs (ref_taken p s) = arb_abs s"
  by (simp_all add: arb_inv_def arb_abs_def)

lemma arb_abs_eq: "(held (g_lock (drv s)), held (g_limit (drv s))) = arb_abs s"
  by (simp add: arb_abs_def)

lemma target_step:
  assumes "exynos_target xe p f r s = Some (rc, s')"
  shows "arb_inv info n s' = arb_inv info n s" "arb_abs s' = arb_abs s"
  using arb_frame [OF exynos_target_frame [OF assms]] by simp_all

lemma fix_step:
  assumes "arb_inv info n s" "exynos_cpufreq_level_fix xe f s = Some (rc, s')"
  shows "arb_inv info n s' \<and> arb_abs s' = arb_abs s"
proof -
  have "(\<exists>p. s' = ref_taken p s) \<or> s' = s \<or> (\<exists>p rc s1. exynos_target xe p f RELATION_L (ref_taken p s) = Some (rc, s1)
      \<and> s' = upd_drv (\<lambda>d. d\<lparr>exynos_cpufreq_disable := True\<rparr>) s1)"
    using assms(2) by (auto simp: exynos_cpufreq_level_fix_def cpu_get_0 fault_simps split: if_splits option.splits)
  then show ?thesis
  proof (elim disjE exE conjE)
    fix p rc s1 assume t: "exynos_target xe p f RELATION_L (ref_taken p s) = Some (rc, s1)"
      and s': "s' = upd_drv (\<lambda>d. d\<lparr>exynos_cpufreq_disable := True\<rparr>) s1"
    have "arb_inv info n s1" "arb_abs s1 = arb_abs s"
      using target_step(1) [OF t, of info n] target_step(2) [OF t] assms(1) by (simp_all add: arb_ref)
    then show ?thesis by (simp add: s' arb_flag)
  qed (use assms(1) arb_ref in simp_all)
qed

lemma post_step:
  assumes "arb_inv info n s" "e = PM_POST_SUSPEND \<or> e = PM_POST_RESTORE"
    and "exynos_cpufreq_notifier_event xe e s = Some (rc, s')"
  shows "arb_inv info n s' \<and> arb_abs s' = ((held (g_lock (drv s)))(xe_id_pm xe := None), held (g_limit (drv s)))"
proof -
  have i: "exynos_info (drv s) = Info info" using assms(1) by (simp add: arb_inv_def)
  obtain s1 where s1: "exynos_cpufreq_lock_free (xe_id_pm xe) s = Some s1"
    using assms(2,3) i
    by (cases "exynos_cpufreq_lock_free (xe_id_pm xe) s") (auto simp: exynos_cpufreq_notifier_event_def deref_def)
  have "\<exists>s2. (s2 = s1 \<or> wakeup_change xe info s1 = Some s2)
      \<and> s' = upd_drv (\<lambda>d. d\<lparr>exynos_cpufreq_disable := False\<rparr>) s2"
    using assms(2,3) i s1
    by (cases "exynos_cpufreq_lock_disable (drv s1)")
      (auto simp: exynos_cpufreq_notifier_event_def deref_def fault_simps)
  then obtain s2 where s2: "s2 = s1 \<or> wakeup_change xe info s1 = Some s2"
    and s': "s' = upd_drv (\<lambda>d. d\<lparr>exynos_cpufreq_disable := False\<rparr>) s2" by blast
  note u = arb_unlock_step [OF assms(1) s1]
  have "arb_inv info n s2 \<and> arb_abs s2 = arb_abs s1"
    using s2 u arb_frame [OF wakeup_change_frame, of xe info s1 s2 info n] by blast
  with u show ?thesis by (simp add: s' arb_flag)
qed

lemma prepare_step:
  assumes "arb_inv info n s" "exynos_cpufreq_notifier_event xe PM_SUSPEND_PREPARE s = Some (rc, s')"
  shows "arb_inv info n s' \<and> arb_abs s'
    = (arb_take (lock_open xe s (xe_id_pm xe)) (xe_id_pm xe) (pm_lock_idx info) (held (g_lock (drv s))),
       held (g_limit (drv s)))"
proof -
  have i: "exynos_info (drv s) = Info info" using assms(1) by (simp add: arb_inv_def)
  obtain ret s1 where l: "exynos_cpufreq_lock xe (xe_id_pm xe) (pm_lock_idx info) s = Some (ret, s1)"
    and s': "s' = s1 \<or> s' = upd_drv (\<lambda>d. d\<lparr>exynos_cpufreq_disable := True\<rparr>) s1"
    using assms(2) i by (auto simp: exynos_cpufreq_notifier_event_def deref_def fault_simps split: if_splits)
  show ?thesis
    using arb_lock_step [OF assms(1) l] s' by (auto simp: arb_flag)
qed

lemma reboot_step:
  assumes "arb_inv info n s" "exynos_cpufreq_reboot_notifier_call xe s = Some (rc, s')"
  shows "arb_inv info n s' \<and> arb_abs s'
    = (arb_take (lock_open xe s (xe_id_pm xe)) (xe_id_pm xe) (pm_lock_idx info) (held (g_lock (drv s))),
       held (g_limit (drv s)))"
proof -
  have i: "exynos_info (drv s) = Info info" using assms(1) by (simp add: arb_inv_def)
  obtain ret where l: "exynos_cpufreq_lock xe (xe_id_pm xe) (pm_lock_idx info) s = Some (ret, s')"
    using assms(2) i by (auto simp: exynos_cpufreq_reboot_notifier_call_def deref_def fault_simps)
  show ?thesis using arb_lock_step [OF assms(1) l] by simp
qed

lemma policy_step:
  assumes "arb_inv info n s" "exynos_cpufreq_policy_notifier_call adjust pol s = Some s'"
  shows "arb_inv info n s' \<and> arb_abs s' = arb_abs s"
  using assms by (auto simp: exynos_cpufreq_policy_notifier_call_def fault_simps arb_flag split: if_splits)

lemma call_step:
  assumes "arb_inv info n s" "exynos_call_step xe c s = Some s'"
  shows "arb_inv info n s' \<and> arb_abs s' = arb_step xe info s c (arb_abs s)"
proof (cases c)
  case (Pm e)
  then obtain rc where ev: "exynos_cpufreq_notifier_event xe e s = Some (rc, s')" using assms(2) by auto
  show ?thesis
  proof (cases e)
    case PM_SUSPEND_PREPARE
    then show ?thesis using prepare_step [OF assms(1), of xe rc s'] ev Pm by (simp add: arb_abs_def [of s])
  next
    case PM_OTHER
    then have "s' = s" using ev assms(1) by (simp add: exynos_cpufreq_notifier_event_def arb_inv_def deref_def)
    then show ?thesis using assms(1) PM_OTHER Pm by (simp add: arb_abs_def)
  next
    case PM_POST_SUSPEND
    then show ?thesis using post_step [OF assms(1) _ ev] Pm by (simp add: arb_abs_def [of s])
  next
    case PM_POST_RESTORE
    then show ?thesis using post_step [OF assms(1) _ ev] Pm by (simp add: arb_abs_def [of s])
  qed
next
  case Unfix
  then have "s' = upd_drv (\<lambda>d. d\<lparr>exynos_cpufreq_disable := False\<rparr>) s"
    using assms by (simp add: exynos_cpufreq_level_unfix_def arb_inv_def)
  then show ?thesis using assms(1) by (cases "arb_abs s") (simp add: Unfix arb_flag)
next
  case (Fix f)
  then show ?thesis using assms(2) fix_step [OF assms(1)] by (auto simp: arb_abs_def [of s])
next
  case (Target p f r)
  then obtain rc where "exynos_target xe p f r s = Some (rc, s')" using assms(2) by auto
  then show ?thesis using target_step [of xe p f r s rc s'] assms(1) Target by (simp add: arb_abs_def [of s])
next
  case (Policy_change b p)
  then show ?thesis using assms(2) policy_step [OF assms(1)] by (auto simp: arb_abs_def [of s])
next
  case (Lock nId level)
  then show ?thesis using assms(2) arb_lock_step [OF assms(1)] by (auto simp: arb_abs_def [of s])
next
  case (Limit nId level)
  then show ?thesis using assms(2) arb_limit_step [OF assms(1)] by (auto simp: arb_abs_def [of s])
next
  case (Unlock nId)
  then show ?thesis using assms(2) arb_unlock_step [OF assms(1)] by (auto simp: arb_abs_def [of s])
next
  case (Unlimit nId)
  then show ?thesis using assms(2) arb_unlimit_step [OF assms(1)] by (auto simp: arb_abs_def [of s])
next
  case Reboot
  then show ?thesis using assms(2) reboot_step [OF assms(1)] by (auto simp: arb_abs_def [of s])
qed

text \<open>The abstract state after a sequence of calls, and the invariant.\<close>

fun arb_run ::
  "exynos_env \<Rightarrow> dvfs_info \<Rightarrow> exynos_call list \<Rightarrow> esys \<Rightarrow> holders \<times> holders \<Rightarrow> holders \<times> holders" where
  "arb_run xe info [] s A = A"
| "arb_run xe info (c # cs) s A =
     (case exynos_call_step xe c s of None \<Rightarrow> A | Some s' \<Rightarrow> arb_run xe info cs s' (arb_step xe info s c A))"

lemma calls_run:
  "arb_inv info n s \<Longrightarrow> exynos_calls xe cs s = Some s' \<Longrightarrow>
   arb_inv info n s' \<and> arb_abs s' = arb_run xe info cs s (arb_abs s)"
proof (induction cs arbitrary: s)
  case (Cons c cs)
  obtain s1 where s1: "exynos_call_step xe c s = Some s1" "exynos_calls xe cs s1 = Some s'"
    using Cons.prems(2) by (auto simp: fault_simps)
  note c = call_step [OF Cons.prems(1) s1(1)]
  show ?case using Cons.IH [OF _ s1(2)] c by (simp add: s1(1))
qed simp

text \<open>What registering the driver, which starts the governor, must leave alone: it holds no level.\<close>

definition registers :: "(esys \<Rightarrow> (int \<times> esys) option) \<Rightarrow> bool" where
  "registers reg \<longleftrightarrow> (\<forall>s rc s'. reg s = Some (rc, s') \<longrightarrow> g_lock (drv s') = g_lock (drv s)
     \<and> g_limit (drv s') = g_limit (drv s) \<and> exynos_info (drv s') = exynos_info (drv s)
     \<and> exynos_cpufreq_init_done (drv s') = exynos_cpufreq_init_done (drv s))"

lemma init_inv:
  assumes "exynos_cpufreq_init xe True (Some (0, info, True)) True reg s0 = Some (0, s)" "registers reg"
    "v_id (g_lock (drv s0)) = 0" "v_id (g_limit (drv s0)) = 0" "xe_id_end xe \<le> 32"
  shows "arb_inv info (xe_id_end xe) s" "arb_abs s = (Map.empty, Map.empty)"
proof -
  define f :: "exynos \<Rightarrow> exynos" where "f = (\<lambda>d. d\<lparr>exynos_info := Info info, ex_regulator := True,
              exynos_cpufreq_disable := False, ex_pm_notifier := True, ex_reboot_notifier := True,
              ex_policy_notifier := True, exynos_cpufreq_init_done := True,
              g_lock := votes_init (xe_id_end xe) (min_support_idx info) (g_lock d),
              g_limit := votes_init (xe_id_end xe) (max_support_idx info) (g_limit d)\<rparr>)"
  have "reg (upd_drv f s0) = Some (0, s)"
    using assms(1) by (auto simp: exynos_cpufreq_init_def f_def [symmetric] fault_simps split: if_splits)
  then have s: "g_lock (drv s) = g_lock (f (drv s0))" "g_limit (drv s) = g_limit (f (drv s0))"
    "exynos_info (drv s) = exynos_info (f (drv s0))"
    "exynos_cpufreq_init_done (drv s) = exynos_cpufreq_init_done (f (drv s0))"
    using assms(2) unfolding registers_def by fastforce+
  show "arb_inv info (xe_id_end xe) s"
    using assms(3-5) lock_order.init_ok limit_order.init_ok by (simp add: arb_inv_def s f_def)
  show "arb_abs s = (Map.empty, Map.empty)"
    using assms(3,4) by (simp add: arb_abs_def s f_def held_def votes_init_def fun_eq_iff)
qed

text \<open>
  Claim C7. From its initialisation on, whatever sequence of requests, locks, limits, fixes and
  notifier events reaches the driver, it implements the abstract arbitration: the holders are those
  of the calls that were open and came first, a freed level is forgotten, and the levels in force
  are the smallest lock held (or the slowest level of the chip) and the largest limit held (or the
  fastest).
\<close>

theorem exynos_levels_refine:
  assumes "exynos_cpufreq_init xe True (Some (0, info, True)) True reg s0 = Some (0, s)" "registers reg"
    and "v_id (g_lock (drv s0)) = 0" "v_id (g_limit (drv s0)) = 0" "xe_id_end xe \<le> 32"
    and "exynos_calls xe cs s = Some s'"
  shows "arb_abs s' = arb_run xe info cs s (Map.empty, Map.empty)
    \<and> v_level (g_lock (drv s')) = Min (insert (min_support_idx info) (ran (fst (arb_abs s'))))
    \<and> v_level (g_limit (drv s')) = Max (insert (max_support_idx info) (ran (snd (arb_abs s'))))"
proof -
  note i = init_inv [OF assms(1-5)]
  have inv: "arb_inv info (xe_id_end xe) s'" and run: "arb_abs s' = arb_run xe info cs s (Map.empty, Map.empty)"
    using calls_run [OF i(1) assms(6)] i(2) by simp_all
  have "lock_order.votes_ok (xe_id_end xe) (min_support_idx info) (g_lock (drv s'))"
    "limit_order.votes_ok (xe_id_end xe) (max_support_idx info) (g_limit (drv s'))"
    using inv by (simp_all add: arb_inv_def)
  note lv = lock_level_Min [OF this(1)] limit_level_Max [OF this(2)]
  have fs: "held (g_lock (drv s')) = fst (arb_abs s')" "held (g_limit (drv s')) = snd (arb_abs s')"
    by (simp_all add: arb_abs_def)
  show ?thesis using run lv unfolding fs by blast
qed

definition demo_reg :: "esys \<Rightarrow> (int \<times> esys) option" where
  "demo_reg s = Some (0, s)"

definition demo_boot :: "esys \<Rightarrow> esys" where
  "demo_boot s = upd_drv (\<lambda>d. d\<lparr>exynos_info := Info demo_chip, ex_regulator := True,
     exynos_cpufreq_disable := False, ex_pm_notifier := True, ex_reboot_notifier := True,
     ex_policy_notifier := True, exynos_cpufreq_init_done := True,
     g_lock := votes_init 10 4 (g_lock d), g_limit := votes_init 10 0 (g_limit d)\<rparr>) s"

lemma demo_init: "exynos_cpufreq_init demo_xe True (Some (0, demo_chip, True)) True demo_reg demo_esys
    = Some (0, demo_boot demo_esys)"
  by (simp add: exynos_cpufreq_init_def demo_reg_def demo_boot_def demo_xe_def)
    (simp add: demo_chip_def)

theorem exynos_levels_refine_witness:
  "\<exists>s'. exynos_calls demo_xe [Lock 3 2, Lock 5 1, Unlock 5, Limit 4 1] (demo_boot demo_esys) = Some s'
    \<and> v_level (g_lock (drv s')) = Min (insert 4 (ran (fst (arb_abs s'))))
    \<and> v_level (g_limit (drv s')) = Max (insert 0 (ran (snd (arb_abs s'))))"
proof -
  have reg: "registers demo_reg" by (simp add: registers_def demo_reg_def)
  have v: "v_id (g_lock (drv demo_esys)) = 0" "v_id (g_limit (drv demo_esys)) = 0" "xe_id_end demo_xe \<le> 32"
    by (simp_all add: demo_esys_def demo_exynos_def demo_xe_def)
  have idx: "min_support_idx demo_chip = 4" "max_support_idx demo_chip = 0" by (simp_all add: demo_chip_def)
  have "exynos_calls demo_xe [Lock 3 2, Lock 5 1, Unlock 5, Limit 4 1] (demo_boot demo_esys) \<noteq> None"
    by code_simp
  then obtain s' where s': "exynos_calls demo_xe [Lock 3 2, Lock 5 1, Unlock 5, Limit 4 1] (demo_boot demo_esys) = Some s'"
    by blast
  show ?thesis using exynos_levels_refine [OF demo_init reg v s'] s' by (simp add: idx)
qed

section \<open>Suspend\<close>

text \<open>The calls that may arrive while the system is suspended: everything but the power management
  events, the release of a fixed level and a lock of the thermal unit.\<close>

fun frozen_call :: "exynos_env \<Rightarrow> exynos_call \<Rightarrow> bool" where
  "frozen_call xe (Lock nId level) \<longleftrightarrow> nId \<noteq> xe_id_tmu xe"
| "frozen_call xe (Pm e) \<longleftrightarrow> e = PM_OTHER"
| "frozen_call xe Unfix \<longleftrightarrow> False"
| "frozen_call xe c \<longleftrightarrow> True"

definition frozen :: "esys \<Rightarrow> esys \<Rightarrow> bool" where
  "frozen s s' \<longleftrightarrow> hw (drv s') = hw (drv s) \<and> policies s' = policies s \<and> trans_log s' = trans_log s
     \<and> exynos_cpufreq_disable (drv s')"

lemma frozen_refl: "exynos_cpufreq_disable (drv s) \<Longrightarrow> frozen s s"
  by (simp add: frozen_def)

lemma frozen_trans: "frozen s s1 \<Longrightarrow> frozen s1 s2 \<Longrightarrow> frozen s s2"
  by (simp add: frozen_def)

lemma frozen_step:
  assumes "exynos_cpufreq_disable (drv s)" "frozen_call xe c" "xe_id_pm xe \<noteq> xe_id_tmu xe"
    and "exynos_call_step xe c s = Some s'"
  shows "frozen s s'"
proof -
  have upd: "frozen s (upd_drv f s)"
    if "hw (f (drv s)) = hw (drv s)" "exynos_cpufreq_disable (f (drv s))" for f
    using that by (simp add: frozen_def)
  have ref: "frozen s (ref_taken p s)" for p
    using assms(1) by (simp add: frozen_def ref_taken_def)
  have lock: "frozen s s1" if "exynos_cpufreq_lock xe nId level s = Some (rc, s1)" "nId \<noteq> xe_id_tmu xe"
    for nId level rc s1
    using that assms(1) frozen_refl by (auto simp: exynos_cpufreq_lock_def split: if_splits)
  show ?thesis
  proof (cases c)
    case (Lock nId level)
    then show ?thesis using assms(2,4) lock by auto
  next
    case (Unlock nId)
    then show ?thesis using assms(1,4) frozen_refl
      by (auto simp: exynos_cpufreq_lock_free_def fault_simps upd split: if_splits)
  next
    case (Limit nId level)
    then show ?thesis using assms(1,4) frozen_refl
      by (auto simp: exynos_cpufreq_upper_limit_def split: if_splits)
  next
    case (Unlimit nId)
    then show ?thesis using assms(1,4) frozen_refl
      by (auto simp: exynos_cpufreq_upper_limit_free_def fault_simps upd split: if_splits)
  next
    case (Target p f r)
    then obtain rc where t: "exynos_target xe p f r s = Some (rc, s')" using assms(4) by auto
    then obtain info where "exynos_info (drv s) = Info info" by (rule exynos_target_info)
    then show ?thesis using t exynos_target_fixed [OF _ assms(1)] frozen_refl [OF assms(1)] by simp
  next
    case (Fix f)
    then show ?thesis using assms(1,4) frozen_refl ref
      by (auto simp: exynos_cpufreq_level_fix_def cpu_get_0 split: if_splits option.splits)
  next
    case (Pm e)
    then show ?thesis using assms(1,2,4) frozen_refl
      by (auto simp: exynos_cpufreq_notifier_event_def fault_simps)
  next
    case (Policy_change b p)
    then show ?thesis using assms(1,4) frozen_refl
      by (auto simp: exynos_cpufreq_policy_notifier_call_def fault_simps upd split: if_splits)
  next
    case Reboot
    then show ?thesis using assms(3,4) lock by (auto simp: exynos_cpufreq_reboot_notifier_call_def fault_simps)
  qed (use assms(2) in simp)
qed

lemma frozen_calls:
  "exynos_cpufreq_disable (drv s) \<Longrightarrow> \<forall>c \<in> set cs. frozen_call xe c \<Longrightarrow> xe_id_pm xe \<noteq> xe_id_tmu xe \<Longrightarrow>
   exynos_calls xe cs s = Some s' \<Longrightarrow> frozen s s'"
proof (induction cs arbitrary: s)
  case Nil
  then show ?case by (simp add: frozen_refl)
next
  case (Cons c cs)
  obtain s1 where s1: "exynos_call_step xe c s = Some s1" "exynos_calls xe cs s1 = Some s'"
    using Cons.prems(4) by (auto simp: fault_simps)
  have f: "frozen s s1" using frozen_step [OF Cons.prems(1) _ Cons.prems(3) s1(1)] Cons.prems(2) by simp
  then have "exynos_cpufreq_disable (drv s1)" by (simp add: frozen_def)
  then have "frozen s1 s'" using Cons.IH [OF _ _ Cons.prems(3) s1(2)] Cons.prems(2) by simp
  with f show ?case by (rule frozen_trans)
qed



end
