(* ===== verification/Vbfs_Tunables.thy ===== *)
theory Vbfs_Tunables
  imports Gov_Common Sysfs_Text
begin

text \<open>
  The state of the \<open>vbfs\<close> governor (\<open>drivers/cpufreq/cpufreq_vbfs.c\<close>): its tunables, the resource
  readings of the last sample, the per-CPU records and the module's static variables; and its
  sysfs interface, one store and one show per attribute.
\<close>

section \<open>Constants\<close>

abbreviation (input) MAX_SAMPLING_DOWN_FACTOR :: u32 where "MAX_SAMPLING_DOWN_FACTOR \<equiv> 100000"
abbreviation (input) MICRO_FREQUENCY_DOWN_DIFFERENTIAL :: u32
  where "MICRO_FREQUENCY_DOWN_DIFFERENTIAL \<equiv> 3"
abbreviation (input) MIN_FREQUENCY_UP_THRESHOLD :: u32 where "MIN_FREQUENCY_UP_THRESHOLD \<equiv> 11"
abbreviation (input) MAX_FREQUENCY_UP_THRESHOLD :: u32 where "MAX_FREQUENCY_UP_THRESHOLD \<equiv> 100"
abbreviation (input) CPUUSAGE_UP_THRESHOLD :: int where "CPUUSAGE_UP_THRESHOLD \<equiv> 40"
abbreviation (input) CPUUSAGE_MIN_UP_THRESHOLD :: u32 where "CPUUSAGE_MIN_UP_THRESHOLD \<equiv> 50"
abbreviation (input) CPUUSAGE_MIN_DOWN_THRESHOLD :: u32 where "CPUUSAGE_MIN_DOWN_THRESHOLD \<equiv> 30"
abbreviation (input) CPUUSAGE_DOWN_THRESHOLD :: int where "CPUUSAGE_DOWN_THRESHOLD \<equiv> - 40"
abbreviation (input) MAX_VARIATION_THRESHOLD :: int where "MAX_VARIATION_THRESHOLD \<equiv> 100"
abbreviation (input) MIN_VARIATION_UP_THRESHOLD :: int where "MIN_VARIATION_UP_THRESHOLD \<equiv> 1"
abbreviation (input) MIN_VARIATION_DOWN_THRESHOLD :: int where "MIN_VARIATION_DOWN_THRESHOLD \<equiv> - 100"

section \<open>The state\<close>

record vbfs_tuners =
  vt_sampling_rate :: u32
  vt_cpu_usage_up_threshold :: u32
  vt_cpu_usage_down_threshold :: u32
  vt_cpu_variation_up_threshold :: int
  vt_cpu_variation_down_threshold :: int
  vt_thread_variation_up_threshold :: int
  vt_thread_variation_down_threshold :: int
  vt_mem_variation_up_threshold :: int
  vt_mem_variation_down_threshold :: int
  vt_ignore_nice :: u32
  vt_sampling_down_factor :: u32
  vt_powersave_bias :: u32
  vt_io_is_busy :: u32
  vt_debug :: u32
  vt_lazy_freq_step_up_cnt :: u32
  vt_lazy_freq_step_down_cnt :: u32

definition vbfs_tuners_ins :: vbfs_tuners where
  "vbfs_tuners_ins = \<lparr>vt_sampling_rate = 0,
     vt_cpu_usage_up_threshold = CPUUSAGE_MIN_UP_THRESHOLD,
     vt_cpu_usage_down_threshold = CPUUSAGE_MIN_DOWN_THRESHOLD,
     vt_cpu_variation_up_threshold = CPUUSAGE_UP_THRESHOLD,
     vt_cpu_variation_down_threshold = CPUUSAGE_DOWN_THRESHOLD,
     vt_thread_variation_up_threshold = 2, vt_thread_variation_down_threshold = - 2,
     vt_mem_variation_up_threshold = 20, vt_mem_variation_down_threshold = - 20,
     vt_ignore_nice = 0, vt_sampling_down_factor = 1, vt_powersave_bias = 0, vt_io_is_busy = 0,
     vt_debug = 0, vt_lazy_freq_step_up_cnt = 1, vt_lazy_freq_step_down_cnt = 3\<rparr>"

text \<open>\<open>enum vbfs_cpufreq_adj\<close>: the code adds \<open>ADJ_COND\<close> to a status, so they are integers.\<close>

abbreviation (input) ADJ_NO_NEED :: int where "ADJ_NO_NEED \<equiv> 0"
abbreviation (input) ADJ_SETTLED :: int where "ADJ_SETTLED \<equiv> 1"
abbreviation (input) ADJ_COND :: int where "ADJ_COND \<equiv> 2"
abbreviation (input) ADJ_STEP_UP :: int where "ADJ_STEP_UP \<equiv> 3"
abbreviation (input) ADJ_STEP_DOWN :: int where "ADJ_STEP_DOWN \<equiv> 4"
abbreviation (input) ADJ_STEP_N_COND_UP :: int where "ADJ_STEP_N_COND_UP \<equiv> 5"
abbreviation (input) ADJ_STEP_N_COND_DOWN :: int where "ADJ_STEP_N_COND_DOWN \<equiv> 6"
abbreviation (input) ADJ_SCALE_UP :: int where "ADJ_SCALE_UP \<equiv> 7"
abbreviation (input) ADJ_SCALE_DOWN :: int where "ADJ_SCALE_DOWN \<equiv> 8"
abbreviation (input) ADJ_SCALE_N_COND_UP :: int where "ADJ_SCALE_N_COND_UP \<equiv> 9"
abbreviation (input) ADJ_SCALE_N_COND_DOWN :: int where "ADJ_SCALE_N_COND_DOWN \<equiv> 10"
abbreviation (input) ADJ_COND_UP :: int where "ADJ_COND_UP \<equiv> 11"
abbreviation (input) ADJ_COND_DOWN :: int where "ADJ_COND_DOWN \<equiv> 12"
abbreviation (input) ADJ_INVALID :: int where "ADJ_INVALID \<equiv> 13"

record vbfs_resources =
  vbfs_adj :: int
  next_freq :: u32
  maxfreqindex :: u32
  minfreqindex :: u32
  max_load_freq :: u32
  max_load :: u32
  load_prev :: u32
  load_diff :: int
  vr_freq_avg :: int
  thread_prev :: u32
  thread_diff :: int
  mem_prev :: u32
  mem_diff :: int
  t_init :: u64
  t_prev :: u64

definition vbfs_resources_ins :: vbfs_resources where
  "vbfs_resources_ins = \<lparr>vbfs_adj = ADJ_NO_NEED, next_freq = 0, maxfreqindex = 0,
     minfreqindex = 0, max_load_freq = 0, max_load = 0, load_prev = 0, load_diff = 0,
     vr_freq_avg = 0, thread_prev = 0, thread_diff = 0, mem_prev = 0, mem_diff = 0,
     t_init = 0, t_prev = 0\<rparr>"

type_synonym cpu_vbfs_info_s = gov_cpu_info

record vbfs_state =
  tuners :: vbfs_tuners
  res :: vbfs_resources
  od_cpu_vbfs_info :: "cpuid \<Rightarrow> cpu_vbfs_info_s"
  vbfs_enable :: u32
  min_sampling_rate :: u32
  l_vbfs_cpufreq_set_flag :: int
  l_lazy_freq_step_up_cnt :: u32
  l_lazy_freq_step_down_cnt :: u32
  vbfs_attr_group :: bool           \<comment> \<open>the sysfs group is registered\<close>

section \<open>Stores\<close>

text \<open>Every store answers the number of bytes it consumed or a negative error.\<close>

type_synonym vbfs_store = "kenv \<Rightarrow> string \<Rightarrow> vbfs_state \<Rightarrow> int \<times> vbfs_state"

definition upd_tuners :: "(vbfs_tuners \<Rightarrow> vbfs_tuners) \<Rightarrow> vbfs_state \<Rightarrow> vbfs_state" where
  "upd_tuners f g = g\<lparr>tuners := f (tuners g)\<rparr>"

definition store_sampling_rate :: vbfs_store where
  "store_sampling_rate env buf g = (case sscanf_u buf of
     None \<Rightarrow> (- EINVAL, g)
   | Some input \<Rightarrow> (int (length buf),
       upd_tuners (vt_sampling_rate_update (\<lambda>_. max input (min_sampling_rate g))) g))"

definition store_io_is_busy :: vbfs_store where
  "store_io_is_busy env buf g = (case sscanf_u buf of
     None \<Rightarrow> (- EINVAL, g)
   | Some input \<Rightarrow> (int (length buf),
       upd_tuners (vt_io_is_busy_update (\<lambda>_. if input \<noteq> 0 then 1 else 0)) g))"

definition store_cpu_usage_up_threshold :: vbfs_store where
  "store_cpu_usage_up_threshold env buf g = (case sscanf_u buf of
     None \<Rightarrow> (- EINVAL, g)
   | Some input \<Rightarrow>
       if input > MAX_FREQUENCY_UP_THRESHOLD \<or> input < MIN_FREQUENCY_UP_THRESHOLD
       then (- EINVAL, g)
       else (int (length buf), upd_tuners (vt_cpu_usage_up_threshold_update (\<lambda>_. input)) g))"

definition store_cpu_usage_down_threshold :: vbfs_store where
  "store_cpu_usage_down_threshold env buf g = (case sscanf_u buf of
     None \<Rightarrow> (- EINVAL, g)
   | Some input \<Rightarrow>
       if input > vt_cpu_usage_up_threshold (tuners g) \<or> input < MICRO_FREQUENCY_DOWN_DIFFERENTIAL
       then (- EINVAL, g)
       else (int (length buf), upd_tuners (vt_cpu_usage_down_threshold_update (\<lambda>_. input)) g))"

definition store_cpu_variation_up_threshold :: vbfs_store where
  "store_cpu_variation_up_threshold env buf g = (case sscanf_d buf of
     None \<Rightarrow> (- EINVAL, g)
   | Some input \<Rightarrow>
       if input > MAX_VARIATION_THRESHOLD \<or> input < MIN_VARIATION_UP_THRESHOLD
       then (- EINVAL, g)
       else (int (length buf), upd_tuners (vt_cpu_variation_up_threshold_update (\<lambda>_. input)) g))"

definition store_cpu_variation_down_threshold :: vbfs_store where
  "store_cpu_variation_down_threshold env buf g = (case sscanf_d buf of
     None \<Rightarrow> (- EINVAL, g)
   | Some input \<Rightarrow>
       if input > vt_cpu_variation_up_threshold (tuners g) \<or> input < MIN_VARIATION_DOWN_THRESHOLD
       then (- EINVAL, g)
       else (int (length buf), upd_tuners (vt_cpu_variation_down_threshold_update (\<lambda>_. input)) g))"

definition store_thread_variation_up_threshold :: vbfs_store where
  "store_thread_variation_up_threshold env buf g = (case sscanf_d buf of
     None \<Rightarrow> (- EINVAL, g)
   | Some input \<Rightarrow>
       if input > MAX_VARIATION_THRESHOLD \<or> input < MIN_VARIATION_UP_THRESHOLD
       then (- EINVAL, g)
       else (int (length buf), upd_tuners (vt_thread_variation_up_threshold_update (\<lambda>_. input)) g))"

definition store_thread_variation_down_threshold :: vbfs_store where
  "store_thread_variation_down_threshold env buf g = (case sscanf_d buf of
     None \<Rightarrow> (- EINVAL, g)
   | Some input \<Rightarrow>
       if input > vt_thread_variation_up_threshold (tuners g) \<or> input < MIN_VARIATION_DOWN_THRESHOLD
       then (- EINVAL, g)
       else (int (length buf), upd_tuners (vt_thread_variation_down_threshold_update (\<lambda>_. input)) g))"

definition store_mem_variation_up_threshold :: vbfs_store where
  "store_mem_variation_up_threshold env buf g = (case sscanf_d buf of
     None \<Rightarrow> (- EINVAL, g)
   | Some input \<Rightarrow>
       if input > MAX_VARIATION_THRESHOLD \<or> input < MIN_VARIATION_UP_THRESHOLD
       then (- EINVAL, g)
       else (int (length buf), upd_tuners (vt_mem_variation_up_threshold_update (\<lambda>_. input)) g))"

definition store_mem_variation_down_threshold :: vbfs_store where
  "store_mem_variation_down_threshold env buf g = (case sscanf_d buf of
     None \<Rightarrow> (- EINVAL, g)
   | Some input \<Rightarrow>
       if input > vt_mem_variation_up_threshold (tuners g) \<or> input < MIN_VARIATION_DOWN_THRESHOLD
       then (- EINVAL, g)
       else (int (length buf), upd_tuners (vt_mem_variation_down_threshold_update (\<lambda>_. input)) g))"

text \<open>A loop over CPUs that updates each one's record.\<close>

definition upd_infos ::
  "(cpuid \<Rightarrow> cpu_vbfs_info_s \<Rightarrow> cpu_vbfs_info_s) \<Rightarrow> cpuid list \<Rightarrow> vbfs_state \<Rightarrow> vbfs_state" where
  "upd_infos f js g =
     g\<lparr>od_cpu_vbfs_info := fold (\<lambda>j m. m(j := f j (m j))) js (od_cpu_vbfs_info g)\<rparr>"

definition store_sampling_down_factor :: vbfs_store where
  "store_sampling_down_factor env buf g = (case sscanf_u buf of
     None \<Rightarrow> (- EINVAL, g)
   | Some input \<Rightarrow>
       if input > MAX_SAMPLING_DOWN_FACTOR \<or> input < 1 then (- EINVAL, g)
       else (int (length buf),
         upd_infos (\<lambda>j. rate_mult_update (\<lambda>_. 1)) (online_cpus env)
           (upd_tuners (vt_sampling_down_factor_update (\<lambda>_. input)) g)))"

definition store_ignore_nice_load :: vbfs_store where
  "store_ignore_nice_load env buf g = (case sscanf_u buf of
     None \<Rightarrow> (- EINVAL, g)
   | Some input0 \<Rightarrow>
       let input = (if input0 > 1 then 1 else input0) in
       if input = vt_ignore_nice (tuners g) then (int (length buf), g)
       else (int (length buf),
         upd_infos (\<lambda>j i.
             let (idle, wall) = get_cpu_idle_time env j;
                 i1 = i\<lparr>prev_cpu_idle := idle, prev_cpu_wall := wall\<rparr>
             in if input \<noteq> 0 then i1\<lparr>prev_cpu_nice := st_nice (kstat env j)\<rparr> else i1)
           (online_cpus env) (upd_tuners (vt_ignore_nice_update (\<lambda>_. input)) g)))"

definition vbfs_powersave_bias_init_cpu :: "kenv \<Rightarrow> cpuid \<Rightarrow> vbfs_state \<Rightarrow> vbfs_state" where
  "vbfs_powersave_bias_init_cpu env cpu g =
     upd_infos (\<lambda>j i. i\<lparr>freq_table := get_table env j, freq_lo := 0\<rparr>) [cpu] g"

definition vbfs_powersave_bias_init :: "kenv \<Rightarrow> vbfs_state \<Rightarrow> vbfs_state" where
  "vbfs_powersave_bias_init env g = fold (vbfs_powersave_bias_init_cpu env) (online_cpus env) g"

definition store_powersave_bias :: vbfs_store where
  "store_powersave_bias env buf g = (case sscanf_u buf of
     None \<Rightarrow> (- EINVAL, g)
   | Some input0 \<Rightarrow>
       let input = (if input0 > 1000 then 1000 else input0) in
       (int (length buf),
        vbfs_powersave_bias_init env (upd_tuners (vt_powersave_bias_update (\<lambda>_. input)) g)))"

text \<open>These three ignore \<open>sscanf\<close>'s answer: on text without a number they store the stack slot
  \<open>input\<close>, whose content is the parameter \<open>junk\<close>.\<close>

definition store_debug :: "u32 \<Rightarrow> vbfs_store" where
  "store_debug junk env buf g =
     (let input = (case sscanf_u buf of Some w \<Rightarrow> w | None \<Rightarrow> junk) in
      (int (length buf), upd_tuners (vt_debug_update (\<lambda>_. input)) g))"

definition store_lazy_freq_step_up_cnt :: "u32 \<Rightarrow> vbfs_store" where
  "store_lazy_freq_step_up_cnt junk env buf g =
     (let input = (case sscanf_u buf of Some w \<Rightarrow> w | None \<Rightarrow> junk) in
      (int (length buf), upd_tuners (vt_lazy_freq_step_up_cnt_update (\<lambda>_. input)) g))"

definition store_lazy_freq_step_down_cnt :: "u32 \<Rightarrow> vbfs_store" where
  "store_lazy_freq_step_down_cnt junk env buf g =
     (let input = (case sscanf_u buf of Some w \<Rightarrow> w | None \<Rightarrow> junk) in
      (int (length buf), upd_tuners (vt_lazy_freq_step_down_cnt_update (\<lambda>_. input)) g))"

section \<open>The attribute group\<close>

text \<open>\<open>vbfs_attributes\<close>: the writable files of the group.\<close>

datatype vbfs_attr =
    Attr_sampling_rate | Attr_cpu_usage_up_threshold | Attr_cpu_usage_down_threshold
  | Attr_cpu_variation_up_threshold | Attr_cpu_variation_down_threshold
  | Attr_thread_variation_up_threshold | Attr_thread_variation_down_threshold
  | Attr_mem_variation_up_threshold | Attr_mem_variation_down_threshold
  | Attr_sampling_down_factor | Attr_ignore_nice_load | Attr_powersave_bias | Attr_io_is_busy
  | Attr_debug | Attr_lazy_freq_step_up_cnt | Attr_lazy_freq_step_down_cnt

fun vbfs_store :: "u32 \<Rightarrow> vbfs_attr \<Rightarrow> vbfs_store" where
  "vbfs_store junk Attr_sampling_rate = store_sampling_rate"
| "vbfs_store junk Attr_cpu_usage_up_threshold = store_cpu_usage_up_threshold"
| "vbfs_store junk Attr_cpu_usage_down_threshold = store_cpu_usage_down_threshold"
| "vbfs_store junk Attr_cpu_variation_up_threshold = store_cpu_variation_up_threshold"
| "vbfs_store junk Attr_cpu_variation_down_threshold = store_cpu_variation_down_threshold"
| "vbfs_store junk Attr_thread_variation_up_threshold = store_thread_variation_up_threshold"
| "vbfs_store junk Attr_thread_variation_down_threshold = store_thread_variation_down_threshold"
| "vbfs_store junk Attr_mem_variation_up_threshold = store_mem_variation_up_threshold"
| "vbfs_store junk Attr_mem_variation_down_threshold = store_mem_variation_down_threshold"
| "vbfs_store junk Attr_sampling_down_factor = store_sampling_down_factor"
| "vbfs_store junk Attr_ignore_nice_load = store_ignore_nice_load"
| "vbfs_store junk Attr_powersave_bias = store_powersave_bias"
| "vbfs_store junk Attr_io_is_busy = store_io_is_busy"
| "vbfs_store junk Attr_debug = store_debug junk"
| "vbfs_store junk Attr_lazy_freq_step_up_cnt = store_lazy_freq_step_up_cnt junk"
| "vbfs_store junk Attr_lazy_freq_step_down_cnt = store_lazy_freq_step_down_cnt junk"

text \<open>The value a file shows: \<open>show_one\<close> prints every tunable with \<open>%d\<close>.\<close>

fun vbfs_value :: "vbfs_attr \<Rightarrow> vbfs_tuners \<Rightarrow> int" where
  "vbfs_value Attr_sampling_rate t = c_int (vt_sampling_rate t)"
| "vbfs_value Attr_cpu_usage_up_threshold t = c_int (vt_cpu_usage_up_threshold t)"
| "vbfs_value Attr_cpu_usage_down_threshold t = c_int (vt_cpu_usage_down_threshold t)"
| "vbfs_value Attr_cpu_variation_up_threshold t = vt_cpu_variation_up_threshold t"
| "vbfs_value Attr_cpu_variation_down_threshold t = vt_cpu_variation_down_threshold t"
| "vbfs_value Attr_thread_variation_up_threshold t = vt_thread_variation_up_threshold t"
| "vbfs_value Attr_thread_variation_down_threshold t = vt_thread_variation_down_threshold t"
| "vbfs_value Attr_mem_variation_up_threshold t = vt_mem_variation_up_threshold t"
| "vbfs_value Attr_mem_variation_down_threshold t = vt_mem_variation_down_threshold t"
| "vbfs_value Attr_sampling_down_factor t = c_int (vt_sampling_down_factor t)"
| "vbfs_value Attr_ignore_nice_load t = c_int (vt_ignore_nice t)"
| "vbfs_value Attr_powersave_bias t = c_int (vt_powersave_bias t)"
| "vbfs_value Attr_io_is_busy t = c_int (vt_io_is_busy t)"
| "vbfs_value Attr_debug t = c_int (vt_debug t)"
| "vbfs_value Attr_lazy_freq_step_up_cnt t = c_int (vt_lazy_freq_step_up_cnt t)"
| "vbfs_value Attr_lazy_freq_step_down_cnt t = c_int (vt_lazy_freq_step_down_cnt t)"

definition vbfs_show :: "vbfs_attr \<Rightarrow> vbfs_state \<Rightarrow> string" where
  "vbfs_show a g = sprintf_d (vbfs_value a (tuners g)) @ [newline]"

definition show_sampling_rate_min :: "vbfs_state \<Rightarrow> string" where
  "show_sampling_rate_min g = sprintf_u (min_sampling_rate g) @ [newline]"

section \<open>What the stores guarantee\<close>

lemmas vbfs_store_defs =
  store_sampling_rate_def store_io_is_busy_def store_cpu_usage_up_threshold_def
  store_cpu_usage_down_threshold_def store_cpu_variation_up_threshold_def
  store_cpu_variation_down_threshold_def store_thread_variation_up_threshold_def
  store_thread_variation_down_threshold_def store_mem_variation_up_threshold_def
  store_mem_variation_down_threshold_def store_sampling_down_factor_def
  store_ignore_nice_load_def store_powersave_bias_def store_debug_def
  store_lazy_freq_step_up_cnt_def store_lazy_freq_step_down_cnt_def

lemma upd_infos_keeps [simp]:
  "tuners (upd_infos f js g) = tuners g" "res (upd_infos f js g) = res g"
  "min_sampling_rate (upd_infos f js g) = min_sampling_rate g"
  "vbfs_enable (upd_infos f js g) = vbfs_enable g"
  "l_vbfs_cpufreq_set_flag (upd_infos f js g) = l_vbfs_cpufreq_set_flag g"
  "vbfs_attr_group (upd_infos f js g) = vbfs_attr_group g"
  by (simp_all add: upd_infos_def)

lemma upd_tuners_simps [simp]:
  "tuners (upd_tuners f g) = f (tuners g)" "res (upd_tuners f g) = res g"
  "od_cpu_vbfs_info (upd_tuners f g) = od_cpu_vbfs_info g"
  "min_sampling_rate (upd_tuners f g) = min_sampling_rate g"
  by (simp_all add: upd_tuners_def)

lemma bias_init_cpu_keeps [simp]:
  "tuners (vbfs_powersave_bias_init_cpu env cpu g) = tuners g"
  "min_sampling_rate (vbfs_powersave_bias_init_cpu env cpu g) = min_sampling_rate g"
  "res (vbfs_powersave_bias_init_cpu env cpu g) = res g"
  "vbfs_enable (vbfs_powersave_bias_init_cpu env cpu g) = vbfs_enable g"
  by (simp_all add: vbfs_powersave_bias_init_cpu_def)

lemma bias_init_keeps [simp]: "tuners (vbfs_powersave_bias_init env g) = tuners g"
proof -
  have "tuners (fold (vbfs_powersave_bias_init_cpu env) js g) = tuners g" for js
    by (induction js arbitrary: g) auto
  then show ?thesis by (simp add: vbfs_powersave_bias_init_def)
qed

definition tuners_ok :: "vbfs_tuners \<Rightarrow> bool" where
  "tuners_ok t \<longleftrightarrow>
     11 \<le> vt_cpu_usage_up_threshold t \<and> vt_cpu_usage_up_threshold t \<le> 100
   \<and> 3 \<le> vt_cpu_usage_down_threshold t \<and> vt_cpu_usage_down_threshold t \<le> 100
   \<and> vt_cpu_variation_up_threshold t \<in> {1..100}
   \<and> vt_cpu_variation_down_threshold t \<in> {-100..100}
   \<and> vt_thread_variation_up_threshold t \<in> {1..100}
   \<and> vt_thread_variation_down_threshold t \<in> {-100..100}
   \<and> vt_mem_variation_up_threshold t \<in> {1..100}
   \<and> vt_mem_variation_down_threshold t \<in> {-100..100}
   \<and> vt_ignore_nice t \<le> 1 \<and> vt_io_is_busy t \<le> 1 \<and> vt_powersave_bias t \<le> 1000
   \<and> 1 \<le> vt_sampling_down_factor t \<and> vt_sampling_down_factor t \<le> 100000"

lemma vbfs_store_ok:
  "tuners_ok (tuners g) \<Longrightarrow> tuners_ok (tuners (snd (vbfs_store junk a env buf g)))"
  by (cases a) (auto simp: vbfs_store_defs tuners_ok_def Let_def not_less
      split: option.splits if_splits intro: order_trans)

lemma reject_case:
  "(\<And>i. fst (F i) < 0 \<longrightarrow> snd (F i) = g) \<Longrightarrow>
   fst (case x of None \<Rightarrow> (e, g) | Some i \<Rightarrow> F i) < 0 \<longrightarrow>
   snd (case x of None \<Rightarrow> (e, g) | Some i \<Rightarrow> F i) = g"
  by (cases x) auto

lemma reject_if: "fst (if P then (e, g) else (int n, h)) < 0 \<longrightarrow>
   snd (if P then (e, g) else (int n, h)) = g"
  by simp

lemma reject_not: "fst (int n, h) < 0 \<longrightarrow> snd (int n, h) = g"
  by simp

lemma vbfs_store_reject:
  "fst (vbfs_store junk a env buf g) < 0 \<Longrightarrow> snd (vbfs_store junk a env buf g) = g"
proof -
  have "fst (vbfs_store junk a env buf g) < 0 \<longrightarrow> snd (vbfs_store junk a env buf g) = g"
    by (cases a; simp only: vbfs_store.simps vbfs_store_defs Let_def)
      ((rule reject_case)?, rule reject_if reject_not)+
  then show "fst (vbfs_store junk a env buf g) < 0 \<Longrightarrow> snd (vbfs_store junk a env buf g) = g"
    by blast
qed

interpretation vbfs_sysfs: tunable_group
  "\<lambda>(a, env, junk) buf g. vbfs_store junk a env buf g" "\<lambda>g. tuners_ok (tuners g)"
  by unfold_locales (auto simp: vbfs_store_ok vbfs_store_reject)

lemma vbfs_tuners_ins_ok: "tuners_ok vbfs_tuners_ins"
  by (simp add: tuners_ok_def vbfs_tuners_ins_def)


definition demo_vbfs :: vbfs_state where
  "demo_vbfs = \<lparr>tuners = vbfs_tuners_ins, res = vbfs_resources_ins,
     od_cpu_vbfs_info = (\<lambda>_. demo_info), vbfs_enable = 1, min_sampling_rate = 10000,
     l_vbfs_cpufreq_set_flag = 0, l_lazy_freq_step_up_cnt = 0, l_lazy_freq_step_down_cnt = 0,
     vbfs_attr_group = True\<rparr>"


text \<open>Reading a file and writing the text back changes no tunable.\<close>

lemma scan_value:
  "sscanf_u (sprintf_d (c_int w) @ [newline]) = (if unat w < 2 ^ 31 then Some w else None)"
proof (cases "unat w < 2 ^ 31")
  case True
  then have "0 \<le> c_int w" by (simp add: c_int_small)
  then show ?thesis using True by (simp add: sscanf_u_sprintf_d)
next
  case False
  have "c_int w < 0"
  proof (rule ccontr)
    assume "\<not> c_int w < 0"
    moreover have "c_int w < 2 ^ 31" unfolding c_int_def using sint_lt [of w] by simp
    ultimately have "unat (c_uint (c_int w)) = nat (c_int w)" and "nat (c_int w) < 2 ^ 31"
      by (auto intro: unat_c_uint simp del: c_uint_c_int)
    with False show False by simp
  qed
  then show ?thesis using False by (simp add: sscanf_u_negative)
qed

lemma scan_small:
  "w \<le> 100000 \<Longrightarrow> sscanf_u (sprintf_d (c_int w) @ [newline]) = Some w"
  "w \<le> 1000 \<Longrightarrow> sscanf_u (sprintf_d (c_int w) @ [newline]) = Some w"
  "w \<le> 100 \<Longrightarrow> sscanf_u (sprintf_d (c_int w) @ [newline]) = Some w"
  "w \<le> 1 \<Longrightarrow> sscanf_u (sprintf_d (c_int w) @ [newline]) = Some w"
  by (simp_all add: scan_value word_le_nat_alt)

text \<open>
  Claim C33. Reading any file of the \<open>vbfs\<close> group and writing the text back leaves every tunable as
  it was, and the text is the tunable's value: the stores and the shows are inverse. The two
  conditions are what the source needs: the sampling rate is at least its minimum (which
  \<open>GOV_START\<close> establishes), and the three unvalidated tunables are below \<open>2 ^ 31\<close>, since \<open>show\<close>
  prints unsigned values with \<open>%d\<close>.
\<close>

theorem vbfs_show_store_roundtrip:
  assumes "tuners_ok (tuners g)" "min_sampling_rate g \<le> vt_sampling_rate (tuners g)"
    and "unat (vt_debug (tuners g)) < 2 ^ 31"
    and "unat (vt_lazy_freq_step_up_cnt (tuners g)) < 2 ^ 31"
    and "unat (vt_lazy_freq_step_down_cnt (tuners g)) < 2 ^ 31"
  shows "sscanf_d (vbfs_show a g) = Some (vbfs_value a (tuners g))
    \<and> tuners (snd (vbfs_store junk a env (vbfs_show a g) g)) = tuners g"
proof
  have "- (2 ^ 31) \<le> vbfs_value a (tuners g) \<and> vbfs_value a (tuners g) < 2 ^ 31"
  proof -
    have c: "- (2 ^ 31) \<le> c_int w" "c_int w < 2 ^ 31" for w
      unfolding c_int_def using sint_ge [of w] sint_lt [of w] by simp_all
    show ?thesis
      using assms(1) c by (cases a) (auto simp: tuners_ok_def)
  qed
  then show "sscanf_d (vbfs_show a g) = Some (vbfs_value a (tuners g))"
    by (simp add: vbfs_show_def sscanf_d_sprintf_d)
  show "tuners (snd (vbfs_store junk a env (vbfs_show a g) g)) = tuners g"
    using assms
    by (cases a) (auto simp: vbfs_show_def vbfs_store_defs scan_value scan_small tuners_ok_def
        sscanf_d_sprintf_d Let_def max_absorb1 upd_tuners_def le_one_word)
qed

theorem vbfs_show_store_roundtrip_witness:
  "sscanf_d (vbfs_show Attr_cpu_variation_down_threshold
       (upd_tuners (vt_sampling_rate_update (\<lambda>_. 20000)) demo_vbfs)) = Some (- 40)
   \<and> tuners (snd (vbfs_store 0 Attr_cpu_variation_down_threshold demo_env
       (vbfs_show Attr_cpu_variation_down_threshold
         (upd_tuners (vt_sampling_rate_update (\<lambda>_. 20000)) demo_vbfs))
       (upd_tuners (vt_sampling_rate_update (\<lambda>_. 20000)) demo_vbfs)))
     = vbfs_tuners_ins\<lparr>vt_sampling_rate := 20000\<rparr>"
  using vbfs_show_store_roundtrip
    [of "upd_tuners (vt_sampling_rate_update (\<lambda>_. 20000)) demo_vbfs"
        Attr_cpu_variation_down_threshold 0 demo_env]
  by (simp add: demo_vbfs_def vbfs_tuners_ins_def tuners_ok_def)

text \<open>The invariant cannot be strengthened to "down is at most up": only the stores of the lower
  thresholds compare the two, so lowering the upper one afterwards crosses them.\<close>

lemma vbfs_thresholds_can_cross:
  "vt_cpu_usage_up_threshold (tuners (snd (vbfs_store 0 Attr_cpu_usage_up_threshold demo_env
      ''11'' demo_vbfs))) = 11
   \<and> vt_cpu_usage_down_threshold (tuners (snd (vbfs_store 0 Attr_cpu_usage_up_threshold demo_env
      ''11'' demo_vbfs))) = 30"
  by (simp add: store_cpu_usage_up_threshold_def sscanf_u_def is_space_def is_digit_def
      dec_val_def digit_val_def demo_vbfs_def vbfs_tuners_ins_def)

text \<open>A store without a number in its text still changes \<open>debug\<close>, to whatever the stack held.\<close>

lemma vbfs_store_debug_junk:
  "sscanf_u buf = None \<Longrightarrow>
   vbfs_store junk Attr_debug env buf g
     = (int (length buf), upd_tuners (vt_debug_update (\<lambda>_. junk)) g)"
  by (simp add: store_debug_def)

end
