(* ===== verification/Vbfs_Load.thy ===== *)
theory Vbfs_Load
  imports Vbfs_Tunables
begin

text \<open>
  The readings a \<open>vbfs\<close> sample is made of: the load of the policy's CPUs, the share of memory in
  use, the number of running threads, and their variation since the last sample
  (\<open>get_max_load_freq\<close>, \<open>get_mem_portion\<close> and \<open>vbfs_initialize_resources\<close>).
\<close>

section \<open>CPU load\<close>

definition upd_res :: "(vbfs_resources \<Rightarrow> vbfs_resources) \<Rightarrow> vbfs_state \<Rightarrow> vbfs_state" where
  "upd_res f g = g\<lparr>res := f (res g)\<rparr>"

lemma upd_res_simps [simp]:
  "res (upd_res f g) = f (res g)" "tuners (upd_res f g) = tuners g"
  "od_cpu_vbfs_info (upd_res f g) = od_cpu_vbfs_info g"
  "l_lazy_freq_step_down_cnt (upd_res f g) = l_lazy_freq_step_down_cnt g"
  "l_lazy_freq_step_up_cnt (upd_res f g) = l_lazy_freq_step_up_cnt g"
  "l_vbfs_cpufreq_set_flag (upd_res f g) = l_vbfs_cpufreq_set_flag g"
  "min_sampling_rate (upd_res f g) = min_sampling_rate g"
  "vbfs_enable (upd_res f g) = vbfs_enable g"
  "vbfs_attr_group (upd_res f g) = vbfs_attr_group g"
  by (simp_all add: upd_res_def)

text \<open>One turn of the loop. \<open>best\<close> is the local variable \<open>max_load_freq\<close>.\<close>

definition load_step :: "kenv \<Rightarrow> cpufreq_policy \<Rightarrow> u32 \<Rightarrow> cpuid \<Rightarrow> vbfs_state \<Rightarrow> vbfs_state" where
  "load_step env pol best j g =
     (let (i', sample) = sample_cpu env (vt_ignore_nice (tuners g) \<noteq> 0)
            (vt_io_is_busy (tuners g) \<noteq> 0) (pol_cur pol) j (od_cpu_vbfs_info g j);
          g1 = g\<lparr>od_cpu_vbfs_info := (od_cpu_vbfs_info g)(j := i')\<rparr>
      in case sample of
           None \<Rightarrow> g1
         | Some l \<Rightarrow>
             if ls_load_freq l > best
             then upd_res (\<lambda>r. r\<lparr>max_load_freq := ls_load_freq l, max_load := ls_load l,
                                 vr_freq_avg := ls_freq_avg l\<rparr>) g1
             else g1)"

text \<open>The source never assigns the local variable after its initialisation.\<close>

definition get_max_load_freq :: "kenv \<Rightarrow> cpufreq_policy \<Rightarrow> vbfs_state \<Rightarrow> vbfs_state" where
  "get_max_load_freq env pol g =
     (let max_load_freq = 0 in fold (load_step env pol max_load_freq) (pol_cpus pol) g)"

section \<open>Memory\<close>

record mem_env =
  mi_totalram :: u32
  mi_freeram :: u32
  mi_bufferram :: u32
  nr_file_pages :: u32           \<comment> \<open>\<open>global_page_state(NR_FILE_PAGES)\<close>\<close>
  total_swapcache_pages :: u32

definition get_mem_portion :: "mem_env \<Rightarrow> int option" where
  "get_mem_portion m =
     (let cached = c_int (nr_file_pages m - total_swapcache_pages m - mi_bufferram m);
          cached = (if cached < 0 then 0 else cached);
          used = mi_totalram m - mi_freeram m - mi_bufferram m - c_uint cached
      in map_option c_int (udiv_chk (c_uint (s32 (c_int used * 10000))) (mi_totalram m)))"

section \<open>The readings of a sample\<close>

definition vbfs_initialize_resources ::
  "kenv \<Rightarrow> mem_env \<Rightarrow> int \<Rightarrow> ftt_fun \<Rightarrow> cpufreq_policy \<Rightarrow> vbfs_state \<Rightarrow> (int \<times> vbfs_state) option"
where
  "vbfs_initialize_resources env mem run_thread_number ftt pol g0 = do {
     let info = od_cpu_vbfs_info g0 (pol_cpu pol);
     let g = upd_res (vbfs_adj_update (\<lambda>_. ADJ_NO_NEED)) g0;
     (result, g) \<leftarrow>
       (if maxfreqindex (res g) = 0 \<or> minfreqindex (res g) = 0 then do {
          t \<leftarrow> freq_table info;
          let index = ftt_index ftt pol t (pol_max pol) RELATION_H 0;
          _ \<leftarrow> table_freq t index;
          let g = upd_res (maxfreqindex_update (\<lambda>_. index)) g;
          let index = ftt_index ftt pol t (pol_min pol) RELATION_L 0;
          _ \<leftarrow> table_freq t index;
          let g = upd_res (minfreqindex_update (\<lambda>_. index)) g;
          Some (- 1, g)
        } else Some (0, g));
     let g = get_max_load_freq env pol g;
     let g = (if max_load (res g) > 100 then upd_res (max_load_update (\<lambda>_. 100)) g else g);
     let g = upd_res (\<lambda>r. r\<lparr>load_diff := c_int (max_load r - load_prev r)\<rparr>) g;
     let g = upd_res (\<lambda>r. r\<lparr>load_prev := max_load r\<rparr>) g;
     let thread_num = c_uint run_thread_number;
     let g = upd_res (\<lambda>r. r\<lparr>thread_diff := c_int (thread_num - thread_prev r)\<rparr>) g;
     let g = upd_res (\<lambda>r. r\<lparr>thread_prev := thread_num\<rparr>) g;
     mem_portion \<leftarrow> get_mem_portion mem;
     let g = upd_res (\<lambda>r. r\<lparr>mem_diff := s32 (mem_portion - c_int (mem_prev r))\<rparr>) g;
     let g = upd_res (\<lambda>r. r\<lparr>mem_prev := c_uint mem_portion\<rparr>) g;
     Some (result, g)
   }"

section \<open>Which load is reported\<close>

definition cpu_sample :: "kenv \<Rightarrow> cpufreq_policy \<Rightarrow> vbfs_state \<Rightarrow> cpuid \<Rightarrow> load_sample option" where
  "cpu_sample env pol g j = snd (sample_cpu env (vt_ignore_nice (tuners g) \<noteq> 0)
     (vt_io_is_busy (tuners g) \<noteq> 0) (pol_cur pol) j (od_cpu_vbfs_info g j))"

definition busy :: "load_sample option \<Rightarrow> bool" where
  "busy s \<longleftrightarrow> (case s of None \<Rightarrow> False | Some l \<Rightarrow> ls_load_freq l \<noteq> 0)"

lemma load_step_keeps [simp]:
  "tuners (load_step env pol b j g) = tuners g"
  "vbfs_enable (load_step env pol b j g) = vbfs_enable g"
  "min_sampling_rate (load_step env pol b j g) = min_sampling_rate g"
  "l_vbfs_cpufreq_set_flag (load_step env pol b j g) = l_vbfs_cpufreq_set_flag g"
  "l_lazy_freq_step_up_cnt (load_step env pol b j g) = l_lazy_freq_step_up_cnt g"
  "l_lazy_freq_step_down_cnt (load_step env pol b j g) = l_lazy_freq_step_down_cnt g"
  "vbfs_attr_group (load_step env pol b j g) = vbfs_attr_group g"
  by (simp_all add: load_step_def Let_def split: prod.split option.split)

lemma load_step_res: "res (load_step env pol 0 j g) =
    (case cpu_sample env pol g j of
       None \<Rightarrow> res g
     | Some l \<Rightarrow> if ls_load_freq l \<noteq> 0
         then (res g)\<lparr>max_load_freq := ls_load_freq l, max_load := ls_load l,
                      vr_freq_avg := ls_freq_avg l\<rparr>
         else res g)"
  by (simp add: load_step_def cpu_sample_def Let_def word_gt_0 split: prod.split option.split)

lemma load_step_info:
  "k \<noteq> j \<Longrightarrow> od_cpu_vbfs_info (load_step env pol b j g) k = od_cpu_vbfs_info g k"
  by (simp add: load_step_def Let_def split: prod.split option.split)

lemma cpu_sample_step [simp]:
  "k \<noteq> j \<Longrightarrow> cpu_sample env pol (load_step env pol b j g) k = cpu_sample env pol g k"
  by (simp add: cpu_sample_def load_step_info)

lemma load_fold_keeps [simp]:
  "tuners (fold (load_step env pol b) js g) = tuners g"
  "vbfs_enable (fold (load_step env pol b) js g) = vbfs_enable g"
  "min_sampling_rate (fold (load_step env pol b) js g) = min_sampling_rate g"
  "l_vbfs_cpufreq_set_flag (fold (load_step env pol b) js g) = l_vbfs_cpufreq_set_flag g"
  "l_lazy_freq_step_up_cnt (fold (load_step env pol b) js g) = l_lazy_freq_step_up_cnt g"
  "l_lazy_freq_step_down_cnt (fold (load_step env pol b) js g) = l_lazy_freq_step_down_cnt g"
  "vbfs_attr_group (fold (load_step env pol b) js g) = vbfs_attr_group g"
  by (induction js arbitrary: g) simp_all

lemma load_fold_idle:
  "distinct js \<Longrightarrow> \<forall>j \<in> set js. \<not> busy (cpu_sample env pol g j) \<Longrightarrow>
   res (fold (load_step env pol 0) js g) = res g"
proof (induction js arbitrary: g)
  case Nil
  then show ?case by simp
next
  case (Cons j js)
  have "res (load_step env pol 0 j g) = res g"
    using Cons.prems by (auto simp: load_step_res busy_def split: option.splits)
  moreover have "\<forall>k \<in> set js. \<not> busy (cpu_sample env pol (load_step env pol 0 j g) k)"
  proof
    fix k assume "k \<in> set js"
    then have "k \<noteq> j" using Cons.prems(1) by auto
    then show "\<not> busy (cpu_sample env pol (load_step env pol 0 j g) k)"
      using Cons.prems(2) \<open>k \<in> set js\<close> by simp
  qed
  ultimately show ?case using Cons by simp
qed

lemma cpu_sample_fold:
  "j \<notin> set js \<Longrightarrow> cpu_sample env pol (fold (load_step env pol b) js g) j = cpu_sample env pol g j"
  by (induction js arbitrary: g) auto

lemma get_max_load_freq_idle:
  "distinct (pol_cpus pol) \<Longrightarrow> \<forall>j \<in> set (pol_cpus pol). \<not> busy (cpu_sample env pol g j) \<Longrightarrow>
   res (get_max_load_freq env pol g) = res g"
  by (simp add: get_max_load_freq_def load_fold_idle)

text \<open>
  The load that \<open>get_max_load_freq\<close> reports is the load of the last CPU of the policy,
  in mask order, whose weighted load is not zero, not the largest one: the local maximum it
  compares with is never updated. When no CPU is busy the readings of the previous sample stay.
\<close>

theorem get_max_load_freq_last_busy:
  assumes "distinct (pol_cpus pol)"
  shows "res (get_max_load_freq env pol g) =
    (case filter (\<lambda>j. busy (cpu_sample env pol g j)) (rev (pol_cpus pol)) of
       [] \<Rightarrow> res g
     | j # _ \<Rightarrow> (let l = the (cpu_sample env pol g j) in
         (res g)\<lparr>max_load_freq := ls_load_freq l, max_load := ls_load l,
                 vr_freq_avg := ls_freq_avg l\<rparr>))"
proof -
  have "res (fold (load_step env pol 0) js g) =
    (case filter (\<lambda>j. busy (cpu_sample env pol g j)) (rev js) of
       [] \<Rightarrow> res g
     | j # _ \<Rightarrow> (let l = the (cpu_sample env pol g j) in
         (res g)\<lparr>max_load_freq := ls_load_freq l, max_load := ls_load l,
                 vr_freq_avg := ls_freq_avg l\<rparr>))" if "distinct js" for js
    using that
  proof (induction js rule: rev_induct)
    case Nil
    then show ?case by simp
  next
    case (snoc j js)
    then show ?case
      by (auto simp: load_step_res cpu_sample_fold busy_def Let_def split: option.splits list.splits)
  qed
  then show ?thesis using assms by (simp add: get_max_load_freq_def)
qed

definition demo_env2 :: kenv where
  "demo_env2 = demo_env\<lparr>idle_time_us := (\<lambda>j. if j = 0 then (100, 1000) else (900, 1000))\<rparr>"

definition demo_policy2 :: cpufreq_policy where
  "demo_policy2 = demo_policy\<lparr>pol_cpus := [0, 1]\<rparr>"

lemmas demo_load_defs =
  demo_env2_def demo_env_def demo_policy2_def demo_policy_def demo_vbfs_def demo_info_def
  vbfs_tuners_ins_def vbfs_resources_ins_def cpu_sample_def sample_cpu_def get_cpu_idle_time_def
  get_cpu_iowait_time_def sample_load_def busy_def

text \<open>Two CPUs, the first 90% and the second 10% busy: the reported maximum is 10.\<close>

theorem get_max_load_freq_last_busy_witness:
  "max_load (res (get_max_load_freq demo_env2 demo_policy2 demo_vbfs)) = 10
   \<and> map_option ls_load (cpu_sample demo_env2 demo_policy2 demo_vbfs 0) = Some 90"
proof
  have d: "distinct (pol_cpus demo_policy2)" by (simp add: demo_policy2_def)
  let ?s = "cpu_sample demo_env2 demo_policy2 demo_vbfs (Suc 0)"
  have c1: "?s = Some \<lparr>ls_load = 10, ls_load_freq = 10 * 1000000, ls_freq_avg = 1000000\<rparr>"
    by (simp add: demo_load_defs c_int_def c_uint_def)
  have r: "rev (pol_cpus demo_policy2) = [Suc 0, 0]" by (simp add: demo_policy2_def)
  have b: "busy ?s" unfolding c1 busy_def by simp
  have f: "\<exists>js. filter (\<lambda>j. busy (cpu_sample demo_env2 demo_policy2 demo_vbfs j))
      (rev (pol_cpus demo_policy2)) = Suc 0 # js"
    unfolding r filter.simps if_P [OF b] by blast
  then show "max_load (res (get_max_load_freq demo_env2 demo_policy2 demo_vbfs)) = 10"
    unfolding get_max_load_freq_last_busy [OF d] by (elim exE) (simp add: Let_def, simp add: c1)
  show "map_option ls_load (cpu_sample demo_env2 demo_policy2 demo_vbfs 0) = Some 90"
    by (simp add: demo_load_defs c_int_def c_uint_def)
qed

end
