(* ===== verification/Vbfs_Decide.thy ===== *)
theory Vbfs_Decide
  imports Vbfs_Load Freq_Rows
begin

text \<open>
  The decision of a \<open>vbfs\<close> sample: from the load and its variation to a direction and a table row
  (\<open>checkCPULoadCond\<close>, \<open>selectNextFrequencyByLoad\<close>), and from the variation of threads and memory
  to an adjustment of at most two rows (\<open>checkThreadCond\<close>, \<open>checkMemCond\<close>, \<open>adjustCond\<close>). A read of
  the table out of range, or through a null table, is \<open>None\<close>. The \<open>pr_info\<close> lines are left out.
\<close>

section \<open>The next frequency for a load\<close>

abbreviation (input) is_up :: "int \<Rightarrow> bool" where
  "is_up d \<equiv> d = ADJ_STEP_UP \<or> d = ADJ_SCALE_UP"

abbreviation (input) is_down :: "int \<Rightarrow> bool" where
  "is_down d \<equiv> d = ADJ_STEP_DOWN \<or> d = ADJ_SCALE_DOWN"

text \<open>\<open>freqadj\<close> before and after its correction. The indices are \<open>unsigned int\<close>, \<open>freqadj\<close> is an
  \<open>int\<close> that the comparisons turn back into an unsigned value.\<close>

definition select_adj :: "int \<Rightarrow> u32 \<Rightarrow> u32 \<Rightarrow> u32 \<Rightarrow> int" where
  "select_adj direction cpuUsage startIndex endIndex =
     (if is_down direction then c_int ((startIndex - endIndex + 1) div 3 + endIndex)
      else
        let freqadj = c_int ((startIndex - endIndex + 1) * cpuUsage - 1);
            freqadj = (if freqadj < 0 then 0 else freqadj)
        in \<bar>c_int (c_uint (freqadj div 100) - startIndex)\<bar>)"

definition select_clamp :: "int \<Rightarrow> u32 \<Rightarrow> u32 \<Rightarrow> u32 \<Rightarrow> int \<Rightarrow> int" where
  "select_clamp direction freqIndex startIndex endIndex freqadj =
     (if is_up direction \<and> c_uint freqadj \<ge> freqIndex \<and> c_uint freqadj > endIndex
      then c_int (freqIndex - 1)
      else if is_down direction \<and> c_uint freqadj \<le> freqIndex \<and> c_uint freqadj < startIndex
      then c_int (freqIndex + 1)
      else freqadj)"

definition selectNextFrequencyByLoad ::
  "ftt_fun \<Rightarrow> cpufreq_policy \<Rightarrow> u32 \<Rightarrow> u32 \<Rightarrow> int \<Rightarrow> u32 \<Rightarrow> u32 \<Rightarrow> vbfs_state
   \<Rightarrow> (int \<times> vbfs_state) option" where
  "selectNextFrequencyByLoad ftt pol cpuUsage cpuFreq freq_direction freq_start freq_end g =
     (case freq_table (od_cpu_vbfs_info g (pol_cpu pol)) of
        None \<Rightarrow>
          Some (ADJ_INVALID,
            upd_res (next_freq_update (\<lambda>_. 0))
              (upd_infos (\<lambda>_ i. i\<lparr>freq_lo := 0, freq_lo_jiffies := 0\<rparr>) [pol_cpu pol] g))
      | Some t \<Rightarrow>
          if \<not> is_up freq_direction \<and> \<not> is_down freq_direction
          then Some (ADJ_INVALID, upd_res (next_freq_update (\<lambda>_. 0)) g)
          else
            let relation = (if is_up freq_direction then RELATION_H else RELATION_L);
                freqIndex = ftt_index ftt pol t cpuFreq relation 0;
                freqStartIndex = ftt_index ftt pol t freq_start RELATION_L 0;
                freqEndIndex = ftt_index ftt pol t freq_end RELATION_H 0;
                freqadj = select_clamp freq_direction freqIndex freqStartIndex freqEndIndex
                  (select_adj freq_direction cpuUsage freqStartIndex freqEndIndex)
            in
            if freq_direction = ADJ_STEP_DOWN
               \<and> l_lazy_freq_step_down_cnt g \<noteq> vt_lazy_freq_step_down_cnt (tuners g)
            then Some (freq_direction, upd_res (next_freq_update (\<lambda>_. pol_cur pol)) g)
            else do {
              row \<leftarrow> nth_int t freqadj;
              let g = upd_res (next_freq_update (\<lambda>_. frequency row)) g;
              Some (freq_direction,
                if freq_direction = ADJ_STEP_DOWN
                then g\<lparr>l_lazy_freq_step_up_cnt := 0, l_lazy_freq_step_down_cnt := 0\<rparr>
                else g)
            })"

section \<open>The load condition\<close>

text \<open>The direction, and the two ends of the range of frequencies to choose from.\<close>

definition load_direction ::
  "vbfs_tuners \<Rightarrow> cpufreq_policy \<Rightarrow> u32 \<Rightarrow> u32 \<Rightarrow> int \<Rightarrow> int \<times> u32 \<times> u32" where
  "load_direction t pol cpuUsage cpuFreq cpuUsageDiff =
     (if cpuUsageDiff \<ge> vt_cpu_variation_up_threshold t \<or> cpuUsage \<ge> vt_cpu_usage_up_threshold t
      then
        if cpuFreq = pol_max pol then (ADJ_SETTLED, 0, 0)
        else (if cpuUsageDiff \<ge> vt_cpu_variation_up_threshold t then ADJ_SCALE_UP else ADJ_STEP_UP,
              cpuFreq, pol_max pol)
      else if cpuUsageDiff \<le> vt_cpu_variation_down_threshold t
              \<and> cpuUsage \<le> vt_cpu_usage_down_threshold t
              \<or> cpuUsage \<le> vt_cpu_usage_down_threshold t
      then
        if cpuFreq = pol_min pol then (ADJ_SETTLED, 0, 0)
        else (if cpuUsageDiff \<le> vt_cpu_variation_down_threshold t
                 \<and> cpuUsage \<le> vt_cpu_usage_down_threshold t then ADJ_SCALE_DOWN else ADJ_STEP_DOWN,
              pol_min pol, cpuFreq)
      else (ADJ_NO_NEED, 0, 0))"

definition set_lazy :: "u32 \<Rightarrow> u32 \<Rightarrow> vbfs_state \<Rightarrow> vbfs_state" where
  "set_lazy up down g = g\<lparr>l_lazy_freq_step_up_cnt := up, l_lazy_freq_step_down_cnt := down\<rparr>"

definition checkCPULoadCond ::
  "ftt_fun \<Rightarrow> cpufreq_policy \<Rightarrow> u32 \<Rightarrow> u32 \<Rightarrow> int \<Rightarrow> vbfs_state \<Rightarrow> (int \<times> vbfs_state) option" where
  "checkCPULoadCond ftt pol cpuUsage cpuFreq cpuUsageDiff g =
     (let (dir, freq_start, freq_end) =
            load_direction (tuners g) pol cpuUsage cpuFreq cpuUsageDiff;
          select = selectNextFrequencyByLoad ftt pol cpuUsage cpuFreq dir freq_start freq_end
      in
      if dir = ADJ_SCALE_UP \<or> dir = ADJ_SCALE_DOWN then select (set_lazy 0 0 g)
      else if dir = ADJ_STEP_UP then select (set_lazy (l_lazy_freq_step_up_cnt g + 1) 0 g)
      else if dir = ADJ_STEP_DOWN then select (set_lazy 0 (l_lazy_freq_step_down_cnt g + 1) g)
      else if dir = ADJ_SETTLED
      then Some (dir, upd_res (next_freq_update (\<lambda>_. cpuFreq)) (set_lazy 0 0 g))
      else Some (dir, upd_res (next_freq_update (\<lambda>_. 0)) (set_lazy 0 0 g)))"

section \<open>Threads and memory\<close>

definition checkThreadCond :: "vbfs_state \<Rightarrow> int \<Rightarrow> int" where
  "checkThreadCond g d =
     (if d \<ge> vt_thread_variation_up_threshold (tuners g) then 1
      else if d \<le> vt_thread_variation_down_threshold (tuners g) then - 1 else 0)"

definition checkMemCond :: "vbfs_state \<Rightarrow> int \<Rightarrow> int" where
  "checkMemCond g d =
     (if d \<ge> vt_mem_variation_up_threshold (tuners g) then 1
      else if d \<le> vt_mem_variation_down_threshold (tuners g) then - 1 else 0)"

text \<open>The two loops of \<open>adjustCond\<close>: they count \<open>condpoint\<close> down (up) to zero.\<close>

fun up_walk :: "nat \<Rightarrow> u32 \<Rightarrow> u32 \<Rightarrow> u32" where
  "up_walk 0 freqindex maxidx = freqindex"
| "up_walk (Suc condpoint) freqindex maxidx =
     (if freqindex \<le> maxidx then freqindex else up_walk condpoint (freqindex - 1) maxidx)"

fun down_walk :: "nat \<Rightarrow> u32 \<Rightarrow> u32 \<Rightarrow> u32" where
  "down_walk 0 freqindex minidx = freqindex"
| "down_walk (Suc condpoint) freqindex minidx =
     (if freqindex \<ge> minidx then freqindex else down_walk condpoint (freqindex + 1) minidx)"

text \<open>The first \<open>switch\<close>: the frequency to adjust (when there is one), the relation for the driver
  and the new \<open>vbfs_adj\<close>.\<close>

definition adjust_plan ::
  "cpufreq_policy \<Rightarrow> u32 \<Rightarrow> int \<Rightarrow> int \<Rightarrow> vbfs_resources \<Rightarrow> u32 option \<times> relation \<times> int" where
  "adjust_plan pol cpuFreq loadcond condpoint r =
     (if loadcond = ADJ_SETTLED
      then (None, if pol_cur pol = pol_max pol then RELATION_H else RELATION_L, ADJ_SETTLED)
      else if is_up loadcond
      then if condpoint > 0 then (Some (next_freq r), RELATION_H, loadcond + ADJ_COND)
           else (None, RELATION_H, loadcond)
      else if is_down loadcond
      then if condpoint < 0 then (Some (next_freq r), RELATION_L, loadcond + ADJ_COND)
           else (None, RELATION_L, loadcond)
      else if loadcond = ADJ_NO_NEED
      then if condpoint > 0 then (Some cpuFreq, RELATION_H, ADJ_COND_UP)
           else if condpoint < 0 then (Some cpuFreq, RELATION_L, ADJ_COND_DOWN)
           else (None, RELATION_L, ADJ_NO_NEED)
      else (None, RELATION_L, vbfs_adj r))"

definition adjustCond ::
  "ftt_fun \<Rightarrow> cpufreq_policy \<Rightarrow> u32 \<Rightarrow> int \<Rightarrow> int \<Rightarrow> int \<Rightarrow> vbfs_state
   \<Rightarrow> (relation \<times> vbfs_state) option" where
  "adjustCond ftt pol cpuFreq loadcond threadcond memcond g0 =
     (let condpoint = threadcond + memcond;
          (need, direction, adj) = adjust_plan pol cpuFreq loadcond condpoint (res g0);
          g = upd_res (vbfs_adj_update (\<lambda>_. adj)) g0
      in case need of
           None \<Rightarrow> Some (direction, g)
         | Some adjfreq \<Rightarrow>
             if adjfreq = 0 then Some (direction, g)
             else do {
               t \<leftarrow> freq_table (od_cpu_vbfs_info g (pol_cpu pol));
               let freqindex = ftt_index ftt pol t adjfreq direction 0;
               if adj = ADJ_SCALE_N_COND_UP \<or> adj = ADJ_STEP_N_COND_UP \<or> adj = ADJ_COND_UP
               then do {
                 f \<leftarrow> table_freq t (up_walk (nat condpoint) freqindex (maxfreqindex (res g)));
                 Some (direction, upd_res (next_freq_update (\<lambda>_. f)) g)
               }
               else if adj = ADJ_SCALE_N_COND_DOWN \<or> adj = ADJ_STEP_N_COND_DOWN
                       \<or> adj = ADJ_COND_DOWN
               then do {
                 f \<leftarrow> table_freq t (down_walk (nat (- condpoint)) freqindex (minfreqindex (res g)));
                 Some (direction, upd_res (next_freq_update (\<lambda>_. f)) g)
               }
               else Some (direction, g)
             })"

section \<open>The arithmetic of the choice\<close>

lemma select_adj_up:
  assumes "is_up d" "e \<le> s" "unat s < 2 ^ 24" "unat u \<le> 100"
  shows "\<exists>k. select_adj d u s e = int k \<and> unat e \<le> k \<and> k \<le> unat s"
proof -
  have d: "\<not> is_down d" using assms(1) by auto
  have es: "unat e \<le> unat s" using assms(2) by (simp add: word_le_nat_alt)
  define n where "n = unat s - unat e + 1"
  have n: "n \<le> 2 ^ 24" using assms(3) es by (simp add: n_def)
  have 1: "unat (s - e + 1) = n"
    using assms(3) es by (subst unat_add_small) (simp_all add: unat_sub_le [OF assms(2)] n_def)
  define m where "m = n * unat u"
  have nu: "m \<le> 2 ^ 24 * 100" unfolding m_def using n assms(4) by (rule mult_le_mono)
  have 2: "(s - e + 1) * u = of_nat m"
    unfolding m_def of_nat_mult by (simp flip: 1)
  have 3: "(s - e + 1) * u - 1 = word_of_int (int m - 1)"
    unfolding 2 by (simp only: of_int_diff of_int_1 of_int_of_nat_eq)
  have 4: "c_int ((s - e + 1) * u - 1) = int m - 1"
    unfolding 3 using nu by (intro c_int_of_int) simp_all
  define q where "q = (if int m - 1 < 0 then 0 else int m - 1) div 100"
  have "m \<le> n * 100" unfolding m_def using assms(4) by (rule mult_le_mono2)
  moreover have "0 \<le> q \<and> q \<le> int b - int a" if "m \<le> (b - a + 1) * 100" "a \<le> b" for a b
    using that by (cases "m = 0") (simp_all add: q_def, linarith)
  ultimately have q: "0 \<le> q" "q \<le> int (unat s) - int (unat e)"
    using es unfolding n_def by blast+
  have 5: "c_uint q - s = word_of_int (q - int (unat s))"
    by (simp only: c_uint_def of_int_diff of_int_of_nat_eq of_nat_unat ucast_id word_of_int_uint)
  have g: "- (2 ^ 31) \<le> q - int b \<and> q - int b < 2 ^ 31 \<and> \<bar>q - int b\<bar> = int (b - nat q)
      \<and> a \<le> b - nat q"
    if "0 \<le> q" "q \<le> int b - int a" "b < 2 ^ 24" for a b
  proof -
    have "int b < 2 ^ 24" using that(3) by simp
    then show ?thesis using that(1,2) by simp
  qed
  note g = g [OF q assms(3)]
  have 6: "c_int (c_uint q - s) = q - int (unat s)"
    unfolding 5 using g by (intro c_int_of_int) blast+
  have "select_adj d u s e = \<bar>q - int (unat s)\<bar>"
    unfolding select_adj_def if_not_P [OF d] Let_def 4 by (simp only: 6 flip: q_def)
  then show ?thesis using g by (intro exI [of _ "unat s - nat q"]) simp
qed

lemma select_adj_down:
  assumes "is_down d" "e \<le> s" "unat s < 2 ^ 24"
  shows "\<exists>k. select_adj d u s e = int k \<and> unat e \<le> k \<and> k \<le> unat s"
proof -
  have es: "unat e \<le> unat s" using assms(2) by (simp add: word_le_nat_alt)
  have 1: "unat (s - e + 1) = unat s - unat e + 1"
    using assms(3) es by (subst unat_add_small) (simp_all add: unat_sub_le [OF assms(2)])
  have 2: "unat ((s - e + 1) div 3) = (unat s - unat e + 1) div 3"
    by (simp only: unat_div 1) simp
  have b: "(b - a + 1) div 3 + a \<le> b" if "a \<le> b" for a b :: nat
    using that by linarith
  have 3: "unat ((s - e + 1) div 3 + e) = (unat s - unat e + 1) div 3 + unat e"
    using b [OF es] assms(3) by (subst unat_add_small) (simp_all add: 2)
  have "unat ((s - e + 1) div 3 + e) < 2 ^ 31"
    unfolding 3 by (rule order.strict_trans1 [OF b [OF es]]) (use assms(3) in simp)
  then have "select_adj d u s e = int (unat ((s - e + 1) div 3 + e))"
    using assms(1) by (simp only: select_adj_def if_P c_int_small)
  then show ?thesis
    using b [OF es] by (intro exI [of _ "unat ((s - e + 1) div 3 + e)"]) (simp only: 3, simp)
qed

lemma select_clamp_up:
  assumes "is_up d" "unat e \<le> k" "k \<le> unat s" "s \<le> fi" "unat fi < 2 ^ 24"
  shows "\<exists>m. select_clamp d fi s e (int k) = int m \<and> unat e \<le> m \<and> m \<le> unat s
    \<and> (m < unat fi \<or> fi = e)"
proof -
  have d: "\<not> is_down d" using assms(1) by auto
  have sf: "unat s \<le> unat fi" using assms(4) by (simp add: word_le_nat_alt)
  have k: "unat (c_uint (int k)) = k"
    using assms(3,5) sf by (intro unat_c_uint_int) simp
  show ?thesis
  proof (cases "k \<ge> unat fi \<and> k > unat e")
    case True
    then have "unat (fi - 1) = unat fi - 1"
      by (subst unat_sub_le) (use True assms(3) sf in \<open>simp_all add: word_unat_eq_iff\<close>)
    moreover have "unat fi - 1 < 2 ^ 31" using assms(5) by simp
    ultimately have "c_int (fi - 1) = int (unat fi - 1)" by (metis c_int_small)
    then have "select_clamp d fi s e (int k) = int (unat fi - 1)"
      using True assms(1) by (simp add: select_clamp_def word_le_nat_alt word_less_nat_alt k)
    moreover have "unat e \<le> unat fi - 1 \<and> unat fi - 1 \<le> unat s \<and> unat fi - 1 < unat fi"
      using True assms(3) sf by linarith
    ultimately show ?thesis by blast
  next
    case False
    then have "select_clamp d fi s e (int k) = int k"
      using assms(1) d by (auto simp: select_clamp_def word_le_nat_alt word_less_nat_alt k)
    then show ?thesis
      using False assms(2,3) sf by (intro exI [of _ k]) (auto simp: word_unat_eq_iff)
  qed
qed

lemma select_clamp_down:
  assumes "is_down d" "unat e \<le> k" "k \<le> unat s" "fi \<le> e" "unat s < 2 ^ 24"
  shows "\<exists>m. select_clamp d fi s e (int k) = int m \<and> unat e \<le> m \<and> m \<le> unat s
    \<and> (unat fi < m \<or> fi = s)"
proof -
  have d: "\<not> is_up d" using assms(1) by auto
  have fe: "unat fi \<le> unat e" using assms(4) by (simp add: word_le_nat_alt)
  have k: "unat (c_uint (int k)) = k"
    using assms(3,5) by (intro unat_c_uint_int) simp
  show ?thesis
  proof (cases "k \<le> unat fi \<and> k < unat s")
    case True
    then have "unat fi + unat (1::u32) < 2 ^ 31" using assms(2,5) fe by simp
    then have "unat (fi + 1) = unat fi + 1" "unat (fi + 1) < 2 ^ 31"
      by (simp_all add: unat_add_small)
    then have "c_int (fi + 1) = int (unat fi + 1)" by (metis c_int_small)
    then have "select_clamp d fi s e (int k) = int (unat fi + 1)"
      using True assms(1) d by (simp add: select_clamp_def word_le_nat_alt word_less_nat_alt k)
    then show ?thesis using True assms(2) fe by (intro exI [of _ "unat fi + 1"]) simp
  next
    case False
    then have "select_clamp d fi s e (int k) = int k"
      using assms(1) d by (auto simp: select_clamp_def word_le_nat_alt word_less_nat_alt k)
    then show ?thesis
      using False assms(2,3) fe by (intro exI [of _ k]) (auto simp: word_unat_eq_iff)
  qed
qed

section \<open>The choice stays in the limits and goes the right way\<close>

lemma select_up:
  assumes ftt: "ftt_contract ftt" and t: "freq_table (od_cpu_vbfs_info g (pol_cpu pol)) = Some t"
    and desc: "desc_table t" and len: "length t < 2 ^ 24" and r0: "usable pol t r0"
    and d: "is_up d" and usage: "unat u \<le> 100"
  shows "\<exists>m. selectNextFrequencyByLoad ftt pol u f d f (pol_max pol) g
        = Some (d, upd_res (next_freq_update (\<lambda>_. frequency (t ! m))) g)
    \<and> usable pol t m
    \<and> (\<forall>k. usable pol t k \<and> f < frequency (t ! k) \<longrightarrow> f < frequency (t ! m))"
proof -
  have len': "length t < 2 ^ 31" using len by simp
  obtain fi where fi: "ftt_index ftt pol t f RELATION_H 0 = fi" "usable pol t (unat fi)"
    "best_H pol t f (unat fi)"
    by (rule ftt_index_row [OF ftt len' r0, where f = f and r = RELATION_H]) simp
  obtain s where s: "ftt_index ftt pol t f RELATION_L 0 = s" "usable pol t (unat s)"
    "best_L pol t f (unat s)"
    by (rule ftt_index_row [OF ftt len' r0, where f = f and r = RELATION_L]) simp
  obtain e where e: "ftt_index ftt pol t (pol_max pol) RELATION_H 0 = e" "usable pol t (unat e)"
    "best_H pol t (pol_max pol) (unat e)"
    by (rule ftt_index_row [OF ftt len' r0, where f = "pol_max pol" and r = RELATION_H]) simp
  note top = top_row [OF desc e(3)]
  have fl: "unat fi < 2 ^ 24" using fi(2) len by (simp add: usable_def)
  have sf: "s \<le> fi" using bracket_rows [OF desc s(3) fi(3)] by (simp add: word_le_nat_alt)
  have es: "e \<le> s" using top [OF s(2)] by (simp add: word_le_nat_alt)
  have sl: "unat s < 2 ^ 24" using s(2) len by (simp add: usable_def)
  obtain k where k: "select_adj d u s e = int k" "unat e \<le> k" "k \<le> unat s"
    using select_adj_up [OF d es sl usage] by blast
  obtain m where m: "select_clamp d fi s e (int k) = int m" "unat e \<le> m" "m \<le> unat s"
    "m < unat fi \<or> fi = e"
    using select_clamp_up [OF d k(2,3) sf fl] by blast
  have um: "usable pol t m" by (rule usable_between [OF desc e(2) s(2) m(2,3)])
  have dn: "\<not> is_down d" "d \<noteq> ADJ_STEP_DOWN" using d by auto
  have "selectNextFrequencyByLoad ftt pol u f d f (pol_max pol) g
      = Some (d, upd_res (next_freq_update (\<lambda>_. frequency (t ! m))) g)"
    using d dn um unfolding selectNextFrequencyByLoad_def t
    by (simp add: fi(1) s(1) e(1) k(1) m(1) usable_def Let_def)
  moreover have "\<forall>k. usable pol t k \<and> f < frequency (t ! k) \<longrightarrow> f < frequency (t ! m)"
    using bracket_above [OF desc s(3) fi(3) um m(3)] m(4) top by auto
  ultimately show ?thesis using um by blast
qed

text \<open>Downwards the choice is the same whatever the counters, but it is only stored when the lazy
  counter of a single step has reached its tunable.\<close>

lemma select_down:
  assumes ftt: "ftt_contract ftt" and t: "freq_table (od_cpu_vbfs_info g (pol_cpu pol)) = Some t"
    and desc: "desc_table t" and len: "length t < 2 ^ 24" and r0: "usable pol t r0"
    and d: "is_down d"
  shows "\<exists>m. selectNextFrequencyByLoad ftt pol u f d (pol_min pol) f g
        = Some (d,
            if d = ADJ_STEP_DOWN then
              if l_lazy_freq_step_down_cnt g \<noteq> vt_lazy_freq_step_down_cnt (tuners g)
              then upd_res (next_freq_update (\<lambda>_. pol_cur pol)) g
              else set_lazy 0 0 (upd_res (next_freq_update (\<lambda>_. frequency (t ! m))) g)
            else upd_res (next_freq_update (\<lambda>_. frequency (t ! m))) g)
    \<and> usable pol t m
    \<and> (\<forall>k. usable pol t k \<and> frequency (t ! k) < f \<longrightarrow> frequency (t ! m) < f)"
proof -
  have len': "length t < 2 ^ 31" using len by simp
  obtain fi where fi: "ftt_index ftt pol t f RELATION_L 0 = fi" "usable pol t (unat fi)"
    "best_L pol t f (unat fi)"
    by (rule ftt_index_row [OF ftt len' r0, where f = f and r = RELATION_L]) simp
  obtain s where s: "ftt_index ftt pol t (pol_min pol) RELATION_L 0 = s" "usable pol t (unat s)"
    "best_L pol t (pol_min pol) (unat s)"
    by (rule ftt_index_row [OF ftt len' r0, where f = "pol_min pol" and r = RELATION_L]) simp
  obtain e where e: "ftt_index ftt pol t f RELATION_H 0 = e" "usable pol t (unat e)"
    "best_H pol t f (unat e)"
    by (rule ftt_index_row [OF ftt len' r0, where f = f and r = RELATION_H]) simp
  note bot = bottom_row [OF desc s(3)]
  have fe: "fi \<le> e" using bracket_rows [OF desc fi(3) e(3)] by (simp add: word_le_nat_alt)
  have es: "e \<le> s" using bot [OF e(2)] by (simp add: word_le_nat_alt)
  have sl: "unat s < 2 ^ 24" using s(2) len by (simp add: usable_def)
  obtain k where k: "select_adj d u s e = int k" "unat e \<le> k" "k \<le> unat s"
    using select_adj_down [OF d es sl] by blast
  obtain m where m: "select_clamp d fi s e (int k) = int m" "unat e \<le> m" "m \<le> unat s"
    "unat fi < m \<or> fi = s"
    using select_clamp_down [OF d k(2,3) fe sl] by blast
  have um: "usable pol t m" by (rule usable_between [OF desc e(2) s(2) m(2,3)])
  have up: "\<not> is_up d" using d by auto
  have "selectNextFrequencyByLoad ftt pol u f d (pol_min pol) f g
        = Some (d,
            if d = ADJ_STEP_DOWN then
              if l_lazy_freq_step_down_cnt g \<noteq> vt_lazy_freq_step_down_cnt (tuners g)
              then upd_res (next_freq_update (\<lambda>_. pol_cur pol)) g
              else set_lazy 0 0 (upd_res (next_freq_update (\<lambda>_. frequency (t ! m))) g)
            else upd_res (next_freq_update (\<lambda>_. frequency (t ! m))) g)"
    using d up um unfolding selectNextFrequencyByLoad_def t
    by (simp add: fi(1) s(1) e(1) k(1) m(1) usable_def Let_def set_lazy_def)
  moreover have "\<forall>k. usable pol t k \<and> frequency (t ! k) < f \<longrightarrow> frequency (t ! m) < f"
    using bracket_below [OF desc fi(3) e(3) um m(2)] m(4) bot by auto
  ultimately show ?thesis using um by blast
qed

section \<open>The load decision\<close>

definition usable_freqs :: "cpufreq_policy \<Rightarrow> ftable \<Rightarrow> u32 set" where
  "usable_freqs p t = {frequency (t ! k) | k. usable p t k}"

lemma upd_res_lazy [simp]:
  "res (set_lazy a b g) = res g" "tuners (set_lazy a b g) = tuners g"
  "od_cpu_vbfs_info (set_lazy a b g) = od_cpu_vbfs_info g"
  "l_lazy_freq_step_down_cnt (set_lazy a b g) = b"
  "l_vbfs_cpufreq_set_flag (set_lazy a b g) = l_vbfs_cpufreq_set_flag g"
  by (simp_all add: set_lazy_def)

text \<open>The static facts a sample relies on: a driver table, fastest first, with a row in the limits.\<close>

definition table_ready :: "ftt_fun \<Rightarrow> cpufreq_policy \<Rightarrow> ftable \<Rightarrow> vbfs_state \<Rightarrow> bool" where
  "table_ready ftt pol t g \<longleftrightarrow> ftt_contract ftt \<and> desc_table t \<and> length t < 2 ^ 24
     \<and> freq_table (od_cpu_vbfs_info g (pol_cpu pol)) = Some t \<and> (\<exists>k. usable pol t k)"

definition load_outcome ::
  "cpufreq_policy \<Rightarrow> ftable \<Rightarrow> vbfs_state \<Rightarrow> u32 \<Rightarrow> int \<Rightarrow> int \<Rightarrow> u32 \<Rightarrow> bool" where
  "load_outcome pol t g u diff d f \<longleftrightarrow>
    (let cur = pol_cur pol; T = tuners g; rows = usable_freqs pol t in
     if vt_cpu_variation_up_threshold T \<le> diff \<or> vt_cpu_usage_up_threshold T \<le> u then
       if cur = pol_max pol then d = ADJ_SETTLED \<and> f = cur
       else is_up d \<and> f \<in> rows \<and> ((\<exists>x \<in> rows. cur < x) \<longrightarrow> cur < f)
     else if u \<le> vt_cpu_usage_down_threshold T then
       if cur = pol_min pol then d = ADJ_SETTLED \<and> f = cur
       else is_down d \<and>
         (d = ADJ_STEP_DOWN \<and> l_lazy_freq_step_down_cnt g + 1 \<noteq> vt_lazy_freq_step_down_cnt T \<and> f = cur
          \<or> f \<in> rows \<and> ((\<exists>x \<in> rows. x < cur) \<longrightarrow> f < cur))
     else d = ADJ_NO_NEED \<and> f = 0)"

text \<open>A decision changes nothing but the chosen frequency and the lazy counters.\<close>

definition same_but_choice :: "vbfs_state \<Rightarrow> vbfs_state \<Rightarrow> bool" where
  "same_but_choice g g' \<longleftrightarrow> tuners g' = tuners g \<and> od_cpu_vbfs_info g' = od_cpu_vbfs_info g
     \<and> l_vbfs_cpufreq_set_flag g' = l_vbfs_cpufreq_set_flag g
     \<and> (\<exists>f. res g' = (res g)\<lparr>next_freq := f\<rparr>)"

lemma load_decision_rows:
  assumes "table_ready ftt pol t g" "unat u \<le> 100"
  shows "\<exists>d g'. checkCPULoadCond ftt pol u (pol_cur pol) diff g = Some (d, g') \<and>
    same_but_choice g g' \<and> load_outcome pol t g u diff d (next_freq (res g'))"
proof -
  obtain k where r: "ftt_contract ftt" "desc_table t" "length t < 2 ^ 24" "usable pol t k"
    "freq_table (od_cpu_vbfs_info g (pol_cpu pol)) = Some t"
    using assms(1) by (auto simp: table_ready_def)
  have up_sel: "\<exists>m. selectNextFrequencyByLoad ftt pol u f d f (pol_max pol) (set_lazy a b g)
        = Some (d, upd_res (next_freq_update (\<lambda>_. frequency (t ! m))) (set_lazy a b g))
    \<and> usable pol t m \<and> (\<forall>k. usable pol t k \<and> f < frequency (t ! k) \<longrightarrow> f < frequency (t ! m))"
    if "is_up d" for d a b f
    by (rule select_up [OF r(1) _ r(2,3,4) that assms(2)]) (simp add: r(5))
  have dn_sel: "\<exists>m. selectNextFrequencyByLoad ftt pol u f d (pol_min pol) f (set_lazy a b g)
        = Some (d,
            if d = ADJ_STEP_DOWN then
              if b \<noteq> vt_lazy_freq_step_down_cnt (tuners g)
              then upd_res (next_freq_update (\<lambda>_. pol_cur pol)) (set_lazy a b g)
              else set_lazy 0 0 (upd_res (next_freq_update (\<lambda>_. frequency (t ! m))) (set_lazy a b g))
            else upd_res (next_freq_update (\<lambda>_. frequency (t ! m))) (set_lazy a b g))
    \<and> usable pol t m \<and> (\<forall>k. usable pol t k \<and> frequency (t ! k) < f \<longrightarrow> frequency (t ! m) < f)"
    if "is_down d" for d a b f
    by (rule select_down [where g = "set_lazy a b g", unfolded upd_res_lazy, OF r(1,5,2,3,4) that])
  let ?T = "tuners g" and ?cur = "pol_cur pol"
  consider
      (up) "vt_cpu_variation_up_threshold ?T \<le> diff \<or> vt_cpu_usage_up_threshold ?T \<le> u"
        "?cur \<noteq> pol_max pol"
    | (down) "\<not> (vt_cpu_variation_up_threshold ?T \<le> diff \<or> vt_cpu_usage_up_threshold ?T \<le> u)"
        "u \<le> vt_cpu_usage_down_threshold ?T" "?cur \<noteq> pol_min pol"
    | (stay) "vt_cpu_variation_up_threshold ?T \<le> diff \<or> vt_cpu_usage_up_threshold ?T \<le> u \<longrightarrow> ?cur = pol_max pol"
        "\<not> (vt_cpu_variation_up_threshold ?T \<le> diff \<or> vt_cpu_usage_up_threshold ?T \<le> u) \<longrightarrow> u \<le> vt_cpu_usage_down_threshold ?T \<longrightarrow> ?cur = pol_min pol"
    by blast
  then show ?thesis
  proof cases
    case up
    then obtain d a where "is_up d" and "checkCPULoadCond ftt pol u ?cur diff g
        = selectNextFrequencyByLoad ftt pol u ?cur d ?cur (pol_max pol) (set_lazy a 0 g)"
      unfolding checkCPULoadCond_def load_direction_def
      by (cases "vt_cpu_variation_up_threshold ?T \<le> diff") auto
    then show ?thesis
      using up_sel [where d = d and f = ?cur and a = a and b = 0] up by (auto simp: usable_freqs_def load_outcome_def same_but_choice_def Let_def)
  next
    case down
    define d where "d = (if diff \<le> vt_cpu_variation_down_threshold ?T then 8 else 4 :: int)"
    define b where "b = (if d = 8 then 0 else l_lazy_freq_step_down_cnt g + 1)"
    have "is_down d" by (simp add: d_def)
    moreover have "checkCPULoadCond ftt pol u ?cur diff g
        = selectNextFrequencyByLoad ftt pol u ?cur d (pol_min pol) ?cur (set_lazy 0 b g)"
      using down unfolding checkCPULoadCond_def load_direction_def b_def d_def by simp
    ultimately show ?thesis
      using dn_sel [where d = d and a = 0 and b = b and f = ?cur] down by (auto simp: usable_freqs_def load_outcome_def same_but_choice_def Let_def b_def)
  next
    case stay
    then show ?thesis
      unfolding checkCPULoadCond_def load_direction_def load_outcome_def same_but_choice_def Let_def
      by (auto split: if_splits)
  qed
qed

text \<open>
  Claim C1. The load decision never reads outside the frequency table, and it chooses the right
  direction: above the up thresholds it stays at the policy's maximum or picks a usable frequency,
  strictly faster than the current one whenever a faster one is usable; below the down threshold
  it stays at the minimum, waits (the lazy counter of a single step), or picks a usable frequency,
  strictly slower whenever a slower one is usable; in between it asks for no change.
\<close>

theorem vbfs_load_decision:
  assumes "table_ready ftt pol t g" "unat u \<le> 100"
  shows "\<exists>d g'. checkCPULoadCond ftt pol u (pol_cur pol) diff g = Some (d, g') \<and>
    (let cur = pol_cur pol; f = next_freq (res g'); T = tuners g; rows = usable_freqs pol t in
     if vt_cpu_variation_up_threshold T \<le> diff \<or> vt_cpu_usage_up_threshold T \<le> u then
       if cur = pol_max pol then d = ADJ_SETTLED \<and> f = cur
       else is_up d \<and> f \<in> rows \<and> ((\<exists>x \<in> rows. cur < x) \<longrightarrow> cur < f)
     else if u \<le> vt_cpu_usage_down_threshold T then
       if cur = pol_min pol then d = ADJ_SETTLED \<and> f = cur
       else is_down d \<and>
         (d = ADJ_STEP_DOWN \<and> l_lazy_freq_step_down_cnt g + 1 \<noteq> vt_lazy_freq_step_down_cnt T \<and> f = cur
          \<or> f \<in> rows \<and> ((\<exists>x \<in> rows. x < cur) \<longrightarrow> f < cur))
     else d = ADJ_NO_NEED \<and> f = 0)"
  using load_decision_rows [OF assms, of diff] unfolding load_outcome_def Let_def by blast

lemma demo_ready: "table_ready scan_ftt demo_policy demo_table demo_vbfs"
proof -
  have "usable demo_policy demo_table 0" by (rule demo_usable)
  then show ?thesis
    by (auto simp: table_ready_def scan_ftt_contract desc_table_def demo_table_def demo_vbfs_def
        demo_info_def)
qed

theorem vbfs_load_decision_witness:
  "\<exists>d g'. checkCPULoadCond scan_ftt demo_policy 80 1000000 0 demo_vbfs = Some (d, g') \<and> is_up d
     \<and> 1000000 < next_freq (res g')"
proof -
  have u: "unat (80::u32) \<le> 100" by simp
  have cur: "pol_cur demo_policy = 1000000" "pol_max demo_policy = 1700000"
    by (simp_all add: demo_policy_def)
  have thr: "vt_cpu_usage_up_threshold (tuners demo_vbfs) \<le> 80"
    by (simp add: demo_vbfs_def vbfs_tuners_ins_def)
  have r: "1700000 \<in> usable_freqs demo_policy demo_table"
    using demo_usable by (auto simp: usable_freqs_def demo_table_def intro!: exI [of _ 0])
  then have ex: "\<exists>x \<in> usable_freqs demo_policy demo_table. 1000000 < x"
    by (intro bexI [of _ 1700000]) simp_all
  show ?thesis
    using vbfs_load_decision [OF demo_ready u, of 0] thr ex by (auto simp: cur Let_def)
qed

section \<open>The lazy counter\<close>

text \<open>Samples of one policy one after the other, as the timer takes them.\<close>

fun load_samples ::
  "ftt_fun \<Rightarrow> cpufreq_policy \<Rightarrow> (u32 \<times> int) list \<Rightarrow> vbfs_state \<Rightarrow> vbfs_state option" where
  "load_samples ftt pol [] g = Some g"
| "load_samples ftt pol ((u, diff) # ss) g =
     (case checkCPULoadCond ftt pol u (pol_cur pol) diff g of
        None \<Rightarrow> None | Some (_, g') \<Rightarrow> load_samples ftt pol ss g')"

definition step_down_sample :: "vbfs_tuners \<Rightarrow> u32 \<times> int \<Rightarrow> bool" where
  "step_down_sample T s \<longleftrightarrow> (case s of (u, diff) \<Rightarrow>
     u \<le> vt_cpu_usage_down_threshold T \<and> u < vt_cpu_usage_up_threshold T
     \<and> vt_cpu_variation_down_threshold T < diff \<and> diff < vt_cpu_variation_up_threshold T)"

lemma load_samples_append: "load_samples ftt pol (xs @ ys) g =
    (case load_samples ftt pol xs g of None \<Rightarrow> None | Some g' \<Rightarrow> load_samples ftt pol ys g')"
  by (induction ftt pol xs g rule: load_samples.induct) (auto split: option.splits)

lemma step_down_one:
  assumes "table_ready ftt pol t g" "pol_cur pol \<noteq> pol_min pol" "step_down_sample (tuners g) (u, diff)"
  shows "\<exists>m. usable pol t m
    \<and> (\<forall>k. usable pol t k \<and> frequency (t ! k) < pol_cur pol \<longrightarrow> frequency (t ! m) < pol_cur pol)
    \<and> checkCPULoadCond ftt pol u (pol_cur pol) diff g = Some (ADJ_STEP_DOWN,
        if l_lazy_freq_step_down_cnt g + 1 \<noteq> vt_lazy_freq_step_down_cnt (tuners g)
        then upd_res (next_freq_update (\<lambda>_. pol_cur pol)) (set_lazy 0 (l_lazy_freq_step_down_cnt g + 1) g)
        else set_lazy 0 0 (upd_res (next_freq_update (\<lambda>_. frequency (t ! m))) g))"
proof -
  obtain k where r: "ftt_contract ftt" "desc_table t" "length t < 2 ^ 24" "usable pol t k"
    "freq_table (od_cpu_vbfs_info g (pol_cpu pol)) = Some t"
    using assms(1) by (auto simp: table_ready_def)
  have "checkCPULoadCond ftt pol u (pol_cur pol) diff g
      = selectNextFrequencyByLoad ftt pol u (pol_cur pol) ADJ_STEP_DOWN (pol_min pol) (pol_cur pol)
          (set_lazy 0 (l_lazy_freq_step_down_cnt g + 1) g)"
    using assms(2,3)
    by (auto simp: checkCPULoadCond_def load_direction_def step_down_sample_def dest: leD)
  moreover have "set_lazy 0 0 (upd_res f (set_lazy a b g)) = set_lazy 0 0 (upd_res f g)" for f a b
    by (simp add: set_lazy_def upd_res_def)
  ultimately show ?thesis
    using select_down [where g = "set_lazy 0 (l_lazy_freq_step_down_cnt g + 1) g",
      unfolded upd_res_lazy, OF r(1,5,2,3,4), of ADJ_STEP_DOWN u "pol_cur pol"]
    by auto
qed

lemma lazy_waits:
  assumes "table_ready ftt pol t g" "pol_cur pol \<noteq> pol_min pol"
    "\<forall>s \<in> set ss. step_down_sample (tuners g) s" "l_lazy_freq_step_down_cnt g = 0"
    "length ss < unat (vt_lazy_freq_step_down_cnt (tuners g))"
  shows "\<exists>g'. load_samples ftt pol ss g = Some g'
    \<and> l_lazy_freq_step_down_cnt g' = of_nat (length ss)
    \<and> tuners g' = tuners g \<and> od_cpu_vbfs_info g' = od_cpu_vbfs_info g
    \<and> (ss \<noteq> [] \<longrightarrow> next_freq (res g') = pol_cur pol)"
  using assms(3,5)
proof (induction ss rule: rev_induct)
  case Nil
  then show ?case using assms(4) by simp
next
  case (snoc s ss)
  then obtain g' where g': "load_samples ftt pol ss g = Some g'"
    "l_lazy_freq_step_down_cnt g' = of_nat (length ss)" "tuners g' = tuners g"
    "od_cpu_vbfs_info g' = od_cpu_vbfs_info g"
    by auto
  obtain u diff where s: "s = (u, diff)" by (cases s)
  have ready: "table_ready ftt pol t g'"
    using assms(1) g'(4) by (simp add: table_ready_def)
  have "unat (of_nat (length ss) + 1 :: u32) = length ss + 1"
  proof -
    have "length ss + 1 < 2 ^ 32"
      using snoc.prems(2) unsigned_less [of "vt_lazy_freq_step_down_cnt (tuners g)", where 'a = nat] by simp
    then have "unat (of_nat (length ss + 1) :: u32) = length ss + 1" by (rule unat_of_nat_small)
    then show ?thesis by (simp add: add.commute)
  qed
  then have ne: "of_nat (length ss) + 1 \<noteq> vt_lazy_freq_step_down_cnt (tuners g)"
    using snoc.prems(2) by auto
  show ?case
    using step_down_one [OF ready assms(2), of u diff] snoc.prems(1) s g' ne
    by (auto simp: load_samples_append add.commute)
qed

text \<open>
  Claim C15. The lazy counter delays single steps down: of consecutive samples that ask for a step
  down, each one before the \<open>N\<close>-th (\<open>N\<close> the tunable) leaves the frequency alone, and the \<open>N\<close>-th
  picks a usable frequency, strictly slower whenever one is usable, and starts the count again.
\<close>

theorem vbfs_lazy_step_down:
  assumes "table_ready ftt pol t g" "pol_cur pol \<noteq> pol_min pol"
    "\<forall>s \<in> set ss. step_down_sample (tuners g) s" "l_lazy_freq_step_down_cnt g = 0" "ss \<noteq> []"
    "length ss \<le> unat (vt_lazy_freq_step_down_cnt (tuners g))"
  shows "\<exists>g'. load_samples ftt pol ss g = Some g' \<and>
    (if length ss < unat (vt_lazy_freq_step_down_cnt (tuners g))
     then next_freq (res g') = pol_cur pol \<and> l_lazy_freq_step_down_cnt g' = of_nat (length ss)
     else next_freq (res g') \<in> usable_freqs pol t \<and> l_lazy_freq_step_down_cnt g' = 0
       \<and> ((\<exists>x \<in> usable_freqs pol t. x < pol_cur pol) \<longrightarrow> next_freq (res g') < pol_cur pol))"
proof (cases "length ss < unat (vt_lazy_freq_step_down_cnt (tuners g))")
  case True
  then show ?thesis using lazy_waits [OF assms(1-4) True] assms(5) by auto
next
  case False
  obtain ss' s where ss: "ss = ss' @ [s]" using assms(5) by (meson rev_exhaust)
  have len: "length ss' + 1 = unat (vt_lazy_freq_step_down_cnt (tuners g))"
    using False assms(6) ss by simp
  then have "length ss' < unat (vt_lazy_freq_step_down_cnt (tuners g))" by simp
  then obtain g' where g': "load_samples ftt pol ss' g = Some g'"
    "l_lazy_freq_step_down_cnt g' = of_nat (length ss')" "tuners g' = tuners g"
    "od_cpu_vbfs_info g' = od_cpu_vbfs_info g"
    using lazy_waits [OF assms(1,2) _ assms(4), of ss'] assms(3) ss by auto
  obtain u diff where s: "s = (u, diff)" by (cases s)
  have ready: "table_ready ftt pol t g'"
    using assms(1) g'(4) by (simp add: table_ready_def)
  have "of_nat (length ss') + 1 = vt_lazy_freq_step_down_cnt (tuners g)"
    using arg_cong [OF len, of "of_nat :: nat \<Rightarrow> u32"] by (simp add: add.commute)
  then show ?thesis
    using step_down_one [OF ready assms(2), of u diff] assms(3) ss s g' False
    by (auto simp: load_samples_append usable_freqs_def)
qed

theorem vbfs_lazy_step_down_witness:
  "\<exists>g'. load_samples scan_ftt demo_policy [(20, 0), (21, 1), (20, - 1)] demo_vbfs = Some g'
     \<and> next_freq (res g') < 1000000 \<and> l_lazy_freq_step_down_cnt g' = 0"
proof -
  have t: "vt_lazy_freq_step_down_cnt (tuners demo_vbfs) = 3" "l_lazy_freq_step_down_cnt demo_vbfs = 0"
    by (simp_all add: demo_vbfs_def vbfs_tuners_ins_def)
  have p: "pol_cur demo_policy \<noteq> pol_min demo_policy" "pol_cur demo_policy = 1000000"
    by (simp_all add: demo_policy_def)
  have ss: "\<forall>s \<in> set [(20, 0), (21, 1), (20, - 1)]. step_down_sample (tuners demo_vbfs) s"
    by (simp add: step_down_sample_def demo_vbfs_def vbfs_tuners_ins_def)
  have "usable demo_policy demo_table 2"
    by (simp add: usable_def demo_policy_def demo_table_def)
  then have r: "600000 \<in> usable_freqs demo_policy demo_table"
    by (auto simp: usable_freqs_def demo_table_def intro!: exI [of _ 2])
  then have ex: "\<exists>x \<in> usable_freqs demo_policy demo_table. x < 1000000"
    by (intro bexI [of _ 600000]) simp_all
  show ?thesis
    using vbfs_lazy_step_down [OF demo_ready p(1) ss t(2)] ex by (simp add: t p(2)) blast
qed

section \<open>The adjustment\<close>

lemma up_walk_unat: "m \<le> i \<Longrightarrow> unat (up_walk n i m) = max (unat m) (unat i - n)"
proof (induction n i m rule: up_walk.induct)
  case (2 n i m)
  show ?case
  proof (cases "i \<le> m")
    case True
    then show ?thesis using 2(2) by (auto simp: word_le_nat_alt)
  next
    case False
    then have lt: "unat m < unat i" by (simp add: word_le_nat_alt)
    then have "i \<noteq> 0" by auto
    then have s: "unat (i - 1) = unat i - 1" by (subst unat_sub_le) simp_all
    moreover have "m \<le> i - 1" using s lt by (simp add: word_le_nat_alt)
    ultimately show ?thesis using 2(1) False by simp
  qed
qed (simp add: word_le_nat_alt max_absorb2)

lemma down_walk_unat: "i \<le> m \<Longrightarrow> unat (down_walk n i m) = min (unat m) (unat i + n)"
proof (induction n i m rule: down_walk.induct)
  case (2 n i m)
  show ?case
  proof (cases "m \<le> i")
    case True
    then show ?thesis using 2(2) by (auto simp: word_le_nat_alt)
  next
    case False
    then have lt: "unat i < unat m" by (simp add: word_le_nat_alt)
    moreover have "unat m < 2 ^ 32" using unsigned_less [of m, where 'a = nat] by simp
    ultimately have s: "unat (i + 1) = unat i + 1" by (subst unat_add_small) simp_all
    moreover have "i + 1 \<le> m" using s lt by (simp add: word_le_nat_alt)
    ultimately show ?thesis using 2(1) False by simp
  qed
qed (simp add: word_le_nat_alt min_absorb2)

definition indices_fresh :: "ftt_fun \<Rightarrow> cpufreq_policy \<Rightarrow> ftable \<Rightarrow> vbfs_resources \<Rightarrow> bool" where
  "indices_fresh ftt pol t r \<longleftrightarrow>
     maxfreqindex r = ftt_index ftt pol t (pol_max pol) RELATION_H 0
   \<and> minfreqindex r = ftt_index ftt pol t (pol_min pol) RELATION_L 0"

definition adjusts :: "int \<Rightarrow> int \<Rightarrow> bool" where
  "adjusts loadcond c \<longleftrightarrow>
     is_up loadcond \<and> c > 0 \<or> is_down loadcond \<and> c < 0 \<or> loadcond = ADJ_NO_NEED \<and> c \<noteq> 0"

definition adjust_outcome ::
  "cpufreq_policy \<Rightarrow> ftable \<Rightarrow> vbfs_state \<Rightarrow> u32 \<Rightarrow> int \<Rightarrow> int \<Rightarrow> relation \<Rightarrow> u32 \<Rightarrow> bool" where
  "adjust_outcome pol t g cpuFreq loadcond c dir f \<longleftrightarrow>
    (let base = (if loadcond = ADJ_NO_NEED then cpuFreq else next_freq (res g)) in
     if adjusts loadcond c \<and> base \<noteq> 0 then
       \<exists>i j. usable pol t i \<and> usable pol t j \<and> f = frequency (t ! j)
         \<and> (if c > 0 then dir = RELATION_H \<and> best_H pol t base i \<and> j \<le> i \<and> i \<le> j + nat c \<and> nat c \<le> 2
            else dir = RELATION_L \<and> best_L pol t base i \<and> i \<le> j \<and> j \<le> i + nat (- c) \<and> nat (- c) \<le> 2)
     else f = next_freq (res g))"

lemma adjust_rows:
  assumes "table_ready ftt pol t g" "indices_fresh ftt pol t (res g)"
    and "tc \<in> {-1, 0, 1}" "mc \<in> {-1, 0, 1}"
    and "loadcond \<in> {ADJ_NO_NEED, ADJ_SETTLED, ADJ_STEP_UP, ADJ_STEP_DOWN, ADJ_SCALE_UP, ADJ_SCALE_DOWN}"
  shows "\<exists>dir g'. adjustCond ftt pol cpuFreq loadcond tc mc g = Some (dir, g') \<and>
    (\<exists>f a. g' = upd_res (\<lambda>r. r\<lparr>vbfs_adj := a, next_freq := f\<rparr>) g
       \<and> (loadcond = ADJ_NO_NEED \<longrightarrow> tc + mc = 0 \<longrightarrow> a = ADJ_NO_NEED)
       \<and> 0 \<le> a \<and> a \<le> 13 \<and> adjust_outcome pol t g cpuFreq loadcond (tc + mc) dir f)"
proof -
  obtain k where r: "ftt_contract ftt" "desc_table t" "length t < 2 ^ 24" "usable pol t k"
    "freq_table (od_cpu_vbfs_info g (pol_cpu pol)) = Some t"
    using assms(1) by (auto simp: table_ready_def)
  have len: "length t < 2 ^ 31" using r(3) by simp
  define c where "c = tc + mc"
  define base where "base = (if loadcond = ADJ_NO_NEED then cpuFreq else next_freq (res g))"
  have c2: "nat c \<le> 2" "nat (- c) \<le> 2" using assms(3,4) by (auto simp: c_def)
  obtain a where a: "maxfreqindex (res g) = a" "usable pol t (unat a)" "best_H pol t (pol_max pol) (unat a)"
    using assms(2) ftt_index_row [OF r(1) len r(4), where f = "pol_max pol" and r = RELATION_H]
    unfolding indices_fresh_def by metis
  obtain b where b: "minfreqindex (res g) = b" "usable pol t (unat b)" "best_L pol t (pol_min pol) (unat b)"
    using assms(2) ftt_index_row [OF r(1) len r(4), where f = "pol_min pol" and r = RELATION_L]
    unfolding indices_fresh_def by metis
  obtain h where h: "ftt_index ftt pol t base RELATION_H 0 = h" "usable pol t (unat h)"
    "best_H pol t base (unat h)"
    by (rule ftt_index_row [OF r(1) len r(4), where f = base and r = RELATION_H]) simp
  obtain l where l: "ftt_index ftt pol t base RELATION_L 0 = l" "usable pol t (unat l)"
    "best_L pol t base (unat l)"
    by (rule ftt_index_row [OF r(1) len r(4), where f = base and r = RELATION_L]) simp
  have ah: "a \<le> h" using top_row [OF r(2) a(3) h(2)] by (simp add: word_le_nat_alt)
  have lb: "l \<le> b" using bottom_row [OF r(2) b(3) l(2)] by (simp add: word_le_nat_alt)
  define u where "u = up_walk (nat c) h a"
  define d where "d = down_walk (nat (- c)) l b"
  have u: "unat a \<le> unat u" "unat u \<le> unat h" "unat h \<le> unat u + nat c"
    unfolding u_def up_walk_unat [OF ah] using ah by (auto simp: word_le_nat_alt)
  have d: "unat d \<le> unat b" "unat l \<le> unat d" "unat d \<le> unat l + nat (- c)"
    unfolding d_def down_walk_unat [OF lb] using lb by (auto simp: word_le_nat_alt)
  have uu: "usable pol t (unat u)" by (rule usable_between [OF r(2) a(2) h(2) u(1,2)])
  have ud: "usable pol t (unat d)" by (rule usable_between [OF r(2) l(2) b(2) d(2,1)])
  have tf: "table_freq t u = Some (frequency (t ! unat u))" "table_freq t d = Some (frequency (t ! unat d))"
    using uu ud by (auto simp: table_freq_Some usable_def)
  show ?thesis
  proof (cases "adjusts loadcond c \<and> base \<noteq> 0")
    case True
    then consider "c > 0" "loadcond = 0 \<or> is_up loadcond" | "c < 0" "loadcond = 0 \<or> is_down loadcond"
      unfolding adjusts_def by linarith
    then show ?thesis
    proof cases
      case 1
      then have "adjustCond ftt pol cpuFreq loadcond tc mc g = Some (RELATION_H,
          upd_res (\<lambda>r. r\<lparr>vbfs_adj := if loadcond = 0 then ADJ_COND_UP else loadcond + 2,
            next_freq := frequency (t ! unat u)\<rparr>) g)"
        using True r(5) h(1) a(1) tf(1)
        by (auto simp: adjustCond_def adjust_plan_def Let_def upd_res_def base_def u_def
            simp flip: c_def)
      moreover have "adjust_outcome pol t g cpuFreq loadcond (tc + mc) RELATION_H (frequency (t ! unat u))"
        using 1 True uu h u c2 by (auto simp: adjust_outcome_def Let_def simp flip: c_def base_def)
      moreover have "0 \<le> (if loadcond = 0 then 11 else loadcond + 2)
          \<and> (if loadcond = 0 then 11 else loadcond + 2) \<le> (13::int)
          \<and> (loadcond = 0 \<longrightarrow> tc + mc = 0 \<longrightarrow> (if loadcond = 0 then 11 else loadcond + 2) = 0)"
        using 1 by (auto simp: c_def)
      ultimately show ?thesis by blast
    next
      case 2
      then have "adjustCond ftt pol cpuFreq loadcond tc mc g = Some (RELATION_L,
          upd_res (\<lambda>r. r\<lparr>vbfs_adj := if loadcond = 0 then ADJ_COND_DOWN else loadcond + 2,
            next_freq := frequency (t ! unat d)\<rparr>) g)"
        using True r(5) l(1) b(1) tf(2)
        by (auto simp: adjustCond_def adjust_plan_def Let_def upd_res_def base_def d_def
            simp flip: c_def)
      moreover have "adjust_outcome pol t g cpuFreq loadcond (tc + mc) RELATION_L (frequency (t ! unat d))"
        using 2 True ud l d c2 by (auto simp: adjust_outcome_def Let_def simp flip: c_def base_def)
      moreover have "0 \<le> (if loadcond = 0 then 12 else loadcond + 2)
          \<and> (if loadcond = 0 then 12 else loadcond + 2) \<le> (13::int)
          \<and> (loadcond = 0 \<longrightarrow> tc + mc = 0 \<longrightarrow> (if loadcond = 0 then 12 else loadcond + 2) = 0)"
        using 2 by (auto simp: c_def)
      ultimately show ?thesis by blast
    qed
  next
    case False
    obtain need dir a' where plan: "adjust_plan pol cpuFreq loadcond c (res g) = (need, dir, a')"
      by (cases "adjust_plan pol cpuFreq loadcond c (res g)")
    have need: "need = None \<or> need = Some 0"
      using plan False assms(5)
      by (auto simp: adjust_plan_def adjusts_def base_def split: if_splits)
    have "adjustCond ftt pol cpuFreq loadcond tc mc g = Some (dir,
        upd_res (\<lambda>r. r\<lparr>vbfs_adj := a', next_freq := next_freq (res g)\<rparr>) g)"
      using need plan by (auto simp: adjustCond_def c_def upd_res_def)
    moreover have "adjust_outcome pol t g cpuFreq loadcond (tc + mc) dir (next_freq (res g))"
      unfolding adjust_outcome_def Let_def base_def [symmetric] c_def [symmetric] if_not_P [OF False] ..
    moreover have "0 \<le> a' \<and> a' \<le> 13 \<and> (loadcond = 0 \<longrightarrow> tc + mc = 0 \<longrightarrow> a' = 0)"
      using plan assms(5) by (auto simp: adjust_plan_def c_def split: if_splits)
    ultimately show ?thesis by blast
  qed
qed

text \<open>
  Claim C8. The thread and memory conditions move the chosen frequency by at most two rows of the
  table, only in the direction they agree on, and never out of the policy's limits, as long as the
  cached row indices of the limits are those of the current limits; in every other case the chosen
  frequency stays.
\<close>

theorem vbfs_adjust_bounded:
  assumes "table_ready ftt pol t g" "indices_fresh ftt pol t (res g)"
    and "tc \<in> {-1, 0, 1}" "mc \<in> {-1, 0, 1}"
    and "loadcond \<in> {ADJ_NO_NEED, ADJ_SETTLED, ADJ_STEP_UP, ADJ_STEP_DOWN, ADJ_SCALE_UP, ADJ_SCALE_DOWN}"
  shows "\<exists>dir g'. adjustCond ftt pol cpuFreq loadcond tc mc g = Some (dir, g') \<and>
    (let c = tc + mc; base = (if loadcond = ADJ_NO_NEED then cpuFreq else next_freq (res g)) in
     if adjusts loadcond c \<and> base \<noteq> 0 then
       \<exists>i j. usable pol t i \<and> usable pol t j \<and> next_freq (res g') = frequency (t ! j)
         \<and> (if c > 0 then dir = RELATION_H \<and> best_H pol t base i \<and> j \<le> i \<and> i \<le> j + nat c \<and> nat c \<le> 2
            else dir = RELATION_L \<and> best_L pol t base i \<and> i \<le> j \<and> j \<le> i + nat (- c) \<and> nat (- c) \<le> 2)
     else next_freq (res g') = next_freq (res g))"
  using adjust_rows [OF assms, of cpuFreq] unfolding adjust_outcome_def Let_def by fastforce

text \<open>The demonstration state with the row indices of the limits cached.\<close>

definition demo_vbfs_ready :: vbfs_state where
  "demo_vbfs_ready = upd_res (\<lambda>r. r\<lparr>maxfreqindex := 0, minfreqindex := 3, next_freq := 1000000\<rparr>) demo_vbfs"

lemma demo_rows:
  "scan_ftt demo_policy demo_table 1700000 RELATION_H = Some 0"
  "scan_ftt demo_policy demo_table 200000 RELATION_L = Some 3"
  by code_simp+

theorem vbfs_adjust_bounded_witness:
  "\<exists>dir g'. adjustCond scan_ftt demo_policy 1000000 ADJ_SCALE_DOWN (- 1) (- 1) demo_vbfs_ready = Some (dir, g')
     \<and> dir = RELATION_L \<and> (\<exists>i j. usable demo_policy demo_table j
         \<and> best_L demo_policy demo_table 1000000 i \<and> i \<le> j \<and> j \<le> i + 2
         \<and> next_freq (res g') = frequency (demo_table ! j))"
proof -
  have 1: "table_ready scan_ftt demo_policy demo_table demo_vbfs_ready"
    using demo_ready by (simp add: table_ready_def demo_vbfs_ready_def)
  have 2: "indices_fresh scan_ftt demo_policy demo_table (res demo_vbfs_ready)"
    by (simp add: indices_fresh_def demo_vbfs_ready_def ftt_index_def demo_rows[unfolded demo_policy_def] demo_policy_def)
  have n: "next_freq (res demo_vbfs_ready) = 1000000" by (simp add: demo_vbfs_ready_def)
  show ?thesis
    using vbfs_adjust_bounded [OF 1 2, of "- 1" "- 1" ADJ_SCALE_DOWN 1000000]
    by (simp add: n adjusts_def) metis
qed

text \<open>The indices are cached by the first sample and never refreshed: after userspace lowers the
  policy's maximum to 1 GHz, the adjustment still climbs to 1.7 GHz, outside the new limits.\<close>

lemma vbfs_adjust_stale_limits:
  "map_option (\<lambda>(d, g). next_freq (res g))
     (adjustCond scan_ftt (demo_policy\<lparr>pol_max := 1000000\<rparr>) 1000000 ADJ_NO_NEED 1 1 demo_vbfs_ready)
   = Some 1700000"
proof -
  have "scan_ftt (demo_policy\<lparr>pol_max := 1000000\<rparr>) demo_table 1000000 RELATION_H = Some 1"
    by code_simp
  moreover have "freq_table (od_cpu_vbfs_info demo_vbfs_ready 0) = Some demo_table"
    by (simp add: demo_vbfs_ready_def demo_vbfs_def demo_info_def)
  moreover have "maxfreqindex (res demo_vbfs_ready) = 0" by (simp add: demo_vbfs_ready_def)
  moreover have "pol_cpu demo_policy = 0" by (simp add: demo_policy_def)
  moreover have "up_walk 2 1 0 = 0" by (simp add: numeral_2_eq_2)
  moreover have "table_freq demo_table 0 = Some 1700000" by (simp add: table_freq_def demo_table_def)
  ultimately show ?thesis
    by (simp add: adjustCond_def adjust_plan_def ftt_index_def)
qed

end
