(* ===== verification/Vbfs_Governor.thy ===== *)
theory Vbfs_Governor
  imports Vbfs_Decide Status_Monitor
begin

text \<open>
  The \<open>vbfs\<close> governor as a component: the log line of a sample, one sample from the readings to the
  request for the driver (\<open>vbfs_check_resources\<close>), the sampling timer, the \<open>START\<close>, \<open>STOP\<close> and
  \<open>LIMITS\<close> events, the manual override through \<open>scaling_setspeed\<close>, and the module's initialisation.
\<close>

section \<open>Manual override\<close>

definition vbfs_cpufreq_set ::
  "'d target_op option \<Rightarrow> nat \<Rightarrow> u32 \<Rightarrow> vbfs_state \<times> 'd sys \<Rightarrow> (int \<times> vbfs_state \<times> 'd sys) option" where
  "vbfs_cpufreq_set tgt p freq gs = (case gs of (g, s) \<Rightarrow> do {
     let g = g\<lparr>l_vbfs_cpufreq_set_flag := 1\<rparr>;
     let freq = (if freq < pol_min (policies s p) then pol_min (policies s p) else freq);
     let freq = (if freq > pol_max (policies s p) then pol_max (policies s p) else freq);
     (ret, s) \<leftarrow> cpufreq_driver_target_locked tgt p freq RELATION_L s;
     Some (ret, g, s)
   })"

definition vbfs_show_speed :: "nat \<Rightarrow> vbfs_state \<times> 'd sys \<Rightarrow> string \<times> vbfs_state" where
  "vbfs_show_speed p gs = (case gs of (g, s) \<Rightarrow>
     (sprintf_u (pol_cur (policies s p)) @ [newline], g\<lparr>l_vbfs_cpufreq_set_flag := 0\<rparr>))"

section \<open>The log line\<close>

text \<open>The characters \<open>get_cpu_onlines\<close> stores from the start of its buffer.\<close>

definition get_cpu_onlines :: "nat \<Rightarrow> (cpuid \<Rightarrow> bool) \<Rightarrow> cpufreq_policy \<Rightarrow> nat \<Rightarrow> string" where
  "get_cpu_onlines nr_cpus cpu_online pol buf_size =
     (let mask = fold (\<lambda>j mask. if cpu_online j then mask OR push_bit j 1 else mask) (pol_cpus pol)
            (0::u32);
          count = (if buf_size \<ge> nr_cpus then nr_cpus else buf_size)
      in map (\<lambda>j. char_of (48 + unat (drop_bit j mask AND 1))) [0..<count])"

text \<open>A \<open>char\<close> array printed with \<open>%s\<close>: without a \<open>NUL\<close> in it the print would run past its end.\<close>

definition c_string :: "string \<Rightarrow> string option" where
  "c_string buf = (if NUL \<in> set buf then Some (takeWhile (\<lambda>c. c \<noteq> NUL) buf) else None)"

definition vbfs_log_line ::
  "u64 \<Rightarrow> string \<Rightarrow> cpufreq_policy \<Rightarrow> vbfs_resources \<Rightarrow> string" where
  "vbfs_log_line t online_mask pol r =
     pad_left blank 5 (sprintf_u (ucast (t div 1000000000))) @ ''.''
     @ pad_left (CHR ''0'') 6 (sprintf_u (ucast (t mod 1000000000) div 1000)) @ '', ''
     @ pad_left blank 7 (sprintf_u (load_prev r)) @ '', ''
     @ pad_left blank 9 (sprintf_d (c_int (max_load_freq r))) @ '', ''
     @ pad_left blank 9 (sprintf_u (pol_cur pol)) @ '', ''
     @ pad_left blank 7 (sprintf_d (c_int (thread_prev r))) @ '', ''
     @ pad_left blank 7 (sprintf_d (c_int (mem_prev r))) @ '', ''
     @ pad_left blank 7 online_mask @ '', ''
     @ pad_left blank 7 (sprintf_d (vbfs_adj r)) @ [newline]"

text \<open>\<open>file_buf\<close> has 100 bytes, \<open>cpu_online_mask\<close> 10, both cleared first. \<open>clock\<close> is the reading of
  \<open>cpu_clock\<close> in nanoseconds.\<close>

definition vbfs_write_logs ::
  "u64 \<Rightarrow> nat \<Rightarrow> (cpuid \<Rightarrow> bool) \<Rightarrow> cpufreq_policy \<Rightarrow> vbfs_state \<times> status_monitor
   \<Rightarrow> (vbfs_state \<times> status_monitor) option" where
  "vbfs_write_logs clock nr_cpus cpu_online pol gm = (case gm of (g, m) \<Rightarrow>
     if get_status_monitor_flag m = 1 then do {
       let t = clock div 1000000000;
       let g = (if t_init (res g) = 0 then upd_res (\<lambda>r. r\<lparr>t_init := t, t_prev := t\<rparr>) g
                else if t_prev (res g) \<noteq> t then upd_res (t_prev_update (\<lambda>_. t)) g else g);
       let bits = get_cpu_onlines nr_cpus cpu_online pol 10;
       online_mask \<leftarrow> c_string (bits @ replicate (10 - length bits) NUL);
       let file_buf = vbfs_log_line clock online_mask pol (res g);
       if length file_buf < 100 then do {
         m \<leftarrow> status_monitor_write_file file_buf (length file_buf) m;
         Some (g, m)
       } else None
     }
     else if t_init (res g) \<noteq> 0 then Some (upd_res (t_init_update (\<lambda>_. 0)) g, m)
     else Some (g, m))"

section \<open>One sample\<close>

text \<open>What a sample reads from the rest of the kernel.\<close>

record vbfs_env =
  ve_kenv :: kenv
  ve_mem :: mem_env
  ve_run_thread_number :: int
  ve_clock :: u64
  ve_nr_cpu_ids :: nat
  ve_ftt :: ftt_fun

text \<open>The last step: the request for the driver.\<close>

definition vbfs_request ::
  "vbfs_env \<Rightarrow> 'd target_op option \<Rightarrow> nat \<Rightarrow> relation \<Rightarrow> vbfs_state \<times> 'd sys
   \<Rightarrow> (vbfs_state \<times> 'd sys) option" where
  "vbfs_request ve tgt p dir gs = (case gs of (g, s) \<Rightarrow>
     if vbfs_adj (res g) \<noteq> ADJ_NO_NEED \<and> vbfs_adj (res g) \<noteq> ADJ_INVALID
        \<and> l_vbfs_cpufreq_set_flag g = 0
     then
       if vt_powersave_bias (tuners g) = 0 then do {
         (_, s) \<leftarrow> cpufreq_driver_target_locked tgt p (next_freq (res g)) dir s;
         Some (g, s)
       }
       else do {
         let cpu = pol_cpu (policies s p);
         (freq, i) \<leftarrow> powersave_bias_target (ve_kenv ve) (ve_ftt ve) (vt_powersave_bias (tuners g))
            (vt_sampling_rate (tuners g)) (policies s p) (next_freq (res g)) RELATION_L
            (od_cpu_vbfs_info g cpu);
         let g = upd_infos (\<lambda>_ _. i) [cpu] g;
         (_, s) \<leftarrow> cpufreq_driver_target_locked tgt p freq RELATION_L s;
         Some (g, s)
       }
     else Some (g, s))"

definition vbfs_check_resources ::
  "vbfs_env \<Rightarrow> 'd target_op option \<Rightarrow> cpuid \<Rightarrow> vbfs_state \<times> status_monitor \<times> 'd sys
   \<Rightarrow> (vbfs_state \<times> status_monitor \<times> 'd sys) option" where
  "vbfs_check_resources ve tgt cpu gms = (case gms of (g, m, s) \<Rightarrow> do {
     let g = upd_infos (\<lambda>_ i. i\<lparr>freq_lo := 0\<rparr>) [cpu] g;
     p \<leftarrow> cur_policy (od_cpu_vbfs_info g cpu);
     let pol = policies s p;
     (status, g) \<leftarrow> vbfs_initialize_resources (ve_kenv ve) (ve_mem ve) (ve_run_thread_number ve)
        (ve_ftt ve) pol g;
     if status < 0 then Some (g, m, s)
     else do {
       (loadcond, g) \<leftarrow> checkCPULoadCond (ve_ftt ve) pol (max_load (res g)) (pol_cur pol)
          (load_diff (res g)) g;
       if loadcond = ADJ_INVALID then Some (g, m, s)
       else do {
         let threadcond = checkThreadCond g (thread_diff (res g));
         let memcond = checkMemCond g (mem_diff (res g));
         (freq_direction, g) \<leftarrow> adjustCond (ve_ftt ve) pol (pol_cur pol) loadcond threadcond memcond g;
         (g, m) \<leftarrow> vbfs_write_logs (ve_clock ve) (ve_nr_cpu_ids ve) (online s) pol (g, m);
         (g, s) \<leftarrow> vbfs_request ve tgt p freq_direction (g, s);
         Some (g, m, s)
       }
     }
   })"

section \<open>The timer\<close>

text \<open>\<open>delay -= jiffies % delay\<close>, when more than one CPU is online: a division by zero when the
  delay is zero.\<close>

definition align_delay :: "kenv \<Rightarrow> int \<Rightarrow> int option" where
  "align_delay env delay =
     (if length (online_cpus env) > 1
      then if c_uint delay = 0 then None
           else Some (c_int (c_uint delay - jiffies_now env mod c_uint delay))
      else Some delay)"

definition do_vbfs_timer ::
  "vbfs_env \<Rightarrow> 'd target_op option \<Rightarrow> cpuid \<Rightarrow> vbfs_state \<times> status_monitor \<times> 'd sys
   \<Rightarrow> (vbfs_state \<times> status_monitor \<times> 'd sys) option" where
  "do_vbfs_timer ve tgt cpu gms = (case gms of (g, m, s) \<Rightarrow> do {
     let st = sample_type (od_cpu_vbfs_info g cpu);
     let g = upd_infos (\<lambda>_ i. i\<lparr>sample_type := NORMAL_SAMPLE\<rparr>) [cpu] g;
     (delay, g, m, s) \<leftarrow>
       (if vt_powersave_bias (tuners g) = 0 \<or> st = NORMAL_SAMPLE then do {
          (g, m, s) \<leftarrow> vbfs_check_resources ve tgt cpu (g, m, s);
          let info = od_cpu_vbfs_info g cpu;
          if freq_lo info \<noteq> 0
          then Some (c_int (freq_hi_jiffies info),
                     upd_infos (\<lambda>_ i. i\<lparr>sample_type := SUB_SAMPLE\<rparr>) [cpu] g, m, s)
          else do {
            delay \<leftarrow> align_delay (ve_kenv ve)
              (c_int (usecs_to_jiffies (ve_kenv ve) (vt_sampling_rate (tuners g) * rate_mult info)));
            Some (delay, g, m, s)
          }
        }
        else do {
          let info = od_cpu_vbfs_info g cpu;
          p \<leftarrow> cur_policy info;
          (_, s) \<leftarrow> cpufreq_driver_target_locked tgt p (freq_lo info) RELATION_H s;
          Some (c_int (freq_lo_jiffies info), g, m, s)
        });
     Some (upd_infos (\<lambda>_ i. i\<lparr>work := Some delay\<rparr>) [cpu] g, m, s)
   })"

definition vbfs_timer_init :: "kenv \<Rightarrow> cpuid \<Rightarrow> vbfs_state \<Rightarrow> vbfs_state option" where
  "vbfs_timer_init env cpu g = do {
     delay \<leftarrow> align_delay env (c_int (usecs_to_jiffies env (vt_sampling_rate (tuners g))));
     Some (upd_infos (\<lambda>_ i. i\<lparr>sample_type := NORMAL_SAMPLE, work := Some delay\<rparr>) [cpu] g)
   }"

definition vbfs_timer_exit :: "cpuid \<Rightarrow> vbfs_state \<Rightarrow> vbfs_state" where
  "vbfs_timer_exit cpu g = upd_infos (\<lambda>_ i. i\<lparr>work := None\<rparr>) [cpu] g"

section \<open>Governor events\<close>

definition vbfs_should_io_be_busy :: u32 where
  "vbfs_should_io_be_busy = 0"

definition vbfs_start_info :: "kenv \<Rightarrow> bool \<Rightarrow> nat \<Rightarrow> cpuid \<Rightarrow> cpu_vbfs_info_s \<Rightarrow> cpu_vbfs_info_s" where
  "vbfs_start_info env ignore_nice p j i =
     (let (idle, wall) = get_cpu_idle_time env j;
          i = i\<lparr>cur_policy := Some p, prev_cpu_idle := idle, prev_cpu_wall := wall\<rparr>
      in if ignore_nice then i\<lparr>prev_cpu_nice := st_nice (kstat env j)\<rparr> else i)"

definition vbfs_first_start :: "cpufreq_policy \<Rightarrow> vbfs_state \<Rightarrow> vbfs_state" where
  "vbfs_first_start pol g =
     (let latency = transition_latency pol div 1000;
          latency = (if latency = 0 then 1 else latency);
          g = g\<lparr>vbfs_attr_group := True,
                min_sampling_rate := max (min_sampling_rate g) (100 * latency)\<rparr>
      in upd_tuners (\<lambda>t. t\<lparr>vt_sampling_rate := max (min_sampling_rate g) (latency * 1000),
                           vt_io_is_busy := vbfs_should_io_be_busy\<rparr>) g)"

definition cpufreq_governor_vbfs :: "kenv \<Rightarrow> 'd target_op option \<Rightarrow> (vbfs_state, 'd) gov_op" where
  "cpufreq_governor_vbfs env tgt p event gs = (case gs of (g, s) \<Rightarrow>
     let pol = policies s p; cpu = pol_cpu pol in
     case event of
       GOV_START \<Rightarrow>
         if \<not> online s cpu \<or> pol_cur pol = 0 then Some (- EINVAL, g, s)
         else do {
           let g = g\<lparr>vbfs_enable := vbfs_enable g + 1\<rparr>;
           let g = upd_infos (vbfs_start_info env (vt_ignore_nice (tuners g) \<noteq> 0) p) (pol_cpus pol) g;
           let g = upd_infos (\<lambda>_ i. i\<lparr>info_cpu := cpu, rate_mult := 1\<rparr>) [cpu] g;
           let g = vbfs_powersave_bias_init_cpu env cpu g;
           if vbfs_enable g = 1 \<and> sysfs_create_rc env \<noteq> 0 then Some (sysfs_create_rc env, g, s)
           else do {
             let g = (if vbfs_enable g = 1 then vbfs_first_start pol g else g);
             g \<leftarrow> vbfs_timer_init env cpu g;
             Some (0, g, s)
           }
         }
     | GOV_STOP \<Rightarrow>
         let g = vbfs_timer_exit cpu g;
             g = g\<lparr>vbfs_enable := vbfs_enable g - 1\<rparr>
         in Some (0, if vbfs_enable g = 0 then g\<lparr>vbfs_attr_group := False\<rparr> else g, s)
     | GOV_LIMITS \<Rightarrow> do {
         q \<leftarrow> cur_policy (od_cpu_vbfs_info g cpu);
         (_, s) \<leftarrow>
           (if pol_max pol < pol_cur (policies s q)
            then cpufreq_driver_target_locked tgt q (pol_max pol) RELATION_H s
            else if pol_min pol > pol_cur (policies s q)
            then cpufreq_driver_target_locked tgt q (pol_min pol) RELATION_L s
            else Some (0, s));
         Some (0, g, s)
       })"

text \<open>Module initialisation up to the registration of the governor, which the core models.\<close>

definition cpufreq_gov_vbfs_init :: "kenv \<Rightarrow> cpuid \<Rightarrow> vbfs_state \<Rightarrow> vbfs_state" where
  "cpufreq_gov_vbfs_init env cpu g =
     (if fst (idle_time_us env cpu) \<noteq> - 1
      then (upd_tuners (\<lambda>t. t\<lparr>vt_cpu_usage_up_threshold := CPUUSAGE_MIN_UP_THRESHOLD,
              vt_cpu_usage_down_threshold := CPUUSAGE_MIN_DOWN_THRESHOLD,
              vt_cpu_variation_up_threshold := CPUUSAGE_UP_THRESHOLD,
              vt_cpu_variation_down_threshold := CPUUSAGE_DOWN_THRESHOLD,
              vt_thread_variation_up_threshold := 2, vt_thread_variation_down_threshold := - 2,
              vt_mem_variation_up_threshold := 20, vt_mem_variation_down_threshold := - 20\<rparr>) g)
           \<lparr>min_sampling_rate := 10000\<rparr>
      else g\<lparr>min_sampling_rate := 2 * jiffies_to_usecs env 10\<rparr>)"

end
