(* ===== verification/Ondemand.thy ===== *)
theory Ondemand
  imports Vbfs_Governor
begin

text \<open>
  The \<open>ondemand\<close> governor of this tree (\<open>drivers/cpufreq/cpufreq_ondemand.c\<close>) with its debug
  extensions (\<open>CONFIG_CPU_FREQ_DBG\<close>) on an Exynos 4: its tunables and their sysfs files, one sample
  (\<open>dbs_check_cpu\<close>), the timer and the governor events. What it shares with \<open>vbfs\<close> line for line is
  in \<open>Gov_Common\<close>; the log helpers it calls are those of \<open>cpufreq_vbfs.c\<close>.
\<close>

section \<open>State\<close>

type_synonym cpu_dbs_info_s = gov_cpu_info

record dbs_tuners =
  dt_sampling_rate :: u32
  dt_up_threshold :: u32
  dt_down_differential :: u32
  dt_ignore_nice :: u32
  dt_sampling_down_factor :: u32
  dt_powersave_bias :: u32
  dt_io_is_busy :: u32
  dt_debug :: u32

definition dbs_tuners_init :: dbs_tuners where
  "dbs_tuners_init = \<lparr>dt_sampling_rate = 0, dt_up_threshold = 80, dt_down_differential = 10,
     dt_ignore_nice = 0, dt_sampling_down_factor = 1, dt_powersave_bias = 0, dt_io_is_busy = 0,
     dt_debug = 0\<rparr>"

record dbs_state =
  dbs_tuners_ins :: dbs_tuners
  od_cpu_dbs_info :: "cpuid \<Rightarrow> cpu_dbs_info_s"
  dbs_enable :: u32
  dbs_min_sampling_rate :: u32
  dbs_t_init :: u64
  dbs_t_prev :: u64
  dbs_attr_group :: bool

definition dbs_upd_tuners :: "(dbs_tuners \<Rightarrow> dbs_tuners) \<Rightarrow> dbs_state \<Rightarrow> dbs_state" where
  "dbs_upd_tuners f g = g\<lparr>dbs_tuners_ins := f (dbs_tuners_ins g)\<rparr>"

definition dbs_upd_infos ::
  "(cpuid \<Rightarrow> cpu_dbs_info_s \<Rightarrow> cpu_dbs_info_s) \<Rightarrow> cpuid list \<Rightarrow> dbs_state \<Rightarrow> dbs_state" where
  "dbs_upd_infos f js g = g\<lparr>od_cpu_dbs_info := fold (\<lambda>j m. m(j := f j (m j))) js (od_cpu_dbs_info g)\<rparr>"

lemma dbs_upd_simps [simp]:
  "dbs_tuners_ins (dbs_upd_infos f js g) = dbs_tuners_ins g" "dbs_enable (dbs_upd_infos f js g) = dbs_enable g"
  "dbs_attr_group (dbs_upd_infos f js g) = dbs_attr_group g"
  "dbs_min_sampling_rate (dbs_upd_infos f js g) = dbs_min_sampling_rate g"
  "dbs_tuners_ins (dbs_upd_tuners h g) = h (dbs_tuners_ins g)"
  "od_cpu_dbs_info (dbs_upd_tuners h g) = od_cpu_dbs_info g"
  by (simp_all add: dbs_upd_infos_def dbs_upd_tuners_def)

section \<open>The sysfs files\<close>

definition ondemand_powersave_bias_init_cpu :: "kenv \<Rightarrow> cpuid \<Rightarrow> dbs_state \<Rightarrow> dbs_state" where
  "ondemand_powersave_bias_init_cpu env cpu g =
     dbs_upd_infos (\<lambda>j i. i\<lparr>freq_table := get_table env j, freq_lo := 0\<rparr>) [cpu] g"

definition ondemand_powersave_bias_init :: "kenv \<Rightarrow> dbs_state \<Rightarrow> dbs_state" where
  "ondemand_powersave_bias_init env g = fold (ondemand_powersave_bias_init_cpu env) (online_cpus env) g"

datatype dbs_attr =
    Dbs_sampling_rate | Dbs_io_is_busy | Dbs_up_threshold | Dbs_down_differential | Dbs_debug
  | Dbs_sampling_down_factor | Dbs_ignore_nice_load | Dbs_powersave_bias

definition dbs_store_sampling_rate :: "kenv \<Rightarrow> string \<Rightarrow> dbs_state \<Rightarrow> int \<times> dbs_state" where
  "dbs_store_sampling_rate env buf g = (case sscanf_u buf of
     None \<Rightarrow> (- EINVAL, g)
   | Some input \<Rightarrow> (int (length buf),
       dbs_upd_tuners (dt_sampling_rate_update (\<lambda>_. max input (dbs_min_sampling_rate g))) g))"

definition dbs_store_io_is_busy :: "kenv \<Rightarrow> string \<Rightarrow> dbs_state \<Rightarrow> int \<times> dbs_state" where
  "dbs_store_io_is_busy env buf g = (case sscanf_u buf of
     None \<Rightarrow> (- EINVAL, g)
   | Some input \<Rightarrow> (int (length buf),
       dbs_upd_tuners (dt_io_is_busy_update (\<lambda>_. if input \<noteq> 0 then 1 else 0)) g))"

definition dbs_store_up_threshold :: "kenv \<Rightarrow> string \<Rightarrow> dbs_state \<Rightarrow> int \<times> dbs_state" where
  "dbs_store_up_threshold env buf g = (case sscanf_u buf of
     None \<Rightarrow> (- EINVAL, g)
   | Some input \<Rightarrow>
       if input > MAX_FREQUENCY_UP_THRESHOLD \<or> input < MIN_FREQUENCY_UP_THRESHOLD then (- EINVAL, g)
       else (int (length buf), dbs_upd_tuners (dt_up_threshold_update (\<lambda>_. input)) g))"

definition dbs_store_down_differential :: "kenv \<Rightarrow> string \<Rightarrow> dbs_state \<Rightarrow> int \<times> dbs_state" where
  "dbs_store_down_differential env buf g = (case sscanf_u buf of
     None \<Rightarrow> (- EINVAL, g)
   | Some input \<Rightarrow>
       if input > dt_up_threshold (dbs_tuners_ins g) \<or> input < MICRO_FREQUENCY_DOWN_DIFFERENTIAL
       then (- EINVAL, g)
       else (int (length buf), dbs_upd_tuners (dt_down_differential_update (\<lambda>_. input)) g))"

definition dbs_store_debug :: "u32 \<Rightarrow> kenv \<Rightarrow> string \<Rightarrow> dbs_state \<Rightarrow> int \<times> dbs_state" where
  "dbs_store_debug junk env buf g =
     (let input = (case sscanf_u buf of Some w \<Rightarrow> w | None \<Rightarrow> junk) in
      (int (length buf), dbs_upd_tuners (dt_debug_update (\<lambda>_. input)) g))"

definition dbs_store_sampling_down_factor :: "kenv \<Rightarrow> string \<Rightarrow> dbs_state \<Rightarrow> int \<times> dbs_state" where
  "dbs_store_sampling_down_factor env buf g = (case sscanf_u buf of
     None \<Rightarrow> (- EINVAL, g)
   | Some input \<Rightarrow>
       if input > MAX_SAMPLING_DOWN_FACTOR \<or> input < 1 then (- EINVAL, g)
       else (int (length buf),
         dbs_upd_infos (\<lambda>j. rate_mult_update (\<lambda>_. 1)) (online_cpus env)
           (dbs_upd_tuners (dt_sampling_down_factor_update (\<lambda>_. input)) g)))"

definition dbs_store_ignore_nice_load :: "kenv \<Rightarrow> string \<Rightarrow> dbs_state \<Rightarrow> int \<times> dbs_state" where
  "dbs_store_ignore_nice_load env buf g = (case sscanf_u buf of
     None \<Rightarrow> (- EINVAL, g)
   | Some input0 \<Rightarrow>
       let input = (if input0 > 1 then 1 else input0) in
       if input = dt_ignore_nice (dbs_tuners_ins g) then (int (length buf), g)
       else (int (length buf),
         dbs_upd_infos (\<lambda>j i.
             let (idle, wall) = get_cpu_idle_time env j;
                 i1 = i\<lparr>prev_cpu_idle := idle, prev_cpu_wall := wall\<rparr>
             in if input \<noteq> 0 then i1\<lparr>prev_cpu_nice := st_nice (kstat env j)\<rparr> else i1)
           (online_cpus env) (dbs_upd_tuners (dt_ignore_nice_update (\<lambda>_. input)) g)))"

definition dbs_store_powersave_bias :: "kenv \<Rightarrow> string \<Rightarrow> dbs_state \<Rightarrow> int \<times> dbs_state" where
  "dbs_store_powersave_bias env buf g = (case sscanf_u buf of
     None \<Rightarrow> (- EINVAL, g)
   | Some input0 \<Rightarrow>
       let input = (if input0 > 1000 then 1000 else input0) in
       (int (length buf),
        ondemand_powersave_bias_init env (dbs_upd_tuners (dt_powersave_bias_update (\<lambda>_. input)) g)))"

fun dbs_store :: "u32 \<Rightarrow> dbs_attr \<Rightarrow> kenv \<Rightarrow> string \<Rightarrow> dbs_state \<Rightarrow> int \<times> dbs_state" where
  "dbs_store junk Dbs_sampling_rate = dbs_store_sampling_rate"
| "dbs_store junk Dbs_io_is_busy = dbs_store_io_is_busy"
| "dbs_store junk Dbs_up_threshold = dbs_store_up_threshold"
| "dbs_store junk Dbs_down_differential = dbs_store_down_differential"
| "dbs_store junk Dbs_debug = dbs_store_debug junk"
| "dbs_store junk Dbs_sampling_down_factor = dbs_store_sampling_down_factor"
| "dbs_store junk Dbs_ignore_nice_load = dbs_store_ignore_nice_load"
| "dbs_store junk Dbs_powersave_bias = dbs_store_powersave_bias"

fun dbs_value :: "dbs_attr \<Rightarrow> dbs_tuners \<Rightarrow> u32" where
  "dbs_value Dbs_sampling_rate t = dt_sampling_rate t"
| "dbs_value Dbs_io_is_busy t = dt_io_is_busy t"
| "dbs_value Dbs_up_threshold t = dt_up_threshold t"
| "dbs_value Dbs_down_differential t = dt_down_differential t"
| "dbs_value Dbs_debug t = dt_debug t"
| "dbs_value Dbs_sampling_down_factor t = dt_sampling_down_factor t"
| "dbs_value Dbs_ignore_nice_load t = dt_ignore_nice t"
| "dbs_value Dbs_powersave_bias t = dt_powersave_bias t"

definition dbs_show :: "dbs_attr \<Rightarrow> dbs_state \<Rightarrow> string" where
  "dbs_show a g = sprintf_u (dbs_value a (dbs_tuners_ins g)) @ [newline]"

section \<open>One sample\<close>

text \<open>The load loop: the largest weighted load with its average frequency and its load, and the
  variable \<open>freq_avg\<close>, which keeps the value of the last CPU that was not skipped.\<close>

record dbs_load =
  dl_max_load_freq :: u32
  dl_max_freq_avg :: int
  dl_max_load :: u32
  dl_freq_avg :: int

definition dbs_load_step ::
  "kenv \<Rightarrow> cpufreq_policy \<Rightarrow> cpuid \<Rightarrow> dbs_load \<times> dbs_state \<Rightarrow> dbs_load \<times> dbs_state" where
  "dbs_load_step env pol j lg = (case lg of (l, g) \<Rightarrow>
     let (i', sample) = sample_cpu env (dt_ignore_nice (dbs_tuners_ins g) \<noteq> 0)
            (dt_io_is_busy (dbs_tuners_ins g) \<noteq> 0) (pol_cur pol) j (od_cpu_dbs_info g j);
         g = dbs_upd_infos (\<lambda>_ _. i') [j] g
     in case sample of
          None \<Rightarrow> (l, g)
        | Some s \<Rightarrow>
            let l = l\<lparr>dl_freq_avg := ls_freq_avg s\<rparr> in
            (if ls_load_freq s > dl_max_load_freq l
             then l\<lparr>dl_max_load_freq := ls_load_freq s, dl_max_freq_avg := ls_freq_avg s,
                    dl_max_load := ls_load s\<rparr>
             else l, g))"

definition dbs_get_load :: "kenv \<Rightarrow> cpufreq_policy \<Rightarrow> dbs_state \<Rightarrow> dbs_load \<times> dbs_state" where
  "dbs_get_load env pol g =
     fold (dbs_load_step env pol) (pol_cpus pol)
       (\<lparr>dl_max_load_freq = 0, dl_max_freq_avg = 0, dl_max_load = 0, dl_freq_avg = 0\<rparr>, g)"

definition dbs_log_line ::
  "u64 \<Rightarrow> string \<Rightarrow> cpufreq_policy \<Rightarrow> dbs_load \<Rightarrow> int \<Rightarrow> int \<Rightarrow> string" where
  "dbs_log_line t online_mask pol l threads mem_portion =
     pad_left blank 5 (sprintf_u (ucast (t div 1000000000))) @ ''.''
     @ pad_left (CHR ''0'') 6 (sprintf_u (ucast (t mod 1000000000) div 1000)) @ '', ''
     @ pad_left blank 7 (sprintf_u (dl_max_load l)) @ '', ''
     @ pad_left blank 9 (sprintf_d (dl_max_freq_avg l)) @ '', ''
     @ pad_left blank 9 (sprintf_u (pol_cur pol)) @ '', ''
     @ pad_left blank 7 (sprintf_d threads) @ '', ''
     @ pad_left blank 7 (sprintf_d mem_portion) @ '', ''
     @ pad_left blank 7 online_mask @ '', ''
     @ pad_left blank 7 ''N/A'' @ [newline]"

definition dbs_write_logs ::
  "vbfs_env \<Rightarrow> (cpuid \<Rightarrow> bool) \<Rightarrow> cpufreq_policy \<Rightarrow> dbs_load \<Rightarrow> dbs_state \<times> status_monitor
   \<Rightarrow> (dbs_state \<times> status_monitor) option" where
  "dbs_write_logs ve cpu_online pol l gm = (case gm of (g, m) \<Rightarrow>
     if get_status_monitor_flag m = 1 then do {
       let t = ve_clock ve div 1000000000;
       let g = (if dbs_t_init g = 0 then g\<lparr>dbs_t_init := t, dbs_t_prev := t\<rparr> else g);
       let g = (if dbs_t_prev g \<noteq> t then g\<lparr>dbs_t_prev := t\<rparr> else g);
       let bits = get_cpu_onlines (ve_nr_cpu_ids ve) cpu_online pol 10;
       mask \<leftarrow> c_string (bits @ replicate (10 - length bits) NUL);
       mem_portion \<leftarrow> get_mem_portion (ve_mem ve);
       let file_buf = dbs_log_line (ve_clock ve) mask pol l (ve_run_thread_number ve) mem_portion;
       if length file_buf < 100 then do {
         m \<leftarrow> status_monitor_write_file file_buf (length file_buf) m;
         Some (g, m)
       } else None
     }
     else if dbs_t_init g \<noteq> 0 then Some (g\<lparr>dbs_t_init := 0\<rparr>, m)
     else Some (g, m))"

definition dbs_bias_target ::
  "vbfs_env \<Rightarrow> cpufreq_policy \<Rightarrow> u32 \<Rightarrow> relation \<Rightarrow> dbs_state \<Rightarrow> (u32 \<times> dbs_state) option" where
  "dbs_bias_target ve pol freq rel g = do {
     (f, i) \<leftarrow> powersave_bias_target (ve_kenv ve) (ve_ftt ve) (dt_powersave_bias (dbs_tuners_ins g))
        (dt_sampling_rate (dbs_tuners_ins g)) pol freq rel (od_cpu_dbs_info g (pol_cpu pol));
     Some (f, dbs_upd_infos (\<lambda>_ _. i) [pol_cpu pol] g)
   }"

text \<open>With \<open>CONFIG_ARCH_EXYNOS4\<close> the driver is called even at the maximum, to re-assert it.\<close>

definition dbs_freq_increase ::
  "vbfs_env \<Rightarrow> 'd target_op option \<Rightarrow> nat \<Rightarrow> u32 \<Rightarrow> dbs_state \<times> 'd sys \<Rightarrow> (dbs_state \<times> 'd sys) option" where
  "dbs_freq_increase ve tgt p freq gs = (case gs of (g, s) \<Rightarrow> do {
     (freq, g) \<leftarrow>
       (if dt_powersave_bias (dbs_tuners_ins g) \<noteq> 0
        then dbs_bias_target ve (policies s p) freq RELATION_H g else Some (freq, g));
     (_, s) \<leftarrow> cpufreq_driver_target_locked tgt p freq
        (if dt_powersave_bias (dbs_tuners_ins g) \<noteq> 0 then RELATION_L else RELATION_H) s;
     Some (g, s)
   })"

text \<open>The debug \<open>pr_info\<close> lines divide \<open>max_load_freq\<close> by \<open>freq_avg\<close>: they are kept for that.\<close>

definition dbs_debug_print :: "bool \<Rightarrow> dbs_load \<Rightarrow> u32 option" where
  "dbs_debug_print on l = (if on then udiv_chk (dl_max_load_freq l) (c_uint (dl_freq_avg l)) else Some 0)"

definition dbs_freq_decrease ::
  "vbfs_env \<Rightarrow> 'd target_op option \<Rightarrow> nat \<Rightarrow> u32 \<Rightarrow> dbs_state \<times> 'd sys \<Rightarrow> (dbs_state \<times> 'd sys) option" where
  "dbs_freq_decrease ve tgt p freq_next gs = (case gs of (g, s) \<Rightarrow> do {
     (freq, g) \<leftarrow>
       (if dt_powersave_bias (dbs_tuners_ins g) = 0 then Some (freq_next, g)
        else dbs_bias_target ve (policies s p) freq_next RELATION_L g);
     (_, s) \<leftarrow> cpufreq_driver_target_locked tgt p freq RELATION_L s;
     Some (g, s)
   })"

definition dbs_check_cpu ::
  "vbfs_env \<Rightarrow> 'd target_op option \<Rightarrow> cpuid \<Rightarrow> dbs_state \<times> status_monitor \<times> 'd sys
   \<Rightarrow> (dbs_state \<times> status_monitor \<times> 'd sys) option" where
  "dbs_check_cpu ve tgt cpu gms = (case gms of (g, m, s) \<Rightarrow> do {
     let g = dbs_upd_infos (\<lambda>_ i. i\<lparr>freq_lo := 0\<rparr>) [cpu] g;
     p \<leftarrow> cur_policy (od_cpu_dbs_info g cpu);
     let pol = policies s p;
     let (l, g) = dbs_get_load (ve_kenv ve) pol g;
     (g, m) \<leftarrow> dbs_write_logs ve (online s) pol l (g, m);
     let T = dbs_tuners_ins g;
     if dl_max_load_freq l > dt_up_threshold T * pol_cur pol then do {
       let g = (if pol_cur pol < pol_max pol
                then dbs_upd_infos (\<lambda>_ i. i\<lparr>rate_mult := dt_sampling_down_factor T\<rparr>) [cpu] g else g);
       _ \<leftarrow> dbs_debug_print (dt_debug T = 1) l;
       (g, s) \<leftarrow> dbs_freq_increase ve tgt p (pol_max pol) (g, s);
       Some (g, m, s)
     }
     else if dl_max_load_freq l < (dt_up_threshold T - dt_down_differential T) * pol_cur pol then do {
       freq_next \<leftarrow> udiv_chk (dl_max_load_freq l) (dt_up_threshold T - dt_down_differential T);
       let g = dbs_upd_infos (\<lambda>_ i. i\<lparr>rate_mult := 1\<rparr>) [cpu] g;
       let freq_next = (if freq_next < pol_min pol then pol_min pol else freq_next);
       _ \<leftarrow> dbs_debug_print (pol_cur pol \<noteq> pol_min pol \<and> dt_debug T = 1) l;
       (g, s) \<leftarrow> dbs_freq_decrease ve tgt p freq_next (g, s);
       Some (g, m, s)
     }
     else Some (g, m, s)
   })"

section \<open>The timer and the governor events\<close>

definition do_dbs_timer ::
  "vbfs_env \<Rightarrow> 'd target_op option \<Rightarrow> cpuid \<Rightarrow> dbs_state \<times> status_monitor \<times> 'd sys
   \<Rightarrow> (dbs_state \<times> status_monitor \<times> 'd sys) option" where
  "do_dbs_timer ve tgt cpu gms = (case gms of (g, m, s) \<Rightarrow> do {
     let st = sample_type (od_cpu_dbs_info g cpu);
     let g = dbs_upd_infos (\<lambda>_ i. i\<lparr>sample_type := NORMAL_SAMPLE\<rparr>) [cpu] g;
     (delay, g, m, s) \<leftarrow>
       (if dt_powersave_bias (dbs_tuners_ins g) = 0 \<or> st = NORMAL_SAMPLE then do {
          (g, m, s) \<leftarrow> dbs_check_cpu ve tgt cpu (g, m, s);
          let info = od_cpu_dbs_info g cpu;
          if freq_lo info \<noteq> 0
          then Some (c_int (freq_hi_jiffies info),
                     dbs_upd_infos (\<lambda>_ i. i\<lparr>sample_type := SUB_SAMPLE\<rparr>) [cpu] g, m, s)
          else do {
            delay \<leftarrow> align_delay (ve_kenv ve) (c_int (usecs_to_jiffies (ve_kenv ve)
              (dt_sampling_rate (dbs_tuners_ins g) * rate_mult info)));
            Some (delay, g, m, s)
          }
        }
        else do {
          let info = od_cpu_dbs_info g cpu;
          p \<leftarrow> cur_policy info;
          (_, s) \<leftarrow> cpufreq_driver_target_locked tgt p (freq_lo info) RELATION_H s;
          Some (c_int (freq_lo_jiffies info), g, m, s)
        });
     Some (dbs_upd_infos (\<lambda>_ i. i\<lparr>work := Some delay\<rparr>) [cpu] g, m, s)
   })"

definition dbs_timer_init :: "kenv \<Rightarrow> cpuid \<Rightarrow> dbs_state \<Rightarrow> dbs_state option" where
  "dbs_timer_init env cpu g = do {
     delay \<leftarrow> align_delay env (c_int (usecs_to_jiffies env (dt_sampling_rate (dbs_tuners_ins g))));
     Some (dbs_upd_infos (\<lambda>_ i. i\<lparr>sample_type := NORMAL_SAMPLE, work := Some delay\<rparr>) [cpu] g)
   }"

definition dbs_timer_exit :: "cpuid \<Rightarrow> dbs_state \<Rightarrow> dbs_state" where
  "dbs_timer_exit cpu g = dbs_upd_infos (\<lambda>_ i. i\<lparr>work := None\<rparr>) [cpu] g"

definition dbs_should_io_be_busy :: u32 where
  "dbs_should_io_be_busy = 0"

definition dbs_first_start :: "cpufreq_policy \<Rightarrow> dbs_state \<Rightarrow> dbs_state" where
  "dbs_first_start pol g =
     (let latency = transition_latency pol div 1000;
          latency = (if latency = 0 then 1 else latency);
          g = g\<lparr>dbs_attr_group := True,
                dbs_min_sampling_rate := max (dbs_min_sampling_rate g) (100 * latency)\<rparr>
      in dbs_upd_tuners (\<lambda>t. t\<lparr>dt_sampling_rate := max (dbs_min_sampling_rate g) (latency * 1000),
                               dt_io_is_busy := dbs_should_io_be_busy\<rparr>) g)"

definition dbs_start_info :: "kenv \<Rightarrow> bool \<Rightarrow> nat \<Rightarrow> cpuid \<Rightarrow> cpu_dbs_info_s \<Rightarrow> cpu_dbs_info_s" where
  "dbs_start_info env ignore_nice p j i =
     (let (idle, wall) = get_cpu_idle_time env j;
          i = i\<lparr>cur_policy := Some p, prev_cpu_idle := idle, prev_cpu_wall := wall\<rparr>
      in if ignore_nice then i\<lparr>prev_cpu_nice := st_nice (kstat env j)\<rparr> else i)"

definition cpufreq_governor_dbs :: "kenv \<Rightarrow> 'd target_op option \<Rightarrow> (dbs_state, 'd) gov_op" where
  "cpufreq_governor_dbs env tgt p event gs = (case gs of (g, s) \<Rightarrow>
     let pol = policies s p; cpu = pol_cpu pol in
     case event of
       GOV_START \<Rightarrow>
         if \<not> online s cpu \<or> pol_cur pol = 0 then Some (- EINVAL, g, s)
         else do {
           let g = g\<lparr>dbs_enable := dbs_enable g + 1\<rparr>;
           let g = dbs_upd_infos (dbs_start_info env (dt_ignore_nice (dbs_tuners_ins g) \<noteq> 0) p)
             (pol_cpus pol) g;
           let g = dbs_upd_infos (\<lambda>_ i. i\<lparr>info_cpu := cpu, rate_mult := 1\<rparr>) [cpu] g;
           let g = ondemand_powersave_bias_init_cpu env cpu g;
           if dbs_enable g = 1 \<and> sysfs_create_rc env \<noteq> 0 then Some (sysfs_create_rc env, g, s)
           else do {
             let g = (if dbs_enable g = 1 then dbs_first_start pol g else g);
             g \<leftarrow> dbs_timer_init env cpu g;
             Some (0, g, s)
           }
         }
     | GOV_STOP \<Rightarrow>
         let g = dbs_timer_exit cpu g;
             g = g\<lparr>dbs_enable := dbs_enable g - 1\<rparr>
         in Some (0, if dbs_enable g = 0 then g\<lparr>dbs_attr_group := False\<rparr> else g, s)
     | GOV_LIMITS \<Rightarrow> do {
         q \<leftarrow> cur_policy (od_cpu_dbs_info g cpu);
         (_, s) \<leftarrow>
           (if pol_max pol < pol_cur (policies s q)
            then cpufreq_driver_target_locked tgt q (pol_max pol) RELATION_H s
            else if pol_min pol > pol_cur (policies s q)
            then cpufreq_driver_target_locked tgt q (pol_min pol) RELATION_L s
            else Some (0, s));
         Some (0, g, s)
       })"

definition cpufreq_gov_dbs_init :: "kenv \<Rightarrow> cpuid \<Rightarrow> dbs_state \<Rightarrow> dbs_state" where
  "cpufreq_gov_dbs_init env cpu g =
     (if fst (idle_time_us env cpu) \<noteq> - 1
      then (dbs_upd_tuners (\<lambda>t. t\<lparr>dt_up_threshold := 95, dt_down_differential := 3\<rparr>) g)
           \<lparr>dbs_min_sampling_rate := 10000\<rparr>
      else g\<lparr>dbs_min_sampling_rate := 2 * jiffies_to_usecs env 10\<rparr>)"

end
