(* ===== verification/Vbfs_Safety.thy ===== *)
theory Vbfs_Safety
  imports Vbfs_Governor
begin

text \<open>
  What a \<open>vbfs\<close> sample guarantees: with a ready table and a driver that answers, it never faults and
  asks the driver only for frequencies inside the policy's limits; while the manual override is set
  it asks for nothing; its log line fits the buffers. And the governor's contract with the core.
\<close>

section \<open>What the steps of a sample keep\<close>

definition keeps :: "vbfs_state \<Rightarrow> vbfs_state \<Rightarrow> bool" where
  "keeps g g' \<longleftrightarrow> tuners g' = tuners g \<and> l_vbfs_cpufreq_set_flag g' = l_vbfs_cpufreq_set_flag g
     \<and> (\<forall>c. freq_table (od_cpu_vbfs_info g' c) = freq_table (od_cpu_vbfs_info g c)
          \<and> cur_policy (od_cpu_vbfs_info g' c) = cur_policy (od_cpu_vbfs_info g c)
          \<and> rate_mult (od_cpu_vbfs_info g' c) = rate_mult (od_cpu_vbfs_info g c))"

lemma keeps_refl [simp]: "keeps g g"
  by (simp add: keeps_def)

lemma keeps_trans: "keeps g g' \<Longrightarrow> keeps g' g'' \<Longrightarrow> keeps g g''"
  by (simp add: keeps_def)

lemma keeps_upd_res [simp]: "keeps g (upd_res f g)"
  by (simp add: keeps_def)

lemma keeps_load: "keeps g (fold (load_step env pol b) js g)"
proof (induction js arbitrary: g)
  case (Cons j js)
  have "keeps g (load_step env pol b j g)"
    using sample_cpu_keeps
    by (fastforce simp: keeps_def load_step_def Let_def split: prod.split option.split)
  then show ?case using Cons.IH keeps_trans by fastforce
qed simp

lemma keeps_ready: "keeps g g' \<Longrightarrow> table_ready ftt pol t g \<Longrightarrow> table_ready ftt pol t g'"
  by (simp add: keeps_def table_ready_def)

lemma keeps_choice: "same_but_choice g g' \<Longrightarrow> keeps g g'"
  by (simp add: same_but_choice_def keeps_def)

lemma res_load: "\<exists>a b c. res (fold (load_step env pol 0) js g)
    = (res g)\<lparr>max_load_freq := a, max_load := b, vr_freq_avg := c\<rparr>"
proof (induction js arbitrary: g)
  case Nil
  show ?case by (intro exI [of _ "max_load_freq (res g)"] exI [of _ "max_load (res g)"]
      exI [of _ "vr_freq_avg (res g)"]) simp
next
  case (Cons j js)
  obtain a b c where "res (fold (load_step env pol 0) js (load_step env pol 0 j g))
      = (res (load_step env pol 0 j g))\<lparr>max_load_freq := a, max_load := b, vr_freq_avg := c\<rparr>"
    using Cons by blast
  then show ?case
    by (auto simp: load_step_res split: option.split)
qed

section \<open>The readings\<close>

definition indices_ok :: "ftt_fun \<Rightarrow> cpufreq_policy \<Rightarrow> ftable \<Rightarrow> vbfs_resources \<Rightarrow> bool" where
  "indices_ok ftt pol t r \<longleftrightarrow> maxfreqindex r = 0 \<or> minfreqindex r = 0 \<or> indices_fresh ftt pol t r"

lemma mem_portion_total: "mi_totalram mem \<noteq> 0 \<Longrightarrow> \<exists>v. get_mem_portion mem = Some v"
  by (simp add: get_mem_portion_def udiv_chk_def Let_def)

lemma initialize_spec:
  assumes "table_ready ftt pol t g" "mi_totalram mem \<noteq> 0" "indices_ok ftt pol t (res g)"
  shows "\<exists>rc g'. vbfs_initialize_resources env mem n ftt pol g = Some (rc, g')
    \<and> keeps g g' \<and> max_load (res g') \<le> 100 \<and> load_prev (res g') = max_load (res g')
    \<and> indices_ok ftt pol t (res g')
    \<and> (0 \<le> rc \<longrightarrow> indices_fresh ftt pol t (res g'))"
proof -
  obtain k where r: "ftt_contract ftt" "length t < 2 ^ 31" "usable pol t k"
    "freq_table (od_cpu_vbfs_info g (pol_cpu pol)) = Some t"
    using assms(1) by (auto simp: table_ready_def)
  obtain a fa where a: "ftt_index ftt pol t (pol_max pol) RELATION_H 0 = a" "table_freq t a = Some fa"
    using ftt_index_row [OF r(1-3), where f = "pol_max pol" and r = RELATION_H] by metis
  obtain b fb where b: "ftt_index ftt pol t (pol_min pol) RELATION_L 0 = b" "table_freq t b = Some fb"
    using ftt_index_row [OF r(1-3), where f = "pol_min pol" and r = RELATION_L] by metis
  obtain v where v: "get_mem_portion mem = Some v" using mem_portion_total [OF assms(2)] by blast
  define unset where "unset \<longleftrightarrow> maxfreqindex (res g) = 0 \<or> minfreqindex (res g) = 0"
  define g1 where "g1 = upd_res (\<lambda>r. r\<lparr>vbfs_adj := ADJ_NO_NEED,
    maxfreqindex := if unset then a else maxfreqindex r,
    minfreqindex := if unset then b else minfreqindex r\<rparr>) g"
  define g2 where "g2 = get_max_load_freq env pol g1"
  define load where "load = (if max_load (res g2) > 100 then 100 else max_load (res g2))"
  define g' where "g' = upd_res (\<lambda>r. r\<lparr>max_load := load, load_diff := c_int (load - load_prev r),
    load_prev := load, thread_diff := c_int (c_uint n - thread_prev r), thread_prev := c_uint n,
    mem_diff := s32 (v - c_int (mem_prev r)), mem_prev := c_uint v\<rparr>) g2"
  have run: "vbfs_initialize_resources env mem n ftt pol g = Some (if unset then - 1 else 0, g')"
    using r(4) a b v
    unfolding vbfs_initialize_resources_def g'_def load_def g2_def g1_def unset_def
    by (auto simp: Let_def upd_res_def)
  obtain x y z where g2: "res g2 = (res g1)\<lparr>max_load_freq := x, max_load := y, vr_freq_avg := z\<rparr>"
    using res_load [of env pol "pol_cpus pol" g1] by (auto simp: g2_def get_max_load_freq_def)
  have "keeps g g1" by (simp add: g1_def)
  moreover have "keeps g1 g2" by (simp add: g2_def get_max_load_freq_def keeps_load)
  moreover have "keeps g2 g'" by (simp add: g'_def)
  ultimately have k: "keeps g g'" using keeps_trans by blast
  have idx: "maxfreqindex (res g') = (if unset then a else maxfreqindex (res g))"
    "minfreqindex (res g') = (if unset then b else minfreqindex (res g))"
    by (simp_all add: g'_def g2 g1_def)
  have fresh: "indices_fresh ftt pol t (res g')"
    using assms(3) by (auto simp: indices_fresh_def indices_ok_def idx unset_def a(1) b(1))
  show ?thesis
    using run k fresh by (auto simp: indices_ok_def g'_def load_def not_less)
qed

section \<open>The log line\<close>

lemma length_get_cpu_onlines: "length (get_cpu_onlines n on pol k) = min n k"
  by (simp add: get_cpu_onlines_def Let_def min_def)

lemma bit_char: "char_of (48 + unat (w AND 1 :: u32)) \<in> {CHR ''0'', CHR ''1''}"
proof -
  have "unat (w AND 1) < 2" by (simp add: and_one_eq unat_mod)
  then have "unat (w AND 1) = 0 \<or> unat (w AND 1) = 1" by linarith
  then show ?thesis by (elim disjE) (simp_all, code_simp+)
qed

lemma get_cpu_onlines_no_NUL: "NUL \<notin> set (get_cpu_onlines n on pol k)"
proof
  assume "NUL \<in> set (get_cpu_onlines n on pol k)"
  then obtain w :: u32 where "char_of (48 + unat (w AND 1)) = NUL"
    unfolding get_cpu_onlines_def Let_def by auto
  with bit_char [of w] show False by simp
qed

lemma log_line_fits:
  assumes "length m \<le> 9" "load_prev r \<le> 100" "0 \<le> vbfs_adj r" "vbfs_adj r \<le> 13"
  shows "length (vbfs_log_line t m pol r) < 100"
proof -
  have u: "length (sprintf_u w) \<le> 10" for w by (rule length_sprintf_u)
  have d: "length (sprintf_d (c_int w)) \<le> 11" for w
    using sint_ge [of w] sint_lt [of w] by (intro length_sprintf_d) (simp_all add: c_int_def)
  have "unat (ucast (t mod 1000000000) div 1000 :: u32) < 10 ^ 6"
  proof -
    have "unat (ucast (t mod 1000000000) :: u32) \<le> unat (t mod 1000000000)"
      by (simp add: unsigned_ucast_eq take_bit_nat_less_eq_self)
    also have "\<dots> < 1000000000" by (simp add: unat_mod)
    finally show ?thesis by (simp add: unat_div)
  qed
  then have us: "length (sprintf_u (ucast (t mod 1000000000) div 1000)) \<le> 6"
    unfolding sprintf_u_def by (rule length_dec_str) simp
  have "unat (load_prev r) < 10 ^ 3" using assms(2) by (simp add: word_le_nat_alt)
  then have l: "length (sprintf_u (load_prev r)) \<le> 3"
    unfolding sprintf_u_def by (rule length_dec_str) simp
  have "nat (vbfs_adj r) < 10 ^ 2" using assms(4) by (simp add: nat_less_iff)
  then have a: "length (sprintf_d (vbfs_adj r)) \<le> 2"
    using assms(3) unfolding sprintf_d_def by (simp add: length_dec_str)
  show ?thesis
    using us l a assms(1) u [of "ucast (t div 1000000000)"] u [of "pol_cur pol"]
      d [of "max_load_freq r"] d [of "thread_prev r"] d [of "mem_prev r"]
    unfolding vbfs_log_line_def by simp
qed

lemma log_line_no_NUL: "NUL \<notin> set m \<Longrightarrow> NUL \<notin> set (vbfs_log_line t m pol r)"
  unfolding vbfs_log_line_def by simp

text \<open>The mask of at most nine CPUs is a terminated string.\<close>

lemma online_mask_string:
  fixes n :: nat and on :: "cpuid \<Rightarrow> bool" and pol :: cpufreq_policy
  assumes "n \<le> 9"
  defines "b \<equiv> get_cpu_onlines n on pol 10"
  shows "c_string (b @ replicate (10 - length b) NUL) = Some b"
proof -
  have "NUL \<in> set (replicate (10 - length b) NUL)"
    using assms by (simp add: length_get_cpu_onlines)
  moreover have "takeWhile (\<lambda>c. c \<noteq> NUL) (b @ replicate (10 - length b) NUL) = b"
    using get_cpu_onlines_no_NUL [of n on pol 10]
    by (subst takeWhile_append2) (auto simp: b_def takeWhile_eq_Nil_iff)
  ultimately show ?thesis by (simp add: c_string_def)
qed

lemma write_logs_total:
  assumes "n \<le> 9" "load_prev (res g) \<le> 100" "0 \<le> vbfs_adj (res g)" "vbfs_adj (res g) \<le> 13" "sm_ok m"
  shows "\<exists>g' m'. vbfs_write_logs clock n on pol (g, m) = Some (g', m') \<and> keeps g g' \<and> sm_ok m'
    \<and> (\<exists>a b. res g' = (res g)\<lparr>t_init := a, t_prev := b\<rparr>)"
proof (cases "get_status_monitor_flag m = 1")
  case True
  define t where "t = clock div 1000000000"
  define g1 where "g1 = (if t_init (res g) = 0 then upd_res (\<lambda>r. r\<lparr>t_init := t, t_prev := t\<rparr>) g
     else if t_prev (res g) \<noteq> t then upd_res (t_prev_update (\<lambda>_. t)) g else g)"
  have k: "keeps g g1" by (simp add: g1_def)
  have r: "\<exists>a b. res g1 = (res g)\<lparr>t_init := a, t_prev := b\<rparr>"
    unfolding g1_def by (cases "res g") auto
  then have eq: "load_prev (res g1) = load_prev (res g)" "vbfs_adj (res g1) = vbfs_adj (res g)"
    by auto
  define b where "b = get_cpu_onlines n on pol 10"
  define l where "l = vbfs_log_line clock b pol (res g1)"
  have fit: "length l < 100"
    unfolding l_def using assms eq by (intro log_line_fits) (simp_all add: b_def length_get_cpu_onlines)
  have "line_ok l"
    using fit log_line_no_NUL [of b clock pol "res g1"] get_cpu_onlines_no_NUL [of n on pol 10]
    by (simp add: line_ok_def l_def b_def)
  then obtain m' where m': "status_monitor_write_file l (length l) m = Some m'" "sm_ok m'"
    using log_line_step [OF assms(5), of l] by (auto simp: log_line_def)
  have "vbfs_write_logs clock n on pol (g, m) = Some (g1, m')"
    using True fit m'(1) online_mask_string [OF assms(1), of on pol]
    unfolding vbfs_write_logs_def l_def b_def g1_def t_def by (simp add: Let_def)
  then show ?thesis using k m'(2) r by blast
next
  case False
  have "\<exists>a b. res g = (res g)\<lparr>t_init := a, t_prev := b\<rparr>"
    "\<exists>a b. (res g)\<lparr>t_init := 0\<rparr> = (res g)\<lparr>t_init := a, t_prev := b\<rparr>"
    by (cases "res g"; auto)+
  then show ?thesis
    using False assms(5) unfolding vbfs_write_logs_def
    by (cases "t_init (res g) = 0") auto
qed

section \<open>One sample\<close>

text \<open>A driver that answers every request and leaves the log of requests alone.\<close>

definition target_answers :: "'d target_op \<Rightarrow> bool" where
  "target_answers tgt \<longleftrightarrow> (\<forall>p f r s. \<exists>rc s'. tgt p f r s = Some (rc, s') \<and> target_log s' = target_log s)"

lemma target_locked_answers:
  assumes "target_answers tgt"
  shows "\<exists>rc s'. cpufreq_driver_target_locked (Some tgt) p f r s = Some (rc, s')
    \<and> target_log s' = target_log s @ [(p, f, r)]"
proof -
  define s1 where "s1 = s\<lparr>target_log := target_log s @ [(p, f, r)]\<rparr>"
  obtain rc s' where "tgt p f r s1 = Some (rc, s')" "target_log s' = target_log s1"
    using assms unfolding target_answers_def by blast
  then show ?thesis
    by (simp add: cpufreq_driver_target_locked_def s1_def [symmetric]) (simp add: s1_def)
qed

text \<open>A policy whose sampling can go on: its limits hold the current frequency, its CPU's record
  points to it, and the table and the cached indices are good.\<close>

definition sample_ready :: "ftt_fun \<Rightarrow> cpuid \<Rightarrow> nat \<Rightarrow> cpufreq_policy \<Rightarrow> ftable \<Rightarrow> vbfs_state \<Rightarrow> bool" where
  "sample_ready ftt cpu p pol t g \<longleftrightarrow> pol_cpu pol = cpu
     \<and> 0 < pol_min pol \<and> pol_min pol \<le> pol_cur pol \<and> pol_cur pol \<le> pol_max pol
     \<and> cur_policy (od_cpu_vbfs_info g cpu) = Some p
     \<and> table_ready ftt pol t g \<and> indices_ok ftt pol t (res g)"

lemma keeps_sample_ready:
  "keeps g g' \<Longrightarrow> sample_ready ftt cpu p pol t g \<Longrightarrow> indices_ok ftt pol t (res g') \<Longrightarrow>
   sample_ready ftt cpu p pol t g'"
  by (auto simp: sample_ready_def keeps_ready) (simp add: keeps_def)

lemma bias_total:
  assumes "ftt_contract ftt" "length t < 2 ^ 31" "usable pol t k" "freq_table i = Some t"
  shows "\<exists>hi i'. powersave_bias_target env ftt bias rate pol f rel i = Some (hi, i')
    \<and> pol_min pol \<le> hi \<and> hi \<le> pol_max pol
    \<and> freq_table i' = freq_table i \<and> cur_policy i' = cur_policy i \<and> rate_mult i' = rate_mult i"
proof -
  obtain w where w: "ftt_index ftt pol t f rel 0 = w" "table_freq t w = Some (frequency (t ! unat w))"
    using ftt_index_row [OF assms(1-3), where f = f and r = rel] by metis
  define req where "req = frequency (t ! unat w)"
  define avg where "avg = req - req * bias div 1000"
  obtain wl where wl: "ftt_index ftt pol t avg RELATION_H 0 = wl" "usable pol t (unat wl)"
    "table_freq t wl = Some (frequency (t ! unat wl))"
    using ftt_index_row [OF assms(1-3), where f = avg and r = RELATION_H] by metis
  obtain wh where wh: "ftt_index ftt pol t avg RELATION_L 0 = wh" "usable pol t (unat wh)"
    "table_freq t wh = Some (frequency (t ! unat wh))"
    using ftt_index_row [OF assms(1-3), where f = avg and r = RELATION_L] by metis
  have "pol_min pol \<le> frequency (t ! unat wl)" "frequency (t ! unat wl) \<le> pol_max pol"
    "pol_min pol \<le> frequency (t ! unat wh)" "frequency (t ! unat wh) \<le> pol_max pol"
    using wl(2) wh(2) by (simp_all add: usable_def)
  then show ?thesis
    using w wl wh assms(4)
    by (simp add: powersave_bias_target_def Let_def req_def [symmetric] avg_def [symmetric])
qed

lemma keeps_infos:
  "freq_table i = freq_table (od_cpu_vbfs_info g c) \<Longrightarrow> cur_policy i = cur_policy (od_cpu_vbfs_info g c) \<Longrightarrow>
   rate_mult i = rate_mult (od_cpu_vbfs_info g c) \<Longrightarrow> keeps g (upd_infos (\<lambda>_ _. i) [c] g)"
  "(\<And>i. freq_table (f c i) = freq_table i \<and> cur_policy (f c i) = cur_policy i \<and> rate_mult (f c i) = rate_mult i) \<Longrightarrow>
   keeps g (upd_infos f [c] g)"
  by (simp_all add: keeps_def upd_infos_def)

lemma request_spec:
  assumes "target_answers tgt" "table_ready (ve_ftt ve) (policies s p) t g"
    and "vbfs_adj (res g) = ADJ_NO_NEED \<or>
      pol_min (policies s p) \<le> next_freq (res g) \<and> next_freq (res g) \<le> pol_max (policies s p)"
  shows "\<exists>g' s'. vbfs_request ve (Some tgt) p dir (g, s) = Some (g', s') \<and> keeps g g' \<and> res g' = res g
    \<and> requests_within p s s' \<and> (l_vbfs_cpufreq_set_flag g \<noteq> 0 \<longrightarrow> s' = s)"
proof (cases "vbfs_adj (res g) \<noteq> ADJ_NO_NEED \<and> vbfs_adj (res g) \<noteq> ADJ_INVALID
    \<and> l_vbfs_cpufreq_set_flag g = 0")
  case False
  then have "vbfs_request ve (Some tgt) p dir (g, s) = Some (g, s)"
    unfolding vbfs_request_def by auto
  then show ?thesis by simp
next
  case act: True
  then have rng: "pol_min (policies s p) \<le> next_freq (res g)" "next_freq (res g) \<le> pol_max (policies s p)"
    using assms(3) by auto
  show ?thesis
  proof (cases "vt_powersave_bias (tuners g) = 0")
    case True
    obtain rc s' where "cpufreq_driver_target_locked (Some tgt) p (next_freq (res g)) dir s = Some (rc, s')"
      "target_log s' = target_log s @ [(p, next_freq (res g), dir)]"
      using target_locked_answers [OF assms(1)] by metis
    then show ?thesis
      using act True requests_within_one [OF _ rng] by (auto simp: vbfs_request_def)
  next
    case False
    obtain k where r: "ftt_contract (ve_ftt ve)" "length t < 2 ^ 31" "usable (policies s p) t k"
      "freq_table (od_cpu_vbfs_info g (pol_cpu (policies s p))) = Some t"
      using assms(2) by (auto simp: table_ready_def)
    obtain hi i' where b: "powersave_bias_target (ve_kenv ve) (ve_ftt ve) (vt_powersave_bias (tuners g))
        (vt_sampling_rate (tuners g)) (policies s p) (next_freq (res g)) RELATION_L
        (od_cpu_vbfs_info g (pol_cpu (policies s p))) = Some (hi, i')"
      "pol_min (policies s p) \<le> hi" "hi \<le> pol_max (policies s p)"
      "freq_table i' = freq_table (od_cpu_vbfs_info g (pol_cpu (policies s p)))"
      "cur_policy i' = cur_policy (od_cpu_vbfs_info g (pol_cpu (policies s p)))"
      "rate_mult i' = rate_mult (od_cpu_vbfs_info g (pol_cpu (policies s p)))"
      using bias_total [OF r] by metis
    obtain rc s' where s': "cpufreq_driver_target_locked (Some tgt) p hi RELATION_L s = Some (rc, s')"
      "target_log s' = target_log s @ [(p, hi, RELATION_L)]"
      using target_locked_answers [OF assms(1)] by metis
    show ?thesis
      using act False b s' requests_within_one [OF s'(2) b(2,3)] keeps_infos(1) [OF b(4-6)]
      by (simp add: vbfs_request_def)
  qed
qed


lemma load_outcome_freq:
  assumes "load_outcome pol t g u diff d f"
  shows "d \<in> {ADJ_NO_NEED, ADJ_SETTLED, ADJ_STEP_UP, ADJ_STEP_DOWN, ADJ_SCALE_UP, ADJ_SCALE_DOWN}"
    "d \<noteq> ADJ_NO_NEED \<Longrightarrow> f = pol_cur pol \<or> f \<in> usable_freqs pol t"
  using assms unfolding load_outcome_def Let_def by (auto split: if_splits)

lemma conds_range: "checkThreadCond g d \<in> {-1, 0, 1}" "checkMemCond g d \<in> {-1, 0, 1}"
  by (simp_all add: checkThreadCond_def checkMemCond_def)

lemma adjust_outcome_freq:
  assumes "adjust_outcome pol t g cpuFreq loadcond c dir f" "cpuFreq \<noteq> 0" "c \<noteq> 0 \<or> loadcond \<noteq> ADJ_NO_NEED"
  shows "f \<in> usable_freqs pol t \<or> loadcond \<noteq> ADJ_NO_NEED \<and> f = next_freq (res g)"
  using assms unfolding adjust_outcome_def Let_def usable_freqs_def adjusts_def
  by (auto split: if_splits)

lemma usable_freqs_limits: "f \<in> usable_freqs pol t \<Longrightarrow> pol_min pol \<le> f \<and> f \<le> pol_max pol"
  by (auto simp: usable_freqs_def usable_def)

text \<open>The decision of a sample, up to the request: what is asked for lies in the limits.\<close>

lemma decide_spec:
  assumes "sample_ready ftt cpu p pol t g" "indices_fresh ftt pol t (res g)" "unat (max_load (res g)) \<le> 100"
  shows "\<exists>d g2 dir g3. checkCPULoadCond ftt pol (max_load (res g)) (pol_cur pol) (load_diff (res g)) g = Some (d, g2)
    \<and> d \<noteq> ADJ_INVALID
    \<and> adjustCond ftt pol (pol_cur pol) d (checkThreadCond g2 (thread_diff (res g2)))
        (checkMemCond g2 (mem_diff (res g2))) g2 = Some (dir, g3)
    \<and> keeps g g3
    \<and> (\<exists>a f. res g3 = (res g)\<lparr>vbfs_adj := a, next_freq := f\<rparr> \<and> 0 \<le> a \<and> a \<le> 13
        \<and> (a = ADJ_NO_NEED \<or> pol_min pol \<le> f \<and> f \<le> pol_max pol))"
proof -
  have r: "table_ready ftt pol t g" "pol_cur pol \<noteq> 0" "pol_min pol \<le> pol_cur pol" "pol_cur pol \<le> pol_max pol"
    using assms(1) by (auto simp: sample_ready_def)
  obtain d g2 where g2: "checkCPULoadCond ftt pol (max_load (res g)) (pol_cur pol) (load_diff (res g)) g = Some (d, g2)"
    "same_but_choice g g2" "load_outcome pol t g (max_load (res g)) (load_diff (res g)) d (next_freq (res g2))"
    using load_decision_rows [OF r(1) assms(3)] by blast
  obtain f where f: "res g2 = (res g)\<lparr>next_freq := f\<rparr>" using g2(2) by (auto simp: same_but_choice_def)
  have k: "keeps g g2" by (rule keeps_choice [OF g2(2)])
  have ready2: "table_ready ftt pol t g2" by (rule keeps_ready [OF k r(1)])
  have fresh2: "indices_fresh ftt pol t (res g2)" using assms(2) by (simp add: f indices_fresh_def)
  define tc mc where "tc = checkThreadCond g2 (thread_diff (res g2))" "mc = checkMemCond g2 (mem_diff (res g2))"
  have tm: "tc \<in> {-1, 0, 1}" "mc \<in> {-1, 0, 1}" unfolding tc_mc_def by (rule conds_range)+
  obtain dir f' a where g3: "adjustCond ftt pol (pol_cur pol) d tc mc g2
      = Some (dir, upd_res (\<lambda>r. r\<lparr>vbfs_adj := a, next_freq := f'\<rparr>) g2)"
    "d = ADJ_NO_NEED \<longrightarrow> tc + mc = 0 \<longrightarrow> a = ADJ_NO_NEED" "0 \<le> a" "a \<le> 13"
    "adjust_outcome pol t g2 (pol_cur pol) d (tc + mc) dir f'"
    using adjust_rows [OF ready2 fresh2 tm load_outcome_freq(1) [OF g2(3)], of "pol_cur pol"] by blast
  have "a = ADJ_NO_NEED \<or> pol_min pol \<le> f' \<and> f' \<le> pol_max pol"
  proof (cases "tc + mc \<noteq> 0 \<or> d \<noteq> ADJ_NO_NEED")
    case True
    then have "f' \<in> usable_freqs pol t \<or> f' = pol_cur pol"
      using adjust_outcome_freq [OF g3(5) r(2)] load_outcome_freq(2) [OF g2(3)] by auto
    then show ?thesis using r(3,4) usable_freqs_limits by blast
  qed (use g3(2) in simp)
  moreover have "d \<noteq> ADJ_INVALID" using load_outcome_freq(1) [OF g2(3)] by auto
  moreover have "keeps g (upd_res (\<lambda>r. r\<lparr>vbfs_adj := a, next_freq := f'\<rparr>) g2)"
    by (rule keeps_trans [OF k]) simp
  moreover have "res (upd_res (\<lambda>r. r\<lparr>vbfs_adj := a, next_freq := f'\<rparr>) g2)
      = (res g)\<lparr>vbfs_adj := a, next_freq := f'\<rparr>" by (simp add: f)
  ultimately show ?thesis using g2(1) g3(1,3,4) unfolding tc_mc_def by blast
qed

lemma sample_step:
  assumes "target_answers tgt" "sample_ready (ve_ftt ve) cpu p (policies s p) t g"
    "mi_totalram (ve_mem ve) \<noteq> 0" "ve_nr_cpu_ids ve \<le> 9" "sm_ok m"
  shows "\<exists>g' m' s'. vbfs_check_resources ve (Some tgt) cpu (g, m, s) = Some (g', m', s')
    \<and> requests_within p s s' \<and> (l_vbfs_cpufreq_set_flag g \<noteq> 0 \<longrightarrow> s' = s)
    \<and> keeps g g' \<and> sm_ok m' \<and> indices_ok (ve_ftt ve) (policies s p) t (res g')"
proof -
  let ?pol = "policies s p" and ?ftt = "ve_ftt ve"
  define g0 where "g0 = upd_infos (\<lambda>_ i. i\<lparr>freq_lo := 0\<rparr>) [cpu] g"
  have k0: "keeps g g0" unfolding g0_def by (rule keeps_infos(2)) simp
  have r0: "sample_ready ?ftt cpu p ?pol t g0"
    by (rule keeps_sample_ready [OF k0 assms(2)]) (use assms(2) in \<open>simp add: g0_def sample_ready_def\<close>)
  have cp: "cur_policy (od_cpu_vbfs_info g0 cpu) = Some p" using r0 by (simp add: sample_ready_def)
  obtain rc g1 where g1: "vbfs_initialize_resources (ve_kenv ve) (ve_mem ve) (ve_run_thread_number ve) ?ftt ?pol g0
      = Some (rc, g1)"
    "keeps g0 g1" "max_load (res g1) \<le> 100" "load_prev (res g1) = max_load (res g1)"
    "indices_ok ?ftt ?pol t (res g1)" "0 \<le> rc \<longrightarrow> indices_fresh ?ftt ?pol t (res g1)"
    using initialize_spec [OF _ assms(3), of ?ftt ?pol t g0] r0 unfolding sample_ready_def by metis
  have k1: "keeps g g1" by (rule keeps_trans [OF k0 g1(2)])
  have r1: "sample_ready ?ftt cpu p ?pol t g1" by (rule keeps_sample_ready [OF g1(2) r0 g1(5)])
  have u: "unat (max_load (res g1)) \<le> 100" using g1(3) by (simp add: word_le_nat_alt)
  show ?thesis
  proof (cases "rc < 0")
    case True
    then have "vbfs_check_resources ve (Some tgt) cpu (g, m, s) = Some (g1, m, s)"
      unfolding vbfs_check_resources_def using cp g1(1) by (simp add: g0_def Let_def)
    then show ?thesis using k1 g1(5) assms(5) by auto
  next
    case False
    then have fresh: "indices_fresh ?ftt ?pol t (res g1)" using g1(6) by simp
    obtain d g2 dir g3 a f where g3: "checkCPULoadCond ?ftt ?pol (max_load (res g1)) (pol_cur ?pol) (load_diff (res g1)) g1 = Some (d, g2)"
      "d \<noteq> ADJ_INVALID"
      "adjustCond ?ftt ?pol (pol_cur ?pol) d (checkThreadCond g2 (thread_diff (res g2)))
        (checkMemCond g2 (mem_diff (res g2))) g2 = Some (dir, g3)"
      "keeps g1 g3" "res g3 = (res g1)\<lparr>vbfs_adj := a, next_freq := f\<rparr>" "0 \<le> a" "a \<le> 13"
      "a = ADJ_NO_NEED \<or> pol_min ?pol \<le> f \<and> f \<le> pol_max ?pol"
      using decide_spec [OF r1 fresh u] by blast
    have lp: "load_prev (res g3) \<le> 100" "0 \<le> vbfs_adj (res g3)" "vbfs_adj (res g3) \<le> 13"
      using g1(3,4) g3(5-7) by simp_all
    obtain g4 m' x y where g4: "vbfs_write_logs (ve_clock ve) (ve_nr_cpu_ids ve) (online s) ?pol (g3, m) = Some (g4, m')"
      "keeps g3 g4" "sm_ok m'" "res g4 = (res g3)\<lparr>t_init := x, t_prev := y\<rparr>"
      using write_logs_total [OF assms(4) lp assms(5)] by blast
    have k4: "keeps g g4" using keeps_trans [OF keeps_trans [OF k1 g3(4)] g4(2)] .
    have r4: "table_ready ?ftt ?pol t g4"
      using keeps_ready [OF k4] assms(2) by (simp add: sample_ready_def)
    have "vbfs_adj (res g4) = ADJ_NO_NEED \<or> pol_min ?pol \<le> next_freq (res g4) \<and> next_freq (res g4) \<le> pol_max ?pol"
      using g3(5,8) g4(4) by simp
    then obtain g5 s' where g5: "vbfs_request ve (Some tgt) p dir (g4, s) = Some (g5, s')" "keeps g4 g5" "res g5 = res g4"
      "requests_within p s s'" "l_vbfs_cpufreq_set_flag g4 \<noteq> 0 \<longrightarrow> s' = s"
      using request_spec [OF assms(1) r4] by metis
    have "vbfs_check_resources ve (Some tgt) cpu (g, m, s) = Some (g5, m', s')"
      unfolding vbfs_check_resources_def
      using cp g1(1) g3(1-3) g4(1) g5(1) False by (simp add: g0_def Let_def)
    moreover have "l_vbfs_cpufreq_set_flag g4 = l_vbfs_cpufreq_set_flag g" using k4 by (simp add: keeps_def)
    moreover have "indices_ok ?ftt ?pol t (res g5)"
      using fresh g5(3) g4(4) g3(5) by (simp add: indices_ok_def indices_fresh_def)
    ultimately show ?thesis using g5(4,5) keeps_trans [OF k4 g5(2)] g4(3) by auto
  qed
qed


definition demo_target :: "'d target_op" where
  "demo_target p f r s = Some (0, set_cur p f s)"

definition demo_sys :: "unit sys" where
  "demo_sys = \<lparr>policies = (\<lambda>_. demo_policy), pol_refs = (\<lambda>_. 1), cpu_data = (\<lambda>_. Some 0),
     nr_cpu_ids = 4, has_driver = True, online = (\<lambda>c. c < 4), l_p_j_ref = 0, l_p_j_ref_freq = 0,
     loops_per_jiffy = 1000, trans_log = [], target_log = [], drv = ()\<rparr>"

definition demo_mem :: mem_env where
  "demo_mem = \<lparr>mi_totalram = 200000, mi_freeram = 50000, mi_bufferram = 1000,
     nr_file_pages = 60000, total_swapcache_pages = 0\<rparr>"

definition demo_ve :: vbfs_env where
  "demo_ve = \<lparr>ve_kenv = demo_env, ve_mem = demo_mem, ve_run_thread_number = 5,
     ve_clock = 12345678901, ve_nr_cpu_ids = 4, ve_ftt = scan_ftt\<rparr>"

lemma demo_target_answers: "target_answers demo_target"
  by (simp add: target_answers_def demo_target_def)

lemma demo_vbfs_sample_ready: "sample_ready scan_ftt 0 0 demo_policy demo_table demo_vbfs"
  using demo_ready
  by (simp add: sample_ready_def indices_ok_def demo_vbfs_def vbfs_resources_ins_def demo_info_def)
    (simp add: demo_policy_def)

lemma sm_init_ok: "sm_ok status_monitor_init"
  by (simp add: sm_ok_def status_monitor_init_def)


section \<open>The manual override\<close>

text \<open>A run of the timer work, one reading of the kernel per tick.\<close>

fun vbfs_ticks ::
  "'d target_op option \<Rightarrow> cpuid \<Rightarrow> vbfs_env list \<Rightarrow> vbfs_state \<times> status_monitor \<times> 'd sys
   \<Rightarrow> (vbfs_state \<times> status_monitor \<times> 'd sys) option" where
  "vbfs_ticks tgt cpu [] x = Some x"
| "vbfs_ticks tgt cpu (ve # ves) x = Option.bind (do_vbfs_timer ve tgt cpu x) (vbfs_ticks tgt cpu ves)"

definition tick_ok :: "ftt_fun \<Rightarrow> u32 \<Rightarrow> vbfs_env \<Rightarrow> bool" where
  "tick_ok ftt period ve \<longleftrightarrow> ve_ftt ve = ftt \<and> mi_totalram (ve_mem ve) \<noteq> 0 \<and> ve_nr_cpu_ids ve \<le> 9
     \<and> (length (online_cpus (ve_kenv ve)) \<le> 1 \<or> usecs_to_jiffies (ve_kenv ve) period \<noteq> 0)"

lemma clamp_eq: "(if (if f < lo then lo else f) > hi then hi else if f < lo then lo else f)
    = min (max f lo) (hi :: 'a::linorder)"
  unfolding min_def max_def by (cases "f < lo"; cases "f > hi"; cases "lo > hi") auto

lemma align_delay_total:
  "length (online_cpus env) \<le> 1 \<or> w \<noteq> 0 \<Longrightarrow> \<exists>d. align_delay env (c_int w) = Some d"
  by (auto simp: align_delay_def)

lemma override_tick:
  assumes "target_answers tgt" "tick_ok ftt period ve" "sm_ok m"
    "sample_ready ftt cpu p (policies s p) t g" "vt_powersave_bias (tuners g) = 0"
    "period = vt_sampling_rate (tuners g) * rate_mult (od_cpu_vbfs_info g cpu)"
    "l_vbfs_cpufreq_set_flag g \<noteq> 0"
  shows "\<exists>g' m'. do_vbfs_timer ve (Some tgt) cpu (g, m, s) = Some (g', m', s) \<and> keeps g g'
    \<and> sm_ok m' \<and> sample_ready ftt cpu p (policies s p) t g'"
proof -
  define g0 where "g0 = upd_infos (\<lambda>_ i. i\<lparr>sample_type := NORMAL_SAMPLE\<rparr>) [cpu] g"
  have k0: "keeps g g0" unfolding g0_def by (rule keeps_infos(2)) simp
  have ve: "ve_ftt ve = ftt" "mi_totalram (ve_mem ve) \<noteq> 0" "ve_nr_cpu_ids ve \<le> 9"
    using assms(2) by (simp_all add: tick_ok_def)
  have "sample_ready ftt cpu p (policies s p) t g0"
    by (rule keeps_sample_ready [OF k0 assms(4)]) (use assms(4) in \<open>simp add: g0_def sample_ready_def\<close>)
  then obtain g1 m1 s1 where g1: "vbfs_check_resources ve (Some tgt) cpu (g0, m, s) = Some (g1, m1, s1)"
    "l_vbfs_cpufreq_set_flag g0 \<noteq> 0 \<longrightarrow> s1 = s" "keeps g0 g1" "sm_ok m1"
    "indices_ok ftt (policies s p) t (res g1)"
    using sample_step [OF assms(1) _ ve(2,3) assms(3), of cpu p s t g0] ve(1) by blast
  have k1: "keeps g g1" by (rule keeps_trans [OF k0 g1(3)])
  have s1: "s1 = s" using g1(2) assms(7) k0 by (simp add: keeps_def)
  obtain d where d: "align_delay (ve_kenv ve) (c_int (usecs_to_jiffies (ve_kenv ve)
      (vt_sampling_rate (tuners g1) * rate_mult (od_cpu_vbfs_info g1 cpu)))) = Some d"
  proof -
    have "tuners g1 = tuners g" "rate_mult (od_cpu_vbfs_info g1 cpu) = rate_mult (od_cpu_vbfs_info g cpu)"
      using k1 by (simp_all add: keeps_def)
    then have "\<exists>d. align_delay (ve_kenv ve) (c_int (usecs_to_jiffies (ve_kenv ve)
        (vt_sampling_rate (tuners g1) * rate_mult (od_cpu_vbfs_info g1 cpu)))) = Some d"
      using assms(2) by (intro align_delay_total) (simp add: assms(6) tick_ok_def)
    then show ?thesis using that by blast
  qed
  define g2 where "g2 = (if freq_lo (od_cpu_vbfs_info g1 cpu) \<noteq> 0
     then upd_infos (\<lambda>_ i. i\<lparr>sample_type := SUB_SAMPLE\<rparr>) [cpu] g1 else g1)"
  define dl where "dl = (if freq_lo (od_cpu_vbfs_info g1 cpu) \<noteq> 0
     then c_int (freq_hi_jiffies (od_cpu_vbfs_info g1 cpu)) else d)"
  define g' where "g' = upd_infos (\<lambda>_ i. i\<lparr>work := Some dl\<rparr>) [cpu] g2"
  have run: "do_vbfs_timer ve (Some tgt) cpu (g, m, s) = Some (g', m1, s)"
    using g1(1) s1 d assms(5) unfolding do_vbfs_timer_def g'_def g2_def dl_def g0_def
    by (simp add: Let_def)
  have "keeps g1 g2" unfolding g2_def using keeps_infos(2) by (auto simp: keeps_def upd_infos_def)
  moreover have "keeps g2 g'" unfolding g'_def by (rule keeps_infos(2)) simp
  ultimately have k: "keeps g g'" using k1 keeps_trans by blast
  have "indices_ok ftt (policies s p) t (res g')"
    using g1(5) by (simp add: g'_def g2_def)
  then have "sample_ready ftt cpu p (policies s p) t g'"
    by (rule keeps_sample_ready [OF k assms(4)])
  with run k g1(4) show ?thesis by blast
qed

lemma override_ticks:
  assumes "target_answers tgt" "\<forall>ve \<in> set ves. tick_ok ftt period ve" "sm_ok m"
    "sample_ready ftt cpu p (policies s p) t g" "vt_powersave_bias (tuners g) = 0"
    "period = vt_sampling_rate (tuners g) * rate_mult (od_cpu_vbfs_info g cpu)"
    "l_vbfs_cpufreq_set_flag g \<noteq> 0"
  shows "\<exists>g' m'. vbfs_ticks (Some tgt) cpu ves (g, m, s) = Some (g', m', s)"
  using assms(2-)
proof (induction ves arbitrary: g m)
  case (Cons ve ves)
  have tk: "tick_ok ftt period ve" using Cons.prems(1) by simp
  obtain g' m' where g': "do_vbfs_timer ve (Some tgt) cpu (g, m, s) = Some (g', m', s)" "keeps g g'"
    "sm_ok m'" "sample_ready ftt cpu p (policies s p) t g'"
    using override_tick [OF assms(1) tk Cons.prems(2-6)] by blast
  have "\<exists>g'' m''. vbfs_ticks (Some tgt) cpu ves (g', m', s) = Some (g'', m'', s)"
    using g'(2) Cons.prems by (intro Cons.IH [OF _ g'(3,4)]) (simp_all add: keeps_def)
  then show ?case by (simp add: g'(1))
qed simp



section \<open>The governor's contract\<close>

text \<open>On any driver that keeps its contract, \<open>vbfs\<close> keeps the contract of governors.\<close>

context cpufreq_driver_ops begin

lemma vbfs_limits_event:
  assumes "cpufreq_governor_vbfs env (Some target) p GOV_LIMITS (g, s) = Some (rc, g', s')"
  shows "sys_frame s' = sys_frame s"
    "pol_min (policies s p) \<le> pol_max (policies s p) \<Longrightarrow> requests_within p s s'" "g' = g" "rc = 0"
  using assms
  by (auto simp: cpufreq_governor_vbfs_def Let_def fault_simps split: if_splits
      dest: locked_frame intro: requests_within_one [OF locked_log])

lemma vbfs_other_events:
  assumes "cpufreq_governor_vbfs env (Some target) p e (g, s) = Some (rc, g', s')" "e \<noteq> GOV_LIMITS"
  shows "s' = s"
  using assms
  by (cases e) (auto simp: cpufreq_governor_vbfs_def Let_def fault_simps split: if_splits)

end

sublocale cpufreq_driver_ops \<subseteq> vbfs_gov: governor_ops "cpufreq_governor_vbfs env (Some target)" for env
proof
  show "cpufreq_governor_vbfs env (Some target) p e (g, s) = Some (rc, g', s') \<Longrightarrow>
      sys_frame s' = sys_frame s" for p e g s rc g' s'
    using vbfs_limits_event(1) vbfs_other_events by (cases e) blast+
  show "cpufreq_governor_vbfs env (Some target) p GOV_LIMITS (g, s) = Some (rc, g', s') \<Longrightarrow>
      pol_min (policies s p) \<le> pol_max (policies s p) \<Longrightarrow> requests_within p s s'" for p g s rc g' s'
    by (rule vbfs_limits_event(2))
  show "cpufreq_governor_vbfs env (Some target) p e (g, s) = Some (rc, g', s') \<Longrightarrow>
      e \<noteq> GOV_LIMITS \<Longrightarrow> target_log s' = target_log s" for p e g s rc g' s'
    using vbfs_other_events by blast
  show "cpufreq_governor_vbfs env (Some target) p GOV_STOP (g, s) = Some (rc, g', s') \<Longrightarrow> rc = 0"
    for p g s rc g' s'
    by (simp add: cpufreq_governor_vbfs_def Let_def)
qed

section \<open>Start and stop\<close>

text \<open>Events of the governor on one policy after the other.\<close>

fun vbfs_events ::
  "kenv \<Rightarrow> 'd target_op option \<Rightarrow> (nat \<times> gov_event) list \<Rightarrow> vbfs_state \<times> 'd sys \<Rightarrow> (vbfs_state \<times> 'd sys) option" where
  "vbfs_events env tgt [] gs = Some gs"
| "vbfs_events env tgt ((p, e) # es) gs =
     (case cpufreq_governor_vbfs env tgt p e gs of None \<Rightarrow> None | Some (_, gs') \<Rightarrow> vbfs_events env tgt es gs')"

text \<open>The number of starts that took effect less the number of stops.\<close>

definition event_count :: "'d sys \<Rightarrow> nat \<times> gov_event \<Rightarrow> int" where
  "event_count s pe = (case pe of (p, e) \<Rightarrow>
     case e of GOV_START \<Rightarrow> if online s (pol_cpu (policies s p)) \<and> pol_cur (policies s p) \<noteq> 0 then 1 else 0
             | GOV_STOP \<Rightarrow> - 1 | GOV_LIMITS \<Rightarrow> 0)"

lemma bias_init_cpu_enable [simp]: 
  "vbfs_attr_group (vbfs_powersave_bias_init_cpu env cpu g) = vbfs_attr_group g"
  by (simp add: vbfs_powersave_bias_init_cpu_def)

lemma start_count:
  assumes "cpufreq_governor_vbfs env tgt p GOV_START (g, s) = Some (rc, g', s')" "sysfs_create_rc env = 0"
  shows "if online s (pol_cpu (policies s p)) \<and> pol_cur (policies s p) \<noteq> 0
    then vbfs_enable g' = vbfs_enable g + 1 \<and> rc = 0
      \<and> (vbfs_enable g' = 1 \<longrightarrow> vbfs_attr_group g' \<and> min_sampling_rate g' \<le> vt_sampling_rate (tuners g'))
      \<and> (vbfs_enable g' \<noteq> 1 \<longrightarrow> vbfs_attr_group g' = vbfs_attr_group g)
    else g' = g \<and> rc = - EINVAL"
  using assms
  by (auto simp: cpufreq_governor_vbfs_def vbfs_timer_init_def vbfs_first_start_def upd_tuners_def
      Let_def fault_simps split: if_splits)


lemma stop_count:
  assumes "cpufreq_governor_vbfs env tgt p GOV_STOP (g, s) = Some (rc, g', s')"
  shows "vbfs_enable g' = vbfs_enable g - 1" "s' = s"
    "vbfs_attr_group g' = (if vbfs_enable g' = 0 then False else vbfs_attr_group g)"
  using assms
  by (auto simp: cpufreq_governor_vbfs_def vbfs_timer_exit_def Let_def split: if_splits)

lemma start_keeps_sys: "cpufreq_governor_vbfs env tgt p GOV_START (g, s) = Some (rc, g', s') \<Longrightarrow> s' = s"
  by (auto simp: cpufreq_governor_vbfs_def Let_def fault_simps split: if_splits)

text \<open>One event, on the pair of the counter and the registration of the group.\<close>

lemma event_counts:
  assumes "cpufreq_governor_vbfs env tgt p e (g, s) = Some (rc, g', s')" "sysfs_create_rc env = 0"
    "e \<noteq> GOV_LIMITS" "uint (vbfs_enable g) = n" "vbfs_attr_group g \<longleftrightarrow> vbfs_enable g \<noteq> 0"
    "0 \<le> n + event_count s (p, e)" "n + 1 < 2 ^ 32"
  shows "uint (vbfs_enable g') = n + event_count s (p, e)" "vbfs_attr_group g' \<longleftrightarrow> vbfs_enable g' \<noteq> 0" "s' = s"
proof -
  show "s' = s" using assms(1,3) start_keeps_sys stop_count(2) by (cases e) blast+
  have "0 \<le> n" using assms(4) uint_ge_0 [of "vbfs_enable g"] by simp
  then have inc: "uint (vbfs_enable g + 1) = n + 1"
    using assms(7) by (simp add: uint_word_ariths assms(4))
  have "uint (vbfs_enable g') = n + event_count s (p, e) \<and> (vbfs_attr_group g' \<longleftrightarrow> vbfs_enable g' \<noteq> 0)"
  proof (cases e)
    case GOV_START
    show ?thesis
    proof (cases "online s (pol_cpu (policies s p)) \<and> pol_cur (policies s p) \<noteq> 0")
      case True
      then have g': "vbfs_enable g' = vbfs_enable g + 1"
        "vbfs_enable g' = 1 \<longrightarrow> vbfs_attr_group g'" "vbfs_enable g' \<noteq> 1 \<longrightarrow> vbfs_attr_group g' = vbfs_attr_group g"
        using start_count [OF _ assms(2), of tgt p g s rc g' s'] assms(1) GOV_START by simp_all
      have "vbfs_enable g' \<noteq> 0"
        using inc g'(1) assms(4) uint_ge_0 [of "vbfs_enable g"] by auto
      moreover have "vbfs_attr_group g'"
        using g' assms(5) by (cases "vbfs_enable g' = 1") auto
      ultimately show ?thesis
        using inc g'(1) True GOV_START by (simp add: event_count_def)
    next
      case False
      then show ?thesis
        using start_count [OF _ assms(2), of tgt p g s rc g' s'] assms(1,4,5) GOV_START
        by (auto simp: event_count_def)
    qed
  next
    case GOV_STOP
    then have n: "1 \<le> n" using assms(6) by (simp add: event_count_def)
    have "uint (vbfs_enable g - 1) = n - 1"
      using n assms(4,7) by (simp add: uint_word_ariths assms(4))
    then show ?thesis
      using stop_count [of env tgt p g s rc g' s'] assms(1,4,5) n GOV_STOP
      by (auto simp: event_count_def)
  next
    case GOV_LIMITS
    with assms(3) show ?thesis by simp
  qed
  then show "uint (vbfs_enable g') = n + event_count s (p, e)" "vbfs_attr_group g' \<longleftrightarrow> vbfs_enable g' \<noteq> 0"
    by simp_all
qed


text \<open>The sampling rate in force after a start.\<close>

definition vbfs_start_rate :: "cpufreq_policy \<Rightarrow> vbfs_state \<Rightarrow> u32" where
  "vbfs_start_rate pol g =
     (let latency = (if transition_latency pol div 1000 = 0 then 1 else transition_latency pol div 1000)
      in if vbfs_enable g + 1 = 1
         then max (max (min_sampling_rate g) (100 * latency)) (latency * 1000)
         else vt_sampling_rate (tuners g))"

lemma start_total:
  assumes "online s (pol_cpu (policies s p))" "pol_cur (policies s p) \<noteq> 0" "sysfs_create_rc env = 0"
    "length (online_cpus env) \<le> 1 \<or> usecs_to_jiffies env (vbfs_start_rate (policies s p) g) \<noteq> 0"
  shows "\<exists>g'. cpufreq_governor_vbfs env tgt p GOV_START (g, s) = Some (0, g', s)
    \<and> vbfs_enable g' = vbfs_enable g + 1
    \<and> vt_sampling_rate (tuners g') = vbfs_start_rate (policies s p) g"
proof -
  obtain d where "align_delay env (c_int (usecs_to_jiffies env (vbfs_start_rate (policies s p) g))) = Some d"
    using align_delay_total [OF assms(4)] by blast
  then show ?thesis
    using assms(1-3)
    by (cases "vbfs_enable g = 0"; cases "transition_latency (policies s p) div 1000 = 0";
        simp add: cpufreq_governor_vbfs_def vbfs_timer_init_def vbfs_first_start_def Let_def
          vbfs_start_rate_def upd_tuners_def)
qed


text \<open>
  A start whose sysfs group cannot be created reports the error but stays counted: the
  next start, though sysfs works again, believes it is not the first, registers no group and keeps
  the sampling rate zero, so that with two CPUs online its timer set-up divides by zero.
\<close>

theorem vbfs_failed_start_sticks:
  assumes "online s (pol_cpu (policies s p))" "pol_cur (policies s p) \<noteq> 0" "vbfs_enable g = 0"
    and "vt_sampling_rate (tuners g) = 0" "sysfs_create_rc env1 \<noteq> 0" "sysfs_create_rc env2 = 0"
    and "length (online_cpus env2) > 1" "usecs_to_jiffies env2 0 = 0"
  shows "\<exists>g'. cpufreq_governor_vbfs env1 tgt p GOV_START (g, s) = Some (sysfs_create_rc env1, g', s)
    \<and> vbfs_enable g' = 1 \<and> vbfs_attr_group g' = vbfs_attr_group g
    \<and> cpufreq_governor_vbfs env2 tgt p GOV_START (g', s) = None"
  using assms
  by (simp add: cpufreq_governor_vbfs_def vbfs_timer_init_def align_delay_def Let_def c_int_def c_uint_def)

theorem vbfs_failed_start_sticks_witness:
  "\<exists>g'. cpufreq_governor_vbfs (demo_env\<lparr>sysfs_create_rc := - 12\<rparr>) (Some demo_target) 0 GOV_START
      (demo_vbfs\<lparr>vbfs_enable := 0\<rparr>, demo_sys) = Some (- 12, g', demo_sys)
    \<and> vbfs_enable g' = 1
    \<and> cpufreq_governor_vbfs demo_env (Some demo_target) 0 GOV_START (g', demo_sys) = None"
  using vbfs_failed_start_sticks [of demo_sys 0 "demo_vbfs\<lparr>vbfs_enable := 0\<rparr>"
      "demo_env\<lparr>sysfs_create_rc := - 12\<rparr>" demo_env "Some demo_target"]
  by (simp add: demo_sys_def demo_policy_def demo_vbfs_def vbfs_tuners_ins_def demo_env_def)
    (auto simp: demo_policy_def)

end
