(* ===== verification/Ondemand_Safety.thy ===== *)
theory Ondemand_Safety
  imports Ondemand Vbfs_Safety
begin

text \<open>
  What the \<open>ondemand\<close> governor guarantees: its tunables stay in range, a sample reports the largest
  weighted load, a step up goes to the policy's maximum, a step down never has to be undone by the
  next sample of the same load, and its events keep the contract of governors.
\<close>

section \<open>Tunables\<close>

definition dbs_tuners_ok :: "dbs_tuners \<Rightarrow> bool" where
  "dbs_tuners_ok t \<longleftrightarrow> 11 \<le> dt_up_threshold t \<and> dt_up_threshold t \<le> 100
     \<and> 3 \<le> dt_down_differential t \<and> dt_down_differential t \<le> 100
     \<and> dt_ignore_nice t \<le> 1 \<and> dt_io_is_busy t \<le> 1 \<and> dt_powersave_bias t \<le> 1000
     \<and> 1 \<le> dt_sampling_down_factor t \<and> dt_sampling_down_factor t \<le> 100000"

lemma dbs_bias_init_keeps [simp]: "dbs_tuners_ins (ondemand_powersave_bias_init env g) = dbs_tuners_ins g"
proof -
  have "dbs_tuners_ins (fold (ondemand_powersave_bias_init_cpu env) js g) = dbs_tuners_ins g" for js
    by (induction js arbitrary: g) (auto simp: ondemand_powersave_bias_init_cpu_def)
  then show ?thesis by (simp add: ondemand_powersave_bias_init_def)
qed

lemmas dbs_store_defs =
  dbs_store_sampling_rate_def dbs_store_io_is_busy_def dbs_store_up_threshold_def
  dbs_store_down_differential_def dbs_store_debug_def dbs_store_sampling_down_factor_def
  dbs_store_ignore_nice_load_def dbs_store_powersave_bias_def

lemma dbs_store_ok:
  "dbs_tuners_ok (dbs_tuners_ins g) \<Longrightarrow> dbs_tuners_ok (dbs_tuners_ins (snd (dbs_store junk a env buf g)))"
  by (cases a) (auto simp: dbs_store_defs dbs_tuners_ok_def Let_def not_less
      split: option.splits if_splits intro: order_trans)

lemma dbs_store_reject:
  "fst (dbs_store junk a env buf g) < 0 \<Longrightarrow> snd (dbs_store junk a env buf g) = g"
proof -
  have "fst (dbs_store junk a env buf g) < 0 \<longrightarrow> snd (dbs_store junk a env buf g) = g"
    by (cases a; simp only: dbs_store.simps dbs_store_defs Let_def)
      ((rule reject_case)?, rule reject_if reject_not)+
  then show "fst (dbs_store junk a env buf g) < 0 \<Longrightarrow> snd (dbs_store junk a env buf g) = g"
    by blast
qed

interpretation dbs_sysfs: tunable_group
  "\<lambda>(a, env, junk) buf g. dbs_store junk a env buf g" "\<lambda>g. dbs_tuners_ok (dbs_tuners_ins g)"
  by unfold_locales (auto simp: dbs_store_ok dbs_store_reject)

lemma dbs_show_store_keeps:
  assumes "dbs_tuners_ok (dbs_tuners_ins g)" "dbs_min_sampling_rate g \<le> dt_sampling_rate (dbs_tuners_ins g)"
  shows "dbs_tuners_ins (snd (dbs_store junk a env (dbs_show a g) g)) = dbs_tuners_ins g"
  using assms
  by (cases a) (auto simp: dbs_show_def dbs_store_defs sscanf_u_sprintf_u dbs_tuners_ok_def Let_def
      max_absorb1 le_one_word dbs_upd_tuners_def)

section \<open>The load of a sample\<close>

definition dbs_sample :: "kenv \<Rightarrow> cpufreq_policy \<Rightarrow> dbs_state \<Rightarrow> cpuid \<Rightarrow> load_sample option" where
  "dbs_sample env pol g j = snd (sample_cpu env (dt_ignore_nice (dbs_tuners_ins g) \<noteq> 0)
     (dt_io_is_busy (dbs_tuners_ins g) \<noteq> 0) (pol_cur pol) j (od_cpu_dbs_info g j))"

definition weighted :: "load_sample option \<Rightarrow> u32" where
  "weighted s = (case s of None \<Rightarrow> 0 | Some l \<Rightarrow> ls_load_freq l)"

lemma dbs_load_step_sample:
  "dbs_load_step env pol j (l, g) =
     (case dbs_sample env pol g j of
        None \<Rightarrow> l
      | Some s \<Rightarrow> if ls_load_freq s > dl_max_load_freq l
          then l\<lparr>dl_freq_avg := ls_freq_avg s, dl_max_load_freq := ls_load_freq s,
                 dl_max_freq_avg := ls_freq_avg s, dl_max_load := ls_load s\<rparr>
          else l\<lparr>dl_freq_avg := ls_freq_avg s\<rparr>, snd (dbs_load_step env pol j (l, g)))"
  by (auto simp: dbs_load_step_def dbs_sample_def Let_def split: prod.split option.split)

lemma dbs_load_step_keeps:
  assumes "dbs_load_step env pol j (l, g) = (l', g')"
  shows "dbs_tuners_ins g' = dbs_tuners_ins g" "k \<noteq> j \<Longrightarrow> od_cpu_dbs_info g' k = od_cpu_dbs_info g k"
    "freq_table (od_cpu_dbs_info g' c) = freq_table (od_cpu_dbs_info g c)"
    "cur_policy (od_cpu_dbs_info g' c) = cur_policy (od_cpu_dbs_info g c)"
    "dbs_t_init g' = dbs_t_init g" "dbs_t_prev g' = dbs_t_prev g"
proof -
  define io where "io = (dt_io_is_busy (dbs_tuners_ins g) \<noteq> 0)"
  define ni where "ni = (dt_ignore_nice (dbs_tuners_ins g) \<noteq> 0)"
  obtain i s where i: "sample_cpu env ni io (pol_cur pol) j (od_cpu_dbs_info g j) = (i, s)"
    by (cases "sample_cpu env ni io (pol_cur pol) j (od_cpu_dbs_info g j)")
  have g': "g' = dbs_upd_infos (\<lambda>_ _. i) [j] g"
    using assms i by (auto simp: dbs_load_step_def io_def ni_def Let_def split: option.splits)
  show "dbs_tuners_ins g' = dbs_tuners_ins g" "k \<noteq> j \<Longrightarrow> od_cpu_dbs_info g' k = od_cpu_dbs_info g k"
    "dbs_t_init g' = dbs_t_init g" "dbs_t_prev g' = dbs_t_prev g"
    by (simp_all add: g' dbs_upd_infos_def)
  show "freq_table (od_cpu_dbs_info g' c) = freq_table (od_cpu_dbs_info g c)"
    "cur_policy (od_cpu_dbs_info g' c) = cur_policy (od_cpu_dbs_info g c)"
    using sample_cpu_keeps [OF i] by (simp_all add: g' dbs_upd_infos_def)
qed

lemma dbs_sample_step:
  "k \<noteq> j \<Longrightarrow> dbs_sample env pol (snd (dbs_load_step env pol j (l, g))) k = dbs_sample env pol g k"
  using dbs_load_step_keeps(1,2) [of env pol j l g]
  by (cases "dbs_load_step env pol j (l, g)") (simp add: dbs_sample_def)

lemma dbs_fold_max:
  assumes "distinct js"
  shows "dl_max_load_freq (fst (fold (dbs_load_step env pol) js (l, g)))
    = foldl max (dl_max_load_freq l) (map (\<lambda>j. weighted (dbs_sample env pol g j)) js)"
  using assms
proof (induction js arbitrary: l g)
  case (Cons j js)
  obtain l1 g1 where s: "dbs_load_step env pol j (l, g) = (l1, g1)"
    by (cases "dbs_load_step env pol j (l, g)")
  have l1: "dl_max_load_freq l1 = max (dl_max_load_freq l) (weighted (dbs_sample env pol g j))"
    using s dbs_load_step_sample [of env pol j l g]
    by (auto simp: weighted_def max_def split: option.splits if_splits)
  have "map (\<lambda>j. weighted (dbs_sample env pol g1 j)) js = map (\<lambda>j. weighted (dbs_sample env pol g j)) js"
  proof (rule map_cong [OF refl])
    fix x assume "x \<in> set js"
    then have "x \<noteq> j" using Cons.prems by auto
    then show "weighted (dbs_sample env pol g1 x) = weighted (dbs_sample env pol g x)"
      using dbs_sample_step [of x j env pol l g] s by simp
  qed
  then show ?case
    using Cons.IH [of l1 g1] Cons.prems s by (simp add: l1 del: map_eq_conv)
qed simp

text \<open>
  Claim C16. The load that drives \<open>ondemand\<close> is the largest weighted load among the policy's CPUs: no
  CPU has a larger one, and it is zero or some CPU's (unlike what \<open>get_max_load_freq\<close> of \<open>vbfs\<close>
  reports).
\<close>

theorem dbs_load_is_maximum:
  assumes "distinct (pol_cpus pol)"
  shows "(\<forall>j \<in> set (pol_cpus pol).
      weighted (dbs_sample env pol g j) \<le> dl_max_load_freq (fst (dbs_get_load env pol g)))
    \<and> (dl_max_load_freq (fst (dbs_get_load env pol g)) = 0
       \<or> (\<exists>j \<in> set (pol_cpus pol).
            dl_max_load_freq (fst (dbs_get_load env pol g)) = weighted (dbs_sample env pol g j)))"
proof -
  have eq: "dl_max_load_freq (fst (dbs_get_load env pol g))
      = foldl max 0 (map (\<lambda>j. weighted (dbs_sample env pol g j)) (pol_cpus pol))"
    using dbs_fold_max [OF assms] by (simp add: dbs_get_load_def)
  have mx: "(\<forall>x \<in> set xs. x \<le> foldl max a xs) \<and> (foldl max a xs = a \<or> foldl max a xs \<in> set xs)"
    for xs and a :: u32
  proof (induction xs arbitrary: a)
    case (Cons x xs)
    have "x \<le> foldl max (max a x) xs" by (rule order_trans [OF max.cobounded2 foldl_max_ge])
    moreover have "max a x = a \<or> max a x = x" by (auto simp: max_def)
    ultimately show ?case using Cons [of "max a x"] by auto
  qed simp
  show ?thesis
    using mx [of "map (\<lambda>j. weighted (dbs_sample env pol g j)) (pol_cpus pol)" 0] unfolding eq by auto
qed


definition demo_dbs :: dbs_state where
  "demo_dbs = \<lparr>dbs_tuners_ins = dbs_tuners_init, od_cpu_dbs_info = (\<lambda>_. demo_info), dbs_enable = 1,
     dbs_min_sampling_rate = 10000, dbs_t_init = 0, dbs_t_prev = 0, dbs_attr_group = True\<rparr>"

theorem dbs_load_is_maximum_witness:
  "dl_max_load_freq (fst (dbs_get_load demo_env2 demo_policy2 demo_dbs)) = 90000000"
proof -
  have d: "distinct (pol_cpus demo_policy2)" and c: "set (pol_cpus demo_policy2) = {0, Suc 0}"
    by (simp_all add: demo_policy2_def)
  have w: "weighted (dbs_sample demo_env2 demo_policy2 demo_dbs 0) = 90000000"
    "weighted (dbs_sample demo_env2 demo_policy2 demo_dbs (Suc 0)) = 10000000"
    by (simp_all add: weighted_def dbs_sample_def demo_dbs_def dbs_tuners_init_def demo_load_defs
        c_int_def c_uint_def)
  show ?thesis
    using dbs_load_is_maximum [OF d, of demo_env2 demo_dbs] unfolding c by (auto simp: w)
qed

section \<open>Loads are percentages\<close>

lemma load_le_100:
  assumes "idle \<le> wall"
  shows "unat (100 * (wall - idle) div (wall :: u32)) \<le> 100"
proof (cases "100 * unat wall < 2 ^ 32")
  case True
  show ?thesis
  proof (cases "wall = 0")
    case False
    then show ?thesis using load_percent(2) [OF False assms True] by simp
  qed simp
next
  case False
  have "unat (100 * (wall - idle)) < 2 ^ 32"
    using unsigned_less [of "100 * (wall - idle)", where 'a = nat] by simp
  then have "unat (100 * (wall - idle)) \<le> 100 * unat wall" using False by linarith
  then have "unat (100 * (wall - idle)) div unat wall \<le> 100 * unat wall div unat wall"
    by (rule div_le_mono)
  also have "\<dots> \<le> 100" by simp
  finally show ?thesis by (simp add: unat_div)
qed

lemma sample_load_le_100: "sample_load env cur j wall idle = Some l \<Longrightarrow> unat (ls_load l) \<le> 100"
  using load_le_100 [of idle wall] by (auto simp: sample_load_def Let_def not_less split: if_splits)

definition getavg_ok :: "kenv \<Rightarrow> bool" where
  "getavg_ok env \<longleftrightarrow> (\<forall>j. - (2 ^ 31) \<le> driver_getavg env j \<and> driver_getavg env j < 2 ^ 31)"

definition dbs_load_ok :: "dbs_load \<Rightarrow> bool" where
  "dbs_load_ok l \<longleftrightarrow> dl_max_load l \<le> 100 \<and> - (2 ^ 31) \<le> dl_max_freq_avg l \<and> dl_max_freq_avg l < 2 ^ 31"

lemma sample_cpu_range:
  assumes "getavg_ok env" "snd (sample_cpu env ni io cur j i) = Some s"
  shows "ls_load s \<le> 100" "- (2 ^ 31) \<le> ls_freq_avg s \<and> ls_freq_avg s < 2 ^ 31"
proof -
  obtain w d where s: "sample_load env cur j w d = Some s"
    using assms(2) by (auto simp: sample_cpu_def Let_def split: prod.splits)
  then show "ls_load s \<le> 100" using sample_load_le_100 [OF s] by (simp add: word_le_nat_alt)
  show "- (2 ^ 31) \<le> ls_freq_avg s \<and> ls_freq_avg s < 2 ^ 31"
    using s assms(1) sint_ge [of cur] sint_lt [of cur]
    by (auto simp: sample_load_def getavg_ok_def c_int_def Let_def split: if_splits)
qed

lemma dbs_get_load_keeps:
  assumes "dbs_get_load env pol g = (l, g')"
  shows "dbs_tuners_ins g' = dbs_tuners_ins g"
    "freq_table (od_cpu_dbs_info g' c) = freq_table (od_cpu_dbs_info g c)"
    "cur_policy (od_cpu_dbs_info g' c) = cur_policy (od_cpu_dbs_info g c)"
    "getavg_ok env \<Longrightarrow> dbs_load_ok l"
proof -
  have "dbs_tuners_ins g' = dbs_tuners_ins g \<and> freq_table (od_cpu_dbs_info g' c) = freq_table (od_cpu_dbs_info g c)
    \<and> cur_policy (od_cpu_dbs_info g' c) = cur_policy (od_cpu_dbs_info g c)
    \<and> (getavg_ok env \<longrightarrow> dbs_load_ok l0 \<longrightarrow> dbs_load_ok l)"
    if "fold (dbs_load_step env pol) js (l0, g) = (l, g')" for js l0 g
    using that
  proof (induction js arbitrary: l0 g)
    case (Cons j js)
    obtain l1 g1 where s: "dbs_load_step env pol j (l0, g) = (l1, g1)"
      by (cases "dbs_load_step env pol j (l0, g)")
    have "getavg_ok env \<longrightarrow> dbs_load_ok l0 \<longrightarrow> dbs_load_ok l1"
      using s dbs_load_step_sample [of env pol j l0 g] sample_cpu_range
      by (auto simp: dbs_load_ok_def dbs_sample_def split: option.splits if_splits)
    then show ?case
      using Cons.IH [of l1 g1] Cons.prems s dbs_load_step_keeps [OF s] by auto
  qed simp
  from this [OF assms [unfolded dbs_get_load_def]]
  show "dbs_tuners_ins g' = dbs_tuners_ins g"
    "freq_table (od_cpu_dbs_info g' c) = freq_table (od_cpu_dbs_info g c)"
    "cur_policy (od_cpu_dbs_info g' c) = cur_policy (od_cpu_dbs_info g c)"
    "getavg_ok env \<Longrightarrow> dbs_load_ok l"
    by (simp_all add: dbs_load_ok_def)
qed
section \<open>The decision of a sample\<close>

lemma dbs_log_line_fits:
  assumes "length mk \<le> 9" "dbs_load_ok l" "- (2 ^ 31) \<le> n" "n < 2 ^ 31" "- (2 ^ 31) \<le> v" "v < 2 ^ 31"
  shows "length (dbs_log_line t mk pol l n v) < 100"
proof -
  have "unat (ucast (t mod 1000000000) div 1000 :: u32) < 10 ^ 6"
  proof -
    have "unat (ucast (t mod 1000000000) :: u32) \<le> unat (t mod 1000000000)"
      by (simp add: unsigned_ucast_eq take_bit_nat_less_eq_self)
    also have "\<dots> < 1000000000" by (simp add: unat_mod)
    finally show ?thesis by (simp add: unat_div)
  qed
  then have us: "length (sprintf_u (ucast (t mod 1000000000) div 1000)) \<le> 6"
    unfolding sprintf_u_def by (rule length_dec_str) simp
  have "unat (dl_max_load l) < 10 ^ 3" using assms(2) by (simp add: dbs_load_ok_def word_le_nat_alt)
  then have ld: "length (sprintf_u (dl_max_load l)) \<le> 3"
    unfolding sprintf_u_def by (rule length_dec_str) simp
  have avg: "length (sprintf_d (dl_max_freq_avg l)) \<le> 11"
    using assms(2) by (intro length_sprintf_d) (simp_all add: dbs_load_ok_def)
  show ?thesis
    using us ld avg assms(1) length_sprintf_u [of "ucast (t div 1000000000)"]
      length_sprintf_u [of "pol_cur pol"] length_sprintf_d [OF assms(3,4)] length_sprintf_d [OF assms(5,6)]
    unfolding dbs_log_line_def by simp
qed

lemma mem_portion_range: "get_mem_portion mem = Some v \<Longrightarrow> - (2 ^ 31) \<le> v \<and> v < 2 ^ 31"
proof -
  assume "get_mem_portion mem = Some v"
  then obtain w where "v = c_int w" by (auto simp: get_mem_portion_def Let_def udiv_chk_def split: if_splits)
  then show ?thesis using sint_ge [of w] sint_lt [of w] by (simp add: c_int_def)
qed

text \<open>What a sample of \<open>ondemand\<close> may rely on from its surroundings.\<close>

definition dbs_env_ok :: "vbfs_env \<Rightarrow> status_monitor \<Rightarrow> bool" where
  "dbs_env_ok ve m \<longleftrightarrow> getavg_ok (ve_kenv ve) \<and> mi_totalram (ve_mem ve) \<noteq> 0 \<and> ve_nr_cpu_ids ve \<le> 9
     \<and> - (2 ^ 31) \<le> ve_run_thread_number ve \<and> ve_run_thread_number ve < 2 ^ 31 \<and> sm_ok m"

lemma dbs_write_logs_total:
  assumes "dbs_env_ok ve m" "dbs_load_ok l"
  shows "\<exists>g' m'. dbs_write_logs ve on pol l (g, m) = Some (g', m') \<and> sm_ok m'
    \<and> dbs_tuners_ins g' = dbs_tuners_ins g \<and> od_cpu_dbs_info g' = od_cpu_dbs_info g"
proof (cases "get_status_monitor_flag m = 1")
  case False
  then show ?thesis using assms(1) by (auto simp: dbs_write_logs_def dbs_env_ok_def)
next
  case True
  define b where "b = get_cpu_onlines (ve_nr_cpu_ids ve) on pol 10"
  obtain v where v: "get_mem_portion (ve_mem ve) = Some v"
    using assms(1) mem_portion_total by (auto simp: dbs_env_ok_def)
  define line where "line = dbs_log_line (ve_clock ve) b pol l (ve_run_thread_number ve) v"
  have nr: "ve_nr_cpu_ids ve \<le> 9" and thr: "- (2 ^ 31) \<le> ve_run_thread_number ve" "ve_run_thread_number ve < 2 ^ 31"
    and sm: "sm_ok m"
    using assms(1) by (simp_all add: dbs_env_ok_def)
  have bl: "length b \<le> 9" using nr by (simp add: b_def length_get_cpu_onlines)
  have fit: "length line < 100"
    unfolding line_def using mem_portion_range [OF v]
    by (intro dbs_log_line_fits [OF bl assms(2) thr]) simp_all
  have "NUL \<notin> set line"
    using get_cpu_onlines_no_NUL [of "ve_nr_cpu_ids ve" on pol 10]
    by (simp add: line_def dbs_log_line_def b_def)
  then have "line_ok line" using fit by (simp add: line_ok_def)
  then obtain m' where m': "status_monitor_write_file line (length line) m = Some m'" "sm_ok m'"
    using log_line_step [OF sm, of line] by (auto simp: log_line_def)
  show ?thesis
    using True fit m' online_mask_string [OF nr, of on pol] v
    unfolding dbs_write_logs_def line_def b_def by (simp add: Let_def)
qed

text \<open>A decrease leaves room: the same load at any frequency from the chosen one up is not over the
  up threshold, so the next sample does not undo it.\<close>

lemma no_bounce:
  assumes "3 \<le> dd" "dd \<le> up" "up \<le> 100" "L < (up - dd) * cur" "unat cur * 100 < 2 ^ 32"
  shows "up - dd \<noteq> 0" "L div (up - dd) \<le> cur"
    "L div (up - dd) \<le> f \<Longrightarrow> 34 \<le> f \<Longrightarrow> 100 * unat f < 2 ^ 32 \<Longrightarrow> \<not> L > up * (f :: u32)"
proof -
  define d where "d = unat up - unat dd"
  have ud: "unat (up - dd) = d" using assms(2) by (simp add: d_def unat_sub_le)
  have u3: "3 \<le> unat dd" "unat dd \<le> unat up" "unat up \<le> 100"
    using assms(1-3) by (simp_all add: word_le_nat_alt)
  then have d: "d \<le> 97" "unat up = d + unat dd" by (simp_all add: d_def)
  have dc: "d * unat cur \<le> 100 * unat cur" using d(1) by (intro mult_le_mono1) simp
  then have "d * unat cur < 2 ^ 32" using assms(5) by linarith
  then have "unat ((up - dd) * cur) = d * unat cur"
    by (subst unat_mult_small) (simp_all only: ud)
  then have L: "unat L < d * unat cur" using assms(4) by (simp add: word_less_nat_alt)
  then have d0: "0 < d" by (cases d) auto
  show nz: "up - dd \<noteq> 0" using d0 ud by auto
  have "unat L div d \<le> unat cur"
    using L d0 by (metis div_le_mono less_imp_le_nat nonzero_mult_div_cancel_left not_gr_zero)
  then show "L div (up - dd) \<le> cur" by (simp add: word_le_nat_alt unat_div ud)
  assume f: "L div (up - dd) \<le> f" "34 \<le> f" "100 * unat f < 2 ^ 32"
  have q: "unat L div d \<le> unat f" using f(1) by (simp add: word_le_nat_alt unat_div ud)
  have "unat L < (unat L div d + 1) * d" using d0 by (simp add: dividend_less_div_times)
  also have "\<dots> \<le> (unat f + 1) * d" using q by (intro mult_le_mono1) simp
  finally have "unat L < unat f * d + d" by simp
  moreover have "3 * 34 \<le> unat dd * unat f"
    using u3(1) f(2) by (intro mult_le_mono) (simp_all add: word_le_nat_alt)
  ultimately have "unat L \<le> (d + unat dd) * unat f"
    using d(1) by (simp add: algebra_simps)
  moreover have "unat (up * f) = unat up * unat f"
  proof -
    have "unat up * unat f \<le> 100 * unat f" using u3(3) by (rule mult_le_mono1)
    then show ?thesis using f(3) by (intro unat_mult_small) linarith
  qed
  ultimately show "\<not> L > up * f" by (simp add: word_less_nat_alt d(2) [symmetric])
qed


text \<open>
  Claim C10. A sample of \<open>ondemand\<close> (no powersave bias) never faults and makes at most one request.
  When the largest load is over the up threshold it asks for the policy's maximum; when it is under
  the down threshold it asks for a frequency between the minimum and the current one, low enough to
  save power yet high enough that the same load does not exceed the up threshold at that frequency
  or any above it, so the step is not undone by the next sample; otherwise it asks for nothing.
\<close>

theorem dbs_sample_decision:
  assumes "target_answers tgt" "dbs_env_ok ve m" "cur_policy (od_cpu_dbs_info g cpu) = Some p"
    and "T = dbs_tuners_ins g" "dt_powersave_bias T = 0" "dt_debug T \<noteq> 1"
    and "3 \<le> dt_down_differential T" "dt_down_differential T \<le> dt_up_threshold T" "dt_up_threshold T \<le> 100"
    and "pol = policies s p" "34 \<le> pol_min pol" "pol_min pol \<le> pol_cur pol" "unat (pol_cur pol) * 100 < 2 ^ 32"
    and "L = dl_max_load_freq (fst (dbs_get_load (ve_kenv ve) pol (dbs_upd_infos (\<lambda>_ i. i\<lparr>freq_lo := 0\<rparr>) [cpu] g)))"
  shows "\<exists>g' m' s' reqs. dbs_check_cpu ve (Some tgt) cpu (g, m, s) = Some (g', m', s') \<and> sm_ok m'
    \<and> target_log s' = target_log s @ reqs
    \<and> (if L > dt_up_threshold T * pol_cur pol then reqs = [(p, pol_max pol, RELATION_H)]
       else if L < (dt_up_threshold T - dt_down_differential T) * pol_cur pol then
         \<exists>f. reqs = [(p, f, RELATION_L)] \<and> pol_min pol \<le> f \<and> f \<le> pol_cur pol
           \<and> (\<forall>h. f \<le> h \<and> 100 * unat h < 2 ^ 32 \<longrightarrow> \<not> L > dt_up_threshold T * h)
       else reqs = [])"
proof -
  define g0 where "g0 = dbs_upd_infos (\<lambda>_ i. i\<lparr>freq_lo := 0\<rparr>) [cpu] g"
  have cp: "cur_policy (od_cpu_dbs_info g0 cpu) = Some p"
    using assms(3) by (simp add: g0_def dbs_upd_infos_def)
  obtain l g1 where g1: "dbs_get_load (ve_kenv ve) pol g0 = (l, g1)"
    by (cases "dbs_get_load (ve_kenv ve) pol g0")
  have T1: "dbs_tuners_ins g1 = T" using dbs_get_load_keeps(1) [OF g1] assms(4) by (simp add: g0_def)
  have lok: "dbs_load_ok l" using dbs_get_load_keeps(4) [OF g1] assms(2) by (simp add: dbs_env_ok_def)
  have L: "L = dl_max_load_freq l" using assms(14) g1 by (simp add: g0_def)
  obtain g2 m2 where g2: "dbs_write_logs ve (online s) pol l (g1, m) = Some (g2, m2)" "sm_ok m2"
    "dbs_tuners_ins g2 = T"
    using dbs_write_logs_total [OF assms(2) lok, of "online s" pol g1] T1 by metis
  have dbg: "dbs_debug_print False l = Some 0" by (simp add: dbs_debug_print_def)
  note run = dbs_check_cpu_def g0_def [symmetric] cp assms(10) [symmetric] g1 g2(1,3) L [symmetric]
  show ?thesis
  proof (cases "L > dt_up_threshold T * pol_cur pol")
    case True
    obtain rc s' where s': "cpufreq_driver_target_locked (Some tgt) p (pol_max pol) RELATION_H s = Some (rc, s')"
      "target_log s' = target_log s @ [(p, pol_max pol, RELATION_H)]"
      using target_locked_answers [OF assms(1)] by metis
    have "\<exists>g'. dbs_check_cpu ve (Some tgt) cpu (g, m, s) = Some (g', m2, s')"
      using True assms(5,6) s'(1) dbg
      by (simp add: run dbs_freq_increase_def Let_def)
    then show ?thesis using True s'(2) g2(2) by auto
  next
    case up: False
    show ?thesis
    proof (cases "L < (dt_up_threshold T - dt_down_differential T) * pol_cur pol")
      case True
      let ?d = "dt_up_threshold T - dt_down_differential T"
      define f where "f = (if L div ?d < pol_min pol then pol_min pol else L div ?d)"
      have nb: "L div ?d \<le> h \<Longrightarrow> 34 \<le> h \<Longrightarrow> 100 * unat h < 2 ^ 32 \<Longrightarrow> \<not> L > dt_up_threshold T * h" for h
        using no_bounce(3) [OF assms(7-9) True assms(13)] by blast
      note nz = no_bounce(1) [OF assms(7-9) True assms(13)]
        and qc = no_bounce(2) [OF assms(7-9) True assms(13)]
      obtain rc s' where s': "cpufreq_driver_target_locked (Some tgt) p f RELATION_L s = Some (rc, s')"
        "target_log s' = target_log s @ [(p, f, RELATION_L)]"
        using target_locked_answers [OF assms(1)] by metis
      have "\<exists>g'. dbs_check_cpu ve (Some tgt) cpu (g, m, s) = Some (g', m2, s')"
        using up True assms(5,6) s'(1) nz dbg
        by (cases "L div ?d < pol_min pol")
          (simp_all add: run dbs_freq_decrease_def udiv_chk_def f_def Let_def)
      moreover have f: "pol_min pol \<le> f" "f \<le> pol_cur pol" "L div ?d \<le> f"
        using qc assms(12) by (auto simp: f_def)
      moreover have "\<forall>h. f \<le> h \<and> 100 * unat h < 2 ^ 32 \<longrightarrow> \<not> L > dt_up_threshold T * h"
        using nb f(1,3) assms(11) by (meson order_trans)
      ultimately show ?thesis using up True s'(2) g2(2) by auto
    next
      case False
      have "dbs_check_cpu ve (Some tgt) cpu (g, m, s) = Some (g2, m2, s)"
        using up False by (simp add: run Let_def)
      then show ?thesis using up False g2(2) by auto
    qed
  qed
qed


theorem dbs_sample_decision_witness:
  "\<exists>g' m' s' reqs. dbs_check_cpu demo_ve (Some demo_target) 0 (demo_dbs, status_monitor_init, demo_sys)
      = Some (g', m', s') \<and> target_log s' = reqs \<and> reqs = [(0, 1700000, RELATION_H)]"
proof -
  let ?L = "dl_max_load_freq (fst (dbs_get_load (ve_kenv demo_ve) (policies demo_sys 0)
      (dbs_upd_infos (\<lambda>_ i. i\<lparr>freq_lo := 0\<rparr>) [0] demo_dbs)))"
  have 1: "dbs_env_ok demo_ve status_monitor_init"
    using sm_init_ok
    by (simp add: dbs_env_ok_def getavg_ok_def demo_ve_def demo_env_def demo_mem_def)
  have 2: "cur_policy (od_cpu_dbs_info demo_dbs 0) = Some 0" by (simp add: demo_dbs_def demo_info_def)
  have 3: "dt_powersave_bias dbs_tuners_init = 0" "dt_debug dbs_tuners_init \<noteq> 1"
    "3 \<le> dt_down_differential dbs_tuners_init"
    "dt_down_differential dbs_tuners_init \<le> dt_up_threshold dbs_tuners_init"
    "dt_up_threshold dbs_tuners_init \<le> 100"
    by (simp_all add: dbs_tuners_init_def)
  have 4: "dbs_tuners_init = dbs_tuners_ins demo_dbs" by (simp add: demo_dbs_def)
  have 5: "34 \<le> pol_min (policies demo_sys 0)" "pol_min (policies demo_sys 0) \<le> pol_cur (policies demo_sys 0)"
    "unat (pol_cur (policies demo_sys 0)) * 100 < 2 ^ 32"
    by (simp_all add: demo_sys_def demo_policy_def)
  have L: "?L = 90000000"
    by (simp add: dbs_get_load_def dbs_load_step_def demo_ve_def demo_sys_def demo_dbs_def
        dbs_upd_infos_def dbs_tuners_init_def demo_load_defs c_int_def c_uint_def)
  have p: "dt_up_threshold dbs_tuners_init * pol_cur (policies demo_sys 0) = 80000000"
    "pol_max (policies demo_sys 0) = 1700000" "target_log demo_sys = []"
    by (simp_all add: dbs_tuners_init_def demo_sys_def demo_policy_def)
  show ?thesis
    using dbs_sample_decision [OF demo_target_answers 1 2 4 3 refl 5 L [symmetric]] by (simp add: p) blast
qed

section \<open>The debug line\<close>

text \<open>When no CPU of the policy yields a sample, \<open>freq_avg\<close> is still zero at the debug print.\<close>

lemma dbs_no_sample:
  assumes "\<forall>j \<in> set (pol_cpus pol). dbs_sample env pol g j = None" "distinct (pol_cpus pol)"
  shows "fst (dbs_get_load env pol g)
    = \<lparr>dl_max_load_freq = 0, dl_max_freq_avg = 0, dl_max_load = 0, dl_freq_avg = 0\<rparr>"
proof -
  have "fst (fold (dbs_load_step env pol) js (l, g)) = l"
    if "\<forall>j \<in> set js. dbs_sample env pol g j = None" "distinct js" for js l
    using that
  proof (induction js arbitrary: g)
    case (Cons j js)
    have "fst (dbs_load_step env pol j (l, g)) = l"
      using Cons.prems(1) by (subst dbs_load_step_sample) simp
    moreover have "\<forall>k \<in> set js. dbs_sample env pol (snd (dbs_load_step env pol j (l, g))) k = None"
    proof
      fix k assume "k \<in> set js"
      then have "k \<noteq> j" using Cons.prems(2) by auto
      then show "dbs_sample env pol (snd (dbs_load_step env pol j (l, g))) k = None"
        using Cons.prems(1) \<open>k \<in> set js\<close> by (simp add: dbs_sample_step)
    qed
    ultimately show ?case
      using Cons.IH [of "snd (dbs_load_step env pol j (l, g))"] Cons.prems(2)
      by (cases "dbs_load_step env pol j (l, g)") simp
  qed simp
  then show ?thesis using assms by (simp add: dbs_get_load_def)
qed

text \<open>
  With \<open>debug\<close> set, a sample in which no CPU can be measured (a zero-length window) faults:
  the debug line divides by \<open>freq_avg\<close>, which is still zero, whenever the current frequency is above
  the policy's minimum.
\<close>

theorem dbs_debug_divides_by_zero:
  assumes "distinct (pol_cpus pol)" "pol = policies s p" "cur_policy (od_cpu_dbs_info g cpu) = Some p"
    and "g0 = dbs_upd_infos (\<lambda>_ i. i\<lparr>freq_lo := 0\<rparr>) [cpu] g"
    and "\<forall>j \<in> set (pol_cpus pol). dbs_sample (ve_kenv ve) pol g0 j = None"
    and "dt_debug (dbs_tuners_ins g) = 1" "pol_cur pol \<noteq> pol_min pol"
    and "0 < (dt_up_threshold (dbs_tuners_ins g) - dt_down_differential (dbs_tuners_ins g)) * pol_cur pol"
  shows "dbs_check_cpu ve tgt cpu (g, m, s) = None"
proof -
  have cp: "cur_policy (od_cpu_dbs_info g0 cpu) = Some p"
    using assms(3,4) by (simp add: dbs_upd_infos_def)
  obtain l g1 where g1: "dbs_get_load (ve_kenv ve) pol g0 = (l, g1)"
    by (cases "dbs_get_load (ve_kenv ve) pol g0")
  have l: "dl_max_load_freq l = 0" "dl_freq_avg l = 0"
    using dbs_no_sample [OF assms(5,1)] g1 by simp_all
  have T: "dbs_tuners_ins g1 = dbs_tuners_ins g" using dbs_get_load_keeps(1) [OF g1] assms(4) by simp
  show ?thesis
  proof (cases "dbs_write_logs ve (online s) pol l (g1, m)")
    case None
    then show ?thesis
      by (simp add: dbs_check_cpu_def assms(4) [symmetric] cp assms(2) [symmetric] g1)
  next
    case (Some gm)
    then obtain g2 m2 where g2: "dbs_write_logs ve (online s) pol l (g1, m) = Some (g2, m2)"
      by (cases gm) simp
    then have "dbs_tuners_ins g2 = dbs_tuners_ins g"
      using T by (auto simp: dbs_write_logs_def Let_def fault_simps split: if_splits)
    then show ?thesis
      using assms(6-8) l g2
      by (simp add: dbs_check_cpu_def assms(4) [symmetric] cp assms(2) [symmetric] g1
          dbs_debug_print_def udiv_chk_def c_uint_def Let_def)
  qed
qed

text \<open>The same reading twice: the window is empty.\<close>

definition demo_dbs_late :: dbs_state where
  "demo_dbs_late = demo_dbs\<lparr>dbs_tuners_ins := dbs_tuners_init\<lparr>dt_debug := 1\<rparr>,
     od_cpu_dbs_info := (\<lambda>_. demo_info\<lparr>prev_cpu_wall := 1000, prev_cpu_idle := 100\<rparr>)\<rparr>"

theorem dbs_debug_divides_by_zero_witness:
  "dbs_check_cpu demo_ve (Some demo_target) 0 (demo_dbs_late, status_monitor_init, demo_sys) = None"
proof -
  have 1: "distinct (pol_cpus (policies demo_sys 0))" by (simp add: demo_sys_def demo_policy_def)
  have 2: "cur_policy (od_cpu_dbs_info demo_dbs_late 0) = Some 0"
    by (simp add: demo_dbs_late_def demo_info_def)
  have 3: "\<forall>j \<in> set (pol_cpus (policies demo_sys 0)). dbs_sample (ve_kenv demo_ve) (policies demo_sys 0)
      (dbs_upd_infos (\<lambda>_ i. i\<lparr>freq_lo := 0\<rparr>) [0] demo_dbs_late) j = None"
    by (simp add: dbs_sample_def demo_ve_def demo_sys_def demo_dbs_late_def demo_dbs_def
        dbs_upd_infos_def dbs_tuners_init_def demo_load_defs)
  have 4: "dt_debug (dbs_tuners_ins demo_dbs_late) = 1"
    "pol_cur (policies demo_sys 0) \<noteq> pol_min (policies demo_sys 0)"
    "0 < (dt_up_threshold (dbs_tuners_ins demo_dbs_late) - dt_down_differential (dbs_tuners_ins demo_dbs_late))
        * pol_cur (policies demo_sys 0)"
    by (simp_all add: demo_dbs_late_def dbs_tuners_init_def demo_sys_def demo_policy_def)
  show ?thesis
    by (rule dbs_debug_divides_by_zero [OF 1 refl 2 refl 3 4])
qed

section \<open>The governor's contract\<close>

context cpufreq_driver_ops begin

lemma dbs_limits_event:
  assumes "cpufreq_governor_dbs env (Some target) p GOV_LIMITS (g, s) = Some (rc, g', s')"
  shows "sys_frame s' = sys_frame s"
    "pol_min (policies s p) \<le> pol_max (policies s p) \<Longrightarrow> requests_within p s s'"
  using assms
  by (auto simp: cpufreq_governor_dbs_def Let_def fault_simps split: if_splits
      dest: locked_frame intro: requests_within_one [OF locked_log])

lemma dbs_other_events:
  assumes "cpufreq_governor_dbs env (Some target) p e (g, s) = Some (rc, g', s')" "e \<noteq> GOV_LIMITS"
  shows "s' = s"
  using assms
  by (cases e) (auto simp: cpufreq_governor_dbs_def Let_def fault_simps split: if_splits)

end

sublocale cpufreq_driver_ops \<subseteq> dbs_gov: governor_ops "cpufreq_governor_dbs env (Some target)" for env
proof
  show "cpufreq_governor_dbs env (Some target) p e (g, s) = Some (rc, g', s') \<Longrightarrow>
      sys_frame s' = sys_frame s" for p e g s rc g' s'
    using dbs_limits_event(1) dbs_other_events by (cases e) blast+
  show "cpufreq_governor_dbs env (Some target) p GOV_LIMITS (g, s) = Some (rc, g', s') \<Longrightarrow>
      pol_min (policies s p) \<le> pol_max (policies s p) \<Longrightarrow> requests_within p s s'" for p g s rc g' s'
    by (rule dbs_limits_event(2))
  show "cpufreq_governor_dbs env (Some target) p e (g, s) = Some (rc, g', s') \<Longrightarrow>
      e \<noteq> GOV_LIMITS \<Longrightarrow> target_log s' = target_log s" for p e g s rc g' s'
    using dbs_other_events by blast
  show "cpufreq_governor_dbs env (Some target) p GOV_STOP (g, s) = Some (rc, g', s') \<Longrightarrow> rc = 0"
    for p g s rc g' s'
    by (simp add: cpufreq_governor_dbs_def Let_def)
qed

end
