(* ===== verification/Userspace.thy ===== *)
theory Userspace
  imports Cpufreq_Types Sysfs_Text
begin

text \<open>
  The \<open>userspace\<close> governor (\<open>drivers/cpufreq/cpufreq_userspace.c\<close>): its per-CPU variables, the
  transition notifier, the user's frequency and the governor events. \<open>BUG_ON\<close> is \<open>None\<close>. What the
  driver tells the notifiers during a request is the parameter \<open>told\<close>: the CPU and new frequency of
  every transition between two states of the system.
\<close>

record us_state =
  cpu_max_freq :: "cpuid \<Rightarrow> u32"
  cpu_min_freq :: "cpuid \<Rightarrow> u32"
  cpu_cur_freq :: "cpuid \<Rightarrow> u32"
  cpu_set_freq :: "cpuid \<Rightarrow> u32"
  cpu_is_managed :: "cpuid \<Rightarrow> u32"
  cpus_using_userspace_governor :: int
  us_notifier :: bool
  us_attr_group :: bool

type_synonym 'd told_fun = "'d sys \<Rightarrow> 'd sys \<Rightarrow> (cpuid \<times> u32) list"

definition userspace_cpufreq_notifier :: "cpuid \<Rightarrow> u32 \<Rightarrow> us_state \<Rightarrow> us_state" where
  "userspace_cpufreq_notifier cpu new u =
     (if cpu_is_managed u cpu = 0 then u
      else u\<lparr>cpu_cur_freq := (cpu_cur_freq u)(cpu := new)\<rparr>)"

definition us_hear :: "'d told_fun \<Rightarrow> 'd sys \<Rightarrow> 'd sys \<Rightarrow> us_state \<Rightarrow> us_state" where
  "us_hear told s s' u =
     (if us_notifier u then fold (\<lambda>(c, f). userspace_cpufreq_notifier c f) (told s s') u else u)"

definition userspace_cpufreq_set ::
  "'d told_fun \<Rightarrow> 'd target_op option \<Rightarrow> nat \<Rightarrow> u32 \<Rightarrow> us_state \<times> 'd sys \<Rightarrow> (int \<times> us_state \<times> 'd sys) option"
where
  "userspace_cpufreq_set told tgt p freq us = (case us of (u, s) \<Rightarrow>
     let cpu = pol_cpu (policies s p) in
     if cpu_is_managed u cpu = 0 then Some (- EINVAL, u, s)
     else do {
       let u = u\<lparr>cpu_set_freq := (cpu_set_freq u)(cpu := freq)\<rparr>;
       let freq = (if freq < cpu_min_freq u cpu then cpu_min_freq u cpu else freq);
       let freq = (if freq > cpu_max_freq u cpu then cpu_max_freq u cpu else freq);
       (ret, s') \<leftarrow> cpufreq_driver_target_locked tgt p freq RELATION_L s;
       Some (ret, us_hear told s s' u, s')
     })"

definition userspace_show_speed :: "nat \<Rightarrow> us_state \<times> 'd sys \<Rightarrow> string" where
  "userspace_show_speed p us = (case us of (u, s) \<Rightarrow>
     sprintf_u (cpu_cur_freq u (pol_cpu (policies s p))) @ [newline])"

definition show_userspace_test :: string where
  "show_userspace_test = ''userspace governor test'' @ [newline]"

definition us_manage :: "cpufreq_policy \<Rightarrow> us_state \<Rightarrow> us_state" where
  "us_manage pol u = (let cpu = pol_cpu pol in
     u\<lparr>cpu_is_managed := (cpu_is_managed u)(cpu := 1), cpu_min_freq := (cpu_min_freq u)(cpu := pol_min pol),
       cpu_max_freq := (cpu_max_freq u)(cpu := pol_max pol), cpu_cur_freq := (cpu_cur_freq u)(cpu := pol_cur pol),
       cpu_set_freq := (cpu_set_freq u)(cpu := pol_cur pol)\<rparr>)"

definition us_release :: "cpuid \<Rightarrow> us_state \<Rightarrow> us_state" where
  "us_release cpu u =
     u\<lparr>cpu_is_managed := (cpu_is_managed u)(cpu := 0), cpu_min_freq := (cpu_min_freq u)(cpu := 0),
       cpu_max_freq := (cpu_max_freq u)(cpu := 0), cpu_set_freq := (cpu_set_freq u)(cpu := 0)\<rparr>"

definition cpufreq_governor_userspace ::
  "int \<Rightarrow> 'd told_fun \<Rightarrow> 'd target_op option \<Rightarrow> (us_state, 'd) gov_op" where
  "cpufreq_governor_userspace sysfs_rc told tgt p event us = (case us of (u, s) \<Rightarrow>
     let pol = policies s p; cpu = pol_cpu pol in
     case event of
       GOV_START \<Rightarrow>
         if \<not> online s cpu then Some (- EINVAL, u, s)
         else if pol_cur pol = 0 then None
         else if cpus_using_userspace_governor u = 0 \<and> sysfs_rc \<noteq> 0 then Some (sysfs_rc, u, s)
         else
           let u = (if cpus_using_userspace_governor u = 0
                    then u\<lparr>us_attr_group := True, us_notifier := True\<rparr> else u);
               u = u\<lparr>cpus_using_userspace_governor := cpus_using_userspace_governor u + 1\<rparr>
           in Some (0, us_manage pol u, s)
     | GOV_STOP \<Rightarrow>
         let u = u\<lparr>cpus_using_userspace_governor := cpus_using_userspace_governor u - 1\<rparr>;
             u = (if cpus_using_userspace_governor u = 0
                  then u\<lparr>us_attr_group := False, us_notifier := False\<rparr> else u)
         in Some (0, us_release cpu u, s)
     | GOV_LIMITS \<Rightarrow> do {
         (_, s') \<leftarrow>
           (if pol_max pol < cpu_set_freq u cpu
            then cpufreq_driver_target_locked tgt p (pol_max pol) RELATION_H s
            else if pol_min pol > cpu_set_freq u cpu
            then cpufreq_driver_target_locked tgt p (pol_min pol) RELATION_L s
            else cpufreq_driver_target_locked tgt p (cpu_set_freq u cpu) RELATION_L s);
         let u = us_hear told s s' u;
         let pol' = policies s' p;
         Some (0, u\<lparr>cpu_min_freq := (cpu_min_freq u)(cpu := pol_min pol'),
                    cpu_max_freq := (cpu_max_freq u)(cpu := pol_max pol'),
                    cpu_cur_freq := (cpu_cur_freq u)(cpu := pol_cur pol')\<rparr>, s')
       })"

section \<open>The governor's contract\<close>

lemma us_hear_keeps [simp]:
  "cpu_set_freq (us_hear told s s' u) = cpu_set_freq u" "cpu_min_freq (us_hear told s s' u) = cpu_min_freq u"
  "cpu_max_freq (us_hear told s s' u) = cpu_max_freq u" "cpu_is_managed (us_hear told s s' u) = cpu_is_managed u"
  "cpus_using_userspace_governor (us_hear told s s' u) = cpus_using_userspace_governor u"
proof -
  have "cpu_set_freq (fold (\<lambda>(c, f). userspace_cpufreq_notifier c f) xs u) = cpu_set_freq u
    \<and> cpu_min_freq (fold (\<lambda>(c, f). userspace_cpufreq_notifier c f) xs u) = cpu_min_freq u
    \<and> cpu_max_freq (fold (\<lambda>(c, f). userspace_cpufreq_notifier c f) xs u) = cpu_max_freq u
    \<and> cpu_is_managed (fold (\<lambda>(c, f). userspace_cpufreq_notifier c f) xs u) = cpu_is_managed u
    \<and> cpus_using_userspace_governor (fold (\<lambda>(c, f). userspace_cpufreq_notifier c f) xs u)
      = cpus_using_userspace_governor u" for xs
    by (induction xs arbitrary: u) (auto simp: userspace_cpufreq_notifier_def)
  then show "cpu_set_freq (us_hear told s s' u) = cpu_set_freq u" "cpu_min_freq (us_hear told s s' u) = cpu_min_freq u"
    "cpu_max_freq (us_hear told s s' u) = cpu_max_freq u" "cpu_is_managed (us_hear told s s' u) = cpu_is_managed u"
    "cpus_using_userspace_governor (us_hear told s s' u) = cpus_using_userspace_governor u"
    by (simp_all add: us_hear_def)
qed

definition clamp :: "u32 \<Rightarrow> cpufreq_policy \<Rightarrow> u32" where
  "clamp f pol = (if pol_max pol < f then pol_max pol else if pol_min pol > f then pol_min pol else f)"

text \<open>A limits event asks for the user's frequency, clamped to the limits.\<close>

lemma us_limits_run:
  assumes "cpufreq_governor_userspace rc0 told tgt p GOV_LIMITS (u, s) = Some (rc, u', s')"
  shows "\<exists>rc' r. cpufreq_driver_target_locked tgt p
      (clamp (cpu_set_freq u (pol_cpu (policies s p))) (policies s p)) r s = Some (rc', s')
    \<and> rc = 0
    \<and> cpu_set_freq u' = cpu_set_freq u \<and> cpu_is_managed u' = cpu_is_managed u
    \<and> cpu_min_freq u' (pol_cpu (policies s p)) = pol_min (policies s' p)
    \<and> cpu_max_freq u' (pol_cpu (policies s p)) = pol_max (policies s' p)"
  using assms
  by (cases "pol_max (policies s p) < cpu_set_freq u (pol_cpu (policies s p))";
      cases "pol_min (policies s p) > cpu_set_freq u (pol_cpu (policies s p))")
    (auto simp: cpufreq_governor_userspace_def clamp_def Let_def fault_simps)

lemma clamp_within:
  "pol_min pol \<le> pol_max pol \<Longrightarrow> pol_min pol \<le> clamp f pol \<and> clamp f pol \<le> pol_max pol"
  by (auto simp: clamp_def)

context cpufreq_driver_ops begin

lemma us_limits_event:
  assumes "cpufreq_governor_userspace rc0 told (Some target) p GOV_LIMITS (u, s) = Some (rc, u', s')"
  shows "sys_frame s' = sys_frame s"
    "\<exists>r. target_log s' = target_log s @ [(p, clamp (cpu_set_freq u (pol_cpu (policies s p))) (policies s p), r)]"
    "cpu_set_freq u' = cpu_set_freq u" "cpu_is_managed u' = cpu_is_managed u"
    "cpu_min_freq u' (pol_cpu (policies s p)) = pol_min (policies s p)"
    "cpu_max_freq u' (pol_cpu (policies s p)) = pol_max (policies s p)"
proof -
  obtain rc' r where t: "cpufreq_driver_target_locked (Some target) p
      (clamp (cpu_set_freq u (pol_cpu (policies s p))) (policies s p)) r s = Some (rc', s')"
    "cpu_set_freq u' = cpu_set_freq u" "cpu_is_managed u' = cpu_is_managed u"
    "cpu_min_freq u' (pol_cpu (policies s p)) = pol_min (policies s' p)"
    "cpu_max_freq u' (pol_cpu (policies s p)) = pol_max (policies s' p)"
    using us_limits_run [OF assms] by blast
  show "sys_frame s' = sys_frame s"
    by (rule locked_frame [OF t(1)])
  from sys_frameD(6) [OF this, of p] show "cpu_min_freq u' (pol_cpu (policies s p)) = pol_min (policies s p)"
    "cpu_max_freq u' (pol_cpu (policies s p)) = pol_max (policies s p)"
    using t(4,5) by (simp_all add: limits_of_eq)
  show "\<exists>r. target_log s' = target_log s @ [(p, clamp (cpu_set_freq u (pol_cpu (policies s p))) (policies s p), r)]"
    using locked_log [OF t(1)] by blast
qed (use us_limits_run [OF assms] in blast)+

lemma us_other_events:
  assumes "cpufreq_governor_userspace rc0 told (Some target) p e (u, s) = Some (rc, u', s')" "e \<noteq> GOV_LIMITS"
  shows "s' = s"
  using assms
  by (cases e) (auto simp: cpufreq_governor_userspace_def Let_def split: if_splits)

end

sublocale cpufreq_driver_ops \<subseteq> us_gov: governor_ops "cpufreq_governor_userspace rc0 told (Some target)"
  for rc0 told
proof
  show "cpufreq_governor_userspace rc0 told (Some target) p e (u, s) = Some (rc, u', s') \<Longrightarrow>
      sys_frame s' = sys_frame s" for p e u s rc u' s'
    using us_limits_event(1) us_other_events by (cases e) blast+
  show "cpufreq_governor_userspace rc0 told (Some target) p GOV_LIMITS (u, s) = Some (rc, u', s') \<Longrightarrow>
      pol_min (policies s p) \<le> pol_max (policies s p) \<Longrightarrow> requests_within p s s'" for p u s rc u' s'
    using us_limits_event(2) [of rc0 told p u s rc u' s'] clamp_within requests_within_one by metis
  show "cpufreq_governor_userspace rc0 told (Some target) p e (u, s) = Some (rc, u', s') \<Longrightarrow>
      e \<noteq> GOV_LIMITS \<Longrightarrow> target_log s' = target_log s" for p e u s rc u' s'
    using us_other_events by blast
  show "cpufreq_governor_userspace rc0 told (Some target) p GOV_STOP (u, s) = Some (rc, u', s') \<Longrightarrow> rc = 0"
    for p u s rc u' s'
    by (simp add: cpufreq_governor_userspace_def Let_def)
qed

section \<open>The user's choice\<close>

text \<open>Limit changes one after the other: each time the core has put new limits in the policy.\<close>

fun us_limit_changes ::
  "int \<Rightarrow> 'd told_fun \<Rightarrow> 'd target_op option \<Rightarrow> nat \<Rightarrow> (u32 \<times> u32) list \<Rightarrow> us_state \<times> 'd sys \<Rightarrow> (us_state \<times> 'd sys) option"
where
  "us_limit_changes rc0 told tgt p [] us = Some us"
| "us_limit_changes rc0 told tgt p ((lo, hi) # ls) us = (case us of (u, s) \<Rightarrow>
     let s = s\<lparr>policies := (policies s)(p := (policies s p)\<lparr>pol_min := lo, pol_max := hi\<rparr>)\<rparr> in
     case cpufreq_governor_userspace rc0 told tgt p GOV_LIMITS (u, s) of
       None \<Rightarrow> None | Some (_, us') \<Rightarrow> us_limit_changes rc0 told tgt p ls us')"

context cpufreq_driver_ops begin

lemma us_limit_changes_keep:
  assumes "us_limit_changes rc0 told (Some target) p ls (u, s) = Some (u', s')" "pol_cpu (policies s p) = cpu"
  shows "cpu_set_freq u' = cpu_set_freq u \<and> pol_cpu (policies s' p) = cpu
    \<and> map (\<lambda>(q, f, r). (q, f)) (target_log s') = map (\<lambda>(q, f, r). (q, f)) (target_log s)
        @ map (\<lambda>(lo, hi). (p, clamp (cpu_set_freq u cpu) ((policies s p)\<lparr>pol_min := lo, pol_max := hi\<rparr>))) ls"
  using assms
proof (induction ls arbitrary: u s)
  case (Cons l ls)
  obtain lo hi where l: "l = (lo, hi)" by (cases l)
  define s1 where "s1 = s\<lparr>policies := (policies s)(p := (policies s p)\<lparr>pol_min := lo, pol_max := hi\<rparr>)\<rparr>"
  obtain rc u2 s2 where g: "cpufreq_governor_userspace rc0 told (Some target) p GOV_LIMITS (u, s1) = Some (rc, u2, s2)"
    "us_limit_changes rc0 told (Some target) p ls (u2, s2) = Some (u', s')"
    using Cons.prems(1) by (auto simp: l s1_def Let_def split: option.splits)
  have cpu1: "pol_cpu (policies s1 p) = cpu" using Cons.prems(2) by (simp add: s1_def)
  have cpu2: "pol_cpu (policies s2 p) = cpu"
    using sys_frameD(6) [OF us_limits_event(1) [OF g(1)], of p] cpu1 by (simp add: limits_of_eq)
  have clamp_eq: "clamp f (pol\<lparr>pol_min := a, pol_max := b\<rparr>) = clamp f (pol'\<lparr>pol_min := a, pol_max := b\<rparr>)"
    for f a b pol pol' by (simp add: clamp_def)
  obtain r where log: "target_log s2 = target_log s1 @ [(p, clamp (cpu_set_freq u cpu) (policies s1 p), r)]"
    using us_limits_event(2) [OF g(1)] cpu1 by auto
  have "map (\<lambda>(lo, hi). (p, clamp (cpu_set_freq u2 cpu) ((policies s2 p)\<lparr>pol_min := lo, pol_max := hi\<rparr>))) ls
      = map (\<lambda>(lo, hi). (p, clamp (cpu_set_freq u cpu) ((policies s p)\<lparr>pol_min := lo, pol_max := hi\<rparr>))) ls"
    unfolding us_limits_event(3) [OF g(1)] using clamp_eq by (intro map_cong) auto
  then show ?case
    using Cons.IH [OF g(2) cpu2] us_limits_event(3) [OF g(1)] log
    by (simp add: l s1_def del: map_eq_conv)
qed simp

end

end
