(* ===== verification/Exynos_Stack.thy ===== *)
theory Exynos_Stack
  imports Core_Stack Exynos_Calls Ondemand_Safety Userspace
begin

text \<open>
  The whole stack on an Exynos chip: the core, the driver of \<open>arch/arm/mach-exynos/cpufreq.c\<close> with its
  policy notifier, and the governors \<open>vbfs\<close>, \<open>ondemand\<close> and \<open>userspace\<close>. They meet the contract of
  \<open>core_stack\<close>, so the guarantees of the core hold for them.
\<close>

section \<open>The governors\<close>

type_synonym govs = "vbfs_state \<times> dbs_state \<times> us_state"

definition lift_vbfs :: "(vbfs_state, 'd) gov_op \<Rightarrow> (govs, 'd) gov_op" where
  "lift_vbfs f p e x = (case x of ((v, o', u), s) \<Rightarrow> map_option (\<lambda>(rc, v', s'). (rc, (v', o', u), s')) (f p e (v, s)))"

definition lift_dbs :: "(dbs_state, 'd) gov_op \<Rightarrow> (govs, 'd) gov_op" where
  "lift_dbs f p e x = (case x of ((v, o', u), s) \<Rightarrow> map_option (\<lambda>(rc, o'', s'). (rc, (v, o'', u), s')) (f p e (o', s)))"

definition lift_us :: "(us_state, 'd) gov_op \<Rightarrow> (govs, 'd) gov_op" where
  "lift_us f p e x = (case x of ((v, o', u), s) \<Rightarrow> map_option (\<lambda>(rc, u', s'). (rc, (v, o', u'), s')) (f p e (u, s)))"

text \<open>What the transition notifiers hear between two states.\<close>

definition told_log :: "'d told_fun" where
  "told_log s s' = map (\<lambda>(st, cpu, old, new). (cpu, new)) (drop (length (trans_log s)) (trans_log s'))"

abbreviation TRANSITION_LATENCY_LIMIT :: u32 where "TRANSITION_LATENCY_LIMIT \<equiv> 10000000"

definition cpufreq_gov_vbfs :: "kenv \<Rightarrow> 'd target_op option \<Rightarrow> (govs, 'd) governor" where
  "cpufreq_gov_vbfs ke tgt = \<lparr>gv_max_latency = TRANSITION_LATENCY_LIMIT,
     gv_op = lift_vbfs (cpufreq_governor_vbfs ke tgt),
     gv_store_setspeed = Some (\<lambda>p f x. case x of ((v, o', u), s) \<Rightarrow>
       map_option (\<lambda>(rc, v', s'). (rc, (v', o', u), s')) (vbfs_cpufreq_set tgt p f (v, s))),
     gv_show_setspeed = Some (\<lambda>p x. case x of ((v, o', u), s) \<Rightarrow>
       (let (t, v') = vbfs_show_speed p (v, s) in (t, (v', o', u), s)))\<rparr>"

definition cpufreq_gov_ondemand :: "kenv \<Rightarrow> 'd target_op option \<Rightarrow> (govs, 'd) governor" where
  "cpufreq_gov_ondemand ke tgt = \<lparr>gv_max_latency = TRANSITION_LATENCY_LIMIT,
     gv_op = lift_dbs (cpufreq_governor_dbs ke tgt), gv_store_setspeed = None, gv_show_setspeed = None\<rparr>"

definition cpufreq_gov_userspace :: "kenv \<Rightarrow> 'd target_op option \<Rightarrow> (govs, 'd) governor" where
  "cpufreq_gov_userspace ke tgt = \<lparr>gv_max_latency = 0,
     gv_op = lift_us (cpufreq_governor_userspace (sysfs_create_rc ke) told_log tgt),
     gv_store_setspeed = Some (\<lambda>p f x. case x of ((v, o', u), s) \<Rightarrow>
       map_option (\<lambda>(rc, u', s'). (rc, (v, o', u'), s')) (userspace_cpufreq_set told_log tgt p f (u, s))),
     gv_show_setspeed = Some (\<lambda>p x. case x of ((v, o', u), s) \<Rightarrow> (userspace_show_speed p (u, s), (v, o', u), s))\<rparr>"

definition gov_names :: "string set" where
  "gov_names = {''vbfs'', ''ondemand'', ''userspace''}"

definition stack_gov :: "kenv \<Rightarrow> 'd target_op option \<Rightarrow> string \<Rightarrow> (govs, 'd) governor" where
  "stack_gov ke tgt n =
     (if n = ''vbfs'' then cpufreq_gov_vbfs ke tgt
      else if n = ''ondemand'' then cpufreq_gov_ondemand ke tgt else cpufreq_gov_userspace ke tgt)"

section \<open>The driver and its notifier\<close>

definition exynos_driver :: "exynos_env \<Rightarrow> exynos cpufreq_driver" where
  "exynos_driver xe = \<lparr>dr_name = ''exynos_cpufreq'', dr_sticky = True, dr_const_loops = False,
     dr_init = Some (exynos_cpufreq_cpu_init xe), dr_verify = Some (exynos_verify_speed xe), dr_setpolicy = None,
     dr_target = Some (exynos_target xe), dr_get = Some (exynos_getspeed xe), dr_getavg = None, dr_exit = None,
     dr_suspend = Some (\<lambda>p s. Some (exynos_cpufreq_suspend p, s)),
     dr_resume = Some (\<lambda>p s. Some (exynos_cpufreq_resume p, s)), dr_bios_limit = None,
     dr_attr = [''scaling_available_frequencies'']\<rparr>"

text \<open>The policy chain: block 0 is the driver's \<open>exynos_cpufreq_policy_notifier\<close>.\<close>

definition exynos_chain :: "nat list \<Rightarrow> policy_event \<Rightarrow> cpufreq_policy \<Rightarrow> esys \<Rightarrow> (cpufreq_policy \<times> esys) option" where
  "exynos_chain l e q s =
     (if 0 \<in> set l then map_option (Pair q) (exynos_cpufreq_policy_notifier_call (e = ADJUST) q s) else Some (q, s))"

definition stack_env :: "kenv \<Rightarrow> exynos_env \<Rightarrow> (govs, exynos) core_env \<Rightarrow> (govs, exynos) core_env" where
  "stack_env ke xe base = base\<lparr>ce_gov := stack_gov ke (Some (exynos_target xe)), ce_policy_chain := exynos_chain\<rparr>"

text \<open>What the stack relies on outside the source: the governors' modules stay loaded, no module brings
  another governor, the sysfs groups can be made, a non-zero time is a non-zero number of jiffies, the
  clock runs, and \<open>cpufreq_frequency_table_verify\<close> brings a policy into the driver's range.\<close>

definition verify_ok :: "exynos_env \<Rightarrow> bool" where
  "verify_ok xe \<longleftrightarrow> (\<forall>q t. \<exists>rc a b. xe_verify xe q t = (rc, q\<lparr>pol_min := a, pol_max := b\<rparr>)
     \<and> (rc = 0 \<longrightarrow> cpuinfo_min q \<le> cpuinfo_max q \<longrightarrow> in_range (q\<lparr>pol_min := a, pol_max := b\<rparr>)))"

definition stack_ok :: "kenv \<Rightarrow> exynos_env \<Rightarrow> (govs, exynos) core_env \<Rightarrow> bool" where
  "stack_ok ke xe base \<longleftrightarrow> (\<forall>n \<in> gov_names. ce_module_get base n) \<and> ce_gov_performance base = None
     \<and> (\<forall>str. set (snd (ce_request_module base str)) \<subseteq> gov_names) \<and> sysfs_create_rc ke = 0
     \<and> (\<forall>w. w \<noteq> 0 \<longrightarrow> usecs_to_jiffies ke w \<noteq> 0) \<and> (\<forall>h. 1000 \<le> xe_clk_get_rate xe h) \<and> verify_ok xe"

section \<open>The driver keeps the frequency known\<close>

definition cur_kept :: "'d sys \<Rightarrow> 'd sys \<Rightarrow> bool" where
  "cur_kept s s' \<longleftrightarrow> (\<forall>q. pol_cur (policies s q) \<noteq> 0 \<longrightarrow> pol_cur (policies s' q) \<noteq> 0)"

lemma cur_kept_refl [simp]: "cur_kept s s"
  by (simp add: cur_kept_def)

lemma cur_kept_trans: "cur_kept s s1 \<Longrightarrow> cur_kept s1 s2 \<Longrightarrow> cur_kept s s2"
  by (simp add: cur_kept_def)

lemma cur_kept_same: "policies s' = policies s \<Longrightarrow> cur_kept s s'"
  by (simp add: cur_kept_def)

lemma cur_kept_notify:
  assumes "fr_new (g_freqs (drv s)) \<noteq> 0"
  shows "cur_kept s (ex_notify xe st s)"
proof -
  obtain fr s' where r: "cpufreq_notify_transition (xe_scale xe) False st (g_freqs (drv s), s) = (fr, s')"
    by (metis prod.exhaust)
  show ?thesis
  proof (cases st)
    case PRECHANGE
    show ?thesis
      unfolding ex_notify_run [OF r] using notify_pre_policies [OF r [unfolded PRECHANGE]] by (simp add: cur_kept_same)
  next
    case POSTCHANGE
    show ?thesis
      unfolding ex_notify_run [OF r] using notify_post_policies [OF r [unfolded POSTCHANGE]] assms
      by (auto simp: cur_kept_def split: option.splits)
  qed
qed

lemma g_freqs_volt [simp]: "g_freqs (drv (set_arm_volt v s)) = g_freqs (drv s)"
  "policies (set_arm_volt v s) = policies s"
  by (simp_all add: set_arm_volt_def regulator_set_voltage_def)

lemma cur_kept_change:
  assumes "fr_new (g_freqs (drv s)) \<noteq> 0"
  shows "cur_kept s (target_change xe o' i sv av s)"
proof -
  have v: "cur_kept s a \<and> fr_new (g_freqs (drv a)) \<noteq> 0 \<Longrightarrow> cur_kept s (set_arm_volt w a) \<and> fr_new (g_freqs (drv (set_arm_volt w a))) \<noteq> 0"
    and f: "cur_kept s a \<and> fr_new (g_freqs (drv a)) \<noteq> 0 \<Longrightarrow> cur_kept s (ex_set_freq o' i a) \<and> fr_new (g_freqs (drv (ex_set_freq o' i a))) \<noteq> 0"
    and n: "cur_kept s a \<and> fr_new (g_freqs (drv a)) \<noteq> 0 \<Longrightarrow> cur_kept s (ex_notify xe st a) \<and> fr_new (g_freqs (drv (ex_notify xe st a))) \<noteq> 0"
    for a w st
    using cur_kept_notify [of a xe st] by (auto simp: cur_kept_def)
  have i: "cur_kept s a \<and> fr_new (g_freqs (drv a)) \<noteq> 0 \<Longrightarrow> cur_kept s b \<and> fr_new (g_freqs (drv b)) \<noteq> 0 \<Longrightarrow>
      cur_kept s (if c then a else b) \<and> fr_new (g_freqs (drv (if c then a else b))) \<noteq> 0" for a b c
    by simp
  have "cur_kept s (target_change xe o' i sv av s) \<and> fr_new (g_freqs (drv (target_change xe o' i sv av s))) \<noteq> 0"
    unfolding target_change_def Let_def by (intro i v f n) (simp_all add: assms)
  then show ?thesis by blast
qed

lemma cur_kept_target:
  assumes "exynos_target xe p f r s = Some (rc, s')" "exynos_info (drv s) = Info info"
    and "\<forall>e \<in> set (ex_freq_table info). frequency e \<noteq> 0"
  shows "cur_kept s s'"
proof (cases "exynos_cpufreq_disable (drv s)")
  case True
  then show ?thesis using assms exynos_target_fixed [OF assms(2)] by simp
next
  case False
  have "cur_kept s (old_set p s)" by (simp add: cur_kept_same)
  moreover have "cur_kept s (target_change xe o' i sv av (new_set p (frequency (ex_freq_table info ! unat w)) s))"
    if "unat w < length (ex_freq_table info)" for o' i sv av w
    using assms(3) that
    by (intro cur_kept_trans [OF cur_kept_same cur_kept_change]) auto
  ultimately show ?thesis
    using assms(1) unfolding exynos_target_run [OF assms(2) False]
    by (auto simp: fault_simps split: option.splits)
qed

section \<open>What holds while a governor runs\<close>

definition stack_sys :: "exynos_env \<Rightarrow> nat \<Rightarrow> esys \<Rightarrow> bool" where
  "stack_sys xe p s \<longleftrightarrow> exynos_ok xe s
     \<and> (\<forall>info. exynos_info (drv s) = Info info \<longrightarrow> (\<forall>e \<in> set (ex_freq_table info). frequency e \<noteq> 0))
     \<and> online s (pol_cpu (policies s p)) \<and> pol_cpu (policies s p) \<in> set (pol_cpus (policies s p))
     \<and> pol_cur (policies s p) \<noteq> 0"

text \<open>Which governors are in use: one, or none.\<close>

definition users :: "govs \<Rightarrow> string option \<Rightarrow> bool" where
  "users g n \<longleftrightarrow> (case g of (v, o', u) \<Rightarrow> vbfs_enable v = (if n = Some ''vbfs'' then 1 else 0)
     \<and> dbs_enable o' = (if n = Some ''ondemand'' then 1 else 0)
     \<and> cpus_using_userspace_governor u = (if n = Some ''userspace'' then 1 else 0))"

definition knows_policy :: "govs \<Rightarrow> cpuid \<Rightarrow> nat \<Rightarrow> string \<Rightarrow> bool" where
  "knows_policy g cpu p n \<longleftrightarrow> (case g of (v, o', u) \<Rightarrow>
     (n = ''vbfs'' \<longrightarrow> cur_policy (od_cpu_vbfs_info v cpu) = Some p)
     \<and> (n = ''ondemand'' \<longrightarrow> cur_policy (od_cpu_dbs_info o' cpu) = Some p)
     \<and> (n = ''userspace'' \<longrightarrow> cpu_is_managed u cpu \<noteq> 0))"

definition knows_limits :: "govs \<Rightarrow> cpufreq_policy \<Rightarrow> string \<Rightarrow> bool" where
  "knows_limits g q n \<longleftrightarrow> (case g of (v, o', u) \<Rightarrow>
     n = ''userspace'' \<longrightarrow> cpu_min_freq u (pol_cpu q) = pol_min q \<and> cpu_max_freq u (pol_cpu q) = pol_max q)"

definition stack_idle :: "exynos_env \<Rightarrow> govs \<times> esys \<Rightarrow> nat \<Rightarrow> string \<Rightarrow> bool" where
  "stack_idle xe x p n \<longleftrightarrow> stack_sys xe p (snd x) \<and> users (fst x) None"

definition stack_running :: "exynos_env \<Rightarrow> govs \<times> esys \<Rightarrow> nat \<Rightarrow> string \<Rightarrow> bool" where
  "stack_running xe x p n \<longleftrightarrow> n \<in> gov_names \<and> stack_sys xe p (snd x) \<and> users (fst x) (Some n)
     \<and> knows_policy (fst x) (pol_cpu (policies (snd x) p)) p n"

definition stack_tuned :: "exynos_env \<Rightarrow> govs \<times> esys \<Rightarrow> nat \<Rightarrow> string \<Rightarrow> bool" where
  "stack_tuned xe x p n \<longleftrightarrow> stack_running xe x p n \<and> knows_limits (fst x) (policies (snd x) p) n"

lemma stack_sys_alike:
  assumes "stack_sys xe p s" "alike s s'"
  shows "stack_sys xe p s'"
  using assms by (auto simp: stack_sys_def alike_def exynos_ok_def)

lemma stack_sys_target:
  assumes "stack_sys xe p s" "cpufreq_driver_target_locked (Some (exynos_target xe)) q f r s = Some (rc, s')"
  shows "stack_sys xe p s'"
proof -
  let ?s = "s\<lparr>target_log := target_log s @ [(q, f, r)]\<rparr>"
  have s1: "stack_sys xe p ?s" using assms(1) by (simp add: stack_sys_def exynos_ok_def)
  consider "s' = ?s" | "exynos_target xe q f r ?s = Some (rc, s')"
    using assms(2) by (auto simp: cpufreq_driver_target_locked_def Let_def split: if_splits)
  then show ?thesis
  proof cases
    case 2
    obtain info where i: "exynos_info (drv ?s) = Info info" using 2 by (rule exynos_target_info)
    have "cur_kept ?s s'"
      using cur_kept_target [OF 2 i] s1 i by (simp add: stack_sys_def)
    moreover have fr: "same_frame ?s s'" by (rule exynos_target_frame [OF 2])
    ultimately show ?thesis
      using s1 exynos_ok_frame [OF fr] same_frameD(1,7) [OF fr] same_frameD(11) [OF fr, of p]
      by (simp add: stack_sys_def cur_kept_def limits_of_eq)
  qed (simp add: s1)
qed

lemma stack_target_total:
  assumes "stack_sys xe p s"
  shows "\<exists>rc s'. cpufreq_driver_target_locked (Some (exynos_target xe)) q f r s = Some (rc, s')
    \<and> stack_sys xe p s' \<and> limits_of (policies s' p) = limits_of (policies s p)"
proof -
  have "exynos_ok xe s" using assms by (simp add: stack_sys_def)
  then obtain rc s' where t: "cpufreq_driver_target_locked (Some (exynos_target xe)) q f r s = Some (rc, s')"
    using exynos.locked_total by (metis not_None_eq prod.exhaust)
  then show ?thesis
    using stack_sys_target [OF assms t] exynos.locked_limits [OF t] by blast
qed

end
