(* ===== verification/Stack_Governors.thy ===== *)
theory Stack_Governors
  imports Exynos_Stack
begin

text \<open>
  The governors \<open>vbfs\<close>, \<open>ondemand\<close> and \<open>userspace\<close> through their start, limits and stop events on the
  Exynos driver: every event of the right state succeeds and leaves the next state.
\<close>

section \<open>Starts\<close>

lemma fold_upd_keeps:
  assumes "\<And>k i. P (f k i)" "P (m j)"
  shows "P (fold (\<lambda>k m. m(k := f k (m k))) js m j)"
  using assms(2)
proof (induction js arbitrary: m)
  case (Cons a js)
  have "P ((m(a := f a (m a))) j)" using Cons.prems assms(1) by simp
  from Cons.IH [where m = "m(a := f a (m a))", OF this] show ?case by (simp only: fold_simps)
qed simp

lemma fold_upd_at:
  assumes "j \<in> set js" "\<And>k i. P (f k i)"
  shows "P (fold (\<lambda>k m. m(k := f k (m k))) js m j)"
  using assms(1)
proof (induction js arbitrary: m)
  case (Cons a js)
  show ?case
  proof (cases "j \<in> set js")
    case True
    from Cons.IH [where m = "m(a := f a (m a))", OF True] show ?thesis by (simp only: fold_simps)
  next
    case False
    then have "P ((m(a := f a (m a))) j)" using Cons.prems assms(2) by simp
    have "P (fold (\<lambda>k m. m(k := f k (m k))) js (m(a := f a (m a))) j)"
      by (rule fold_upd_keeps [where P = P and f = f and m = "m(a := f a (m a))" and j = j])
        (use assms(2) \<open>P ((m(a := f a (m a))) j)\<close> in auto)
    then show ?thesis by (simp only: fold_simps)
  qed
qed simp

text \<open>The rate of a first start is not zero.\<close>

lemma start_latency:
  fixes l :: u32
  defines "latency \<equiv> (if l div 1000 = 0 then 1 else l div 1000)"
  shows "latency * 1000 \<noteq> 0"
proof -
  have "unat (l div 1000) * 1000 \<le> unat l"
    by (simp add: unat_div)
  then have "unat (l div 1000) * 1000 < 2 ^ 32"
    using unsigned_less [where 'a = nat, of l] by simp
  then have "unat (l div 1000 * 1000) = unat (l div 1000) * 1000"
    using unat_mult_small [of "l div 1000" 1000] by simp
  then have "l div 1000 \<noteq> 0 \<longrightarrow> l div 1000 * 1000 \<noteq> 0"
    by (metis mult_is_0 unat_eq_zero zero_neq_numeral)
  then show ?thesis by (simp add: latency_def)
qed

lemma vbfs_start_rate_pos: "vbfs_enable g = 0 \<Longrightarrow> vbfs_start_rate q g \<noteq> 0"
  using start_latency [of "transition_latency q"]
  by (auto simp: vbfs_start_rate_def Let_def max_def word_le_nat_alt unat_eq_zero split: if_splits)

lemma vbfs_start_run:
  assumes "online s (pol_cpu (policies s p))" "pol_cur (policies s p) \<noteq> 0" "sysfs_create_rc env = 0"
    "\<forall>w. w \<noteq> 0 \<longrightarrow> usecs_to_jiffies env w \<noteq> 0" "vbfs_enable g = 0"
    "pol_cpu (policies s p) \<in> set (pol_cpus (policies s p))"
  shows "\<exists>g'. cpufreq_governor_vbfs env tgt p GOV_START (g, s) = Some (0, g', s) \<and> vbfs_enable g' = 1
    \<and> cur_policy (od_cpu_vbfs_info g' (pol_cpu (policies s p))) = Some p"
proof -
  obtain g' where g: "cpufreq_governor_vbfs env tgt p GOV_START (g, s) = Some (0, g', s)" "vbfs_enable g' = 1"
    using start_total [OF assms(1-3), of g tgt] vbfs_start_rate_pos [OF assms(5), of "policies s p"] assms(4,5) by auto
  have "cur_policy (fold (\<lambda>k m. m(k := vbfs_start_info env b p k (m k))) (pol_cpus (policies s p)) m (pol_cpu (policies s p))) = Some p"
    for m b
    by (rule fold_upd_at [OF assms(6)]) (simp add: vbfs_start_info_def case_prod_unfold Let_def)
  then have "cur_policy (od_cpu_vbfs_info g' (pol_cpu (policies s p))) = Some p"
    using g(1) assms(1-3)
    by (auto simp: cpufreq_governor_vbfs_def Let_def fault_simps vbfs_timer_init_def vbfs_first_start_def
        upd_tuners_def upd_infos_def vbfs_powersave_bias_init_cpu_def split: if_splits)
  with g show ?thesis by blast
qed

lemma dbs_start_run:
  assumes "online s (pol_cpu (policies s p))" "pol_cur (policies s p) \<noteq> 0" "sysfs_create_rc env = 0"
    "\<forall>w. w \<noteq> 0 \<longrightarrow> usecs_to_jiffies env w \<noteq> 0" "dbs_enable g = 0"
    "pol_cpu (policies s p) \<in> set (pol_cpus (policies s p))"
  shows "\<exists>g'. cpufreq_governor_dbs env tgt p GOV_START (g, s) = Some (0, g', s) \<and> dbs_enable g' = 1
    \<and> cur_policy (od_cpu_dbs_info g' (pol_cpu (policies s p))) = Some p"
proof -
  let ?l = "if transition_latency (policies s p) div 1000 = 0 then 1 else transition_latency (policies s p) div 1000"
  have "max (max (dbs_min_sampling_rate g) (100 * ?l)) (?l * 1000) \<noteq> 0"
    using start_latency [of "transition_latency (policies s p)"]
    by (auto simp: max_def word_le_nat_alt unat_eq_zero split: if_splits)
  then obtain dl where dl: "align_delay env (c_int (usecs_to_jiffies env
      (max (max (dbs_min_sampling_rate g) (100 * ?l)) (?l * 1000)))) = Some dl"
    using align_delay_total [of env] assms(4) by blast
  have "cur_policy (fold (\<lambda>k m. m(k := dbs_start_info env b p k (m k))) (pol_cpus (policies s p)) m (pol_cpu (policies s p))) = Some p"
    for m b
    by (rule fold_upd_at [OF assms(6)]) (simp add: dbs_start_info_def case_prod_unfold Let_def)
  then show ?thesis
    using assms(1-3,5) dl
    by (simp add: cpufreq_governor_dbs_def dbs_timer_init_def dbs_first_start_def dbs_upd_tuners_def
        dbs_upd_infos_def ondemand_powersave_bias_init_cpu_def Let_def cong: if_cong)
qed

lemma us_start_run:
  assumes "online s (pol_cpu (policies s p))" "pol_cur (policies s p) \<noteq> 0" "cpus_using_userspace_governor u = 0"
  shows "\<exists>u'. cpufreq_governor_userspace 0 told tgt p GOV_START (u, s) = Some (0, u', s)
    \<and> cpus_using_userspace_governor u' = 1 \<and> cpu_is_managed u' (pol_cpu (policies s p)) = 1
    \<and> cpu_min_freq u' (pol_cpu (policies s p)) = pol_min (policies s p)
    \<and> cpu_max_freq u' (pol_cpu (policies s p)) = pol_max (policies s p)"
  using assms by (simp add: cpufreq_governor_userspace_def us_manage_def Let_def)

lemma gov_names_cases:
  assumes "n \<in> gov_names"
  obtains "n = ''vbfs''" | "n = ''ondemand''" | "n = ''userspace''"
  using assms by (auto simp: gov_names_def)

lemmas stack_gov_defs = stack_gov_def cpufreq_gov_vbfs_def cpufreq_gov_ondemand_def cpufreq_gov_userspace_def
  lift_vbfs_def lift_dbs_def lift_us_def

lemmas stack_state_defs = stack_idle_def stack_running_def stack_tuned_def users_def knows_policy_def knows_limits_def

lemma stack_start:
  assumes "stack_ok ke xe base" "stack_idle xe x p n" "m \<in> gov_names"
  shows "\<exists>x'. gv_op (stack_gov ke tgt m) p GOV_START x = Some (0, x') \<and> stack_tuned xe x' p m"
proof -
  obtain v o' u s where x: "x = ((v, o', u), s)" by (metis prod.exhaust)
  have idle: "vbfs_enable v = 0" "dbs_enable o' = 0" "cpus_using_userspace_governor u = 0" "stack_sys xe p s"
    using assms(2) by (simp_all add: x stack_idle_def users_def)
  have sys: "online s (pol_cpu (policies s p))" "pol_cur (policies s p) \<noteq> 0"
    "pol_cpu (policies s p) \<in> set (pol_cpus (policies s p))"
    using idle(4) by (simp_all add: stack_sys_def)
  have env: "sysfs_create_rc ke = 0" "\<forall>w. w \<noteq> 0 \<longrightarrow> usecs_to_jiffies ke w \<noteq> 0"
    using assms(1) by (simp_all add: stack_ok_def)
  from assms(3) show ?thesis
  proof (cases rule: gov_names_cases)
    case 1
    show ?thesis
      using vbfs_start_run [OF sys(1,2) env idle(1) sys(3), of tgt] idle
      by (fastforce simp: 1 x stack_gov_defs stack_state_defs gov_names_def)
  next
    case 2
    show ?thesis
      using dbs_start_run [OF sys(1,2) env idle(2) sys(3), of tgt] idle
      by (fastforce simp: 2 x stack_gov_defs stack_state_defs gov_names_def)
  next
    case 3
    show ?thesis
      using us_start_run [OF sys(1,2) idle(3), of told_log tgt] idle env(1)
      by (fastforce simp: 3 x stack_gov_defs stack_state_defs gov_names_def)
  qed
qed

section \<open>Stops\<close>

lemma stack_stop:
  assumes "stack_running xe x p n"
  shows "\<exists>x'. gv_op (stack_gov ke tgt n) p GOV_STOP x = Some (0, x') \<and> stack_idle xe x' p n"
proof -
  obtain v o' u s where x: "x = ((v, o', u), s)" by (metis prod.exhaust)
  have "n \<in> gov_names" using assms by (simp add: stack_running_def)
  then show ?thesis
    by (cases rule: gov_names_cases)
      (use assms in \<open>auto simp: x stack_gov_defs stack_state_defs cpufreq_governor_vbfs_def cpufreq_governor_dbs_def
        cpufreq_governor_userspace_def vbfs_timer_exit_def dbs_timer_exit_def us_release_def Let_def\<close>)
qed

section \<open>New limits\<close>

lemma stack_limits_sys:
  assumes "stack_sys xe p s"
  shows "\<exists>rc s'. (if c1 then cpufreq_driver_target_locked (Some (exynos_target xe)) q f r s
      else if c2 then cpufreq_driver_target_locked (Some (exynos_target xe)) q f' r' s else Some (0, s)) = Some (rc, s')
    \<and> stack_sys xe p s' \<and> limits_of (policies s' p) = limits_of (policies s p)"
  using stack_target_total [OF assms] assms by (cases c1; cases c2) fastforce+

lemma stack_limits:
  assumes "stack_running xe x p n"
  shows "\<exists>x'. gv_op (stack_gov ke (Some (exynos_target xe)) n) p GOV_LIMITS x = Some (0, x') \<and> stack_tuned xe x' p n"
proof -
  obtain v o' u s where x: "x = ((v, o', u), s)" by (metis prod.exhaust)
  have n: "n \<in> gov_names" and sys: "stack_sys xe p s" using assms by (simp_all add: x stack_running_def)
  from n show ?thesis
  proof (cases rule: gov_names_cases)
    case 1
    have q: "cur_policy (od_cpu_vbfs_info v (pol_cpu (policies s p))) = Some p"
      using assms by (simp add: 1 x stack_state_defs)
    obtain s' where s': "cpufreq_governor_vbfs ke (Some (exynos_target xe)) p GOV_LIMITS (v, s) = Some (0, v, s')"
      "stack_sys xe p s'" "limits_of (policies s' p) = limits_of (policies s p)"
      using stack_limits_sys [OF sys, of "pol_max (policies s p) < pol_cur (policies s p)" p "pol_max (policies s p)" RELATION_H
          "pol_min (policies s p) > pol_cur (policies s p)" "pol_min (policies s p)" RELATION_L] q
      by (auto simp: cpufreq_governor_vbfs_def Let_def)
    then show ?thesis using assms
      by (fastforce simp: 1 x stack_gov_defs stack_state_defs limits_of_eq)
  next
    case 2
    have q: "cur_policy (od_cpu_dbs_info o' (pol_cpu (policies s p))) = Some p"
      using assms by (simp add: 2 x stack_state_defs)
    obtain s' where s': "cpufreq_governor_dbs ke (Some (exynos_target xe)) p GOV_LIMITS (o', s) = Some (0, o', s')"
      "stack_sys xe p s'" "limits_of (policies s' p) = limits_of (policies s p)"
      using stack_limits_sys [OF sys, of "pol_max (policies s p) < pol_cur (policies s p)" p "pol_max (policies s p)" RELATION_H
          "pol_min (policies s p) > pol_cur (policies s p)" "pol_min (policies s p)" RELATION_L] q
      by (auto simp: cpufreq_governor_dbs_def Let_def)
    then show ?thesis using assms
      by (fastforce simp: 2 x stack_gov_defs stack_state_defs limits_of_eq)
  next
    case 3
    have "\<exists>u' s'. cpufreq_governor_userspace (sysfs_create_rc ke) told_log (Some (exynos_target xe)) p GOV_LIMITS (u, s)
        = Some (0, u', s') \<and> stack_sys xe p s' \<and> cpus_using_userspace_governor u' = cpus_using_userspace_governor u"
      using stack_target_total [OF sys, of p "pol_max (policies s p)" RELATION_H]
        stack_target_total [OF sys, of p "pol_min (policies s p)" RELATION_L]
        stack_target_total [OF sys, of p "cpu_set_freq u (pol_cpu (policies s p))" RELATION_L]
      by (cases "pol_max (policies s p) < cpu_set_freq u (pol_cpu (policies s p))";
          cases "pol_min (policies s p) > cpu_set_freq u (pol_cpu (policies s p))")
        (auto simp: cpufreq_governor_userspace_def Let_def)
    then obtain u' s' where r: "cpufreq_governor_userspace (sysfs_create_rc ke) told_log (Some (exynos_target xe)) p GOV_LIMITS (u, s)
        = Some (0, u', s')" "stack_sys xe p s'" "cpus_using_userspace_governor u' = cpus_using_userspace_governor u" by blast
    note f = cpufreq_driver_ops.us_limits_event [OF exynos.cpufreq_driver_ops_axioms r(1)]
    have "limits_of (policies s' p) = limits_of (policies s p)" by (rule sys_frameD(6) [OF f(1)])
    then show ?thesis using assms r f(4-6)
      by (fastforce simp: 3 x stack_gov_defs stack_state_defs limits_of_eq)
  qed
qed

end
