(* ===== verification/Stack_Safety.thy ===== *)
theory Stack_Safety
  imports Stack_Governors
begin

text \<open>
  The Exynos stack meets the contract of \<open>core_stack\<close>, so that every sequence of calls into the core
  returns with the policy in force.
\<close>

section \<open>The laws of the parts\<close>

lemma lifted_governor_ops:
  assumes "governor_ops f"
  shows "governor_ops (\<lambda>p e (g, s). map_option (\<lambda>(rc, v, s'). (rc, put v g, s')) (f p e (get g, s)))"
proof
  fix p e g s rc g' s'
  let ?F = "\<lambda>p e (g, s). map_option (\<lambda>(rc, v, s'). (rc, put v g, s')) (f p e (get g, s))"
  show "?F p e (g, s) = Some (rc, g', s') \<Longrightarrow> sys_frame s' = sys_frame s"
    using governor_ops.gov_frame [OF assms] by auto
  show "?F p GOV_LIMITS (g, s) = Some (rc, g', s') \<Longrightarrow> pol_min (policies s p) \<le> pol_max (policies s p) \<Longrightarrow>
      requests_within p s s'"
    using governor_ops.gov_requests [OF assms] by auto
  show "?F p e (g, s) = Some (rc, g', s') \<Longrightarrow> e \<noteq> GOV_LIMITS \<Longrightarrow> target_log s' = target_log s"
    using governor_ops.gov_quiet [OF assms] by auto
  show "?F p GOV_STOP (g, s) = Some (rc, g', s') \<Longrightarrow> rc = 0"
    using governor_ops.gov_stop [OF assms] by auto
qed

context cpufreq_driver_ops begin

lemma governors_contract:
  "governor_ops (cpufreq_governor_vbfs env (Some target))" "governor_ops (cpufreq_governor_dbs env (Some target))"
  "governor_ops (cpufreq_governor_userspace rc0 told (Some target))"
  by (rule vbfs_gov.governor_ops_axioms dbs_gov.governor_ops_axioms us_gov.governor_ops_axioms)+

end

lemma stack_governor_ops: "governor_ops (gv_op (stack_gov ke (Some (exynos_target xe)) n))"
proof -
  note ax = exynos.cpufreq_driver_ops_axioms [of xe]
  note v = lifted_governor_ops [OF cpufreq_driver_ops.governors_contract(1) [OF ax, of ke],
      of "\<lambda>v (_, o', u). (v, o', u) :: govs" "\<lambda>g :: govs. case g of (v, o', u) \<Rightarrow> v"]
  note d = lifted_governor_ops [OF cpufreq_driver_ops.governors_contract(2) [OF ax, of ke],
      of "\<lambda>o' (v, _, u). (v, o', u) :: govs" "\<lambda>g :: govs. case g of (v, o', u) \<Rightarrow> o'"]
  note u = lifted_governor_ops [OF cpufreq_driver_ops.governors_contract(3) [OF ax, of "sysfs_create_rc ke" told_log],
      of "\<lambda>u (v, o', _). (v, o', u) :: govs" "\<lambda>g :: govs. case g of (v, o', u) \<Rightarrow> u"]
  have eqs: "lift_vbfs (cpufreq_governor_vbfs ke (Some (exynos_target xe))) = (\<lambda>p e (g, s). map_option (\<lambda>(rc, v, s').
      (rc, (\<lambda>v (_, o', u). (v, o', u)) v g, s')) (cpufreq_governor_vbfs ke (Some (exynos_target xe)) p e ((\<lambda>(v, o', u). v) g, s)))"
    "lift_dbs (cpufreq_governor_dbs ke (Some (exynos_target xe))) = (\<lambda>p e (g, s). map_option (\<lambda>(rc, o', s').
      (rc, (\<lambda>o' (v, _, u). (v, o', u)) o' g, s')) (cpufreq_governor_dbs ke (Some (exynos_target xe)) p e ((\<lambda>(v, o', u). o') g, s)))"
    "lift_us (cpufreq_governor_userspace (sysfs_create_rc ke) told_log (Some (exynos_target xe))) = (\<lambda>p e (g, s). map_option (\<lambda>(rc, u, s').
      (rc, (\<lambda>u (v, o', _). (v, o', u)) u g, s'))
      (cpufreq_governor_userspace (sysfs_create_rc ke) told_log (Some (exynos_target xe)) p e ((\<lambda>(v, o', u). u) g, s)))"
    by (auto simp: fun_eq_iff lift_vbfs_def lift_dbs_def lift_us_def split: prod.splits)
  have "governor_ops (lift_vbfs (cpufreq_governor_vbfs ke (Some (exynos_target xe))))"
    unfolding eqs(1) by (rule v)
  moreover have "governor_ops (lift_dbs (cpufreq_governor_dbs ke (Some (exynos_target xe))))"
    unfolding eqs(2) by (rule d)
  moreover have "governor_ops (lift_us (cpufreq_governor_userspace (sysfs_create_rc ke) told_log (Some (exynos_target xe))))"
    unfolding eqs(3) by (rule u)
  ultimately show ?thesis
    by (simp add: stack_gov_def cpufreq_gov_vbfs_def cpufreq_gov_ondemand_def cpufreq_gov_userspace_def)
qed

lemma stack_sys_info:
  assumes "stack_sys xe p s"
  obtains info where "exynos_info (drv s) = Info info"
  using assms by (auto simp: stack_sys_def exynos_ok_def)

lemma stack_alike:
  assumes "alike s s'"
  shows "stack_running xe (g, s) p n \<Longrightarrow> stack_running xe (g, s') p n"
    "stack_idle xe (g, s) p n \<Longrightarrow> stack_idle xe (g, s') p n"
    "stack_tuned xe (g, s) p n \<Longrightarrow> same_limits p s s' \<Longrightarrow> stack_tuned xe (g, s') p n"
proof -
  have cpu: "pol_cpu (policies s' p) = pol_cpu (policies s p)" using assms by (simp add: alike_def)
  note sys = stack_sys_alike [OF _ assms, of xe p]
  show r: "stack_running xe (g, s) p n \<Longrightarrow> stack_running xe (g, s') p n"
    using cpu sys by (auto simp: stack_running_def)
  show "stack_idle xe (g, s) p n \<Longrightarrow> stack_idle xe (g, s') p n"
    using sys by (auto simp: stack_idle_def)
  show "stack_tuned xe (g, s) p n \<Longrightarrow> same_limits p s s' \<Longrightarrow> stack_tuned xe (g, s') p n"
    using cpu r by (auto simp: stack_tuned_def knows_limits_def same_limits_def)
qed

lemma stack_chain:
  assumes "stack_running xe (g, s) p n" "pol_governor q \<noteq> None"
  shows "\<exists>s'. exynos_chain l e q s = Some (q, s') \<and> stack_running xe (g, s') p n
    \<and> (stack_tuned xe (g, s) p n \<longrightarrow> stack_tuned xe (g, s') p n) \<and> sys_frame s' = sys_frame s \<and> target_log s' = target_log s"
proof -
  have k: "stack_sys xe p (upd_drv (\<lambda>d. d\<lparr>exynos_cpufreq_lock_disable := b\<rparr>) s)" if "stack_sys xe p s" for b
    using that by (simp add: stack_sys_def exynos_ok_def upd_drv_def)
  then show ?thesis
    using assms by (cases "0 \<in> set l"; cases e)
      (auto simp: exynos_chain_def exynos_cpufreq_policy_notifier_call_def stack_running_def stack_tuned_def
        sys_frame_def upd_drv_def)
qed

lemma stack_verify:
  assumes "stack_ok ke xe base"
  shows "stack_running xe (g, s) p n \<Longrightarrow> \<exists>rc a b. exynos_verify_speed xe q s = Some (rc, q\<lparr>pol_min := a, pol_max := b\<rparr>)"
    "exynos_verify_speed xe q s = Some (0, q') \<Longrightarrow> cpuinfo_min q \<le> cpuinfo_max q \<Longrightarrow> in_range q'"
proof -
  have v: "verify_ok xe" using assms by (simp add: stack_ok_def)
  show "stack_running xe (g, s) p n \<Longrightarrow> \<exists>rc a b. exynos_verify_speed xe q s = Some (rc, q\<lparr>pol_min := a, pol_max := b\<rparr>)"
  proof -
    assume "stack_running xe (g, s) p n"
    then obtain info where i: "exynos_info (drv s) = Info info"
      by (auto simp: stack_running_def elim!: stack_sys_info)
    obtain rc a b where "xe_verify xe q (ex_freq_table info) = (rc, q\<lparr>pol_min := a, pol_max := b\<rparr>)"
      using v unfolding verify_ok_def by blast
    then have "exynos_verify_speed xe q s = Some (rc, q\<lparr>pol_min := a, pol_max := b\<rparr>)"
      by (simp add: exynos_verify_speed_def deref_def i)
    then show ?thesis by blast
  qed
  assume r: "exynos_verify_speed xe q s = Some (0, q')" "cpuinfo_min q \<le> cpuinfo_max q"
  then obtain t where t: "xe_verify xe q t = (0, q')"
    by (auto simp: exynos_verify_speed_def fault_simps)
  obtain rc a b where "xe_verify xe q t = (rc, q\<lparr>pol_min := a, pol_max := b\<rparr>)"
    "rc = 0 \<longrightarrow> cpuinfo_min q \<le> cpuinfo_max q \<longrightarrow> in_range (q\<lparr>pol_min := a, pol_max := b\<rparr>)"
    using v unfolding verify_ok_def by blast
  with t r(2) show "in_range q'" by auto
qed

lemma stack_get:
  assumes "stack_ok ke xe base" "stack_sys xe p s"
  shows "\<exists>f. exynos_getspeed xe cpu s = Some f \<and> f \<noteq> 0"
proof -
  have "1000 \<le> xe_clk_get_rate xe (hw (drv s))" using assms(1) by (simp add: stack_ok_def)
  then have "1000 \<le> unat (xe_clk_get_rate xe (hw (drv s)))"
    by (simp add: word_le_nat_alt)
  then have "unat (xe_clk_get_rate xe (hw (drv s)) div 1000) \<noteq> 0"
    by (simp add: unat_div)
  then have "xe_clk_get_rate xe (hw (drv s)) div 1000 \<noteq> 0"
    by (metis unat_0)
  moreover obtain info where "exynos_info (drv s) = Info info" by (rule stack_sys_info [OF assms(2)])
  ultimately show ?thesis
    by (simp add: exynos_getspeed_def deref_def)
qed

section \<open>The governors' speed files\<close>

lemma clamp_speed:
  fixes f lo hi :: u32
  assumes "lo \<le> hi"
  shows "lo \<le> (if (if f < lo then lo else f) > hi then hi else if f < lo then lo else f)
    \<and> (if (if f < lo then lo else f) > hi then hi else if f < lo then lo else f) \<le> hi"
  using assms by auto

lemma stack_store_speed:
  assumes "stack_tuned xe (g, s) p n" "gv_store_setspeed (stack_gov ke (Some (exynos_target xe)) n) = Some store"
    and "pol_min (policies s p) \<le> pol_max (policies s p)"
  shows "\<exists>rc g' s'. store p f (g, s) = Some (rc, g', s') \<and> stack_tuned xe (g', s') p n \<and> sys_frame s' = sys_frame s
    \<and> requests_within p s s'"
proof -
  obtain v o' u where g: "g = (v, o', u)" by (metis prod.exhaust)
  have n: "n \<in> gov_names" and sys: "stack_sys xe p s" using assms(1) by (simp_all add: g stack_tuned_def stack_running_def)
  let ?lo = "pol_min (policies s p)" and ?hi = "pol_max (policies s p)"
  let ?f = "if (if f < ?lo then ?lo else f) > ?hi then ?hi else if f < ?lo then ?lo else f"
  have f: "?lo \<le> ?f \<and> ?f \<le> ?hi" by (rule clamp_speed [OF assms(3)])
  obtain rc s' where t: "cpufreq_driver_target_locked (Some (exynos_target xe)) p ?f RELATION_L s = Some (rc, s')"
    "stack_sys xe p s'" "limits_of (policies s' p) = limits_of (policies s p)"
    using stack_target_total [OF sys] by blast
  have fr: "sys_frame s' = sys_frame s" by (rule exynos.locked_frame [OF t(1)])
  have w: "requests_within p s s'" by (rule requests_within_one [OF exynos.locked_log [OF t(1)]]) (use f in auto)
  from n show ?thesis
  proof (cases rule: gov_names_cases)
    case 1
    have "vbfs_cpufreq_set (Some (exynos_target xe)) p f (v, s) = Some (rc, v\<lparr>l_vbfs_cpufreq_set_flag := 1\<rparr>, s')"
      using t(1) by (simp add: vbfs_cpufreq_set_def Let_def)
    then show ?thesis
      using assms(1,2) t(2,3) fr w by (auto simp: 1 g stack_gov_defs stack_state_defs limits_of_eq)
  next
    case 2
    then show ?thesis using assms(2) by (simp add: stack_gov_defs)
  next
    case 3
    have m: "cpu_is_managed u (pol_cpu (policies s p)) \<noteq> 0" "cpu_min_freq u (pol_cpu (policies s p)) = ?lo"
      "cpu_max_freq u (pol_cpu (policies s p)) = ?hi"
      using assms(1) by (simp_all add: 3 g stack_state_defs)
    let ?u = "u\<lparr>cpu_set_freq := (cpu_set_freq u)(pol_cpu (policies s p) := f)\<rparr>"
    have e: "cpu_min_freq ?u = cpu_min_freq u" "cpu_max_freq ?u = cpu_max_freq u" "cpu_is_managed ?u = cpu_is_managed u"
      by simp_all
    have "userspace_cpufreq_set told_log (Some (exynos_target xe)) p f (u, s) = Some (rc, us_hear told_log s s' ?u, s')"
      by (simp only: userspace_cpufreq_set_def prod.case Let_def if_False e m t(1) bind.bind_lunit)
    then show ?thesis
      using assms(1,2) t(2,3) fr w m by (auto simp: 3 g stack_gov_defs stack_state_defs limits_of_eq)
  qed
qed

lemma stack_show_speed:
  assumes "stack_tuned xe (g, s) p n" "gv_show_setspeed (stack_gov ke tgt n) = Some sh" "sh p (g, s) = (t, g', s')"
  shows "stack_tuned xe (g', s') p n \<and> s' = s"
proof -
  obtain v o' u where g: "g = (v, o', u)" by (metis prod.exhaust)
  have n: "n \<in> gov_names" using assms(1) by (simp add: g stack_tuned_def stack_running_def)
  then show ?thesis
    by (cases rule: gov_names_cases)
      (use assms in \<open>auto simp: g stack_gov_defs stack_state_defs vbfs_show_speed_def\<close>)
qed

section \<open>The contract\<close>

lemma exynos_driver_simps [simp]:
  "dr_verify (exynos_driver xe) = Some (exynos_verify_speed xe)" "dr_setpolicy (exynos_driver xe) = None"
  "dr_target (exynos_driver xe) = Some (exynos_target xe)" "dr_get (exynos_driver xe) = Some (exynos_getspeed xe)"
  by (simp_all add: exynos_driver_def)

lemma stack_env_simps [simp]:
  "ce_gov (stack_env ke xe base) = stack_gov ke (Some (exynos_target xe))"
  "ce_policy_chain (stack_env ke xe base) = exynos_chain"
  "ce_module_get (stack_env ke xe base) = ce_module_get base"
  "ce_gov_performance (stack_env ke xe base) = ce_gov_performance base"
  "ce_request_module (stack_env ke xe base) = ce_request_module base"
  by (simp_all add: stack_env_def)

locale exynos_stack =
  fixes ke :: kenv and xe :: exynos_env and base :: "(govs, exynos) core_env"
  assumes ok: "stack_ok ke xe base"

lemma exynos_core_parts:
  assumes "stack_ok ke xe base"
  shows "core_parts (stack_env ke xe base) (exynos_driver xe) gov_names (exynos_verify_speed xe)
    (stack_running xe) (stack_tuned xe) (stack_idle xe)"
proof (rule core_parts.intro, goal_cases)
  case (4 n) then show ?case using assms by (simp add: stack_ok_def)
next
  case (5 h) then show ?case using assms by (simp add: stack_ok_def)
next
  case (6 x p n m) then show ?case using stack_start [OF assms, of x p n m] by fastforce
next
  case (7 x p n) then show ?case using stack_stop [of xe x p n] by simp
next
  case (8 x p n) then show ?case using stack_limits [of xe x p n ke] by auto
next
  case (9 x p n) then show ?case by (simp add: stack_tuned_def)
next
  case (13 g s p n q) then show ?case by (rule stack_verify(1) [OF assms])
next
  case (14 q s q') then show ?case using stack_verify(2) [OF assms] by blast
next
  case (15 g s p n q l e)
  obtain s' where "exynos_chain l e q s = Some (q, s')" "stack_running xe (g, s') p n"
    "stack_tuned xe (g, s) p n \<longrightarrow> stack_tuned xe (g, s') p n" "sys_frame s' = sys_frame s" "target_log s' = target_log s"
    using stack_chain [OF 15] by blast
  then have "exynos_chain l e q s = Some (q\<lparr>pol_min := pol_min q, pol_max := pol_max q\<rparr>, s')
      \<and> stack_running xe (g, s') p n \<and> (stack_tuned xe (g, s) p n \<longrightarrow> stack_tuned xe (g, s') p n)
      \<and> sys_frame s' = sys_frame s \<and> target_log s' = target_log s" by simp
  then show ?case unfolding stack_env_simps by blast
qed (simp_all add: stack_governor_ops stack_alike del: not_None_eq)

sublocale exynos_stack \<subseteq> core_parts "stack_env ke xe base" "exynos_driver xe" gov_names "exynos_verify_speed xe"
  "stack_running xe" "stack_tuned xe" "stack_idle xe"
  by (rule exynos_core_parts [OF ok])

lemma exynos_core_stack:
  assumes "stack_ok ke xe base"
  shows "core_stack (stack_env ke xe base) (exynos_driver xe) gov_names (exynos_verify_speed xe)
    (stack_running xe) (stack_tuned xe) (stack_idle xe)"
proof (intro core_stack.intro exynos_core_parts [OF assms] core_stack_axioms.intro, goal_cases)
  case (1 str) then show ?case using assms by (simp add: stack_ok_def)
next
  case 2 then show ?case by simp
next
  case (3 g s p n get cpu)
  then show ?case using stack_get [OF assms, of p s cpu] by (auto simp: stack_tuned_def stack_running_def)
next
  case (4 g s p n store v) then show ?case using stack_store_speed [of xe g s p n ke store v] by simp
next
  case (5 g s p n sh t g' s') then show ?case using stack_show_speed by (metis stack_env_simps(1))
qed

sublocale exynos_stack \<subseteq> core_stack "stack_env ke xe base" "exynos_driver xe" gov_names "exynos_verify_speed xe"
  "stack_running xe" "stack_tuned xe" "stack_idle xe"
  by (rule exynos_core_stack [OF ok])

section \<open>A board\<close>

definition demo_verify :: "cpufreq_policy \<Rightarrow> ftable \<Rightarrow> int \<times> cpufreq_policy" where
  "demo_verify q t =
     (let lo = min (max (cpuinfo_min q) (pol_min q)) (cpuinfo_max q)
      in (0, q\<lparr>pol_min := lo, pol_max := max lo (min (cpuinfo_max q) (pol_max q))\<rparr>))"

definition demo_ke :: kenv where
  "demo_ke = demo_env\<lparr>usecs_to_jiffies := \<lambda>u. u div 5000 + 1\<rparr>"

definition demo_board :: exynos_env where
  "demo_board = demo_xe\<lparr>xe_verify := demo_verify\<rparr>"

definition demo_base :: "(govs, exynos) core_env" where
  "demo_base = \<lparr>ce_scale = demo_scale, ce_gov = (\<lambda>_. cpufreq_gov_userspace demo_ke None), ce_module_get = (\<lambda>_. True),
     ce_driver_module = True, ce_request_module = (\<lambda>str. if str = ''cpufreq_ondemand'' then (0, [''ondemand'']) else (256, [])),
     ce_policy_chain = exynos_chain, ce_chain_register = (\<lambda>n l. (0, n # l)), ce_chain_unregister = (\<lambda>n l. (0, removeAll n l)),
     ce_default_governor = ''vbfs'', ce_gov_performance = None, ce_run_thread_number = 5,
     ce_msecs_to_jiffies = (\<lambda>m. m div 5), ce_alloc = None, ce_kobject_rc = 0, ce_file_rc = (\<lambda>_. 0), ce_link_rc = (\<lambda>_. 0),
     ce_present = [0, 1, 2, 3], ce_boot_cpu = 0, ce_sysdev_register_rc = 0\<rparr>"

definition demo_us :: us_state where
  "demo_us = \<lparr>cpu_max_freq = (\<lambda>_. 0), cpu_min_freq = (\<lambda>_. 0), cpu_cur_freq = (\<lambda>_. 0), cpu_set_freq = (\<lambda>_. 0),
     cpu_is_managed = (\<lambda>_. 0), cpus_using_userspace_governor = 0, us_notifier = False, us_attr_group = False\<rparr>"

definition demo_core :: "(govs, exynos) core" where
  "demo_core = \<lparr>csys = demo_esys, gsts = (demo_vbfs, demo_dbs\<lparr>dbs_enable := 0\<rparr>, demo_us), the_driver = Some (exynos_driver demo_board),
     gov_list = [''userspace'', ''vbfs''], saved_gov = (\<lambda>_. []), policy_cpu = (\<lambda>c. if c < 4 then Some 0 else None),
     rwsem = (\<lambda>_. Sem_free), gov_refs = (\<lambda>n. if n = ''vbfs'' then 1 else 0), policy_notifiers = [0], trans_notifiers = [],
     kobj_done = (\<lambda>_. 0), update_work = {}, kobj_link = (\<lambda>c. if c < 4 then Some 0 else None), next_pol = 1, freed_pols = {},
     use_pss_or_meminfo = 0, monitor = status_monitor_init, hotcpu_notifier = True, sysdev_driver = True\<rparr>"

lemma demo_verify_ok: "verify_ok demo_board"
proof -
  have "in_range (snd (demo_verify q t))" if "cpuinfo_min q \<le> cpuinfo_max q" for q t
    using that by (auto simp: demo_verify_def Let_def in_range_def min_def max_def)
  moreover have "\<exists>a b. demo_verify q t = (0, q\<lparr>pol_min := a, pol_max := b\<rparr>)" for q t
    unfolding demo_verify_def Let_def by blast
  ultimately have "\<exists>a b. demo_verify q t = (0, q\<lparr>pol_min := a, pol_max := b\<rparr>)
      \<and> (cpuinfo_min q \<le> cpuinfo_max q \<longrightarrow> in_range (q\<lparr>pol_min := a, pol_max := b\<rparr>))" for q t
    by (metis snd_conv)
  then show ?thesis
    by (simp add: verify_ok_def demo_board_def) blast
qed

lemma demo_stack_ok: "stack_ok demo_ke demo_board demo_base"
proof -
  have "w div 5000 + 1 \<noteq> 0" for w :: u32
  proof -
    have "unat (w div 5000) < 2 ^ 32 - 1"
      using unsigned_less [where 'a = nat, of w] by (simp add: unat_div)
    then have "unat (w div 5000 + 1) = unat (w div 5000) + 1"
      by (simp add: unat_word_ariths)
    then show ?thesis by (metis Suc_eq_plus1 nat.simps(3) unat_0)
  qed
  moreover have "1000 \<le> xe_clk_get_rate demo_board h" for h
    by (simp add: demo_board_def demo_xe_def)
  ultimately show ?thesis
    using demo_verify_ok by (simp add: stack_ok_def demo_base_def demo_ke_def demo_env_def gov_names_def)
qed

interpretation board: exynos_stack demo_ke demo_board demo_base
  by unfold_locales (rule demo_stack_ok)

lemma demo_policy_at:
  "policy_at (stack_env demo_ke demo_board demo_base) (exynos_driver demo_board) gov_names (stack_tuned demo_board)
    demo_core 0 Sem_free"
proof -
  have "ftt_contract scan_ftt" by (rule scan_ftt_contract)
  then have "stack_sys demo_board 0 demo_esys"
    by (simp add: stack_sys_def exynos_ok_def demo_board_def demo_xe_def demo_esys_def demo_exynos_def demo_pol_def demo_chip_def)
  then have "stack_tuned demo_board ((demo_vbfs, demo_dbs\<lparr>dbs_enable := 0\<rparr>, demo_us), demo_esys) 0 ''vbfs''"
    by (simp add: stack_state_defs gov_names_def demo_vbfs_def demo_dbs_def demo_us_def demo_info_def)
  then have "live_policy (stack_env demo_ke demo_board demo_base) (exynos_driver demo_board) gov_names
      (stack_tuned demo_board) demo_core 0 ''vbfs''"
    by (simp add: live_policy_def demo_core_def fits_def stack_gov_defs gov_names_def)
      (simp add: demo_esys_def demo_pol_def in_range_def)
  moreover have "findable demo_core 0 Sem_free" "\<exists>m \<in> gov_names. user_governor (pol demo_core 0) = Some m"
    by (simp_all add: findable_def demo_core_def demo_esys_def demo_pol_def gov_names_def)
  ultimately show ?thesis
    unfolding policy_at_def by (auto simp: demo_core_def gov_names_def)
qed

section \<open>The core and its parts\<close>



end
