(* ===== verification/Exynos_Faults.thy ===== *)
theory Exynos_Faults
  imports Exynos_Calls
begin

text \<open>
  What the Exynos driver leaves behind: a request at limits that exclude the current frequency, the
  policy references that the lock, the limit and the fix never give back, a failed initialisation,
  and the scan of the voltages.
\<close>

section \<open>A request after the limits have moved\<close>

lemma ftt_max_row:
  assumes "ftt_contract ftt" "length t < 2 ^ 31" "desc_table t" "usable p t i" "pol_max p \<le> f"
    and "ftt p t f RELATION_H = Some w" "ftt p t (pol_max p) RELATION_H = Some x"
  shows "w = x"
proof -
  have bw: "best_H p t f (unat w)" and bx: "best_H p t (pol_max p) (unat x)"
    using ftt_contractD [OF assms(1,2,4)] assms(6,7) by (metis option.inject)+
  have uw: "usable p t (unat w)" and ux: "usable p t (unat x)"
    using best_usable(2) bw bx by blast+
  have "frequency (t ! unat x) \<le> pol_max p" "frequency (t ! unat w) \<le> pol_max p"
    using usable_bounds [OF ux] usable_bounds [OF uw] by simp_all
  then have "frequency (t ! unat x) \<le> frequency (t ! unat w)" "frequency (t ! unat w) \<le> frequency (t ! unat x)"
    using best_H_leD [OF bw ux] best_H_leD [OF bx uw] assms(5) by (auto dest: order_trans)
  then have "unat w = unat x"
    using desc_rows(1) [OF assms(3) ux uw] desc_rows(1) [OF assms(3) uw ux] by simp
  then show ?thesis by (simp add: word_unat_eq_iff)
qed

text \<open>
  Claim C36. When the policy's maximum has been lowered below the current frequency, the request that
  every governor makes at that moment (the new maximum, with \<open>RELATION_H\<close>) is not safe: the driver
  looks for the current frequency inside the new limits, takes the new level for the old one, and asks
  the chip for a change from the new level to itself; then it lowers the voltage and reports the new
  frequency, with the clock named nowhere.
\<close>

theorem exynos_stale_old_level:
  assumes "exynos_ready xe info p s" "\<not> exynos_cpufreq_disable (drv s)" "at_level info p s (v, a)"
    and "pol_max (policies s p) < pol_cur (policies s p)" "usable (policies s p) (ex_freq_table info) i"
    and "xe_ftt xe (policies s p) (ex_freq_table info) (pol_max (policies s p)) RELATION_H = Some w"
    and "clamp_index (drv s) w = w"
  shows "\<exists>s' evs. exynos_target xe p (pol_max (policies s p)) RELATION_H s = Some (0, s')
    \<and> hw (drv s') = hw (drv s) @ evs \<and> Set_freq w w \<in> set evs \<and> (\<forall>x y. Set_freq x y \<in> set evs \<longrightarrow> x = w \<and> y = w)
    \<and> w \<noteq> a \<and> \<not> hw_safe info evs (v, a) \<and> fst (hw_run evs (v, a)) = level_volt info w
    \<and> pol_cur (policies s' p) = frequency (ex_freq_table info ! unat w)"
proof -
  let ?t = "ex_freq_table info"
  have ftt: "ftt_contract (xe_ftt xe)" and chip: "chip_ok info" using assms(1) by (simp_all add: exynos_ready_def)
  have len: "length ?t < 2 ^ 31" and desc: "desc_table ?t" using chip by (simp_all add: chip_ok_def)
  obtain o' where o: "xe_ftt xe (policies s p) ?t (pol_cur (policies s p)) RELATION_H = Some o'"
    using ftt_contractD [OF ftt len assms(5)] by blast
  have "o' = w" using ftt_max_row [OF ftt len desc assms(5) _ o assms(6)] assms(4) by simp
  with o have old: "xe_ftt xe (policies s p) ?t (pol_cur (policies s p)) RELATION_H = Some w" by simp
  note f = exynos_target_found [OF assms(1,2) old assms(6), unfolded assms(7)]
  have fw: "frequency (?t ! unat w) < pol_cur (policies s p)"
    using usable_bounds [OF ftt_row [OF ftt len assms(6)]] assms(4) by (blast intro: le_less_trans)
  then have wa: "w \<noteq> a" using assms(3) by (auto simp: at_level_def)
  let ?sv = "if apll_switch info w w then level_volt info (pll_safe_idx info) else 0"
  let ?evs = "change_events (pol_cur (policies s p)) (frequency (?t ! unat w)) w w ?sv (level_volt info w)"
  obtain s' where s': "exynos_target xe p (pol_max (policies s p)) RELATION_H s = Some (0, s')"
      "pol_cur (policies s' p) = frequency (?t ! unat w)" "hw (drv s') = hw (drv s) @ ?evs"
    using f(4) by blast
  have ev: "?evs = (if ?sv \<noteq> 0 then [Set_volt ?sv (?sv + 25000)] else [])
      @ [Set_freq w w, Set_volt (level_volt info w) (level_volt info w + 25000)]"
    using fw order_less_not_sym [OF fw] by (auto simp: change_events_def)
  have "Set_freq w w \<in> set ?evs \<and> (\<forall>x y. Set_freq x y \<in> set ?evs \<longrightarrow> x = w \<and> y = w)
    \<and> \<not> hw_safe info ?evs (v, a) \<and> fst (hw_run ?evs (v, a)) = level_volt info w"
    using wa unfolding ev by auto
  with s' wa show ?thesis by blast
qed

definition demo_lowered :: esys where
  "demo_lowered = demo_esys\<lparr>policies := (\<lambda>_. demo_pol\<lparr>pol_max := 200000\<rparr>)\<rparr>"

theorem exynos_stale_old_level_witness:
  "\<exists>s' evs. exynos_target demo_xe 0 200000 RELATION_H demo_lowered = Some (0, s')
    \<and> hw (drv s') = evs \<and> Set_freq 4 4 \<in> set evs \<and> \<not> hw_safe demo_chip evs (950000, 3)
    \<and> fst (hw_run evs (950000, 3)) = 900000 \<and> pol_cur (policies s' 0) = 200000"
proof -
  have p: "policies demo_lowered 0 = demo_pol\<lparr>pol_max := 200000\<rparr>" "drv demo_lowered = demo_exynos"
    "cpu_data demo_lowered 0 = Some 0"
    by (simp_all add: demo_lowered_def demo_esys_def)
  have 1: "exynos_ready demo_xe demo_chip 0 demo_lowered"
    using demo_exynos_ready by (simp add: exynos_ready_def p demo_esys_def demo_pol_def)
  have 2: "\<not> exynos_cpufreq_disable (drv demo_lowered)" "clamp_index (drv demo_lowered) 4 = 4"
    by (simp_all add: p demo_exynos_def clamp_index_def)
  have 3: "at_level demo_chip 0 demo_lowered (950000, 3)"
    using demo_at_level by (simp add: at_level_def p demo_esys_def)
  have 4: "pol_max (policies demo_lowered 0) < pol_cur (policies demo_lowered 0)" "pol_max (policies demo_lowered 0) = 200000"
    "usable (policies demo_lowered 0) (ex_freq_table demo_chip) 4"
    by (simp_all add: p demo_pol_def usable_def demo_chip_def)
  have 5: "xe_ftt demo_xe (policies demo_lowered 0) (ex_freq_table demo_chip) (pol_max (policies demo_lowered 0)) RELATION_H
      = Some 4"
    by code_simp
  have 6: "level_volt demo_chip 4 = 900000" "frequency (ex_freq_table demo_chip ! unat (4 :: u32)) = 200000"
    "hw (drv demo_lowered) = []"
    by (simp_all add: level_volt_def demo_chip_def p demo_exynos_def)
  show ?thesis
    using exynos_stale_old_level [OF 1 2(1) 3 4(1,3) 5 2(2)] unfolding 4(2) 6 by auto
qed

section \<open>References\<close>

text \<open>
  Every lock call that gets past the first checks takes a reference to the policy of CPU 0,
  and no path gives it back: not the call that finds the level already held, not the one that fails,
  and not \<open>exynos_cpufreq_lock_free\<close>.
\<close>

theorem exynos_lock_leaks_reference:
  assumes "arb_inv info n s" "lock_open xe s nId" "exynos_cpufreq_lock xe nId level s = Some (rc, s1)"
    and "exynos_cpufreq_lock_free nId s1 = Some s2"
  shows "\<exists>p. cpu_data s 0 = Some p \<and> pol_refs s1 p = pol_refs s p + 1 \<and> pol_refs s2 p = pol_refs s p + 1"
proof -
  obtain p where p: "cpu0_policy s = Some p" and c: "s1 = ref_taken p s \<or>
      same_frame (upd_drv (\<lambda>d. d\<lparr>g_lock := vote_take (<) nId level (g_lock d)\<rparr>) (ref_taken p s)) s1"
    using lock_cases [OF assms(1,3)] assms(2) by blast
  have 1: "pol_refs s1 p = pol_refs s p + 1"
    using c by (auto simp: ref_taken_def dest: same_frameD(10))
  have "pol_refs s2 = pol_refs s1"
    using assms(4) by (auto simp: exynos_cpufreq_lock_free_def fault_simps split: if_splits)
  then show ?thesis using 1 p by (auto simp: cpu0_policy_def split: if_splits)
qed

lemma demo_arb_inv: "arb_inv demo_chip 10 demo_esys"
  by (simp add: arb_inv_def demo_esys_def demo_exynos_def lock_order.votes_ok_def limit_order.votes_ok_def
      lock_order.best_of_def limit_order.best_of_def)
    (simp add: demo_chip_def)

theorem exynos_lock_leaks_reference_witness:
  "\<exists>rc s1 s2. exynos_cpufreq_lock demo_xe 3 4 demo_esys = Some (rc, s1)
    \<and> exynos_cpufreq_lock_free 3 s1 = Some s2 \<and> pol_refs s2 0 = 2"
proof -
  have op: "lock_open demo_xe demo_esys 3"
    by (simp add: lock_open_def demo_esys_def demo_exynos_def cpu0_policy_def)
  have "Option.bind (exynos_cpufreq_lock demo_xe 3 4 demo_esys) (\<lambda>(rc, s). exynos_cpufreq_lock_free 3 s) \<noteq> None"
    by code_simp
  then obtain rc s1 s2 where s: "exynos_cpufreq_lock demo_xe 3 4 demo_esys = Some (rc, s1)"
      "exynos_cpufreq_lock_free 3 s1 = Some s2"
    by (auto simp: fault_simps)
  have "cpu_data demo_esys 0 = Some 0" "pol_refs demo_esys 0 = 1" by (simp_all add: demo_esys_def)
  then show ?thesis using exynos_lock_leaks_reference [OF demo_arb_inv op s] s by auto
qed

section \<open>A failed initialisation\<close>

text \<open>
  When the registration of the driver fails, \<open>exynos_cpufreq_init\<close> returns \<open>-EINVAL\<close> with
  the driver's data freed but \<open>exynos_cpufreq_init_done\<close> set and the policy notifier still registered:
  the next call that frees a lock or a limit reads the freed memory.
\<close>

theorem exynos_failed_init_dangles:
  assumes "\<And>s. \<exists>rc s'. reg s = Some (rc, s') \<and> rc \<noteq> 0 \<and> exynos_cpufreq_init_done (drv s') = exynos_cpufreq_init_done (drv s)
    \<and> ex_policy_notifier (drv s') = ex_policy_notifier (drv s)"
  shows "\<exists>s'. exynos_cpufreq_init xe True (Some (0, info, True)) True reg s = Some (- EINVAL, s')
    \<and> exynos_cpufreq_init_done (drv s') \<and> ex_policy_notifier (drv s')
    \<and> exynos_cpufreq_lock_free nId s' = None \<and> exynos_cpufreq_upper_limit_free nId s' = None"
proof -
  define f :: "exynos \<Rightarrow> exynos" where "f = (\<lambda>d. d\<lparr>exynos_info := Info info, ex_regulator := True,
              exynos_cpufreq_disable := False, ex_pm_notifier := True, ex_reboot_notifier := True,
              ex_policy_notifier := True, exynos_cpufreq_init_done := True,
              g_lock := votes_init (xe_id_end xe) (min_support_idx info) (g_lock d),
              g_limit := votes_init (xe_id_end xe) (max_support_idx info) (g_limit d)\<rparr>)"
  obtain rc s1 where s1: "reg (upd_drv f s) = Some (rc, s1)" "rc \<noteq> 0" "exynos_cpufreq_init_done (drv s1)"
    "ex_policy_notifier (drv s1)"
    using assms [of "upd_drv f s"] by (auto simp: f_def)
  then show ?thesis
    by (simp add: exynos_cpufreq_init_def f_def [symmetric] exynos_cpufreq_lock_free_def
        exynos_cpufreq_upper_limit_free_def deref_def)
qed

theorem exynos_failed_init_dangles_witness:
  "\<exists>s'. exynos_cpufreq_init demo_xe True (Some (0, demo_chip, True)) True (\<lambda>s. Some (- EBUSY, s)) demo_esys
      = Some (- EINVAL, s') \<and> exynos_cpufreq_lock_free 3 s' = None"
  using exynos_failed_init_dangles [of "\<lambda>s. Some (- EBUSY, s)" demo_xe demo_chip demo_esys 3] by auto

section \<open>The level of a voltage\<close>

text \<open>The levels the scan accepts, slowest first.\<close>

definition volt_levels :: "u32 list \<Rightarrow> u32 \<Rightarrow> u32 \<Rightarrow> nat \<Rightarrow> nat list" where
  "volt_levels volts maxidx arm_volt i = filter (\<lambda>k. volts ! k \<ge> arm_volt) (rev [unat maxidx..<Suc i])"

lemma volt_scan_run:
  assumes "length volts < 2 ^ 31" "0 < maxidx" "i < length volts"
  shows "volt_scan volts maxidx arm (int i) = Some (case volt_levels volts maxidx arm i of
    [] \<Rightarrow> None | k # ks \<Rightarrow> Some (of_nat k))"
  using assms(3)
proof (induction i)
  case 0
  have "\<not> maxidx \<le> c_uint (int 0)" using assms(2) by (simp add: c_uint_def word_gt_0)
  moreover have "0 < unat maxidx" using assms(2) unfolding word_less_nat_alt by (simp only: unat_0)
  ultimately show ?case by (subst volt_scan.simps) (simp add: volt_levels_def)
next
  case (Suc i)
  have u: "c_uint (int (Suc i)) = of_nat (Suc i)" "unat (of_nat (Suc i) :: u32) = Suc i"
    using Suc.prems assms(1) by (simp_all add: c_uint_def unat_of_nat_small del: of_nat_Suc)
  have le: "maxidx \<le> c_uint (int (Suc i)) \<longleftrightarrow> unat maxidx \<le> Suc i"
    by (simp only: u word_le_nat_alt)
  have m: "int (Suc i) - 1 = int i" by simp
  show ?case
    using Suc le u
    by (subst volt_scan.simps) (auto simp: volt_levels_def m nth_opt_def simp del: of_nat_Suc upt_Suc
        simp add: upt_Suc_append)
qed

lemma volt_levels_hd:
  "volt_levels volts maxidx arm i = [] \<longleftrightarrow> (\<forall>k. unat maxidx \<le> k \<longrightarrow> k \<le> i \<longrightarrow> volts ! k < arm)"
  "volt_levels volts maxidx arm i = k # ks \<Longrightarrow> unat maxidx \<le> k \<and> k \<le> i \<and> arm \<le> volts ! k
     \<and> (\<forall>j. k < j \<longrightarrow> j \<le> i \<longrightarrow> volts ! j < arm)"
proof -
  show "volt_levels volts maxidx arm i = [] \<longleftrightarrow> (\<forall>k. unat maxidx \<le> k \<longrightarrow> k \<le> i \<longrightarrow> volts ! k < arm)"
    by (auto simp: volt_levels_def filter_empty_conv not_le simp del: upt_Suc)
  assume v: "volt_levels volts maxidx arm i = k # ks"
  have "sorted_wrt (>) (volt_levels volts maxidx arm i)"
    unfolding volt_levels_def
    by (intro sorted_wrt_filter) (simp add: sorted_wrt_rev del: upt_Suc)
  then have desc: "\<forall>j \<in> set ks. j < k" by (simp add: v)
  have mem: "j \<in> set (k # ks) \<longleftrightarrow> unat maxidx \<le> j \<and> j \<le> i \<and> arm \<le> volts ! j" for j
    unfolding v [symmetric] by (auto simp: volt_levels_def simp del: upt_Suc)
  show "unat maxidx \<le> k \<and> k \<le> i \<and> arm \<le> volts ! k \<and> (\<forall>j. k < j \<longrightarrow> j \<le> i \<longrightarrow> volts ! j < arm)"
    using mem [of k] mem desc by (fastforce simp: not_le [symmetric])
qed

text \<open>
  The level that \<open>exynos_find_cpufreq_level_by_volt\<close> finds for a voltage is the slowest
  supported level whose voltage is enough, and it reports \<open>-EINVAL\<close> exactly when there is none - on
  a chip whose fastest supported level is not level 0.
\<close>

theorem exynos_volt_level:
  assumes "exynos_info (drv s) = Info info" "exynos_cpufreq_init_done (drv s)" "xe_get_table xe = Some t"
    and "arm \<noteq> 0" "0 < max_support_idx info" "unat (min_support_idx info) < length (volt_table info)"
    and "length (volt_table info) < 2 ^ 31"
  shows "\<exists>rc l. exynos_find_cpufreq_level_by_volt xe arm s = Some (rc, l) \<and>
    (case l of
       None \<Rightarrow> rc = - EINVAL \<and> (\<forall>k. unat (max_support_idx info) \<le> k \<longrightarrow> k \<le> unat (min_support_idx info) \<longrightarrow>
         volt_table info ! k < arm)
     | Some w \<Rightarrow> rc = 0 \<and> unat (max_support_idx info) \<le> unat w \<and> unat w \<le> unat (min_support_idx info)
         \<and> arm \<le> volt_table info ! unat w
         \<and> (\<forall>j. unat w < j \<longrightarrow> j \<le> unat (min_support_idx info) \<longrightarrow> volt_table info ! j < arm))"
proof -
  let ?i = "unat (min_support_idx info)"
  have c: "c_int (min_support_idx info) = int ?i"
    using assms(6,7) by (intro c_int_small) simp
  have run: "volt_scan (volt_table info) (max_support_idx info) arm (c_int (min_support_idx info))
    = Some (case volt_levels (volt_table info) (max_support_idx info) arm ?i of [] \<Rightarrow> None | k # ks \<Rightarrow> Some (of_nat k))"
    unfolding c by (rule volt_scan_run [OF assms(7,5,6)])
  show ?thesis
  proof (cases "volt_levels (volt_table info) (max_support_idx info) arm ?i")
    case Nil
    with run have "exynos_find_cpufreq_level_by_volt xe arm s = Some (- EINVAL, None)"
      by (simp add: exynos_find_cpufreq_level_by_volt_def deref_def assms(1-4))
    with Nil show ?thesis by (simp add: volt_levels_hd(1))
  next
    case (Cons k ks)
    note k = volt_levels_hd(2) [OF this]
    have u: "unat (of_nat k :: u32) = k" using k assms(6,7) by (intro unat_of_nat_small) simp
    from Cons run have "exynos_find_cpufreq_level_by_volt xe arm s = Some (0, Some (of_nat k))"
      by (simp add: exynos_find_cpufreq_level_by_volt_def deref_def assms(1-4))
    with k show ?thesis by (simp add: u)
  qed
qed

text \<open>On a chip whose fastest level is 0 the comparison is always true, and a voltage that no level
  has sends the scan to \<open>volt_table[-1]\<close>.\<close>

lemma volt_scan_zero:
  "i < length volts \<Longrightarrow> length volts < 2 ^ 31 \<Longrightarrow> \<forall>k \<le> i. volts ! k < arm \<Longrightarrow> volt_scan volts 0 arm (int i) = None"
proof (induction i)
  case 0
  then show ?case
    by (subst volt_scan.simps, subst volt_scan.simps) (simp add: nth_int_def nth_opt_def not_le)
next
  case (Suc i)
  have m: "int (Suc i) - 1 = int i" by simp
  show ?case using Suc by (subst volt_scan.simps) (simp add: nth_opt_def not_le m del: of_nat_Suc)
qed

text \<open>
  When the fastest supported level is level 0, asking for a voltage above that of every level does not report an error: the scan runs past the start of the table.
\<close>

theorem exynos_volt_level_underruns:
  assumes "exynos_info (drv s) = Info info" "exynos_cpufreq_init_done (drv s)" "xe_get_table xe = Some t"
    and "arm \<noteq> 0" "max_support_idx info = 0" "unat (min_support_idx info) < length (volt_table info)"
    and "length (volt_table info) < 2 ^ 31" "\<forall>k \<le> unat (min_support_idx info). volt_table info ! k < arm"
  shows "exynos_find_cpufreq_level_by_volt xe arm s = None"
proof -
  have c: "c_int (min_support_idx info) = int (unat (min_support_idx info))"
    using assms(6,7) by (intro c_int_small) simp
  have "volt_scan (volt_table info) 0 arm (c_int (min_support_idx info)) = None"
    unfolding c by (rule volt_scan_zero [OF assms(6,7,8)])
  then show ?thesis by (simp add: exynos_find_cpufreq_level_by_volt_def deref_def assms(1-5))
qed

theorem exynos_volt_level_underruns_witness:
  "exynos_find_cpufreq_level_by_volt demo_xe 1400000 demo_esys = None"
proof (rule exynos_volt_level_underruns [of _ demo_chip])
  show "\<forall>k \<le> unat (min_support_idx demo_chip). volt_table demo_chip ! k < 1400000"
  proof (intro allI impI)
    fix k assume "k \<le> unat (min_support_idx demo_chip)"
    then have "k \<le> 4" by (simp add: demo_chip_def)
    then have "k = 0 \<or> k = 1 \<or> k = 2 \<or> k = 3 \<or> k = 4" by arith
    then show "volt_table demo_chip ! k < 1400000" by (auto simp: demo_chip_def)
  qed
qed (simp_all add: demo_esys_def demo_exynos_def demo_xe_def, simp_all add: demo_chip_def)

definition demo_prime :: dvfs_info where
  "demo_prime = demo_chip\<lparr>max_support_idx := 1\<rparr>"

theorem exynos_volt_level_witness:
  "\<exists>rc l. exynos_find_cpufreq_level_by_volt demo_xe 960000 (upd_drv (\<lambda>d. d\<lparr>exynos_info := Info demo_prime\<rparr>) demo_esys)
     = Some (rc, l) \<and> rc = 0"
proof -
  let ?s = "upd_drv (\<lambda>d. d\<lparr>exynos_info := Info demo_prime\<rparr>) demo_esys"
  have 1: "exynos_info (drv ?s) = Info demo_prime" "exynos_cpufreq_init_done (drv ?s)"
    "xe_get_table demo_xe = Some (ex_freq_table demo_chip)" "(960000 :: u32) \<noteq> 0"
    by (simp_all add: demo_esys_def demo_exynos_def demo_xe_def)
  have 2: "0 < max_support_idx demo_prime" "unat (min_support_idx demo_prime) < length (volt_table demo_prime)"
    "length (volt_table demo_prime) < 2 ^ 31" "volt_table demo_prime ! 2 = 1000000"
    "max_support_idx demo_prime = 1" "min_support_idx demo_prime = 4"
    by (simp_all add: demo_prime_def demo_chip_def)
  obtain rc l where r: "exynos_find_cpufreq_level_by_volt demo_xe 960000 ?s = Some (rc, l)"
    and c: "case l of
       None \<Rightarrow> rc = - EINVAL \<and> (\<forall>k. unat (max_support_idx demo_prime) \<le> k \<longrightarrow> k \<le> unat (min_support_idx demo_prime) \<longrightarrow>
         volt_table demo_prime ! k < 960000)
     | Some w \<Rightarrow> rc = 0 \<and> unat (max_support_idx demo_prime) \<le> unat w \<and> unat w \<le> unat (min_support_idx demo_prime)
         \<and> 960000 \<le> volt_table demo_prime ! unat w
         \<and> (\<forall>j. unat w < j \<longrightarrow> j \<le> unat (min_support_idx demo_prime) \<longrightarrow> volt_table demo_prime ! j < 960000)"
    using exynos_volt_level [OF 1 2(1-3)] by blast
  have "l \<noteq> None" using c 2(4-6) by (auto split: option.splits dest: spec [of _ 2])
  then show ?thesis using r c by auto
qed

end
