(* ===== verification/Hotplug.thy ===== *)
theory Hotplug
  imports Transition
begin

text \<open>
  CPU hotplug by load (\<open>arch/arm/mach-exynos/dynamic-dvfs-nr_running-hotplug.c\<close>): a transition notifier
  counts how long the number of runnable threads and the frequency have been high or low and brings
  CPUs up or down. \<open>nr_running()\<close> is read anew for every comparison; \<open>nr k\<close> is the result of the \<open>k\<close>-th
  read of a call. \<open>cpu_up\<close>, \<open>cpu_down\<close> and \<open>cpu_online\<close> act on a world \<open>'w\<close> of their own; \<open>None\<close> is a
  call that does not return.
\<close>

section \<open>State\<close>

record hotplug =
  total_num_target_freq :: u32
  ctn_freq_in_trg_cnt :: u32
  ctn_freq_out_trg_cnt :: u32
  ctn_nr_running_over2 :: u32
  ctn_nr_running_over3 :: u32
  ctn_nr_running_over4 :: u32
  ctn_nr_running_under2 :: u32
  ctn_nr_running_under3 :: u32
  ctn_nr_running_under4 :: u32
  freq_max :: u32
  freq_min :: u32
  freq_in_trg :: u32
  freq_out_trg :: u32
  can_hotplug :: u32

definition hotplug_static :: hotplug where
  "hotplug_static = \<lparr>total_num_target_freq = 0, ctn_freq_in_trg_cnt = 0, ctn_freq_out_trg_cnt = 0,
     ctn_nr_running_over2 = 0, ctn_nr_running_over3 = 0, ctn_nr_running_over4 = 0,
     ctn_nr_running_under2 = 0, ctn_nr_running_under3 = 0, ctn_nr_running_under4 = 0,
     freq_max = 0, freq_min = - 1, freq_in_trg = 0, freq_out_trg = 0, can_hotplug = 0\<rparr>"

record 'w hp_env =
  soc_is_exynos4412 :: bool
  hp_online :: "'w \<Rightarrow> cpuid \<Rightarrow> bool"
  hp_up :: "cpuid \<Rightarrow> 'w \<Rightarrow> 'w option"
  hp_down :: "cpuid \<Rightarrow> 'w \<Rightarrow> 'w option"

section \<open>The counters\<close>

text \<open>A comparison \<open>a < nr_running() && nr_running() \<le> b\<close>: the second read happens if the first holds.\<close>

definition between :: "u32 \<Rightarrow> u32 \<Rightarrow> (nat \<Rightarrow> u32) \<Rightarrow> nat \<Rightarrow> bool \<times> nat" where
  "between a b nr k = (if nr k > a then (nr (k + 1) \<le> b, k + 2) else (False, k + 1))"

definition count_running :: "(nat \<Rightarrow> u32) \<Rightarrow> nat \<Rightarrow> hotplug \<Rightarrow> hotplug \<times> nat" where
  "count_running nr k h =
     (if nr k \<le> 1 then
        (h\<lparr>ctn_nr_running_over2 := 0, ctn_nr_running_over3 := 0, ctn_nr_running_over4 := 0,
           ctn_nr_running_under2 := ctn_nr_running_under2 h + 1,
           ctn_nr_running_under3 := ctn_nr_running_under3 h + 1,
           ctn_nr_running_under4 := ctn_nr_running_under4 h + 1\<rparr>, k + 1)
      else let (b, k) = between 1 2 nr (k + 1) in
      if b then
        (h\<lparr>ctn_nr_running_over2 := ctn_nr_running_over2 h + 1, ctn_nr_running_over3 := 0,
           ctn_nr_running_over4 := 0, ctn_nr_running_under2 := 0,
           ctn_nr_running_under3 := ctn_nr_running_under3 h + 1,
           ctn_nr_running_under4 := ctn_nr_running_under4 h + 1\<rparr>, k)
      else let (b, k) = between 2 3 nr k in
      if b then
        (h\<lparr>ctn_nr_running_over2 := ctn_nr_running_over2 h + 1,
           ctn_nr_running_over3 := ctn_nr_running_over3 h + 1,
           ctn_nr_running_over4 := 0, ctn_nr_running_under2 := 0, ctn_nr_running_under3 := 0,
           ctn_nr_running_under4 := ctn_nr_running_under4 h + 1\<rparr>, k)
      else if nr k > 3 then
        (h\<lparr>ctn_nr_running_over2 := ctn_nr_running_over2 h + 1,
           ctn_nr_running_over3 := ctn_nr_running_over3 h + 1,
           ctn_nr_running_over4 := ctn_nr_running_over4 h + 1,
           ctn_nr_running_under2 := 0, ctn_nr_running_under3 := 0, ctn_nr_running_under4 := 0\<rparr>, k + 1)
      else (h, k + 1))"

definition freq_in :: "hotplug \<Rightarrow> u32 \<Rightarrow> u32 \<Rightarrow> bool" where
  "freq_in h old new \<longleftrightarrow> old \<ge> freq_in_trg h \<and> new \<ge> freq_in_trg h"

definition freq_out :: "hotplug \<Rightarrow> u32 \<Rightarrow> u32 \<Rightarrow> bool" where
  "freq_out h old new \<longleftrightarrow> old \<le> freq_out_trg h \<and> new \<le> freq_out_trg h"

definition count_freq :: "u32 \<Rightarrow> u32 \<Rightarrow> hotplug \<Rightarrow> hotplug" where
  "count_freq old new h =
     (let h = h\<lparr>ctn_freq_in_trg_cnt := if freq_in h old new then ctn_freq_in_trg_cnt h + 1 else 0\<rparr>
      in h\<lparr>ctn_freq_out_trg_cnt := if freq_out h old new then ctn_freq_out_trg_cnt h + 1 else 0\<rparr>)"

section \<open>The decisions\<close>

text \<open>One arm of the chain: whether it is taken, the CPU's state tested before the thread count is read.\<close>

definition arm :: "bool \<Rightarrow> (u32 \<Rightarrow> bool) \<Rightarrow> bool \<Rightarrow> (nat \<Rightarrow> u32) \<Rightarrow> nat \<Rightarrow> bool \<times> nat" where
  "arm cpu threads freq nr k = (if cpu then (threads (nr k) \<and> freq, k + 1) else (False, k))"

definition bring_up :: "'w hp_env \<Rightarrow> cpuid \<Rightarrow> bool \<Rightarrow> hotplug \<times> 'w \<Rightarrow> (hotplug \<times> 'w) option" where
  "bring_up e j enough x = (case x of (h, w) \<Rightarrow>
     if enough \<and> ctn_freq_in_trg_cnt h \<ge> 5
     then do { w \<leftarrow> hp_up e j w; Some (h\<lparr>ctn_freq_in_trg_cnt := 0\<rparr>, w) }
     else Some (h, w))"

definition take_down :: "'w hp_env \<Rightarrow> cpuid \<Rightarrow> bool \<Rightarrow> hotplug \<times> 'w \<Rightarrow> (hotplug \<times> 'w) option" where
  "take_down e j enough x = (case x of (h, w) \<Rightarrow>
     if enough \<and> ctn_freq_out_trg_cnt h \<ge> 5
     then do { w \<leftarrow> hp_down e j w; Some (h\<lparr>ctn_freq_out_trg_cnt := 0\<rparr>, w) }
     else Some (h, w))"

definition plug_in ::
  "'w hp_env \<Rightarrow> u32 \<Rightarrow> u32 \<Rightarrow> (nat \<Rightarrow> u32) \<Rightarrow> nat \<Rightarrow> hotplug \<times> 'w \<Rightarrow> ((hotplug \<times> 'w) \<times> nat) option" where
  "plug_in e old new nr k x = (case x of (h, w) \<Rightarrow>
     let f = freq_in h old new in
     if soc_is_exynos4412 e then
       let (t, k) = arm (\<not> hp_online e w 3) (\<lambda>n. n \<ge> 2) f nr k in
       if t then map_option (\<lambda>x. (x, k)) (bring_up e 3 (ctn_nr_running_over2 h \<ge> 4) (h, w))
       else let (t, k) = arm (\<not> hp_online e w 2) (\<lambda>n. n \<ge> 3) f nr k in
       if t then map_option (\<lambda>x. (x, k)) (bring_up e 2 (ctn_nr_running_over3 h \<ge> 4) (h, w))
       else let (t, k) = arm (\<not> hp_online e w 1) (\<lambda>n. n \<ge> 4) f nr k in
       if t then map_option (\<lambda>x. (x, k)) (bring_up e 1 (ctn_nr_running_over4 h \<ge> 8) (h, w))
       else Some ((h, w), k)
     else if \<not> hp_online e w 1 \<and> f \<and> ctn_nr_running_over2 h \<ge> 8 \<and> ctn_freq_in_trg_cnt h \<ge> 5
     then do { w \<leftarrow> hp_up e 1 w; Some ((h\<lparr>ctn_nr_running_over2 := 0, ctn_freq_in_trg_cnt := 0\<rparr>, w), k) }
     else Some ((h, w), k))"

definition plug_out ::
  "'w hp_env \<Rightarrow> u32 \<Rightarrow> u32 \<Rightarrow> (nat \<Rightarrow> u32) \<Rightarrow> nat \<Rightarrow> hotplug \<times> 'w \<Rightarrow> ((hotplug \<times> 'w) \<times> nat) option" where
  "plug_out e old new nr k x = (case x of (h, w) \<Rightarrow>
     let f = freq_out h old new in
     if soc_is_exynos4412 e then
       let (t, k) = arm (hp_online e w 1) (\<lambda>n. n < 4) f nr k in
       if t then map_option (\<lambda>x. (x, k)) (take_down e 1 (ctn_nr_running_under4 h \<ge> 8) (h, w))
       else let (t, k) = arm (hp_online e w 2) (\<lambda>n. n < 3) f nr k in
       if t then map_option (\<lambda>x. (x, k)) (take_down e 2 (ctn_nr_running_under3 h \<ge> 8) (h, w))
       else let (t, k) = arm (hp_online e w 3) (\<lambda>n. n < 2) f nr k in
       if t then map_option (\<lambda>x. (x, k)) (take_down e 3 (ctn_nr_running_under2 h \<ge> 8) (h, w))
       else Some ((h, w), k)
     else if hp_online e w 1 \<and> f \<and> ctn_nr_running_under2 h \<ge> 8 \<and> ctn_freq_out_trg_cnt h \<ge> 5
     then do { w \<leftarrow> hp_down e 1 w; Some ((h\<lparr>ctn_nr_running_under2 := 0, ctn_freq_out_trg_cnt := 0\<rparr>, w), k) }
     else Some ((h, w), k))"

definition exynos4_integrated_dvfs_hotplug ::
  "'w hp_env \<Rightarrow> u32 \<Rightarrow> u32 \<Rightarrow> (nat \<Rightarrow> u32) \<Rightarrow> hotplug \<times> 'w \<Rightarrow> ((hotplug \<times> 'w) \<times> nat) option" where
  "exynos4_integrated_dvfs_hotplug e old new nr x = (case x of (h, w) \<Rightarrow>
     let h = h\<lparr>total_num_target_freq := total_num_target_freq h + 1, freq_in_trg := 800000,
               freq_out_trg := freq_min h\<rparr>;
         (h, k) = count_running nr 0 h;
         h = count_freq old new h
     in do { (x, k) \<leftarrow> plug_in e old new nr k (h, w); plug_out e old new nr k x })"

definition hotplug_cpufreq_transition ::
  "'w hp_env \<Rightarrow> transition \<Rightarrow> cpufreq_freqs \<Rightarrow> (nat \<Rightarrow> u32) \<Rightarrow> hotplug \<times> 'w \<Rightarrow> (int \<times> hotplug \<times> 'w) option" where
  "hotplug_cpufreq_transition e val freqs nr x =
     (if val = POSTCHANGE \<and> can_hotplug (fst x) \<noteq> 0
      then do { (x, k) \<leftarrow> exynos4_integrated_dvfs_hotplug e (fr_old freqs) (fr_new freqs) nr x; Some (0, x) }
      else Some (0, x))"

definition hotplug_pm_transition :: "pm_event \<Rightarrow> hotplug \<Rightarrow> int \<times> hotplug" where
  "hotplug_pm_transition val h = (0, case val of
     PM_SUSPEND_PREPARE \<Rightarrow> h\<lparr>can_hotplug := 0, ctn_freq_in_trg_cnt := 0, ctn_freq_out_trg_cnt := 0\<rparr>
   | PM_POST_RESTORE \<Rightarrow> h\<lparr>can_hotplug := 1\<rparr>
   | PM_POST_SUSPEND \<Rightarrow> h\<lparr>can_hotplug := 1\<rparr>
   | PM_OTHER \<Rightarrow> h)"

section \<open>Initialisation\<close>

definition freq_bounds :: "ftable \<Rightarrow> u32 \<times> u32 \<Rightarrow> u32 \<times> u32" where
  "freq_bounds t b = fold (\<lambda>r (fmax, fmin). let freq = frequency r in
     if freq \<noteq> CPUFREQ_ENTRY_INVALID \<and> freq > fmax then (freq, fmin)
     else if freq \<noteq> CPUFREQ_ENTRY_INVALID \<and> fmin > freq then (fmax, freq)
     else (fmax, fmin)) t b"

text \<open>The table is \<open>cpufreq_frequency_get_table(0)\<close>, an error or the rows; the result of the last
  registration is returned.\<close>

definition exynos4_integrated_dvfs_hotplug_init :: "int + ftable \<Rightarrow> int \<Rightarrow> hotplug \<Rightarrow> int \<times> hotplug" where
  "exynos4_integrated_dvfs_hotplug_init table register_rc h =
     (let h = h\<lparr>total_num_target_freq := 0, ctn_freq_in_trg_cnt := 0, ctn_freq_out_trg_cnt := 0,
                ctn_nr_running_over2 := 0, ctn_nr_running_over3 := 0, ctn_nr_running_over4 := 0,
                ctn_nr_running_under2 := 0, ctn_nr_running_under3 := 0, ctn_nr_running_under4 := 0,
                can_hotplug := 1\<rparr>
      in case table of
           Inl err \<Rightarrow> (err, h)
         | Inr t \<Rightarrow> (let (fmax, fmin) = freq_bounds t (freq_max h, freq_min h)
                     in (register_rc, h\<lparr>freq_max := fmax, freq_min := fmin\<rparr>)))"

end
