(* ===== verification/Hotplug_Safety.thy ===== *)
theory Hotplug_Safety
  imports Hotplug
begin

text \<open>
  What the load hotplug does to the set of online CPUs: the order in which they come and go, how soon
  it follows a steady load, and what a table in ascending order makes of its triggers. The thread count
  of a call is steady when all its reads agree.
\<close>

section \<open>Steady thread counts\<close>

lemma arm_steady [simp]: "fst (arm c P f (\<lambda>_. n) k) \<longleftrightarrow> c \<and> P n \<and> f"
  by (simp add: arm_def)

lemma count_running_steady:
  "fst (count_running (\<lambda>_. n) k h) = h\<lparr>
     ctn_nr_running_over2 := if n \<ge> 2 then ctn_nr_running_over2 h + 1 else 0,
     ctn_nr_running_over3 := if n \<ge> 3 then ctn_nr_running_over3 h + 1 else 0,
     ctn_nr_running_over4 := if n \<ge> 4 then ctn_nr_running_over4 h + 1 else 0,
     ctn_nr_running_under2 := if n < 2 then ctn_nr_running_under2 h + 1 else 0,
     ctn_nr_running_under3 := if n < 3 then ctn_nr_running_under3 h + 1 else 0,
     ctn_nr_running_under4 := if n < 4 then ctn_nr_running_under4 h + 1 else 0\<rparr>"
proof -
  have le: "(n \<le> 1) = (unat n < 2)" "(n \<le> 2) = (unat n < 3)" "(n \<le> 3) = (unat n < 4)"
    "(n < 2) = (unat n < 2)" "(n < 3) = (unat n < 3)" "(n < 4) = (unat n < 4)"
    "(2 \<le> n) = (2 \<le> unat n)" "(3 \<le> n) = (3 \<le> unat n)" "(4 \<le> n) = (4 \<le> unat n)"
    "(1 < n) = (1 < unat n)" "(2 < n) = (2 < unat n)" "(3 < n) = (3 < unat n)"
    by (auto simp: word_le_nat_alt word_less_nat_alt)
  consider "unat n < 2" | "unat n = 2" | "unat n = 3" | "4 \<le> unat n" by linarith
  then show ?thesis
    by cases (simp_all add: count_running_def between_def Let_def le)
qed

text \<open>The state when the decisions are made.\<close>

definition counted :: "u32 \<Rightarrow> u32 \<Rightarrow> u32 \<Rightarrow> hotplug \<Rightarrow> hotplug" where
  "counted n old new h = count_freq old new (fst (count_running (\<lambda>_. n) 0
     (h\<lparr>total_num_target_freq := total_num_target_freq h + 1, freq_in_trg := 800000, freq_out_trg := freq_min h\<rparr>)))"

definition in_4412 :: "'w hp_env \<Rightarrow> u32 \<Rightarrow> bool \<Rightarrow> hotplug \<times> 'w \<Rightarrow> (hotplug \<times> 'w) option" where
  "in_4412 e n f x = (case x of (h, w) \<Rightarrow>
     if \<not> hp_online e w 3 \<and> n \<ge> 2 \<and> f then bring_up e 3 (ctn_nr_running_over2 h \<ge> 4) (h, w)
     else if \<not> hp_online e w 2 \<and> n \<ge> 3 \<and> f then bring_up e 2 (ctn_nr_running_over3 h \<ge> 4) (h, w)
     else if \<not> hp_online e w 1 \<and> n \<ge> 4 \<and> f then bring_up e 1 (ctn_nr_running_over4 h \<ge> 8) (h, w)
     else Some (h, w))"

definition out_4412 :: "'w hp_env \<Rightarrow> u32 \<Rightarrow> bool \<Rightarrow> hotplug \<times> 'w \<Rightarrow> (hotplug \<times> 'w) option" where
  "out_4412 e n f x = (case x of (h, w) \<Rightarrow>
     if hp_online e w 1 \<and> n < 4 \<and> f then take_down e 1 (ctn_nr_running_under4 h \<ge> 8) (h, w)
     else if hp_online e w 2 \<and> n < 3 \<and> f then take_down e 2 (ctn_nr_running_under3 h \<ge> 8) (h, w)
     else if hp_online e w 3 \<and> n < 2 \<and> f then take_down e 3 (ctn_nr_running_under2 h \<ge> 8) (h, w)
     else Some (h, w))"

lemma map_fst_pair [simp]: "map_option fst (map_option (\<lambda>x. (x, k)) m) = m"
  by (cases m) simp_all

lemma plug_in_steady:
  assumes "soc_is_exynos4412 e"
  shows "map_option fst (plug_in e old new (\<lambda>_. n) k (h, w)) = in_4412 e n (freq_in h old new) (h, w)"
  using assms by (simp add: plug_in_def in_4412_def arm_def Let_def)

lemma plug_out_steady:
  assumes "soc_is_exynos4412 e"
  shows "map_option fst (plug_out e old new (\<lambda>_. n) k (h, w)) = out_4412 e n (freq_out h old new) (h, w)"
  using assms by (simp add: plug_out_def out_4412_def arm_def Let_def)

lemma fst_bind: "map_option fst (Option.bind m (\<lambda>(x, k). g x k)) = Option.bind m (\<lambda>(x, k). map_option fst (g x k))"
  by (cases m) auto

lemma bind_fst: "Option.bind m (\<lambda>(x, k). f x) = Option.bind (map_option fst m) f"
  by (cases m) auto

lemma hotplug_steady:
  assumes "soc_is_exynos4412 e"
  shows "map_option fst (exynos4_integrated_dvfs_hotplug e old new (\<lambda>_. n) (h, w)) =
    Option.bind (in_4412 e n (freq_in (counted n old new h) old new) (counted n old new h, w))
      (\<lambda>(h', w'). out_4412 e n (freq_out h' old new) (h', w'))"
proof -
  obtain h1 k where c: "count_running (\<lambda>_. n) 0
      (h\<lparr>total_num_target_freq := total_num_target_freq h + 1, freq_in_trg := 800000, freq_out_trg := freq_min h\<rparr>) = (h1, k)"
    by (metis prod.exhaust)
  have h1: "counted n old new h = count_freq old new h1" by (simp add: counted_def c)
  have "map_option fst (exynos4_integrated_dvfs_hotplug e old new (\<lambda>_. n) (h, w)) =
      Option.bind (plug_in e old new (\<lambda>_. n) k (counted n old new h, w))
        (\<lambda>(x, k). map_option fst (plug_out e old new (\<lambda>_. n) k x))"
    by (simp add: exynos4_integrated_dvfs_hotplug_def c h1 fst_bind)
  also have "\<dots> = Option.bind (plug_in e old new (\<lambda>_. n) k (counted n old new h, w))
        (\<lambda>(x, k). case x of (h', w') \<Rightarrow> out_4412 e n (freq_out h' old new) (h', w'))"
    using plug_out_steady [OF assms] by (auto intro!: Option.bind_cong)
  finally show ?thesis
    unfolding bind_fst plug_in_steady [OF assms] .
qed

text \<open>The frequencies and triggers that the decisions see.\<close>

lemma counted_simps:
  "ctn_nr_running_over2 (counted n old new h) = (if n \<ge> 2 then ctn_nr_running_over2 h + 1 else 0)"
  "ctn_nr_running_over3 (counted n old new h) = (if n \<ge> 3 then ctn_nr_running_over3 h + 1 else 0)"
  "ctn_nr_running_over4 (counted n old new h) = (if n \<ge> 4 then ctn_nr_running_over4 h + 1 else 0)"
  "ctn_nr_running_under2 (counted n old new h) = (if n < 2 then ctn_nr_running_under2 h + 1 else 0)"
  "ctn_nr_running_under3 (counted n old new h) = (if n < 3 then ctn_nr_running_under3 h + 1 else 0)"
  "ctn_nr_running_under4 (counted n old new h) = (if n < 4 then ctn_nr_running_under4 h + 1 else 0)"
  "ctn_freq_in_trg_cnt (counted n old new h) =
     (if old \<ge> 800000 \<and> new \<ge> 800000 then ctn_freq_in_trg_cnt h + 1 else 0)"
  "ctn_freq_out_trg_cnt (counted n old new h) =
     (if old \<le> freq_min h \<and> new \<le> freq_min h then ctn_freq_out_trg_cnt h + 1 else 0)"
  "freq_in_trg (counted n old new h) = 800000" "freq_out_trg (counted n old new h) = freq_min h"
  "freq_min (counted n old new h) = freq_min h" "can_hotplug (counted n old new h) = can_hotplug h"
  unfolding counted_def count_freq_def Let_def freq_in_def freq_out_def count_running_steady by simp_all

section \<open>The order of the CPUs\<close>

text \<open>\<open>cpu_up\<close> and \<open>cpu_down\<close> may fail, but change no other CPU.\<close>

definition only_that_cpu :: "'w hp_env \<Rightarrow> bool" where
  "only_that_cpu e \<longleftrightarrow> (\<forall>j w w'. hp_up e j w = Some w' \<or> hp_down e j w = Some w' \<longrightarrow>
     (\<forall>i. i \<noteq> j \<longrightarrow> hp_online e w' i = hp_online e w i))"

definition in_order :: "'w hp_env \<Rightarrow> 'w \<Rightarrow> bool" where
  "in_order e w \<longleftrightarrow> (hp_online e w 1 \<longrightarrow> hp_online e w 2) \<and> (hp_online e w 2 \<longrightarrow> hp_online e w 3)"

lemma bring_up_cases:
  assumes "bring_up e j b (h, w) = Some (h', w')"
  shows "(h', w') = (h, w) \<or> hp_up e j w = Some w' \<and> h' = h\<lparr>ctn_freq_in_trg_cnt := 0\<rparr>"
  using assms by (auto simp: bring_up_def fault_simps split: if_splits)

lemma take_down_cases:
  assumes "take_down e j b (h, w) = Some (h', w')"
  shows "(h', w') = (h, w) \<or> hp_down e j w = Some w' \<and> h' = h\<lparr>ctn_freq_out_trg_cnt := 0\<rparr>"
  using assms by (auto simp: take_down_def fault_simps split: if_splits)

lemma thread_order:
  fixes n :: u32
  shows "4 \<le> n \<Longrightarrow> 3 \<le> n" "3 \<le> n \<Longrightarrow> 2 \<le> n" "n < 2 \<Longrightarrow> n < 3" "n < 3 \<Longrightarrow> n < 4"
  by (auto simp: word_le_nat_alt word_less_nat_alt)

lemma in_4412_order:
  assumes "only_that_cpu e" "in_4412 e n f (h, w) = Some (h', w')" "in_order e w"
  shows "in_order e w'"
proof -
  have up: "hp_up e j w = Some w' \<Longrightarrow> i \<noteq> j \<Longrightarrow> hp_online e w' i = hp_online e w i" for i j
    using assms(1) by (simp add: only_that_cpu_def)
  consider "w' = w" | "hp_up e 3 w = Some w'" "\<not> hp_online e w 3"
    | "hp_up e 2 w = Some w'" "\<not> hp_online e w 2" "hp_online e w 3"
    | "hp_up e 1 w = Some w'" "hp_online e w 2" "hp_online e w 3"
    using assms(2) bring_up_cases thread_order(1,2) [of n]
    by (auto simp: in_4412_def split: if_splits dest!: bring_up_cases)
  then show ?thesis
    using assms(3) up [of 3] up [of 2] up [of 1] by cases (auto simp: in_order_def)
qed

lemma out_4412_order:
  assumes "only_that_cpu e" "out_4412 e n f (h, w) = Some (h', w')" "in_order e w"
  shows "in_order e w'"
proof -
  have down: "hp_down e j w = Some w' \<Longrightarrow> i \<noteq> j \<Longrightarrow> hp_online e w' i = hp_online e w i" for i j
    using assms(1) by (simp add: only_that_cpu_def)
  consider "w' = w" | "hp_down e 1 w = Some w'" "hp_online e w 1"
    | "hp_down e 2 w = Some w'" "\<not> hp_online e w 1" "hp_online e w 2"
    | "hp_down e 3 w = Some w'" "\<not> hp_online e w 1" "\<not> hp_online e w 2"
    using assms(2) thread_order(3,4) [of n]
    by (auto simp: out_4412_def split: if_splits dest!: take_down_cases)
  then show ?thesis
    using assms(3) down [of 3] down [of 2] down [of 1] by cases (auto simp: in_order_def)
qed

text \<open>One notification or power event after the other.\<close>

inductive hp_step :: "'w hp_env \<Rightarrow> hotplug \<times> 'w \<Rightarrow> hotplug \<times> 'w \<Rightarrow> bool" for e where
  Transition: "hotplug_cpufreq_transition e val freqs (\<lambda>_. n) x = Some (rc, x') \<Longrightarrow> hp_step e x x'"
| Power: "hotplug_pm_transition ev h = (rc, h') \<Longrightarrow> hp_step e (h, w) (h', w)"

inductive_cases hp_stepE: "hp_step e (h, w) (h', w')"

lemma transition_run:
  assumes "soc_is_exynos4412 e" "hotplug_cpufreq_transition e val freqs (\<lambda>_. n) (h, w) = Some (rc, h', w')"
  shows "(h', w') = (h, w) \<or> (\<exists>h1 w1. in_4412 e n (freq_in (counted n (fr_old freqs) (fr_new freqs) h) (fr_old freqs) (fr_new freqs))
      (counted n (fr_old freqs) (fr_new freqs) h, w) = Some (h1, w1)
    \<and> out_4412 e n (freq_out h1 (fr_old freqs) (fr_new freqs)) (h1, w1) = Some (h', w'))"
proof (cases "val = POSTCHANGE \<and> can_hotplug h \<noteq> 0")
  case True
  then obtain k where "exynos4_integrated_dvfs_hotplug e (fr_old freqs) (fr_new freqs) (\<lambda>_. n) (h, w) = Some ((h', w'), k)"
    using assms(2) by (auto simp: hotplug_cpufreq_transition_def fault_simps)
  then have "map_option fst (exynos4_integrated_dvfs_hotplug e (fr_old freqs) (fr_new freqs) (\<lambda>_. n) (h, w)) = Some (h', w')"
    by simp
  then show ?thesis
    unfolding hotplug_steady [OF assms(1)] by (auto simp: fault_simps)
next
  case False
  then show ?thesis using assms(2) by (auto simp: hotplug_cpufreq_transition_def)
qed

lemma step_order:
  assumes "soc_is_exynos4412 e" "only_that_cpu e" "hp_step e (h, w) (h', w')" "in_order e w"
  shows "in_order e w'"
proof -
  consider (change) val freqs n rc where "hotplug_cpufreq_transition e val freqs (\<lambda>_. n) (h, w) = Some (rc, h', w')"
    | (power) "w' = w"
    using assms(3) by (auto elim: hp_stepE)
  then show ?thesis
  proof cases
    case change
    then show ?thesis
      using transition_run [OF assms(1) change] in_4412_order [OF assms(2) _ assms(4)] out_4412_order [OF assms(2)] assms(4)
      by auto
  qed (use assms(4) in simp)
qed

text \<open>
  Claim C9. On a quad-core chip, as long as the thread count does not change within a notification, CPUs
  come up in the order 3, 2, 1 and go down in the order 1, 2, 3: from a state where CPU 1 is online
  only with CPU 2 and CPU 2 only with CPU 3, every sequence of transitions and power events reaches
  only such states, even when some \<open>cpu_up\<close> or \<open>cpu_down\<close> fails.
\<close>

theorem hotplug_keeps_order:
  assumes "soc_is_exynos4412 e" "only_that_cpu e" "(hp_step e)\<^sup>*\<^sup>* (h, w) (h', w')" "in_order e w"
  shows "in_order e w'"
  using assms(3,4)
proof (induction "(h', w')" arbitrary: h' w' rule: rtranclp_induct)
  case (step y)
  obtain h1 w1 where y: "y = (h1, w1)" by (cases y)
  show ?case using step_order [OF assms(1,2) step(2) [unfolded y]] step(3) [OF y] step.prems by blast
qed simp

section \<open>Following the load\<close>

text \<open>Notifications after a change, each with its thread count and frequencies.\<close>

fun hp_samples :: "'w hp_env \<Rightarrow> (u32 \<times> u32 \<times> u32) list \<Rightarrow> hotplug \<times> 'w \<Rightarrow> (hotplug \<times> 'w) option" where
  "hp_samples e [] x = Some x"
| "hp_samples e ((n, old, new) # l) x = Option.bind
     (hotplug_cpufreq_transition e POSTCHANGE \<lparr>fr_cpu = 0, fr_old = old, fr_new = new\<rparr> (\<lambda>_. n) x)
     (\<lambda>(rc, x). hp_samples e l x)"

definition cpus_work :: "'w hp_env \<Rightarrow> bool" where
  "cpus_work e \<longleftrightarrow> (\<forall>j w. (\<exists>w'. hp_up e j w = Some w' \<and> hp_online e w' = (hp_online e w)(j := True))
     \<and> (\<exists>w'. hp_down e j w = Some w' \<and> hp_online e w' = (hp_online e w)(j := False)))"

definition extra_cpus :: "'w hp_env \<Rightarrow> 'w \<Rightarrow> nat" where
  "extra_cpus e w = of_bool (hp_online e w 1) + of_bool (hp_online e w 2) + of_bool (hp_online e w 3)"

lemma unat_suc: "unat (c :: u32) + 1 < 2 ^ 32 \<Longrightarrow> unat (c + 1) = unat c + 1"
  by (simp add: unat_word_ariths)

lemma sample_run:
  assumes "soc_is_exynos4412 e" "can_hotplug h \<noteq> 0"
  shows "map_option snd (hotplug_cpufreq_transition e POSTCHANGE \<lparr>fr_cpu = 0, fr_old = old, fr_new = new\<rparr> (\<lambda>_. n) (h, w))
    = Option.bind (in_4412 e n (old \<ge> 800000 \<and> new \<ge> 800000) (counted n old new h, w))
      (\<lambda>(h', w'). out_4412 e n (freq_out h' old new) (h', w'))"
proof -
  have "map_option snd (hotplug_cpufreq_transition e POSTCHANGE \<lparr>fr_cpu = 0, fr_old = old, fr_new = new\<rparr> (\<lambda>_. n) (h, w))
      = map_option fst (exynos4_integrated_dvfs_hotplug e old new (\<lambda>_. n) (h, w))"
    using assms(2) by (cases "exynos4_integrated_dvfs_hotplug e old new (\<lambda>_. n) (h, w)")
      (auto simp: hotplug_cpufreq_transition_def)
  then show ?thesis
    unfolding hotplug_steady [OF assms(1)] by (simp add: freq_in_def counted_simps)
qed

lemma sample_bind:
  "Option.bind (hotplug_cpufreq_transition e v f r x) (\<lambda>(rc, x). g x)
   = Option.bind (map_option snd (hotplug_cpufreq_transition e v f r x)) g"
  by (cases "hotplug_cpufreq_transition e v f r x") auto

subsection \<open>Sustained load\<close>

definition busy_inv :: "'w hp_env \<Rightarrow> nat \<Rightarrow> hotplug \<Rightarrow> 'w \<Rightarrow> bool" where
  "busy_inv e i h w \<longleftrightarrow> can_hotplug h \<noteq> 0
     \<and> (\<forall>c \<in> {ctn_nr_running_over2 h, ctn_nr_running_over3 h, ctn_nr_running_over4 h}. i \<le> unat c \<and> unat c + (15 - i) < 2 ^ 32)
     \<and> unat (ctn_freq_in_trg_cnt h) + (15 - i) < 2 ^ 32
     \<and> (extra_cpus e w < 3 \<longrightarrow> i \<le> 5 * extra_cpus e w + 4 \<and> i \<le> 5 * extra_cpus e w + unat (ctn_freq_in_trg_cnt h))"

lemma bring_up_run:
  assumes "cpus_work e" "\<not> hp_online e w j" "j \<in> {1, 2, 3}"
  shows "\<exists>h' w'. bring_up e j b (h, w) = Some (h', w')
    \<and> (if b \<and> ctn_freq_in_trg_cnt h \<ge> 5
       then h' = h\<lparr>ctn_freq_in_trg_cnt := 0\<rparr> \<and> extra_cpus e w' = extra_cpus e w + 1 else h' = h \<and> w' = w)"
proof -
  obtain w' where "hp_up e j w = Some w'" "hp_online e w' = (hp_online e w)(j := True)"
    using assms(1) by (auto simp: cpus_work_def)
  then show ?thesis using assms(2,3) by (auto simp: bring_up_def extra_cpus_def)
qed

lemma busy_sample:
  assumes "soc_is_exynos4412 e" "cpus_work e" "busy_inv e i h w" "i < 15" "n \<ge> 4" "old \<ge> 800000" "new \<ge> 800000"
  shows "\<exists>h' w'. map_option snd (hotplug_cpufreq_transition e POSTCHANGE \<lparr>fr_cpu = 0, fr_old = old, fr_new = new\<rparr>
      (\<lambda>_. n) (h, w)) = Some (h', w') \<and> busy_inv e (i + 1) h' w'"
proof -
  let ?h = "counted n old new h"
  have ge: "3 \<le> n" "2 \<le> n" using thread_order(1,2) [of n] assms(5) by auto
  have inv: "can_hotplug h \<noteq> 0" using assms(3) by (simp add: busy_inv_def)
  have sc: "unat (c + 1) = unat c + 1" if "unat c + (15 - i) < 2 ^ 32" for c :: u32
    by (rule unat_suc) (use that assms(4) in simp)
  have room: "unat (ctn_nr_running_over2 h) + (15 - i) < 2 ^ 32" "unat (ctn_nr_running_over3 h) + (15 - i) < 2 ^ 32"
    "unat (ctn_nr_running_over4 h) + (15 - i) < 2 ^ 32" "unat (ctn_freq_in_trg_cnt h) + (15 - i) < 2 ^ 32"
    using assms(3) by (simp_all add: busy_inv_def)
  have suc: "unat (ctn_nr_running_over2 ?h) = unat (ctn_nr_running_over2 h) + 1"
    "unat (ctn_nr_running_over3 ?h) = unat (ctn_nr_running_over3 h) + 1"
    "unat (ctn_nr_running_over4 ?h) = unat (ctn_nr_running_over4 h) + 1"
    "unat (ctn_freq_in_trg_cnt ?h) = unat (ctn_freq_in_trg_cnt h) + 1"
    using sc [OF room(1)] sc [OF room(2)] sc [OF room(3)] sc [OF room(4)] ge assms(5-7) by (simp_all add: counted_simps)
  have cmp: "(c \<ge> (4 :: u32)) = (4 \<le> unat c)" "(c \<ge> (5 :: u32)) = (5 \<le> unat c)" "(c \<ge> (8 :: u32)) = (8 \<le> unat c)" for c
    by (simp_all add: word_le_nat_alt)
  have step: "busy_inv e (i + 1) h' w'"
    if h': "if b \<and> ctn_freq_in_trg_cnt ?h \<ge> 5 then h' = ?h\<lparr>ctn_freq_in_trg_cnt := 0\<rparr> \<and> extra_cpus e w' = extra_cpus e w + 1
        else h' = ?h \<and> w' = w"
      and b: "\<not> b \<longrightarrow> i + 1 < 4 + (if extra_cpus e w = 0 then 0 else 5)" for b h' w'
    using assms(3,4) suc h' b unfolding cmp
    by (auto simp: busy_inv_def counted_simps split: if_splits)
  have u: "extra_cpus e w \<noteq> 0" if "hp_online e w 3" using that by (simp add: extra_cpus_def)
  have ov: "i + 1 \<le> unat (ctn_nr_running_over2 ?h)" "i + 1 \<le> unat (ctn_nr_running_over3 ?h)" "i + 1 \<le> unat (ctn_nr_running_over4 ?h)"
    using assms(3) suc by (simp_all add: busy_inv_def)
  have "\<exists>h' w'. in_4412 e n True (?h, w) = Some (h', w') \<and> busy_inv e (i + 1) h' w'"
  proof (cases "hp_online e w 3")
    case False
    then show ?thesis
      using bring_up_run [OF assms(2) False, of "ctn_nr_running_over2 ?h \<ge> 4" ?h] step [of "ctn_nr_running_over2 ?h \<ge> 4"] ge ov(1)
      by (auto simp: in_4412_def cmp)
  next
    case 3: True
    show ?thesis
    proof (cases "hp_online e w 2")
      case False
      then show ?thesis
        using bring_up_run [OF assms(2) False, of "ctn_nr_running_over3 ?h \<ge> 4" ?h] step [of "ctn_nr_running_over3 ?h \<ge> 4"] ge ov(2) 3 u
        by (auto simp: in_4412_def cmp)
    next
      case 2: True
      show ?thesis
      proof (cases "hp_online e w 1")
        case False
        then show ?thesis
          using bring_up_run [OF assms(2) False, of "ctn_nr_running_over4 ?h \<ge> 8" ?h] step [of "ctn_nr_running_over4 ?h \<ge> 8"] ge ov(3) 2 3 u
            assms(5)
          by (auto simp: in_4412_def cmp)
      next
        case True
        then have "extra_cpus e w = 3" using 2 3 by (simp add: extra_cpus_def)
        then have "busy_inv e (i + 1) ?h w" using assms(3) suc assms(4) by (auto simp: busy_inv_def counted_simps)
        with True 2 3 show ?thesis by (simp add: in_4412_def)
      qed
    qed
  qed
  moreover have "out_4412 e n b (h', w') = Some (h', w')" for b h' w'
    using assms(5) thread_order [of n] by (auto simp: out_4412_def not_less)
  ultimately show ?thesis
    unfolding sample_run [OF assms(1) inv] using assms(6,7) by auto
qed

lemma busy_samples:
  assumes "soc_is_exynos4412 e" "cpus_work e" "busy_inv e i h w" "i + length l \<le> 15"
    and "\<forall>(n, old, new) \<in> set l. n \<ge> 4 \<and> old \<ge> 800000 \<and> new \<ge> 800000"
  shows "\<exists>h' w'. hp_samples e l (h, w) = Some (h', w') \<and> busy_inv e (i + length l) h' w'"
  using assms(3-5)
proof (induction l arbitrary: i h w)
  case (Cons a l)
  obtain n old new where a: "a = (n, old, new)" by (metis prod.exhaust)
  obtain h1 w1 where s: "map_option snd (hotplug_cpufreq_transition e POSTCHANGE \<lparr>fr_cpu = 0, fr_old = old, fr_new = new\<rparr>
      (\<lambda>_. n) (h, w)) = Some (h1, w1)" "busy_inv e (i + 1) h1 w1"
    using busy_sample [OF assms(1,2) Cons.prems(1), of n old new] Cons.prems(2,3) a by auto
  show ?case
    using Cons.IH [OF s(2)] Cons.prems(2,3) by (simp add: a sample_bind s(1))
qed simp

lemma busy_all_up:
  assumes "soc_is_exynos4412 e" "cpus_work e" "can_hotplug h \<noteq> 0"
    and "\<forall>c \<in> {ctn_nr_running_over2 h, ctn_nr_running_over3 h, ctn_nr_running_over4 h, ctn_freq_in_trg_cnt h}.
      unat c + 15 < 2 ^ 32"
    and "length l = 15" "\<forall>(n, old, new) \<in> set l. n \<ge> 4 \<and> old \<ge> 800000 \<and> new \<ge> 800000"
  shows "\<exists>h' w'. hp_samples e l (h, w) = Some (h', w') \<and> hp_online e w' 1 \<and> hp_online e w' 2 \<and> hp_online e w' 3"
proof -
  have "busy_inv e 0 h w" using assms(3,4) by (simp add: busy_inv_def)
  then obtain h' w' where r: "hp_samples e l (h, w) = Some (h', w')" "busy_inv e 15 h' w'"
    using busy_samples [OF assms(1,2), of 0 h w l] assms(5,6) by auto
  then have "\<not> extra_cpus e w' < 3" by (auto simp: busy_inv_def)
  then show ?thesis using r(1) by (auto simp: extra_cpus_def of_bool_def split: if_splits)
qed

text \<open>
  Claim C12. On a quad-core chip whose CPUs can be brought up, a load of at least four threads at
  800 MHz or more for 15 frequency changes in a row brings all CPUs online, whatever the counters
  were (short of wrapping round) and whichever CPUs were online before.
\<close>

theorem hotplug_busy_brings_all_up:
  assumes "soc_is_exynos4412 e" "cpus_work e" "can_hotplug h \<noteq> 0"
    and "\<forall>c \<in> {ctn_nr_running_over2 h, ctn_nr_running_over3 h, ctn_nr_running_over4 h, ctn_freq_in_trg_cnt h}.
      unat c + 15 < 2 ^ 32"
    and "length l = 15" "\<forall>(n, old, new) \<in> set l. n \<ge> 4 \<and> old \<ge> 800000 \<and> new \<ge> 800000"
  shows "\<exists>h' w'. hp_samples e l (h, w) = Some (h', w') \<and> hp_online e w' 1 \<and> hp_online e w' 2 \<and> hp_online e w' 3"
  by (rule busy_all_up [OF assms])

subsection \<open>Idling\<close>

definition idle_inv :: "'w hp_env \<Rightarrow> u32 \<Rightarrow> nat \<Rightarrow> hotplug \<Rightarrow> 'w \<Rightarrow> bool" where
  "idle_inv e m i h w \<longleftrightarrow> can_hotplug h \<noteq> 0 \<and> freq_min h = m
     \<and> (\<forall>c \<in> {ctn_nr_running_under2 h, ctn_nr_running_under3 h, ctn_nr_running_under4 h}. i \<le> unat c \<and> unat c + (18 - i) < 2 ^ 32)
     \<and> unat (ctn_freq_out_trg_cnt h) + (18 - i) < 2 ^ 32 \<and> extra_cpus e w \<le> 3
     \<and> (extra_cpus e w > 0 \<longrightarrow> i \<le> 5 * (3 - extra_cpus e w) + 7
          \<and> i \<le> 5 * (3 - extra_cpus e w) + 3 + unat (ctn_freq_out_trg_cnt h))"

lemma take_down_run:
  assumes "cpus_work e" "hp_online e w j" "j \<in> {1, 2, 3}"
  shows "\<exists>h' w'. take_down e j b (h, w) = Some (h', w')
    \<and> (if b \<and> ctn_freq_out_trg_cnt h \<ge> 5
       then h' = h\<lparr>ctn_freq_out_trg_cnt := 0\<rparr> \<and> extra_cpus e w = extra_cpus e w' + 1 else h' = h \<and> w' = w)"
proof -
  obtain w' where "hp_down e j w = Some w'" "hp_online e w' = (hp_online e w)(j := False)"
    using assms(1) by (auto simp: cpus_work_def)
  then show ?thesis using assms(2,3) by (auto simp: take_down_def extra_cpus_def)
qed

lemma extra_cpus_le: "extra_cpus e w \<le> 3"
  by (simp add: extra_cpus_def)

lemma idle_sample:
  assumes "soc_is_exynos4412 e" "cpus_work e" "idle_inv e m i h w" "i < 18" "n < 2" "old \<le> m" "new \<le> m"
  shows "\<exists>h' w'. map_option snd (hotplug_cpufreq_transition e POSTCHANGE \<lparr>fr_cpu = 0, fr_old = old, fr_new = new\<rparr>
      (\<lambda>_. n) (h, w)) = Some (h', w') \<and> idle_inv e m (i + 1) h' w'"
proof -
  let ?h = "counted n old new h"
  have lt: "n < 3" "n < 4" using thread_order(3,4) [of n] assms(5) by auto
  have inv: "can_hotplug h \<noteq> 0" and m: "freq_min h = m" using assms(3) by (simp_all add: idle_inv_def)
  have sc: "unat (c + 1) = unat c + 1" if "unat c + (18 - i) < 2 ^ 32" for c :: u32
    by (rule unat_suc) (use that assms(4) in simp)
  have room: "unat (ctn_nr_running_under2 h) + (18 - i) < 2 ^ 32" "unat (ctn_nr_running_under3 h) + (18 - i) < 2 ^ 32"
    "unat (ctn_nr_running_under4 h) + (18 - i) < 2 ^ 32" "unat (ctn_freq_out_trg_cnt h) + (18 - i) < 2 ^ 32"
    using assms(3) by (simp_all add: idle_inv_def)
  have suc: "unat (ctn_nr_running_under2 ?h) = unat (ctn_nr_running_under2 h) + 1"
    "unat (ctn_nr_running_under3 ?h) = unat (ctn_nr_running_under3 h) + 1"
    "unat (ctn_nr_running_under4 ?h) = unat (ctn_nr_running_under4 h) + 1"
    "unat (ctn_freq_out_trg_cnt ?h) = unat (ctn_freq_out_trg_cnt h) + 1"
    using sc [OF room(1)] sc [OF room(2)] sc [OF room(3)] sc [OF room(4)] lt assms(5-7) m by (simp_all add: counted_simps)
  have cmp: "(c \<ge> (5 :: u32)) = (5 \<le> unat c)" "(c \<ge> (8 :: u32)) = (8 \<le> unat c)" for c
    by (simp_all add: word_le_nat_alt)
  have step: "idle_inv e m (i + 1) h' w'"
    if h': "if b \<and> ctn_freq_out_trg_cnt ?h \<ge> 5 then h' = ?h\<lparr>ctn_freq_out_trg_cnt := 0\<rparr> \<and> extra_cpus e w = extra_cpus e w' + 1
        else h' = ?h \<and> w' = w"
      and b: "\<not> b \<longrightarrow> i + 1 < 8" for b h' w'
  proof (cases "b \<and> ctn_freq_out_trg_cnt ?h \<ge> 5")
    case True
    then have "3 - extra_cpus e w' = Suc (3 - extra_cpus e w)" "extra_cpus e w > 0"
      using h' extra_cpus_le [of e w] by auto
    then show ?thesis
      using assms(3,4) suc h' True extra_cpus_le [of e w'] by (auto simp: idle_inv_def counted_simps)
  next
    case False
    then show ?thesis
      using assms(3,4) suc h' b extra_cpus_le [of e w] unfolding cmp by (auto simp: idle_inv_def counted_simps)
  qed
  have un: "i + 1 \<le> unat (ctn_nr_running_under2 ?h)" "i + 1 \<le> unat (ctn_nr_running_under3 ?h)" "i + 1 \<le> unat (ctn_nr_running_under4 ?h)"
    using assms(3) suc by (simp_all add: idle_inv_def)
  have "\<exists>h' w'. out_4412 e n True (?h, w) = Some (h', w') \<and> idle_inv e m (i + 1) h' w'"
  proof (cases "hp_online e w 1")
    case True
    then show ?thesis
      using take_down_run [OF assms(2) True, of "ctn_nr_running_under4 ?h \<ge> 8" ?h] step [of "ctn_nr_running_under4 ?h \<ge> 8"] lt un(3)
      by (auto simp: out_4412_def cmp)
  next
    case 1: False
    show ?thesis
    proof (cases "hp_online e w 2")
      case True
      then show ?thesis
        using take_down_run [OF assms(2) True, of "ctn_nr_running_under3 ?h \<ge> 8" ?h] step [of "ctn_nr_running_under3 ?h \<ge> 8"] lt un(2) 1
        by (auto simp: out_4412_def cmp)
    next
      case 2: False
      show ?thesis
      proof (cases "hp_online e w 3")
        case True
        then show ?thesis
          using take_down_run [OF assms(2) True, of "ctn_nr_running_under2 ?h \<ge> 8" ?h] step [of "ctn_nr_running_under2 ?h \<ge> 8"] un(1) 1 2
            assms(5)
          by (auto simp: out_4412_def cmp)
      next
        case False
        then have "extra_cpus e w = 0" using 1 2 by (simp add: extra_cpus_def)
        then have "idle_inv e m (i + 1) ?h w" using assms(3,4) suc by (auto simp: idle_inv_def counted_simps)
        with False 1 2 show ?thesis by (simp add: out_4412_def)
      qed
    qed
  qed
  moreover have "in_4412 e n b (?h, w) = Some (?h, w)" for b
    using assms(5) thread_order [of n] by (auto simp: in_4412_def not_le [symmetric])
  moreover have "freq_out ?h old new" using assms(6,7) m by (simp add: freq_out_def counted_simps)
  ultimately show ?thesis
    unfolding sample_run [OF assms(1) inv] by auto
qed

lemma idle_samples:
  assumes "soc_is_exynos4412 e" "cpus_work e" "idle_inv e m i h w" "i + length l \<le> 18"
    and "\<forall>(n, old, new) \<in> set l. n < 2 \<and> old \<le> m \<and> new \<le> m"
  shows "\<exists>h' w'. hp_samples e l (h, w) = Some (h', w') \<and> idle_inv e m (i + length l) h' w'"
  using assms(3-5)
proof (induction l arbitrary: i h w)
  case (Cons a l)
  obtain n old new where a: "a = (n, old, new)" by (metis prod.exhaust)
  obtain h1 w1 where s: "map_option snd (hotplug_cpufreq_transition e POSTCHANGE \<lparr>fr_cpu = 0, fr_old = old, fr_new = new\<rparr>
      (\<lambda>_. n) (h, w)) = Some (h1, w1)" "idle_inv e m (i + 1) h1 w1"
    using idle_sample [OF assms(1,2) Cons.prems(1), of n old new] Cons.prems(2,3) a by auto
  show ?case
    using Cons.IH [OF s(2)] Cons.prems(2,3) by (simp add: a sample_bind s(1))
qed simp

lemma idle_takes_all_down:
  assumes "soc_is_exynos4412 e" "cpus_work e" "can_hotplug h \<noteq> 0"
    and "\<forall>c \<in> {ctn_nr_running_under2 h, ctn_nr_running_under3 h, ctn_nr_running_under4 h, ctn_freq_out_trg_cnt h}.
      unat c + 18 < 2 ^ 32"
    and "length l = 18" "\<forall>(n, old, new) \<in> set l. n < 2 \<and> old \<le> freq_min h \<and> new \<le> freq_min h"
  shows "\<exists>h' w'. hp_samples e l (h, w) = Some (h', w') \<and> extra_cpus e w' = 0"
proof -
  have "idle_inv e (freq_min h) 0 h w" using assms(3,4) extra_cpus_le [of e w] by (simp add: idle_inv_def)
  then obtain h' w' where r: "hp_samples e l (h, w) = Some (h', w')" "idle_inv e (freq_min h) 18 h' w'"
    using idle_samples [OF assms(1,2), of "freq_min h" 0 h w l] assms(5,6) by auto
  moreover have "extra_cpus e w' = 0"
    using r(2) extra_cpus_le [of e w'] by (cases "extra_cpus e w'") (auto simp: idle_inv_def)
  ultimately show ?thesis by blast
qed

section \<open>The frequency bounds\<close>

text \<open>A row is a record when it exceeds every row before it: the scan gives records to the maximum and only
  the other rows to the minimum.\<close>

lemma freq_bounds_descending:
  assumes "sorted_wrt (\<lambda>r r'. frequency r > frequency r') (r # t)"
    "\<forall>r \<in> set (r # t). frequency r \<noteq> CPUFREQ_ENTRY_INVALID" "frequency r > 0" "t \<noteq> []"
  shows "freq_bounds (r # t) (0, - 1) = (frequency r, frequency (last t))"
proof -
  have below: "freq_bounds t (M, m) = (M, frequency (last t))"
    if "sorted_wrt (\<lambda>r r'. frequency r > frequency r') t" "\<forall>r \<in> set t. frequency r \<noteq> CPUFREQ_ENTRY_INVALID"
      "\<forall>r \<in> set t. frequency r < M" "t \<noteq> []" "frequency (hd t) < m" for t M m
    using that
  proof (induction t arbitrary: m)
    case (Cons a t)
    have a: "freq_bounds (a # t) (M, m) = freq_bounds t (M, frequency a)"
    proof -
      have "\<not> M < frequency a" "frequency a < m" "frequency a \<noteq> CPUFREQ_ENTRY_INVALID" using Cons.prems by auto
      then show ?thesis by (simp add: freq_bounds_def Let_def)
    qed
    show ?case
    proof (cases "t = []")
      case False
      then have "frequency (hd t) < frequency a" using Cons.prems(1) by (auto simp: neq_Nil_conv)
      then show ?thesis using Cons.IH [of "frequency a"] Cons.prems False a by simp
    qed (use a in \<open>simp add: freq_bounds_def\<close>)
  qed simp
  have "frequency (hd t) \<noteq> - 1" using assms(2,4) by (cases t) auto
  then have "frequency (hd t) < - 1" using word_n1_ge [of "frequency (hd t)"] by (simp add: less_le)
  then have "freq_bounds t (frequency r, - 1) = (frequency r, frequency (last t))"
    using below [of t "frequency r" "- 1"] assms(1,2,4) by auto
  then show ?thesis using assms(2,3) by (simp add: freq_bounds_def)
qed

lemma freq_bounds_ascending:
  assumes "sorted_wrt (\<lambda>r r'. frequency r < frequency r') t" "\<forall>r \<in> set t. frequency r \<noteq> CPUFREQ_ENTRY_INVALID \<and> frequency r > M"
  shows "snd (freq_bounds t (M, m)) = m"
  using assms
proof (induction t arbitrary: M)
  case (Cons a t)
  then have "freq_bounds (a # t) (M, m) = freq_bounds t (frequency a, m)" by (simp add: freq_bounds_def)
  then show ?case using Cons.IH [of "frequency a"] Cons.prems by simp
qed (simp add: freq_bounds_def)

lemma hotplug_init_run:
  assumes "exynos4_integrated_dvfs_hotplug_init (Inr t) rc hotplug_static = (rc', h)"
  shows "freq_max h = fst (freq_bounds t (0, - 1))" "freq_min h = snd (freq_bounds t (0, - 1))" "can_hotplug h = 1"
    "ctn_nr_running_under2 h = 0" "ctn_nr_running_under3 h = 0" "ctn_nr_running_under4 h = 0" "ctn_freq_out_trg_cnt h = 0"
  using assms by (auto simp: exynos4_integrated_dvfs_hotplug_init_def hotplug_static_def Let_def split: prod.splits)

text \<open>With a descending table the trigger is the last row.\<close>

lemma hotplug_descending_table:
  assumes "exynos4_integrated_dvfs_hotplug_init (Inr (r # t)) rc hotplug_static = (rc', h)" "t \<noteq> []"
    and "\<forall>r \<in> set (r # t). frequency r \<noteq> CPUFREQ_ENTRY_INVALID" "frequency r > 0"
    and "sorted_wrt (\<lambda>r r'. frequency r > frequency r') (r # t)"
  shows "freq_max h = frequency r" "freq_min h = frequency (last t)"
  using hotplug_init_run(1,2) [OF assms(1)] freq_bounds_descending [OF assms(5,3,4,2)] by simp_all

text \<open>
  The scan of the frequency table finds no minimum in a table in ascending order: every row
  is then a new maximum, and the \<open>else\<close> keeps it from the minimum, which stays at the largest integer.
  So on a quad-core chip with such a table 18 notifications with at most one runnable thread take down
  every extra CPU at any frequencies, the highest included.
\<close>

theorem hotplug_ascending_table:
  assumes "exynos4_integrated_dvfs_hotplug_init (Inr t) rc hotplug_static = (rc', h)"
    and "\<forall>r \<in> set t. frequency r \<noteq> CPUFREQ_ENTRY_INVALID \<and> frequency r > 0"
    and "sorted_wrt (\<lambda>r r'. frequency r < frequency r') t"
    and "soc_is_exynos4412 e" "cpus_work e" "length l = 18" "\<forall>(n, old, new) \<in> set l. n < 2"
  shows "freq_min h = - 1 \<and> (\<exists>h' w'. hp_samples e l (h, w) = Some (h', w') \<and> extra_cpus e w' = 0)"
proof -
  note h = hotplug_init_run [OF assms(1)]
  have m: "freq_min h = - 1"
    unfolding h(2) by (rule freq_bounds_ascending) (use assms(2,3) in auto)
  have l: "\<forall>(n, old, new) \<in> set l. n < 2 \<and> old \<le> freq_min h \<and> new \<le> freq_min h"
    using assms(7) by (auto simp: m)
  have "\<exists>h' w'. hp_samples e l (h, w) = Some (h', w') \<and> extra_cpus e w' = 0"
    by (rule idle_takes_all_down [OF assms(4,5) _ _ assms(6) l]) (simp_all add: h)
  with m show ?thesis by blast
qed

section \<open>A quad-core chip\<close>

definition quad :: "(cpuid \<Rightarrow> bool) hp_env" where
  "quad = \<lparr>soc_is_exynos4412 = True, hp_online = (\<lambda>w. w), hp_up = (\<lambda>j w. Some (w(j := True))),
     hp_down = (\<lambda>j w. Some (w(j := False)))\<rparr>"

lemma quad_ok: "soc_is_exynos4412 quad" "cpus_work quad" "only_that_cpu quad"
  by (auto simp: quad_def cpus_work_def only_that_cpu_def)

definition quad_started :: hotplug where
  "quad_started = snd (exynos4_integrated_dvfs_hotplug_init
     (Inr [\<lparr>fe_index = 0, frequency = 200000\<rparr>, \<lparr>fe_index = 1, frequency = 1400000\<rparr>]) 0 hotplug_static)"

theorem hotplug_busy_brings_all_up_witness:
  "\<exists>h' w'. hp_samples quad (replicate 15 (4, 1400000, 1400000)) (hotplug_static\<lparr>can_hotplug := 1\<rparr>, \<lambda>j. j = 0) = Some (h', w')
    \<and> w' 1 \<and> w' 2 \<and> w' 3"
  using hotplug_busy_brings_all_up [OF quad_ok(1,2), of "hotplug_static\<lparr>can_hotplug := 1\<rparr>" "replicate 15 (4, 1400000, 1400000)" "\<lambda>j. j = 0"]
  by (simp add: hotplug_static_def) (simp add: quad_def)

theorem hotplug_ascending_table_witness:
  "\<exists>h' w'. hp_samples quad (replicate 18 (1, 1400000, 1400000)) (quad_started, \<lambda>j. j < 4) = Some (h', w')
    \<and> extra_cpus quad w' = 0"
proof -
  have i: "exynos4_integrated_dvfs_hotplug_init
      (Inr [\<lparr>fe_index = 0, frequency = 200000\<rparr>, \<lparr>fe_index = 1, frequency = 1400000\<rparr>]) 0 hotplug_static = (0, quad_started)"
    by (simp add: quad_started_def exynos4_integrated_dvfs_hotplug_init_def case_prod_unfold Let_def)
  show ?thesis
    using hotplug_ascending_table [OF i _ _ quad_ok(1,2), of "replicate 18 (1, 1400000, 1400000)" "\<lambda>j. j < 4"] by simp
qed

theorem hotplug_keeps_order_witness:
  "\<exists>h' w'. (hp_step quad)\<^sup>*\<^sup>* (hotplug_static, \<lambda>j. j = 0) (h', w') \<and> in_order quad w' \<and> can_hotplug h' = 1"
proof -
  let ?h = "hotplug_static\<lparr>can_hotplug := 1\<rparr>"
  have "hp_step quad (hotplug_static, \<lambda>j. j = 0) (?h, \<lambda>j. j = 0)"
    by (rule hp_step.Power [where ev = PM_POST_SUSPEND and rc = 0]) (simp add: hotplug_pm_transition_def)
  then have r: "(hp_step quad)\<^sup>*\<^sup>* (hotplug_static, \<lambda>j. j = 0) (?h, \<lambda>j. j = 0)" by simp
  have "in_order quad (\<lambda>j. j = 0)" by (simp add: in_order_def quad_def)
  then have "in_order quad (\<lambda>j. j = 0)" by (rule hotplug_keeps_order [OF quad_ok(1,3) r])
  with r show ?thesis by (intro exI [of _ ?h] exI [of _ "\<lambda>j. j = 0"]) simp
qed

end
