(* ===== verification/Hotplug_Core.thy ===== *)
theory Hotplug_Core
  imports Core_Hotplug Hotplug_Safety Stack_Safety
begin

text \<open>
  The load hotplug on top of the cpufreq core: \<open>cpu_up\<close> and \<open>cpu_down\<close> call the core's hotplug
  callback, which takes the semaphore of the CPU's policy.
\<close>

text \<open>The kernel's CPU hotplug calls the notifiers: \<open>CPU_DOWN_PREPARE\<close> before the CPU goes, \<open>CPU_ONLINE\<close>
  after it has come.\<close>

definition core_cpu_down :: "('g, 'd) core_env \<Rightarrow> nat \<Rightarrow> cpuid \<Rightarrow> ('g, 'd) core \<Rightarrow> ('g, 'd) core option" where
  "core_cpu_down env fuel j c = do {
     c \<leftarrow> cpufreq_cpu_callback env fuel CPU_DOWN_PREPARE j c;
     Some (upd_sys (\<lambda>s. s\<lparr>online := (online s)(j := False)\<rparr>) c)
   }"

definition core_cpu_up :: "('g, 'd) core_env \<Rightarrow> nat \<Rightarrow> cpuid \<Rightarrow> ('g, 'd) core \<Rightarrow> ('g, 'd) core option" where
  "core_cpu_up env fuel j c =
     cpufreq_cpu_callback env fuel CPU_ONLINE j (upd_sys (\<lambda>s. s\<lparr>online := (online s)(j := True)\<rparr>) c)"

definition core_hp :: "('g, 'd) core_env \<Rightarrow> nat \<Rightarrow> bool \<Rightarrow> ('g, 'd) core hp_env" where
  "core_hp env fuel quad_core = \<lparr>soc_is_exynos4412 = quad_core, hp_online = (\<lambda>c. online (csys c)),
     hp_up = core_cpu_up env fuel, hp_down = core_cpu_down env fuel\<rparr>"

lemma down_waits:
  assumes "policy_cpu c j = Some k" "rwsem c k \<noteq> Sem_free"
  shows "core_cpu_down env fuel j c = None"
  using assms by (simp add: core_cpu_down_def cpufreq_cpu_callback_def lock_policy_rwsem_write_def down_write_def)

text \<open>
  Claim C35. The notifier must not be reached with the policy's semaphore held: on a quad-core chip,
  when the counters say that CPU 1 can go, the notification of a change made under the semaphore of CPU
  1's policy, as every change is that comes from a write to a sysfs file or from
  \<open>cpufreq_update_policy\<close>, never returns, because \<open>cpu_down\<close> asks the core to take the same semaphore.
\<close>

theorem hotplug_waits_for_held_policy:
  assumes "policy_cpu c 1 = Some k" "rwsem c k \<noteq> Sem_free" "online (csys c) 1"
    and "can_hotplug h \<noteq> 0" "n < 2" "old \<le> freq_min h" "new \<le> freq_min h"
    and "7 \<le> unat (ctn_nr_running_under4 h)" "unat (ctn_nr_running_under4 h) + 1 < 2 ^ 32"
    and "4 \<le> unat (ctn_freq_out_trg_cnt h)" "unat (ctn_freq_out_trg_cnt h) + 1 < 2 ^ 32"
  shows "hotplug_cpufreq_transition (core_hp env fuel True) POSTCHANGE \<lparr>fr_cpu = cpu, fr_old = old, fr_new = new\<rparr>
    (\<lambda>_. n) (h, c) = None"
proof -
  let ?e = "core_hp env fuel True" and ?h = "counted n old new h"
  have soc: "soc_is_exynos4412 ?e" by (simp add: core_hp_def)
  have n4: "n < 4" using thread_order(3,4) [of n] assms(5) by blast
  have "unat (ctn_nr_running_under4 ?h) = unat (ctn_nr_running_under4 h) + 1"
    "unat (ctn_freq_out_trg_cnt ?h) = unat (ctn_freq_out_trg_cnt h) + 1"
    using unat_suc [OF assms(9)] unat_suc [OF assms(11)] n4 assms(6,7) by (simp_all add: counted_simps)
  then have enough: "ctn_nr_running_under4 ?h \<ge> 8" "ctn_freq_out_trg_cnt ?h \<ge> 5"
    using assms(8,10) by (simp_all add: word_le_nat_alt)
  have "in_4412 ?e n b (?h, c) = Some (?h, c)" for b
    using assms(5) thread_order [of n] by (auto simp: in_4412_def not_le [symmetric])
  moreover have "out_4412 ?e n (freq_out ?h old new) (?h, c) = None"
    using n4 assms(3,6,7) enough down_waits [OF assms(1,2)]
    by (simp add: out_4412_def take_down_def freq_out_def counted_simps(10) core_hp_def)
  ultimately have "map_option fst (exynos4_integrated_dvfs_hotplug ?e old new (\<lambda>_. n) (h, c)) = None"
    unfolding hotplug_steady [OF soc] by simp
  then show ?thesis using assms(4) by (simp add: hotplug_cpufreq_transition_def)
qed

theorem hotplug_waits_for_held_policy_witness:
  "hotplug_cpufreq_transition (core_hp (stack_env demo_ke demo_board demo_base) 2 True) POSTCHANGE
      \<lparr>fr_cpu = 0, fr_old = 200000, fr_new = 200000\<rparr> (\<lambda>_. 1)
      (hotplug_static\<lparr>can_hotplug := 1, ctn_nr_running_under4 := 7, ctn_freq_out_trg_cnt := 4, freq_min := 200000\<rparr>,
       set_sem 0 Sem_write demo_core) = None"
  by (rule hotplug_waits_for_held_policy [where k = 0])
    (simp_all add: demo_core_def demo_esys_def)

end
