(* ===== verification/Stdio.thy ===== *)
theory Stdio
  imports Sysfs_Text
begin

text \<open>
  What the daemons of \<open>system/extras\<close> use of the C library: files read with \<open>fopen\<close> and \<open>fscanf\<close>,
  written with \<open>fopen\<close>, \<open>fprintf\<close> and \<open>fclose\<close>, and \<open>exit\<close>. The files belong to an operating system
  of state \<open>'w\<close>. A written text reaches its file when the stream is closed; the kernel's answer to a
  write into sysfs is not seen by the program.
\<close>

record 'w os =
  os_read :: "string \<Rightarrow> 'w \<Rightarrow> string option \<times> 'w"   \<comment> \<open>\<open>fopen(path, "r")\<close> and the text, or \<open>NULL\<close>\<close>
  os_write :: "string \<Rightarrow> string \<Rightarrow> 'w \<Rightarrow> 'w option"    \<comment> \<open>\<open>fopen(path, "w")\<close>, the text written, \<open>fclose\<close>\<close>
  os_exists :: "string \<Rightarrow> 'w \<Rightarrow> bool"                \<comment> \<open>\<open>access(path, F_OK) == 0\<close>\<close>

text \<open>A call returns, exits the process, or has undefined behaviour.\<close>

datatype 'a run = Ret 'a | Exit int | Undefined

fun run_bind :: "'a run \<Rightarrow> ('a \<Rightarrow> 'b run) \<Rightarrow> 'b run" where
  "run_bind (Ret x) f = f x"
| "run_bind (Exit n) f = Exit n"
| "run_bind Undefined f = Undefined"

fun run_option :: "'a option \<Rightarrow> 'a run" where
  "run_option None = Undefined"
| "run_option (Some x) = Ret x"

text \<open>Arithmetic on \<open>int\<close>: an overflow is undefined.\<close>

definition c_signed :: "int \<Rightarrow> int run" where
  "c_signed n = (if - (2 ^ 31) \<le> n \<and> n < 2 ^ 31 then Ret n else Undefined)"

lemma run_bind_Ret [simp]: "run_bind m Ret = m"
  by (cases m) simp_all

lemma run_bind_eq_Ret: "run_bind m f = Ret y \<longleftrightarrow> (\<exists>x. m = Ret x \<and> f x = Ret y)"
  by (cases m) simp_all

text \<open>What holds of the result if there is one.\<close>

definition run_all :: "('a \<Rightarrow> bool) \<Rightarrow> 'a run \<Rightarrow> bool" where
  "run_all P r \<longleftrightarrow> (\<forall>x. r = Ret x \<longrightarrow> P x)"

lemma run_all_simps [simp]: "run_all P (Ret x) = P x" "run_all P (Exit n)" "run_all P Undefined"
  by (simp_all add: run_all_def)

lemma run_all_bind: "run_all P m \<Longrightarrow> (\<And>x. P x \<Longrightarrow> run_all Q (f x)) \<Longrightarrow> run_all Q (run_bind m f)"
  by (cases m) simp_all

lemma run_all_anything: "(\<And>x. run_all Q (f x)) \<Longrightarrow> run_all Q (run_bind m f)"
  by (cases m) simp_all

section \<open>Scanning\<close>

text \<open>\<open>isspace\<close> in the C locale.\<close>

definition isspace :: "char \<Rightarrow> bool" where
  "isspace c \<longleftrightarrow> (of_char c :: nat) \<in> {32} \<union> {9..13}"

text \<open>The result of one conversion: \<open>EOF\<close> when the input ends before it, no match, or a value and what
  is left of the input.\<close>

datatype 'a scan = Scan_EOF | Scan_none string | Scan 'a string

definition strtoimax :: "bool \<Rightarrow> nat \<Rightarrow> int" where
  "strtoimax neg n = max (- (2 ^ 63)) (min (2 ^ 63 - 1) (if neg then - int n else int n))"

definition fscanf_d :: "string \<Rightarrow> int scan" where
  "fscanf_d s = (let s1 = dropWhile isspace s in
     case s1 of
       [] \<Rightarrow> Scan_EOF
     | c # cs \<Rightarrow>
         (let (neg, ds) = (if c = CHR ''-'' then (True, cs) else if c = CHR ''+'' then (False, cs) else (False, s1));
              d = takeWhile is_digit ds
          in if d = [] then Scan_none ds
             else Scan (s32 (strtoimax neg (dec_val d))) (dropWhile is_digit ds)))"

definition fscanf_llu :: "string \<Rightarrow> u64 scan" where
  "fscanf_llu s = (let s1 = dropWhile isspace s in
     case s1 of
       [] \<Rightarrow> Scan_EOF
     | c # cs \<Rightarrow>
         (let (neg, ds) = (if c = CHR ''-'' then (True, cs) else if c = CHR ''+'' then (False, cs) else (False, s1));
              d = takeWhile is_digit ds;
              n = min (2 ^ 64 - 1) (dec_val d)
          in if d = [] then Scan_none ds
             else Scan (if neg then - of_nat n else of_nat n) (dropWhile is_digit ds)))"

definition fscanf_s :: "string \<Rightarrow> string scan" where
  "fscanf_s s = (let s1 = dropWhile isspace s in
     if s1 = [] then Scan_EOF else Scan (takeWhile (\<lambda>c. \<not> isspace c) s1) (dropWhile (\<lambda>c. \<not> isspace c) s1))"

section \<open>Printing then scanning\<close>

lemma digit_not_isspace: "is_digit c \<Longrightarrow> \<not> isspace c \<and> c \<noteq> CHR ''-'' \<and> c \<noteq> CHR ''+''"
  by (auto simp: is_digit_def isspace_def)

lemma fscanf_d_digits:
  assumes "n < 2 ^ 31" "r = [] \<or> \<not> is_digit (hd r)"
  shows "fscanf_d (dec_str n @ r) = Scan (int n) r"
proof -
  obtain c cs where d: "dec_str n = c # cs" by (meson dec_str_hd)
  have dig: "\<forall>c \<in> set (dec_str n). is_digit c" by (rule dec_str_digits)
  then have c: "\<not> isspace c" "c \<noteq> CHR ''-''" "c \<noteq> CHR ''+''"
    using digit_not_isspace [of c] d by auto
  have t: "takeWhile is_digit (dec_str n @ r) = dec_str n" "dropWhile is_digit (dec_str n @ r) = r"
    using dig assms(2) by (cases r; simp add: takeWhile_append2 dropWhile_append2)+
  have "strtoimax False (dec_val (dec_str n)) = int n"
    using assms(1) by (simp add: strtoimax_def dec_val_str)
  then show ?thesis
    using c t assms(1) d by (simp add: fscanf_d_def s32_id)
qed

lemma fscanf_d_printed:
  assumes "- (2 ^ 31) \<le> i" "i < 2 ^ 31" "r = [] \<or> \<not> is_digit (hd r)"
  shows "fscanf_d (sprintf_d i @ r) = Scan i r"
proof (cases "i < 0")
  case False
  then show ?thesis using fscanf_d_digits [of "nat i" r] assms by (simp add: sprintf_d_def)
next
  case True
  have dig: "\<forall>c \<in> set (dec_str (nat (- i))). is_digit c" by (rule dec_str_digits)
  have t: "takeWhile is_digit (dec_str (nat (- i)) @ r) = dec_str (nat (- i))"
    "dropWhile is_digit (dec_str (nat (- i)) @ r) = r"
    using dig assms(3) by (cases r; simp add: takeWhile_append2 dropWhile_append2)+
  have "strtoimax True (dec_val (dec_str (nat (- i)))) = i"
    using assms True by (simp add: strtoimax_def dec_val_str)
  then show ?thesis
    using t assms True by (simp add: fscanf_d_def sprintf_d_def isspace_def s32_id)
qed

lemma fscanf_d_space [simp]: "isspace c \<Longrightarrow> fscanf_d (c # s) = fscanf_d s"
  by (simp add: fscanf_d_def)

lemma fscanf_d_Nil [simp]: "fscanf_d [] = Scan_EOF"
  by (simp add: fscanf_d_def)

lemma isspace_blank [simp]: "isspace blank" "isspace newline"
  by (simp_all add: isspace_def)

end
