(* ===== verification/Freq_Steps.thy ===== *)
theory Freq_Steps
  imports Stdio
begin

text \<open>
  The frequency steps of the daemon (\<open>system/extras/cpuusage/cpufreq.c\<close>): the table of the Exynos 4412,
  the neighbours of a frequency, and the reads and writes of the governor and speed files. A read of the
  table outside its bounds is undefined behaviour. An uninitialised local is the parameter \<open>junk\<close>.
\<close>

section \<open>The table\<close>

definition exynos4412_cpufreq_table :: "u32 list" where
  "exynos4412_cpufreq_table = [1704000, 1600000, 1500000, 1400000, 1300000, 1200000, 1100000, 1000000, 900000,
     800000, 700000, 600000, 500000, 400000, 300000, 200000]"

abbreviation CPUFREQ_MIN :: u32 where "CPUFREQ_MIN \<equiv> 200000"
abbreviation CPUFREQ_MAX :: u32 where "CPUFREQ_MAX \<equiv> 1704000"

text \<open>The index at which the scan for a frequency not above \<open>cur\<close> stops.\<close>

fun step_scan :: "u32 \<Rightarrow> u32 list \<Rightarrow> int" where
  "step_scan cur [] = 0"
| "step_scan cur (f # t) = (if f \<le> cur then 0 else 1 + step_scan cur t)"

definition get_next_freq :: "u32 \<Rightarrow> u32 option" where
  "get_next_freq cur_freq =
     (if cur_freq = CPUFREQ_MAX then Some CPUFREQ_MAX
      else nth_int exynos4412_cpufreq_table (step_scan cur_freq exynos4412_cpufreq_table - 1))"

definition get_prev_freq :: "u32 \<Rightarrow> u32 option" where
  "get_prev_freq cur_freq =
     (if cur_freq = CPUFREQ_MIN then Some CPUFREQ_MIN
      else nth_int exynos4412_cpufreq_table (step_scan cur_freq exynos4412_cpufreq_table + 1))"

section \<open>Governors\<close>

datatype cpufreq_governor_t =
  G_ADAPTIVE | G_INTERACTIVE | G_CONSERVATIVE | G_USERSPACE | G_POWERSAVE | G_ONDEMAND | G_PERFORMANCE | G_MAX_GOV

definition scaling_file :: "string \<Rightarrow> string" where
  "scaling_file name = ''/sys/devices/system/cpu/cpu0/cpufreq/'' @ name"

definition governor_of :: "string \<Rightarrow> cpufreq_governor_t option" where
  "governor_of s =
     (if s = ''ondemand'' then Some G_ONDEMAND
      else if s = ''userspace'' then Some G_USERSPACE
      else if s = ''performance'' then Some G_PERFORMANCE
      else if s = ''powersave'' then Some G_POWERSAVE
      else if s = ''conservative'' then Some G_CONSERVATIVE
      else if s = ''interactive'' then Some G_INTERACTIVE
      else if s = ''adaptive'' then Some G_ADAPTIVE
      else None)"

text \<open>The buffer has 20 bytes, one of them for the \<open>NUL\<close>.\<close>

definition read_scaling_governor :: "'w os \<Rightarrow> 'w \<Rightarrow> (cpufreq_governor_t \<times> 'w) run" where
  "read_scaling_governor os w = (case os_read os (scaling_file ''scaling_governor'') w of
     (None, w) \<Rightarrow> Exit (- 1)
   | (Some s, w) \<Rightarrow> (case fscanf_s s of
       Scan word _ \<Rightarrow>
         if length word \<ge> 20 then Undefined
         else (case governor_of word of Some g \<Rightarrow> Ret (g, w) | None \<Rightarrow> Exit (- 1))
     | _ \<Rightarrow> Exit (- 1)))"

definition governor_text :: "cpufreq_governor_t \<Rightarrow> string option" where
  "governor_text g = (case g of
     G_ONDEMAND \<Rightarrow> Some ''ondemand'' | G_USERSPACE \<Rightarrow> Some ''userspace'' | G_PERFORMANCE \<Rightarrow> Some ''performance''
   | G_POWERSAVE \<Rightarrow> Some ''powersave'' | G_CONSERVATIVE \<Rightarrow> Some ''conservative''
   | G_INTERACTIVE \<Rightarrow> Some ''interactive'' | G_ADAPTIVE \<Rightarrow> Some ''adaptive'' | G_MAX_GOV \<Rightarrow> None)"

definition write_file :: "'w os \<Rightarrow> string \<Rightarrow> string \<Rightarrow> 'w \<Rightarrow> 'w run" where
  "write_file os path text w = (case os_write os path text w of None \<Rightarrow> Exit (- 1) | Some w \<Rightarrow> Ret w)"

definition set_scaling_governor :: "'w os \<Rightarrow> cpufreq_governor_t \<Rightarrow> 'w \<Rightarrow> 'w run" where
  "set_scaling_governor os g w = (case governor_text g of
     None \<Rightarrow> run_bind (write_file os (scaling_file ''scaling_governor'') [] w) (\<lambda>_. Exit (- 1))
   | Some t \<Rightarrow> write_file os (scaling_file ''scaling_governor'') t w)"

section \<open>Speeds\<close>

definition set_cpufreq_to_value :: "'w os \<Rightarrow> u32 \<Rightarrow> 'w \<Rightarrow> 'w run" where
  "set_cpufreq_to_value os freq w = write_file os (scaling_file ''scaling_setspeed'') (sprintf_d (c_int freq)) w"

definition set_cpufreq_to_max :: "'w os \<Rightarrow> 'w \<Rightarrow> 'w run" where
  "set_cpufreq_to_max os w = write_file os (scaling_file ''scaling_setspeed'') (sprintf_d (c_int CPUFREQ_MAX)) w"

definition set_cpufreq_to_min :: "'w os \<Rightarrow> 'w \<Rightarrow> 'w run" where
  "set_cpufreq_to_min os w = write_file os (scaling_file ''scaling_setspeed'') (sprintf_d (c_int CPUFREQ_MIN)) w"

text \<open>A file of one number, as every sysfs read of the daemons: \<open>EOF\<close> is handled by \<open>eof\<close>, a text that is no
  number leaves the variable at \<open>junk\<close>.\<close>

definition read_number :: "int run \<Rightarrow> int \<Rightarrow> 'w os \<Rightarrow> string \<Rightarrow> 'w \<Rightarrow> (int \<times> 'w) run" where
  "read_number eof junk os path w = (case os_read os path w of
     (None, w) \<Rightarrow> Exit (- 1)
   | (Some s, w) \<Rightarrow> (case fscanf_d s of
       Scan_EOF \<Rightarrow> run_bind eof (\<lambda>n. Ret (n, w))
     | Scan_none _ \<Rightarrow> Ret (junk, w)
     | Scan n _ \<Rightarrow> Ret (n, w)))"

definition read_scaling_cur_freq :: "int \<Rightarrow> 'w os \<Rightarrow> 'w \<Rightarrow> (u32 \<times> 'w) run" where
  "read_scaling_cur_freq junk os w =
     run_bind (read_number (Exit (- 1)) junk os (scaling_file ''scaling_cur_freq'') w) (\<lambda>(n, w). Ret (c_uint n, w))"

definition set_cpufreq_to_next_step :: "int \<Rightarrow> 'w os \<Rightarrow> 'w \<Rightarrow> 'w run" where
  "set_cpufreq_to_next_step junk os w =
     run_bind (read_scaling_cur_freq junk os w) (\<lambda>(cur_freq, w).
     if cur_freq = CPUFREQ_MAX then Ret w
     else run_bind (run_option (get_next_freq cur_freq)) (\<lambda>next_freq. set_cpufreq_to_value os next_freq w))"

definition set_cpufreq_to_prev_step :: "int \<Rightarrow> 'w os \<Rightarrow> 'w \<Rightarrow> 'w run" where
  "set_cpufreq_to_prev_step junk os w =
     run_bind (read_scaling_cur_freq junk os w) (\<lambda>(cur_freq, w).
     if cur_freq = CPUFREQ_MIN then Ret w
     else run_bind (run_option (get_prev_freq cur_freq)) (\<lambda>prev_freq. set_cpufreq_to_value os prev_freq w))"

section \<open>Neighbours\<close>

lemma step_scan_bounds: "0 \<le> step_scan cur t" "step_scan cur t \<le> int (length t)"
  by (induction t) auto

lemma step_scan_split:
  assumes "sorted_wrt (\<lambda>a b. a > b) t"
  shows "i < length t \<Longrightarrow> (int i < step_scan cur t) = (t ! i > cur)"
  using assms
proof (induction t arbitrary: i)
  case (Cons f t)
  show ?case
  proof (cases i)
    case 0
    then show ?thesis using step_scan_bounds(1) [of cur t] by (auto simp: not_le)
  next
    case (Suc k)
    have k: "k < length t" "t ! k < f" using Cons.prems Suc by simp_all
    have IH: "(int k < step_scan cur t) = (t ! k > cur)" using Cons.IH [OF k(1)] Cons.prems(2) by simp
    show ?thesis
    proof (cases "f \<le> cur")
      case True
      then have "\<not> t ! k > cur" using k(2) by simp
      with True show ?thesis by (simp add: Suc)
    next
      case False
      with IH show ?thesis by (simp add: Suc)
    qed
  qed
qed simp

lemma table_descending: "sorted_wrt (\<lambda>a b. a > b) exynos4412_cpufreq_table"
  by (simp add: exynos4412_cpufreq_table_def)

lemma length_table [simp]: "length exynos4412_cpufreq_table = 16"
  by (simp add: exynos4412_cpufreq_table_def)

lemma table_ends: "exynos4412_cpufreq_table ! 0 = CPUFREQ_MAX" "exynos4412_cpufreq_table ! 15 = CPUFREQ_MIN"
  by (simp_all add: exynos4412_cpufreq_table_def)

text \<open>Where the scan stops.\<close>

lemma step_scan_table:
  shows "(step_scan cur exynos4412_cpufreq_table = 0) = (CPUFREQ_MAX \<le> cur)"
    and "(step_scan cur exynos4412_cpufreq_table = 16) = (cur < CPUFREQ_MIN)"
    and "(step_scan cur exynos4412_cpufreq_table \<le> 14) = (300000 \<le> cur)"
proof -
  let ?n = "step_scan cur exynos4412_cpufreq_table"
  note b = step_scan_bounds [of cur exynos4412_cpufreq_table]
  have s: "(int i < ?n) = (exynos4412_cpufreq_table ! i > cur)" if "i < 16" for i
    using step_scan_split [OF table_descending, of i cur] that by simp
  have t14: "exynos4412_cpufreq_table ! 14 = 300000" by (simp add: exynos4412_cpufreq_table_def)
  show "(?n = 0) = (CPUFREQ_MAX \<le> cur)" using s [of 0] b table_ends(1) by (auto simp: not_less)
  show "(?n = 16) = (cur < CPUFREQ_MIN)" using s [of 15] b table_ends(2) by auto
  show "(?n \<le> 14) = (300000 \<le> cur)" using s [of 14] b t14 by auto
qed

text \<open>Every entry of the table is at an index, and the scan compares with each.\<close>

lemma table_index:
  assumes "g \<in> set exynos4412_cpufreq_table"
  shows "\<exists>j < 16. g = exynos4412_cpufreq_table ! j
           \<and> (int j < step_scan cur exynos4412_cpufreq_table) = (g > cur)"
proof -
  obtain j where j: "j < 16" "g = exynos4412_cpufreq_table ! j" using assms by (auto simp: in_set_conv_nth)
  then show ?thesis using step_scan_split [OF table_descending, of j cur] by auto
qed

lemma table_antimono: "i \<le> j \<Longrightarrow> j < 16 \<Longrightarrow> exynos4412_cpufreq_table ! j \<le> exynos4412_cpufreq_table ! i"
  using sorted_wrt_nth_less [OF table_descending, of i j] by (cases "i = j") auto

lemma table_strict: "i < j \<Longrightarrow> j < 16 \<Longrightarrow> exynos4412_cpufreq_table ! j < exynos4412_cpufreq_table ! i"
  using sorted_wrt_nth_less [OF table_descending, of i j] by simp

lemma table_nth: "i < 16 \<Longrightarrow> exynos4412_cpufreq_table ! i \<in> set exynos4412_cpufreq_table"
  by (rule nth_mem) simp

lemma get_next_freq_None: "(get_next_freq cur = None) = (CPUFREQ_MAX < cur)"
  using step_scan_table(1) [of cur] step_scan_bounds [of cur exynos4412_cpufreq_table]
  by (auto simp: get_next_freq_def nth_int_def)

lemma get_prev_freq_None: "(get_prev_freq cur = None) = (cur < 300000 \<and> cur \<noteq> CPUFREQ_MIN)"
  using step_scan_table(3) [of cur] step_scan_bounds [of cur exynos4412_cpufreq_table]
  by (auto simp: get_prev_freq_def nth_int_def nth_opt_def not_le not_less)

lemma get_next_freq_nearest:
  assumes "get_next_freq cur = Some f"
  shows "f \<in> set exynos4412_cpufreq_table" "cur = CPUFREQ_MAX \<or> cur < f"
    "\<And>g. g \<in> set exynos4412_cpufreq_table \<Longrightarrow> cur < g \<Longrightarrow> f \<le> g"
proof -
  let ?t = exynos4412_cpufreq_table
  let ?n = "step_scan cur ?t"
  have "f \<in> set ?t \<and> (cur = CPUFREQ_MAX \<or> cur < f) \<and> (\<forall>g \<in> set ?t. cur < g \<longrightarrow> f \<le> g)"
  proof (cases "cur = CPUFREQ_MAX")
    case True
    have "g \<le> CPUFREQ_MAX" if "g \<in> set ?t" for g
      using that by (auto simp: exynos4412_cpufreq_table_def)
    with True assms show ?thesis by (auto simp: get_next_freq_def exynos4412_cpufreq_table_def)
  next
    case False
    define k where "k = nat (?n - 1)"
    have k: "int k = ?n - 1" "k < 16" "f = ?t ! k"
      using assms False by (auto simp: get_next_freq_def nth_int_def nth_opt_Some k_def split: if_splits)
    have "f \<le> g" if "g \<in> set ?t" "cur < g" for g
      using table_index [OF that(1), of cur] that(2) k table_antimono [of _ k] by auto
    then show ?thesis using step_scan_split [OF table_descending, of k cur] k table_nth [of k] by auto
  qed
  then show "f \<in> set ?t" "cur = CPUFREQ_MAX \<or> cur < f" "\<And>g. g \<in> set ?t \<Longrightarrow> cur < g \<Longrightarrow> f \<le> g"
    by blast+
qed

lemma get_prev_freq_nearest:
  assumes "get_prev_freq cur = Some f"
  shows "f \<in> set exynos4412_cpufreq_table" "cur = CPUFREQ_MIN \<or> f < cur"
    "\<And>g. cur \<in> set exynos4412_cpufreq_table \<Longrightarrow> g \<in> set exynos4412_cpufreq_table \<Longrightarrow> g < cur \<Longrightarrow> g \<le> f"
proof -
  let ?t = exynos4412_cpufreq_table
  let ?n = "step_scan cur ?t"
  have "f \<in> set ?t \<and> (cur = CPUFREQ_MIN \<or> f < cur) \<and> (cur \<in> set ?t \<longrightarrow> (\<forall>g \<in> set ?t. g < cur \<longrightarrow> g \<le> f))"
  proof (cases "cur = CPUFREQ_MIN")
    case True
    have "CPUFREQ_MIN \<le> g" if "g \<in> set ?t" for g
      using that by (auto simp: exynos4412_cpufreq_table_def)
    with True assms show ?thesis by (auto simp: get_prev_freq_def exynos4412_cpufreq_table_def)
  next
    case False
    define k where "k = nat (?n + 1)"
    have k: "int k = ?n + 1" "k < 16" "f = ?t ! k"
      using assms False step_scan_bounds(1) [of cur ?t]
      by (auto simp: get_prev_freq_def nth_int_def nth_opt_Some k_def split: if_splits)
    have k0: "0 < k" using k(1) step_scan_bounds(1) [of cur ?t] by simp
    have "\<not> ?t ! (k - 1) > cur"
      using step_scan_split [OF table_descending, of "k - 1" cur] k(1,2) k0 by simp
    then have "f < cur" using table_strict [of "k - 1" k] k(2,3) k0 by simp
    moreover have "g \<le> f" if g: "g \<in> set ?t" "g < cur" "cur \<in> set ?t" for g
    proof -
      obtain j where j: "j < 16" "g = ?t ! j" using table_index [OF g(1), of cur] by blast
      obtain m where m: "m < 16" "cur = ?t ! m" "\<not> int m < ?n" using table_index [OF g(3), of cur] by blast
      have "m < j" using table_antimono [of j m] g(2) j(2) m(1,2) by (cases "j \<le> m") auto
      then have "k \<le> j" using k(1) m(3) by linarith
      then show ?thesis using table_antimono [of k j] j k(3) by simp
    qed
    ultimately show ?thesis using table_nth [OF k(2)] k(3) by blast
  qed
  then show "f \<in> set ?t" "cur = CPUFREQ_MIN \<or> f < cur"
    "\<And>g. cur \<in> set ?t \<Longrightarrow> g \<in> set ?t \<Longrightarrow> g < cur \<Longrightarrow> g \<le> f"
    by blast+
qed

text \<open>
  The next step is undefined exactly above the highest frequency of the table, where the scan
  reads the entry before the first, and the previous step exactly below 300 MHz, the lowest
  frequency itself excepted, where it reads past the last. Where they are defined they are frequencies
  of the table: the next step is above the current one (equal to it at the top) and not above any other
  table frequency that is; the previous step is below the current one (equal at the bottom), and from a
  frequency of the table it is the nearest below.
\<close>

theorem freq_steps_are_neighbours:
  "(get_next_freq cur = None) = (CPUFREQ_MAX < cur)
   \<and> (get_prev_freq cur = None) = (cur < 300000 \<and> cur \<noteq> CPUFREQ_MIN)
   \<and> (\<forall>f. get_next_freq cur = Some f \<longrightarrow> f \<in> set exynos4412_cpufreq_table
        \<and> (cur = CPUFREQ_MAX \<or> cur < f) \<and> (\<forall>g \<in> set exynos4412_cpufreq_table. cur < g \<longrightarrow> f \<le> g))
   \<and> (\<forall>f. get_prev_freq cur = Some f \<longrightarrow> f \<in> set exynos4412_cpufreq_table
        \<and> (cur = CPUFREQ_MIN \<or> f < cur)
        \<and> (cur \<in> set exynos4412_cpufreq_table \<longrightarrow> (\<forall>g \<in> set exynos4412_cpufreq_table. g < cur \<longrightarrow> g \<le> f)))"
  by (intro conjI allI impI ballI get_next_freq_None get_prev_freq_None)
    (assumption | erule get_next_freq_nearest(1,2) get_prev_freq_nearest(1,2)
      | erule (2) get_next_freq_nearest(3) | erule (3) get_prev_freq_nearest(3))+

lemma freq_steps_are_neighbours_witness:
  "get_next_freq 1000000 = Some 1100000 \<and> get_prev_freq 1000000 = Some 900000
   \<and> (1100000 :: u32) \<in> set exynos4412_cpufreq_table \<and> (900000 :: u32) < 1000000"
proof -
  have n: "get_next_freq 1000000 = Some 1100000" "get_prev_freq 1000000 = Some 900000"
    by (simp_all add: get_next_freq_def get_prev_freq_def exynos4412_cpufreq_table_def nth_int_def nth_opt_def)
  show ?thesis using freq_steps_are_neighbours [of 1000000] n by simp
qed

end
