(* ===== verification/C_Float.thy ===== *)
theory C_Float
  imports Prelude "HOL-Library.Log_Nat"
begin

text \<open>
  The type \<open>float\<close> of C: IEEE single precision, round to nearest, ties to even. A finite float is the
  rational it denotes; \<open>rnd32\<close> rounds the exact result of an operation. Values beyond \<open>2^128\<close> do not
  occur in the programs modelled and infinities are left out.
\<close>

section \<open>Rounding\<close>

definition round_even :: "rat \<Rightarrow> int" where
  "round_even q = (let f = \<lfloor>q\<rfloor>; d = q - of_int f in
     if d < 1 / 2 then f else if d > 1 / 2 then f + 1 else if even f then f else f + 1)"

text \<open>\<open>2 ^ fexp q \<le> \<bar>q\<bar> < 2 ^ (fexp q + 1)\<close>.\<close>

definition fexp :: "rat \<Rightarrow> int" where
  "fexp q = (let (a, b) = quotient_of \<bar>q\<bar>; d = bitlen a - bitlen b in
     if \<bar>q\<bar> < 2 powi d then d - 1 else d)"

definition fulp :: "rat \<Rightarrow> rat" where
  "fulp q = 2 powi (max (fexp q - 23) (- 149))"

definition rnd32 :: "rat \<Rightarrow> rat" where
  "rnd32 q = (if q = 0 then 0 else of_int (round_even (q / fulp q)) * fulp q)"

text \<open>The conversion of a float to \<open>int\<close> cuts towards zero.\<close>

definition c_trunc :: "rat \<Rightarrow> int" where
  "c_trunc q = (if 0 \<le> q then \<lfloor>q\<rfloor> else \<lceil>q\<rceil>)"

section \<open>Rounding to an integer\<close>

lemma round_even_int [simp]: "round_even (of_int n) = n"
  by (simp add: round_even_def)

lemma round_even_near: "\<bar>of_int (round_even q) - q\<bar> \<le> 1 / 2"
proof -
  have "of_int \<lfloor>q\<rfloor> \<le> q" "q < of_int \<lfloor>q\<rfloor> + 1" by linarith+
  then show ?thesis by (auto simp: round_even_def Let_def abs_le_iff)
qed

lemma round_even_mono:
  assumes "q \<le> r"
  shows "round_even q \<le> round_even r"
proof (cases "\<lfloor>q\<rfloor> = \<lfloor>r\<rfloor>")
  case True
  then show ?thesis using assms by (auto simp: round_even_def Let_def)
next
  case False
  then have "\<lfloor>q\<rfloor> + 1 \<le> \<lfloor>r\<rfloor>" using assms floor_mono [of q r] by linarith
  moreover have "round_even q \<le> \<lfloor>q\<rfloor> + 1" "\<lfloor>r\<rfloor> \<le> round_even r"
    by (simp_all add: round_even_def Let_def)
  ultimately show ?thesis by linarith
qed

section \<open>The exponent\<close>

lemma bitlen_powi:
  assumes "0 < (a :: int)"
  shows "(2 :: rat) powi (bitlen a - 1) \<le> of_int a" "(of_int a :: rat) < 2 powi bitlen a"
proof -
  have b: "2 ^ nat (bitlen a - 1) \<le> a" "a < 2 ^ nat (bitlen a)" "0 < bitlen a"
    using bitlen_bounds [OF assms] assms bitlen_eq_zero_iff [of a] bitlen_nonneg [of a] by auto
  have "(2 :: rat) powi (bitlen a - 1) = of_int (2 ^ nat (bitlen a - 1))"
    "(2 :: rat) powi bitlen a = of_int (2 ^ nat (bitlen a))"
    using b(3) by (simp_all add: power_int_def)
  then show "(2 :: rat) powi (bitlen a - 1) \<le> of_int a" "(of_int a :: rat) < 2 powi bitlen a"
    using b(1,2) by (simp_all only: of_int_le_iff of_int_less_iff)
qed

lemma fexp_bounds:
  assumes "q \<noteq> 0"
  shows "2 powi fexp q \<le> \<bar>q\<bar>" "\<bar>q\<bar> < 2 powi (fexp q + 1)"
proof -
  obtain a b where ab: "quotient_of \<bar>q\<bar> = (a, b)" by (metis prod.exhaust)
  have b: "0 < b" "\<bar>q\<bar> = of_int a / of_int b" using quotient_of_denom_pos quotient_of_div ab by blast+
  then have a: "0 < a" using assms by (metis abs_0_eq abs_le_zero_iff divide_nonpos_pos of_int_0_less_iff of_int_le_0_iff not_le)
  let ?d = "bitlen a - bitlen b"
  have "(2 :: rat) powi (?d - 1) = 2 powi (bitlen a - 1) / 2 powi bitlen b"
    by (simp add: power_int_diff)
  also have "\<dots> \<le> \<bar>q\<bar>"
    unfolding b(2) using bitlen_powi [OF a] bitlen_powi [OF b(1)] a b(1)
    by (intro frac_le) auto
  finally have lo: "(2 :: rat) powi (?d - 1) \<le> \<bar>q\<bar>" .
  have "\<bar>q\<bar> < 2 powi bitlen a / 2 powi (bitlen b - 1)"
    unfolding b(2) using bitlen_powi [OF a] bitlen_powi [OF b(1)] a b(1)
    by (intro frac_less) auto
  also have "\<dots> = 2 powi (?d + 1)"
    by (simp add: power_int_diff power_int_add)
  finally have hi: "\<bar>q\<bar> < 2 powi (?d + 1)" .
  show "2 powi fexp q \<le> \<bar>q\<bar>" "\<bar>q\<bar> < 2 powi (fexp q + 1)"
    using lo hi by (auto simp: fexp_def ab Let_def)
qed

lemma powi_le_iff: "((2 :: rat) powi m < 2 powi n) = (m < n)"
proof
  show "m < n \<Longrightarrow> (2 :: rat) powi m < 2 powi n" by (rule power_int_strict_increasing) simp_all
  show "(2 :: rat) powi m < 2 powi n \<Longrightarrow> m < n"
    using power_int_increasing [of n m "2 :: rat"] by (simp add: not_le [symmetric]) (meson not_le)
qed

lemma fexp_mono:
  assumes "q \<noteq> 0" "\<bar>q\<bar> \<le> \<bar>r\<bar>"
  shows "fexp q \<le> fexp r"
proof -
  have "r \<noteq> 0" using assms by auto
  then have "(2 :: rat) powi fexp q < 2 powi (fexp r + 1)"
    using fexp_bounds(1) [OF assms(1)] fexp_bounds(2) [of r] assms(2) by linarith
  then show ?thesis by (simp add: powi_le_iff)
qed

lemma fulp_pos [simp]: "0 < fulp q"
  by (simp add: fulp_def)

section \<open>Exact results and monotonicity\<close>

text \<open>A multiple of the unit in the last place of a number not smaller is exact.\<close>

lemma rnd32_exact:
  assumes "q / fulp q = of_int n"
  shows "rnd32 q = q"
proof (cases "q = 0")
  case False
  have "q = of_int n * fulp q" using assms fulp_pos [of q] by (simp add: field_simps)
  then show ?thesis using assms False by (simp add: rnd32_def)
qed (simp add: rnd32_def)

lemma rnd32_int:
  assumes "\<bar>n\<bar> < 2 ^ 24"
  shows "rnd32 (of_int n) = of_int n"
proof (cases "n = 0")
  case False
  let ?q = "of_int n :: rat"
  have "(2 :: rat) powi fexp ?q \<le> \<bar>?q\<bar>" using fexp_bounds(1) [of ?q] False by simp
  also have "\<dots> < 2 powi 24"
    using assms by (simp add: power_int_def)
  finally have "fexp ?q \<le> 23" unfolding powi_le_iff by linarith
  define k where "k = nat (- max (fexp ?q - 23) (- 149))"
  have k: "max (fexp ?q - 23) (- 149) = - int k"
    using \<open>fexp ?q \<le> 23\<close> by (simp add: k_def)
  have "?q / fulp ?q = of_int (n * 2 ^ k)"
    unfolding fulp_def k by (simp add: power_int_minus field_simps)
  then show ?thesis by (rule rnd32_exact)
qed (simp add: rnd32_def)

lemma round_even_minus: "round_even (- q) = - round_even q"
proof (cases "of_int \<lfloor>q\<rfloor> = q")
  case True
  then show ?thesis by (metis of_int_minus round_even_int)
next
  case False
  then have f: "\<lfloor>- q\<rfloor> = - \<lfloor>q\<rfloor> - 1"
    by (simp add: floor_minus ceiling_altdef)
  have d: "- q - of_int \<lfloor>- q\<rfloor> = 1 - (q - of_int \<lfloor>q\<rfloor>)" by (simp add: f)
  show ?thesis
    unfolding round_even_def Let_def d by (auto simp: f)
qed

lemma fexp_minus [simp]: "fexp (- q) = fexp q"
  by (simp add: fexp_def)

lemma rnd32_minus: "rnd32 (- q) = - rnd32 q"
  by (simp add: rnd32_def fulp_def round_even_minus flip: minus_divide_left)

lemma rnd32_0 [simp]: "rnd32 0 = 0"
  by (simp add: rnd32_def)

lemma rnd32_mono_pos:
  assumes "0 < q" "q \<le> r"
  shows "rnd32 q \<le> rnd32 r"
proof (cases "fulp q = fulp r")
  case True
  then have "q / fulp q \<le> r / fulp r" using assms by (simp add: divide_right_mono less_imp_le)
  then show ?thesis
    using assms round_even_mono True by (simp add: rnd32_def mult_right_mono less_imp_le)
next
  case False
  have e: "fexp q \<le> fexp r" using fexp_mono [of q r] assms by simp
  define m where "m = max (fexp q - 23) (- 149)"
  have r: "max (fexp r - 23) (- 149) = fexp r - 23" "m < fexp r - 23" "fexp q < fexp r"
  proof -
    have "fexp q < fexp r" using False e by (cases "fexp q = fexp r") (simp_all add: fulp_def)
    moreover have "m < max (fexp r - 23) (- 149)"
      using False e by (auto simp: fulp_def m_def less_le)
    ultimately show "max (fexp r - 23) (- 149) = fexp r - 23" "m < fexp r - 23" "fexp q < fexp r"
      by (auto simp: m_def)
  qed
  define P :: rat where "P = 2 powi fexp r"
  have "q < 2 powi (fexp q + 1)" using fexp_bounds(2) [of q] assms by simp
  also have "\<dots> \<le> P" unfolding P_def using r(3) by (intro power_int_increasing) auto
  finally have q: "q \<le> P" by simp
  have Pq: "P / fulp q = of_int (2 ^ nat (fexp r - m))"
  proof -
    have "P / fulp q = 2 powi (fexp r - m)" by (simp add: P_def fulp_def m_def power_int_diff)
    then show ?thesis using r(2) by (simp add: power_int_def)
  qed
  have Pr: "P / fulp r = of_int (2 ^ 23)"
    by (simp add: P_def fulp_def r(1) power_int_diff)
  have "q / fulp q \<le> P / fulp q" using q by (simp add: divide_right_mono less_imp_le)
  then have "round_even (q / fulp q) \<le> round_even (P / fulp q)" by (rule round_even_mono)
  then have "round_even (q / fulp q) \<le> 2 ^ nat (fexp r - m)" unfolding Pq round_even_int .
  then have "(of_int (round_even (q / fulp q)) :: rat) \<le> P / fulp q"
    unfolding Pq by (simp only: of_int_le_iff)
  then have lo: "rnd32 q \<le> P" using assms by (simp add: rnd32_def pos_le_divide_eq)
  have "P \<le> r" using fexp_bounds(1) [of r] assms by (simp add: P_def)
  then have "P / fulp r \<le> r / fulp r" by (simp add: divide_right_mono less_imp_le)
  then have "round_even (P / fulp r) \<le> round_even (r / fulp r)" by (rule round_even_mono)
  then have "P / fulp r \<le> (of_int (round_even (r / fulp r)) :: rat)"
    unfolding Pr round_even_int by (simp only: of_int_le_iff)
  then have "P \<le> rnd32 r" using assms by (simp add: rnd32_def pos_divide_le_eq)
  with lo show ?thesis by simp
qed

lemma rnd32_pos: "0 \<le> q \<Longrightarrow> 0 \<le> rnd32 q"
  using round_even_mono [of 0 "q / fulp q"] round_even_int [of 0] by (simp add: rnd32_def less_imp_le)

lemma rnd32_mono:
  assumes "q \<le> r"
  shows "rnd32 q \<le> rnd32 r"
proof -
  consider "0 < q" | "q \<le> 0" "0 \<le> r" | "r < 0" using assms by linarith
  then show ?thesis
  proof cases
    case 1
    then show ?thesis by (rule rnd32_mono_pos) (rule assms)
  next
    case 2
    have "rnd32 q \<le> 0" using rnd32_pos [of "- q"] 2(1) by (simp add: rnd32_minus)
    then show ?thesis using rnd32_pos [OF 2(2)] by simp
  next
    case 3
    then have "rnd32 (- r) \<le> rnd32 (- q)" using assms by (intro rnd32_mono_pos) auto
    then show ?thesis by (simp add: rnd32_minus)
  qed
qed

text \<open>A result between two integers stays between them.\<close>

lemma rnd32_between:
  assumes "of_int a \<le> q" "q \<le> of_int b" "\<bar>a\<bar> < 2 ^ 24" "\<bar>b\<bar> < 2 ^ 24"
  shows "of_int a \<le> rnd32 q" "rnd32 q \<le> of_int b"
  using rnd32_mono [OF assms(1)] rnd32_mono [OF assms(2)] rnd32_int assms(3,4) by auto

lemma c_trunc_between: "of_int a \<le> q \<Longrightarrow> q \<le> of_int b \<Longrightarrow> a \<le> c_trunc q \<and> c_trunc q \<le> b"
  by (auto simp: c_trunc_def le_floor_iff ceiling_le_iff floor_le_iff le_ceiling_iff)

end
