(* ===== verification/Score_Tables.thy ===== *)
theory Score_Tables
  imports Freq_Steps C_Float
begin

text \<open>
  The score tables of the daemon (\<open>system/extras/cpuusage/scoreCalc.c\<close>): the files that hold them, their
  creation with default values, and loading. A local variable that the code reads before it is set is a
  parameter (\<open>i0\<close> the index, \<open>junk\<close> the number read); an access outside a table and an overflow of \<open>int\<close>
  are undefined behaviour.
\<close>

section \<open>State\<close>

record CPU_SCORE_T =
  cs_cpuFreq :: int
  cs_score :: int

record THREAD_SCORE_T =
  ts_threadNum :: int
  ts_score :: int

record MEMORY_SCORE_T =
  ms_diffUsage :: int
  ms_score :: int

record RESOURCE_USAGE_T =
  ru_cpuUsage :: int
  ru_threadUsage :: int
  ru_memoryUsage :: rat
  ru_cpuFreq :: int

text \<open>The globals of the file and the static variables of its functions. The buffer \<open>pScore\<close> is allocated and never
  read.\<close>

record scores =
  astCpuScore :: "CPU_SCORE_T list"
  astThreadScore :: "THREAD_SCORE_T list"
  astMemoryScore :: "MEMORY_SCORE_T list"
  plusThreshold :: int
  minusThreshold :: int
  continueThreshold :: int
  pseONOFF :: int
  preUsage :: RESOURCE_USAGE_T
  sc_maxfreqindex :: int
  sc_minfreqindex :: int

definition scores_init :: scores where
  "scores_init = \<lparr>astCpuScore = replicate 20 \<lparr>cs_cpuFreq = 0, cs_score = 0\<rparr>,
     astThreadScore = replicate 20 \<lparr>ts_threadNum = 0, ts_score = 0\<rparr>,
     astMemoryScore = replicate 20 \<lparr>ms_diffUsage = 0, ms_score = 0\<rparr>,
     plusThreshold = 0, minusThreshold = 0, continueThreshold = 0, pseONOFF = 0,
     preUsage = \<lparr>ru_cpuUsage = 20, ru_threadUsage = 2, ru_memoryUsage = 8, ru_cpuFreq = 0\<rparr>,
     sc_maxfreqindex = - 1, sc_minfreqindex = - 1\<rparr>"

section \<open>The files\<close>

definition cpulog :: "string \<Rightarrow> string" where
  "cpulog name = ''/data/cpulog/'' @ name"

definition file_name :: "string list" where
  "file_name = [cpulog ''freq.txt'', cpulog ''freqscore.txt'', cpulog ''thread.txt'', cpulog ''threadscore.txt'',
     cpulog ''mem.txt'', cpulog ''memscore.txt'']"

definition initValue :: "int list list" where
  "initValue =
    [[200, 300, 400, 500, 600, 700, 800, 900, 1000, 1100, 1200, 1300, 1400, 1500, 1600, 1704, 0, 0, 0, 0],
     [0, 7, 13, 20, 26, 33, 40, 46, 53, 60, 68, 74, 80, 87, 93, 100, 0, 0, 0, 0],
     [1, 2, 3, 4, 5, 6, 7, 8, 9, 10, 0, 0, 0, 0, 0, 0, 0, 0, 0, 0],
     [0, 20, 30, 50, 70, 81, 91, 94, 97, 100, 0, 0, 0, 0, 0, 0, 0, 0, 0, 0],
     [0, 2, 4, 6, 8, 10, 12, 14, 16, 18, 20, 0, 0, 0, 0, 0, 0, 0, 0, 0],
     [0, 10, 20, 30, 40, 50, 60, 70, 80, 90, 100, 0, 0, 0, 0, 0, 0, 0, 0, 0]]"

text \<open>Each number is followed by a blank, the last of the twenty by a newline.\<close>

definition table_text :: "int list \<Rightarrow> string" where
  "table_text v = concat (map (\<lambda>j. sprintf_d (v ! j) @ [if j = 19 then newline else blank]) [0..<20])"

text \<open>The missing tables are written in turn; \<open>False\<close> when a file cannot be opened, which ends the function.\<close>

fun create_files :: "'w os \<Rightarrow> (string \<times> int list) list \<Rightarrow> 'w \<Rightarrow> bool \<times> 'w" where
  "create_files os [] w = (True, w)"
| "create_files os ((f, v) # r) w =
     (if os_exists os f w then create_files os r w
      else case os_write os f (table_text v) w of
             None \<Rightarrow> (False, w)
           | Some w \<Rightarrow> create_files os r w)"

text \<open>When one of the two other files is missing the code first opens \<open>file_name[6]\<close>, past the array.\<close>

definition tableFilesCheck :: "'w os \<Rightarrow> 'w \<Rightarrow> 'w run" where
  "tableFilesCheck os w = (case create_files os (zip file_name initValue) w of
     (False, w) \<Rightarrow> Ret w
   | (True, w) \<Rightarrow>
       if \<not> os_exists os (cpulog ''tune.txt'') w then Undefined
       else if \<not> os_exists os (cpulog ''pseON.txt'') w then Undefined
       else Ret w)"

section \<open>Loading\<close>

text \<open>\<open>while (fscanf(fp, "%d", &data) != EOF) { table[i].field = data; i++; }\<close>. A text that is no number
  is not consumed: the loop stores the old \<open>data\<close> until it leaves the table.\<close>

function fill :: "(int \<Rightarrow> 'e \<Rightarrow> 'e) \<Rightarrow> string \<Rightarrow> int \<times> int \<times> 'e list \<Rightarrow> (int \<times> 'e list) run" where
  "fill upd s (data, i, t) =
     (case fscanf_d s of
        Scan_EOF \<Rightarrow> Ret (data, t)
      | Scan_none r \<Rightarrow>
          if 0 \<le> i \<and> i < int (length t) then fill upd r (data, i + 1, t[nat i := upd data (t ! nat i)])
          else Undefined
      | Scan n r \<Rightarrow>
          if 0 \<le> i \<and> i < int (length t) then fill upd r (n, i + 1, t[nat i := upd n (t ! nat i)])
          else Undefined)"
  by pat_completeness auto
termination by (relation "measure (\<lambda>(_, _, _, i, t). nat (int (length t) - i))") auto

declare fill.simps [simp del]

text \<open>\<open>fscanf(fp, "%d", &v)\<close> with its result ignored.\<close>

definition scan_into :: "int \<Rightarrow> string \<Rightarrow> int \<times> string" where
  "scan_into v s = (case fscanf_d s of Scan_EOF \<Rightarrow> (v, []) | Scan_none r \<Rightarrow> (v, r) | Scan n r \<Rightarrow> (n, r))"

text \<open>The contents of one file go into a column of a table or into variables.\<close>

type_synonym column = "string \<Rightarrow> int \<times> scores \<Rightarrow> (int \<times> scores) run"

definition freq_column :: "int \<Rightarrow> column" where
  "freq_column i s = (\<lambda>(data, st). run_bind (fill (\<lambda>d e. e\<lparr>cs_cpuFreq := d\<rparr>) s (data, i, astCpuScore st))
     (\<lambda>(data, t). Ret (data, st\<lparr>astCpuScore := t\<rparr>)))"

definition freqscore_column :: column where
  "freqscore_column s = (\<lambda>(data, st). run_bind (fill (\<lambda>d e. e\<lparr>cs_score := d\<rparr>) s (data, 0, astCpuScore st))
     (\<lambda>(data, t). Ret (data, st\<lparr>astCpuScore := t\<rparr>)))"

definition thread_column :: column where
  "thread_column s = (\<lambda>(data, st). run_bind (fill (\<lambda>d e. e\<lparr>ts_threadNum := d\<rparr>) s (data, 0, astThreadScore st))
     (\<lambda>(data, t). Ret (data, st\<lparr>astThreadScore := t\<rparr>)))"

definition threadscore_column :: column where
  "threadscore_column s = (\<lambda>(data, st). run_bind (fill (\<lambda>d e. e\<lparr>ts_score := d\<rparr>) s (data, 0, astThreadScore st))
     (\<lambda>(data, t). Ret (data, st\<lparr>astThreadScore := t\<rparr>)))"

definition mem_column :: column where
  "mem_column s = (\<lambda>(data, st). run_bind (fill (\<lambda>d e. e\<lparr>ms_diffUsage := d\<rparr>) s (data, 0, astMemoryScore st))
     (\<lambda>(data, t). Ret (data, st\<lparr>astMemoryScore := t\<rparr>)))"

definition memscore_column :: column where
  "memscore_column s = (\<lambda>(data, st). run_bind (fill (\<lambda>d e. e\<lparr>ms_score := d\<rparr>) s (data, 0, astMemoryScore st))
     (\<lambda>(data, t). Ret (data, st\<lparr>astMemoryScore := t\<rparr>)))"

definition tune_values :: column where
  "tune_values s = (\<lambda>(data, st).
     let (a, s) = scan_into (plusThreshold st) s; (b, s) = scan_into (minusThreshold st) s;
         (c, s) = scan_into (continueThreshold st) s
     in Ret (data, st\<lparr>plusThreshold := a, minusThreshold := b, continueThreshold := c\<rparr>))"

definition pse_value :: column where
  "pse_value s = (\<lambda>(data, st). Ret (data, st\<lparr>pseONOFF := fst (scan_into (pseONOFF st) s)\<rparr>))"

text \<open>The files in the order of the code; one that cannot be opened ends the function with what has been
  loaded.\<close>

fun load_files :: "'w os \<Rightarrow> (string \<times> column) list \<Rightarrow> (int \<times> scores) \<times> 'w \<Rightarrow> (scores \<times> 'w) run" where
  "load_files os [] ((data, st), w) = Ret (st, w)"
| "load_files os ((f, col) # r) ((data, st), w) = (case os_read os f w of
     (None, w) \<Rightarrow> Ret (st, w)
   | (Some s, w) \<Rightarrow> run_bind (col s (data, st)) (\<lambda>x. load_files os r (x, w)))"

definition loadUsageScoreValue :: "int \<Rightarrow> int \<Rightarrow> 'w os \<Rightarrow> scores \<Rightarrow> 'w \<Rightarrow> (scores \<times> 'w) run" where
  "loadUsageScoreValue i0 junk os st w =
     run_bind (tableFilesCheck os w) (\<lambda>w.
     load_files os [(cpulog ''freq.txt'', freq_column i0), (cpulog ''freqscore.txt'', freqscore_column),
         (cpulog ''thread.txt'', thread_column), (cpulog ''threadscore.txt'', threadscore_column),
         (cpulog ''mem.txt'', mem_column), (cpulog ''memscore.txt'', memscore_column),
         (cpulog ''tune.txt'', tune_values), (cpulog ''pseON.txt'', pse_value)]
       ((junk, st), w))"

section \<open>A printed table is read back\<close>

text \<open>What \<open>fill\<close> does with the numbers of a table of the same length.\<close>

definition set_column :: "(int \<Rightarrow> 'e \<Rightarrow> 'e) \<Rightarrow> int list \<Rightarrow> 'e list \<Rightarrow> 'e list" where
  "set_column upd v t = map2 upd v t"

definition c_ints :: "int list \<Rightarrow> bool" where
  "c_ints v \<longleftrightarrow> (\<forall>n \<in> set v. - (2 ^ 31) \<le> n \<and> n < 2 ^ 31)"

lemma fscanf_d_item:
  assumes "- (2 ^ 31) \<le> n" "n < 2 ^ 31" "c = blank \<or> c = newline"
  shows "fscanf_d (sprintf_d n @ c # s) = Scan n (c # s)"
  using fscanf_d_printed [of n "c # s"] assms by (auto simp: is_digit_def)

lemma fill_space: "isspace c \<Longrightarrow> fill upd (c # s) x = fill upd s x"
  by (cases x) (simp add: fill.simps [of upd "c # s"] fill.simps [of upd s])

lemma fill_item:
  assumes "- (2 ^ 31) \<le> n" "n < 2 ^ 31" "c = blank \<or> c = newline" "i < length t"
  shows "fill upd (sprintf_d n @ c # s) (data, int i, t) = fill upd s (n, int i + 1, t[i := upd n (t ! i)])"
proof -
  have "fill upd (sprintf_d n @ c # s) (data, int i, t) = fill upd (c # s) (n, int i + 1, t[i := upd n (t ! i)])"
    using assms(4) by (subst fill.simps) (simp add: fscanf_d_item [OF assms(1-3)])
  then show ?thesis using assms(3) by (auto simp: fill_space)
qed

lemma fill_items:
  assumes "c_ints v" "k + length v \<le> length t" "\<And>j. f j = blank \<or> f j = newline"
  shows "fill upd (concat (map (\<lambda>j. sprintf_d (v ! j) @ [f j]) [0..<length v]) @ s) (data, int k, t)
       = fill upd s (if v = [] then data else last v, int (k + length v),
           take k t @ map2 upd v (drop k t) @ drop (k + length v) t)"
  using assms
proof (induction v arbitrary: k t data f)
  case (Cons n v)
  have n: "- (2 ^ 31) \<le> n" "n < 2 ^ 31" and v: "c_ints v" using Cons.prems(1) by (auto simp: c_ints_def)
  have k: "k < length t" using Cons.prems(2) by simp
  have idx: "[0..<length (n # v)] = 0 # map Suc [0..<length v]" by (simp add: map_Suc_upt upt_conv_Cons del: upt_Suc)
  let ?t = "t[k := upd n (t ! k)]"
  have "fill upd (concat (map (\<lambda>j. sprintf_d ((n # v) ! j) @ [f j]) [0..<length (n # v)]) @ s) (data, int k, t)
     = fill upd (sprintf_d n @ f 0 # (concat (map (\<lambda>j. sprintf_d (v ! j) @ [f (Suc j)]) [0..<length v]) @ s)) (data, int k, t)"
    unfolding idx by (simp add: comp_def)
  also have "\<dots> = fill upd (concat (map (\<lambda>j. sprintf_d (v ! j) @ [f (Suc j)]) [0..<length v]) @ s) (n, int k + 1, ?t)"
    by (rule fill_item [OF n Cons.prems(3) k])
  also have "\<dots> = fill upd s (if v = [] then n else last v, int (Suc k + length v),
      take (Suc k) ?t @ map2 upd v (drop (Suc k) ?t) @ drop (Suc k + length v) ?t)"
    using Cons.IH [OF v, of "Suc k" ?t "\<lambda>j. f (Suc j)" n] Cons.prems(2,3) by (simp add: add.commute)
  also have "take (Suc k) ?t @ map2 upd v (drop (Suc k) ?t) @ drop (Suc k + length v) ?t
      = take k t @ map2 upd (n # v) (drop k t) @ drop (k + length (n # v)) t"
    using k by (simp add: take_Suc_conv_app_nth flip: Cons_nth_drop_Suc)
  finally show ?case by simp
qed simp

lemma fill_table:
  assumes "c_ints v" "length v = 20" "length t = 20"
  shows "fill upd (table_text v) (data, 0, t) = Ret (last v, set_column upd v t)"
proof -
  have "fill upd (concat (map (\<lambda>j. sprintf_d (v ! j) @ [if j = 19 then newline else blank]) [0..<length v]) @ []) (data, int 0, t)
     = fill upd [] (if v = [] then data else last v, int (0 + length v), take 0 t @ map2 upd v (drop 0 t) @ drop (0 + length v) t)"
    by (rule fill_items) (use assms in auto)
  then show ?thesis
    using assms by (auto simp: table_text_def set_column_def fill.simps [of upd "[]"])
qed

lemma fill_overrun:
  assumes "c_ints v" "v \<noteq> []" "i < 0 \<or> int (length t) < i + int (length v)" "\<And>j. f j = blank \<or> f j = newline"
  shows "fill upd (concat (map (\<lambda>j. sprintf_d (v ! j) @ [f j]) [0..<length v]) @ s) (data, i, t) = Undefined"
  using assms
proof (induction v arbitrary: i t data f)
  case (Cons n v)
  have n: "- (2 ^ 31) \<le> n" "n < 2 ^ 31" and v: "c_ints v" using Cons.prems(1) by (auto simp: c_ints_def)
  have idx: "[0..<length (n # v)] = 0 # map Suc [0..<length v]" by (simp add: map_Suc_upt upt_conv_Cons del: upt_Suc)
  let ?r = "concat (map (\<lambda>j. sprintf_d (v ! j) @ [f (Suc j)]) [0..<length v]) @ s"
  have eq: "concat (map (\<lambda>j. sprintf_d ((n # v) ! j) @ [f j]) [0..<length (n # v)]) @ s = sprintf_d n @ f 0 # ?r"
    unfolding idx by (simp add: comp_def)
  show ?case
  proof (cases "0 \<le> i \<and> i < int (length t)")
    case False
    then have "\<not> (0 \<le> i \<and> i < int (length t))" by blast
    then show ?thesis unfolding eq
      by (subst fill.simps) (simp only: fscanf_d_item [OF n Cons.prems(4)] scan.case if_False)
  next
    case True
    then have v0: "v \<noteq> []" and over: "int (length t) < (i + 1) + int (length v)" using Cons.prems(3) by auto
    have "fill upd (sprintf_d n @ f 0 # ?r) (data, i, t)
        = fill upd ?r (n, i + 1, t[nat i := upd n (t ! nat i)])"
      using fill_item [OF n Cons.prems(4), of "nat i" t upd 0 ?r data] True by (simp only: nat_less_iff int_nat_eq if_True)
    also have "\<dots> = Undefined"
      using Cons.IH [OF v v0, of "i + 1" "t[nat i := upd n (t ! nat i)]" "\<lambda>j. f (Suc j)" n] over Cons.prems(4) by simp
    finally show ?thesis unfolding eq .
  qed
qed simp

lemma fill_table_shifted:
  assumes "c_ints v" "length v = 20" "length t = 20" "i \<noteq> 0"
  shows "fill upd (table_text v) (data, i, t) = Undefined"
proof -
  have "fill upd (concat (map (\<lambda>j. sprintf_d (v ! j) @ [if j = 19 then newline else blank]) [0..<length v]) @ []) (data, i, t)
     = Undefined"
    by (rule fill_overrun) (use assms in auto)
  then show ?thesis using assms(2) by (simp add: table_text_def)
qed

section \<open>Files on a disk\<close>

text \<open>An operating system whose files always open: the map from paths to contents.\<close>

definition disk :: "(string \<Rightarrow> string option) os" where
  "disk = \<lparr>os_read = \<lambda>p w. (w p, w), os_write = \<lambda>p t w. Some (w(p := Some t)), os_exists = \<lambda>p w. w p \<noteq> None\<rparr>"

lemma disk_simps [simp]: "os_read disk p w = (w p, w)" "os_write disk p t w = Some (w(p := Some t))"
  "os_exists disk p w = (w p \<noteq> None)"
  by (simp_all add: disk_def)

definition filled :: "(string \<times> int list) list \<Rightarrow> (string \<Rightarrow> string option) \<Rightarrow> string \<Rightarrow> string option" where
  "filled l w f = (case w f of Some t \<Rightarrow> Some t | None \<Rightarrow> map_option table_text (map_of l f))"

lemma create_files_disk: "create_files disk l w = (True, filled l w)"
proof (induction l arbitrary: w)
  case (Cons x l)
  obtain f v where x: "x = (f, v)" by (cases x)
  show ?case
  proof (cases "w f")
    case None
    have "filled l (w(f := Some (table_text v))) = filled (x # l) w"
      using None by (auto simp: filled_def x fun_eq_iff split: option.splits)
    moreover have "create_files disk (x # l) w = create_files disk l (w(f := Some (table_text v)))"
      using None by (simp add: x)
    ultimately show ?thesis by (simp only: Cons)
  next
    case (Some t)
    have "filled l w = filled (x # l) w" using Some by (auto simp: filled_def x fun_eq_iff split: option.splits)
    then show ?thesis using Cons Some by (simp add: x)
  qed
qed (simp add: filled_def fun_eq_iff split: option.splits)

text \<open>Each of the six files holds its table, or is missing and the table is the default.\<close>

definition table_files :: "int list list \<Rightarrow> (string \<Rightarrow> string option) \<Rightarrow> bool" where
  "table_files vs w \<longleftrightarrow> length vs = 6 \<and> (\<forall>v \<in> set vs. length v = 20 \<and> c_ints v)
     \<and> list_all2 (\<lambda>(f, d) v. w f = Some (table_text v) \<or> w f = None \<and> v = d) (zip file_name initValue) vs"

lemma filled_other: "f \<notin> set file_name \<Longrightarrow> filled (zip file_name initValue) w f = w f"
  by (cases "map_of (zip file_name initValue) f")
    (auto simp: filled_def split: option.splits dest!: map_of_SomeD dest: set_zip_leftD)

lemma other_files: "cpulog ''tune.txt'' \<notin> set file_name" "cpulog ''pseON.txt'' \<notin> set file_name"
  by (simp_all add: file_name_def cpulog_def)

lemma file_names: "distinct file_name" "length file_name = 6" "length initValue = 6"
  by (simp_all add: file_name_def cpulog_def initValue_def)

lemma tableFilesCheck_disk:
  "tableFilesCheck disk w = (if w (cpulog ''tune.txt'') = None \<or> w (cpulog ''pseON.txt'') = None then Undefined
     else Ret (filled (zip file_name initValue) w))"
  by (simp add: tableFilesCheck_def create_files_disk filled_other [OF other_files(1)] filled_other [OF other_files(2)])

lemma filled_tables:
  assumes "table_files vs w" "i < 6"
  shows "filled (zip file_name initValue) w (file_name ! i) = Some (table_text (vs ! i))"
proof -
  have "map_of (zip file_name initValue) (file_name ! i) = Some (initValue ! i)"
    using map_of_zip_nth [of file_name initValue i] file_names assms(2) by simp
  moreover have "w (file_name ! i) = Some (table_text (vs ! i)) \<or> w (file_name ! i) = None \<and> vs ! i = initValue ! i"
    using assms file_names by (auto simp: table_files_def list_all2_conv_all_nth)
  ultimately show ?thesis by (auto simp: filled_def)
qed

lemma table_files_nth:
  assumes "table_files vs w" "i < 6"
  shows "c_ints (vs ! i)" "length (vs ! i) = 20"
  using assms by (auto simp: table_files_def)

text \<open>Reading the tables one after the other.\<close>

lemma load_file_disk:
  "w f = Some s \<Longrightarrow> load_files disk ((f, col) # r) ((data, st), w)
     = run_bind (col s (data, st)) (\<lambda>x. load_files disk r (x, w))"
  by simp

lemma load_last:
  assumes "w f = Some s"
  shows "load_files disk [(f, col)] (x, w) = run_bind (col s x) (\<lambda>(_, st). Ret (st, w))"
proof -
  obtain d st where x: "x = (d, st)" by (cases x)
  have "load_files disk [] (y, w) = (case y of (_, st) \<Rightarrow> Ret (st, w))" for y :: "int \<times> scores"
    by (cases y) simp
  then show ?thesis using assms by (simp add: x)
qed

lemma file_name_nth: "cpulog ''freq.txt'' = file_name ! 0" "cpulog ''freqscore.txt'' = file_name ! 1"
  "cpulog ''thread.txt'' = file_name ! 2" "cpulog ''threadscore.txt'' = file_name ! 3"
  "cpulog ''mem.txt'' = file_name ! 4" "cpulog ''memscore.txt'' = file_name ! 5"
  by (simp_all add: file_name_def)

lemma columns_read:
  assumes "c_ints v" "length v = 20" "length (astCpuScore st) = 20" "length (astThreadScore st) = 20"
    "length (astMemoryScore st) = 20"
  shows "freq_column 0 (table_text v) (data, st)
      = Ret (last v, st\<lparr>astCpuScore := set_column (\<lambda>d e. e\<lparr>cs_cpuFreq := d\<rparr>) v (astCpuScore st)\<rparr>)"
    "freqscore_column (table_text v) (data, st)
      = Ret (last v, st\<lparr>astCpuScore := set_column (\<lambda>d e. e\<lparr>cs_score := d\<rparr>) v (astCpuScore st)\<rparr>)"
    "thread_column (table_text v) (data, st)
      = Ret (last v, st\<lparr>astThreadScore := set_column (\<lambda>d e. e\<lparr>ts_threadNum := d\<rparr>) v (astThreadScore st)\<rparr>)"
    "threadscore_column (table_text v) (data, st)
      = Ret (last v, st\<lparr>astThreadScore := set_column (\<lambda>d e. e\<lparr>ts_score := d\<rparr>) v (astThreadScore st)\<rparr>)"
    "mem_column (table_text v) (data, st)
      = Ret (last v, st\<lparr>astMemoryScore := set_column (\<lambda>d e. e\<lparr>ms_diffUsage := d\<rparr>) v (astMemoryScore st)\<rparr>)"
    "memscore_column (table_text v) (data, st)
      = Ret (last v, st\<lparr>astMemoryScore := set_column (\<lambda>d e. e\<lparr>ms_score := d\<rparr>) v (astMemoryScore st)\<rparr>)"
  by (simp_all add: freq_column_def freqscore_column_def thread_column_def threadscore_column_def
      mem_column_def memscore_column_def fill_table [OF assms(1,2)] assms(3-5))

lemma freq_column_shifted:
  assumes "c_ints v" "length v = 20" "length (astCpuScore st) = 20" "i \<noteq> 0"
  shows "freq_column i (table_text v) (data, st) = Undefined"
  by (simp add: freq_column_def fill_table_shifted [OF assms(1-3) assms(4)])

lemma length_set_column [simp]: "length (set_column upd v t) = min (length v) (length t)"
  by (simp add: set_column_def)

text \<open>A table whose two columns are set.\<close>

lemma set_two_columns:
  assumes "length v = 20" "length u = 20"
  shows "length c = 20 \<Longrightarrow> set_column (\<lambda>d e. e\<lparr>cs_score := d\<rparr>) u (set_column (\<lambda>d e. e\<lparr>cs_cpuFreq := d\<rparr>) v c)
        = map2 (\<lambda>f s. \<lparr>cs_cpuFreq = f, cs_score = s\<rparr>) v u"
    "length t = 20 \<Longrightarrow> set_column (\<lambda>d e. e\<lparr>ts_score := d\<rparr>) u (set_column (\<lambda>d e. e\<lparr>ts_threadNum := d\<rparr>) v t)
        = map2 (\<lambda>f s. \<lparr>ts_threadNum = f, ts_score = s\<rparr>) v u"
    "length m = 20 \<Longrightarrow> set_column (\<lambda>d e. e\<lparr>ms_score := d\<rparr>) u (set_column (\<lambda>d e. e\<lparr>ms_diffUsage := d\<rparr>) v m)
        = map2 (\<lambda>f s. \<lparr>ms_diffUsage = f, ms_score = s\<rparr>) v u"
  using assms by (auto simp: set_column_def intro!: nth_equalityI)

definition loaded :: "int list list \<Rightarrow> scores \<Rightarrow> scores" where
  "loaded vs st = st\<lparr>astCpuScore := map2 (\<lambda>f s. \<lparr>cs_cpuFreq = f, cs_score = s\<rparr>) (vs ! 0) (vs ! 1),
     astThreadScore := map2 (\<lambda>n s. \<lparr>ts_threadNum = n, ts_score = s\<rparr>) (vs ! 2) (vs ! 3),
     astMemoryScore := map2 (\<lambda>d s. \<lparr>ms_diffUsage = d, ms_score = s\<rparr>) (vs ! 4) (vs ! 5)\<rparr>"

definition tables_sized :: "scores \<Rightarrow> bool" where
  "tables_sized st \<longleftrightarrow> length (astCpuScore st) = 20 \<and> length (astThreadScore st) = 20 \<and> length (astMemoryScore st) = 20"

lemma load_tables:
  assumes "table_files vs w" "tables_sized st" "w (cpulog ''tune.txt'') = Some tt" "w (cpulog ''pseON.txt'') = Some pt"
  shows "loadUsageScoreValue i0 junk disk st w =
    (if i0 \<noteq> 0 then Undefined
     else run_bind (tune_values tt (last (vs ! 5), loaded vs st)) (\<lambda>x. run_bind (pse_value pt x)
       (\<lambda>(_, st). Ret (st, filled (zip file_name initValue) w))))"
proof -
  let ?w = "filled (zip file_name initValue) w"
  note f = filled_tables [OF assms(1)]
  note v = table_files_nth [OF assms(1)]
  have o: "?w (cpulog ''tune.txt'') = Some tt" "?w (cpulog ''pseON.txt'') = Some pt"
    using assms(3,4) by (simp_all add: filled_other other_files)
  note c = columns_read [OF v]
  show ?thesis
  proof (cases "i0 = 0")
    case False
    then show ?thesis
      using assms(2-4) freq_column_shifted [OF v(1,2) [of 0] _ False] f [of 0]
      by (simp add: loadUsageScoreValue_def tableFilesCheck_disk file_name_nth tables_sized_def)
  next
    case True
    show ?thesis
      using assms(2-4) True o f
      by (simp add: loadUsageScoreValue_def tableFilesCheck_disk file_name_nth tables_sized_def c v
          set_two_columns loaded_def load_last)
  qed
qed

section \<open>Properties\<close>


definition new_disk :: "string \<Rightarrow> string option" where
  "new_disk f = (if f = cpulog ''tune.txt'' then Some (sprintf_d 100 @ newline # sprintf_d (- 30) @ newline # sprintf_d 1 @ [newline])
     else if f = cpulog ''pseON.txt'' then Some (sprintf_d 1 @ [newline]) else None)"

lemma new_disk_tables: "table_files initValue new_disk"
  using other_files by (auto simp: table_files_def list_all2_conv_all_nth file_names new_disk_def initValue_def c_ints_def
      less_Suc_eq eval_nat_numeral file_name_def cpulog_def)

lemma scores_init_sized: "tables_sized scores_init"
  by (simp add: tables_sized_def scores_init_def)


text \<open>
  With well-formed or missing tables, loading is defined exactly when the index that the function
  never initialises happens to be 0 and both other files exist: a first start without
  \<open>tune.txt\<close> or \<open>pseON.txt\<close> reads past the array of file names, and any other value of the index
  stores outside the frequency table.
\<close>

theorem score_load_defined_iff:
  assumes "table_files vs w" "tables_sized st"
  shows "(loadUsageScoreValue i0 junk disk st w \<noteq> Undefined)
     = (i0 = 0 \<and> w (cpulog ''tune.txt'') \<noteq> None \<and> w (cpulog ''pseON.txt'') \<noteq> None)"
proof (cases "w (cpulog ''tune.txt'') = None \<or> w (cpulog ''pseON.txt'') = None")
  case True
  then show ?thesis by (auto simp: loadUsageScoreValue_def tableFilesCheck_disk)
next
  case False
  then obtain tt pt where t: "w (cpulog ''tune.txt'') = Some tt" "w (cpulog ''pseON.txt'') = Some pt" by auto
  show ?thesis
    using load_tables [OF assms t, of i0 junk] t by (simp add: tune_values_def pse_value_def Let_def case_prod_unfold)
qed

theorem score_load_defined_iff_witness:
  "loadUsageScoreValue 0 5 disk scores_init new_disk \<noteq> Undefined
   \<and> loadUsageScoreValue 1 5 disk scores_init new_disk = Undefined"
  using score_load_defined_iff [OF new_disk_tables scores_init_sized, of 0 5]
    score_load_defined_iff [OF new_disk_tables scores_init_sized, of 1 5]
  by (auto simp: new_disk_def)

end
