(* ===== verification/Score_Calc.thy ===== *)
theory Score_Calc
  imports Score_Tables
begin

text \<open>
  The decision of the daemon (\<open>system/extras/cpuusage/scoreCalc.c\<close>): from the change of the CPU usage,
  the thread count and the memory share to a frequency step. The arithmetic on \<open>float\<close> is rounded to single
  precision after every operation; messages are left out.
\<close>

section \<open>The frequency table\<close>

definition sc_getCPUFreqIndexFromTbl :: "scores \<Rightarrow> int \<Rightarrow> int" where
  "sc_getCPUFreqIndexFromTbl st freq = int (length (takeWhile (\<lambda>e. freq \<noteq> cs_cpuFreq e) (astCpuScore st)))"

definition sc_getCPUFreqFromTbl :: "scores \<Rightarrow> int \<Rightarrow> int run" where
  "sc_getCPUFreqFromTbl st index = run_bind (run_option (nth_int (astCpuScore st) index)) (\<lambda>e. Ret (cs_cpuFreq e))"

section \<open>The conditions\<close>

definition percent :: "int \<Rightarrow> rat" where
  "percent n = rnd32 (rnd32 (of_int n) / 100)"

text \<open>The static indices are looked up at the first call.\<close>

definition static_indices :: "scores \<Rightarrow> scores" where
  "static_indices st =
     (let st = (if sc_maxfreqindex st = - 1
                then st\<lparr>sc_maxfreqindex := sc_getCPUFreqIndexFromTbl st (c_int CPUFREQ_MAX div 1000)\<rparr> else st)
      in if sc_minfreqindex st = - 1
         then st\<lparr>sc_minfreqindex := sc_getCPUFreqIndexFromTbl st (c_int CPUFREQ_MIN div 1000)\<rparr> else st)"

definition scale_up_index :: "int \<Rightarrow> int \<Rightarrow> int \<Rightarrow> int" where
  "scale_up_index maxfreqindex freqindex cpuUsage =
     (let freqadj = rnd32 (rnd32 (rnd32 (of_int (maxfreqindex - freqindex + 1)) * percent cpuUsage)
            + rnd32 (of_int (freqindex - 1)));
          freqadj = (if c_trunc freqadj < freqindex then rnd32 (of_int freqindex)
                     else if c_trunc freqadj = freqindex \<and> c_trunc freqadj < maxfreqindex then rnd32 (freqadj + 1)
                     else freqadj)
      in c_trunc freqadj)"

definition scale_down_index :: "int \<Rightarrow> int \<Rightarrow> int \<Rightarrow> int" where
  "scale_down_index minfreqindex freqindex cpuUsage =
     (let freqadj = rnd32 (rnd32 (of_int (freqindex - minfreqindex + 1)) * percent cpuUsage);
          freqadj = (if freqadj \<le> rnd32 (of_int minfreqindex) then rnd32 (of_int minfreqindex) else freqadj)
      in c_trunc freqadj)"

text \<open>The entry of the table in kHz.\<close>

definition table_khz :: "scores \<Rightarrow> int \<Rightarrow> u32 run" where
  "table_khz st index = run_bind (sc_getCPUFreqFromTbl st index) (\<lambda>f.
     run_bind (c_signed (f * 1000)) (\<lambda>n. Ret (c_uint n)))"

definition checkCPUUsageCond :: "int \<Rightarrow> int \<Rightarrow> RESOURCE_USAGE_T \<Rightarrow> scores \<Rightarrow> (u32 \<times> scores) run" where
  "checkCPUUsageCond cpuUsage cpuFreq stDiff st =
     (let st = static_indices st in
      run_bind
        (if ru_cpuUsage stDiff \<ge> 20 then
           table_khz st (scale_up_index (sc_maxfreqindex st) (sc_getCPUFreqIndexFromTbl st cpuFreq) cpuUsage)
         else if ru_cpuUsage stDiff \<le> - 20 \<and> cpuUsage \<le> 30 then
           table_khz st (scale_down_index (sc_minfreqindex st) (sc_getCPUFreqIndexFromTbl st cpuFreq) cpuUsage)
         else if cpuUsage < 30 then
           (if cpuFreq = c_int CPUFREQ_MIN div 1000 then Ret 0
            else run_option (get_prev_freq (c_uint cpuFreq * 1000)))
         else if cpuUsage > 50 then
           (if cpuFreq = c_int CPUFREQ_MAX div 1000 then Ret 0
            else run_option (get_next_freq (c_uint cpuFreq * 1000)))
         else Ret 0)
        (\<lambda>freq. Ret (freq, st)))"

definition sc_checkThreadCond :: "RESOURCE_USAGE_T \<Rightarrow> int" where
  "sc_checkThreadCond stDiff =
     (if ru_threadUsage stDiff \<ge> 2 then 1 else if ru_threadUsage stDiff \<le> - 2 then - 1 else 0)"

text \<open>The constant 0.2 is a \<open>double\<close>.\<close>

definition MEM_THRESHOLD :: rat where
  "MEM_THRESHOLD = 3602879701896397 / 2 ^ 54"

definition sc_checkMemCond :: "RESOURCE_USAGE_T \<Rightarrow> int" where
  "sc_checkMemCond stDiff =
     (if ru_memoryUsage stDiff \<ge> MEM_THRESHOLD then 1 else if ru_memoryUsage stDiff \<le> - MEM_THRESHOLD then - 1 else 0)"

section \<open>The adjustment\<close>

abbreviation (input) "NO_NEED \<equiv> (0 :: int)"
abbreviation (input) "STEP_UP \<equiv> (1 :: int)"
abbreviation (input) "STEP_DOWN \<equiv> (- 1 :: int)"
abbreviation (input) "SCALE_UP \<equiv> (2 :: int)"
abbreviation (input) "SCALE_DOWN \<equiv> (- 2 :: int)"
abbreviation (input) "FREQ_ONLY \<equiv> (3 :: int)"

fun steps :: "(u32 \<Rightarrow> u32 option) \<Rightarrow> nat \<Rightarrow> u32 \<Rightarrow> u32 run" where
  "steps f 0 adjfreq = Ret adjfreq"
| "steps f (Suc condpoint) adjfreq = run_bind (run_option (f adjfreq)) (steps f condpoint)"

definition sc_adjustCond :: "int \<Rightarrow> u32 \<Rightarrow> int \<Rightarrow> int \<Rightarrow> (int \<times> u32) run" where
  "sc_adjustCond cpuFreq freq threadcond memcond =
     (let condpoint = threadcond + memcond in
      if freq = 0 then
        if condpoint > 0 then
          run_bind (c_signed (cpuFreq * 1000)) (\<lambda>khz.
          if khz = c_int CPUFREQ_MAX then Ret (NO_NEED, freq)
          else run_bind (steps get_next_freq (nat condpoint) (c_uint cpuFreq * 1000)) (\<lambda>f. Ret (STEP_UP, f)))
        else if condpoint < 0 then
          run_bind (c_signed (cpuFreq * 1000)) (\<lambda>khz.
          if khz = c_int CPUFREQ_MIN then Ret (NO_NEED, freq)
          else run_bind (steps get_prev_freq (nat (- condpoint)) (c_uint cpuFreq * 1000)) (\<lambda>f. Ret (STEP_DOWN, f)))
        else Ret (NO_NEED, freq)
      else
        if condpoint > 0 then
          if freq = CPUFREQ_MAX then Ret (NO_NEED, freq)
          else run_bind (steps get_next_freq (nat condpoint) freq) (\<lambda>f. Ret (SCALE_UP, f))
        else if condpoint < 0 then
          if freq = CPUFREQ_MIN then Ret (NO_NEED, freq)
          else run_bind (steps get_prev_freq (nat (- condpoint)) freq) (\<lambda>f. Ret (SCALE_DOWN, f))
        else Ret (FREQ_ONLY, freq))"

section \<open>The score\<close>

record SCORE_RESULT_T =
  sr_score :: int
  sr_avgScore :: rat
  sr_finalDecision :: int
  sr_targetFreq :: int

text \<open>\<open>stDiff.cpuFreq\<close> is never set: \<open>junk\<close>.\<close>

definition calcDiff :: "int \<Rightarrow> RESOURCE_USAGE_T \<Rightarrow> RESOURCE_USAGE_T \<Rightarrow> RESOURCE_USAGE_T run" where
  "calcDiff junk stPre stCur =
     run_bind (c_signed (ru_cpuUsage stCur - ru_cpuUsage stPre)) (\<lambda>c.
     run_bind (c_signed (ru_threadUsage stCur - ru_threadUsage stPre)) (\<lambda>t.
     Ret \<lparr>ru_cpuUsage = c, ru_threadUsage = t,
       ru_memoryUsage = rnd32 (ru_memoryUsage stCur - ru_memoryUsage stPre), ru_cpuFreq = junk\<rparr>))"

text \<open>\<open>cpuFreqScore\<close> and \<open>cpuScore\<close>, \<open>threadScore\<close>, \<open>memoryScore\<close>: each from the first row that fits, 0 without one.\<close>

definition cpu_scores :: "scores \<Rightarrow> RESOURCE_USAGE_T \<Rightarrow> (int \<times> int) run" where
  "cpu_scores st u = (case dropWhile (\<lambda>e. ru_cpuFreq u \<noteq> cs_cpuFreq e) (astCpuScore st) of
     [] \<Rightarrow> Ret (0, 0)
   | e # _ \<Rightarrow> run_bind (c_signed (cs_score e - ru_cpuUsage u)) (\<lambda>s. Ret (cs_score e, s)))"

definition thread_score :: "scores \<Rightarrow> RESOURCE_USAGE_T \<Rightarrow> int \<Rightarrow> int run" where
  "thread_score st u cpuFreqScore = (case dropWhile (\<lambda>e. ru_threadUsage u \<noteq> ts_threadNum e) (astThreadScore st) of
     [] \<Rightarrow> Ret 0
   | e # _ \<Rightarrow> c_signed (cpuFreqScore - ts_score e))"

definition memory_score :: "scores \<Rightarrow> rat \<Rightarrow> int" where
  "memory_score st diff = (case dropWhile (\<lambda>e. \<not> rnd32 (diff * 10) \<le> rnd32 (of_int (ms_diffUsage e))) (astMemoryScore st) of
     [] \<Rightarrow> 0
   | e # _ \<Rightarrow> ms_score e sdiv 10)"

definition resource_score :: "scores \<Rightarrow> RESOURCE_USAGE_T \<Rightarrow> rat \<Rightarrow> int run" where
  "resource_score st u diff =
     run_bind (cpu_scores st u) (\<lambda>(cpuFreqScore, cpuScore).
     run_bind (thread_score st u cpuFreqScore) (\<lambda>threadScore.
     run_bind (c_signed (cpuScore + threadScore)) (\<lambda>s. c_signed (s + memory_score st diff))))"

text \<open>An adjustment is only made in the direction of the change of the CPU usage.\<close>

definition decide :: "RESOURCE_USAGE_T \<Rightarrow> RESOURCE_USAGE_T \<Rightarrow> u32 \<Rightarrow> (int \<times> u32) run" where
  "decide stUsage stDiff freq =
     (let threadcond = sc_checkThreadCond stDiff; memcond = sc_checkMemCond stDiff in
      if freq \<noteq> 0 then
        if ru_cpuUsage stDiff < 0 \<and> threadcond + memcond < 0
        then sc_adjustCond (ru_cpuFreq stUsage) freq threadcond memcond
        else if ru_cpuUsage stDiff > 0 \<and> threadcond + memcond > 0
        then sc_adjustCond (ru_cpuFreq stUsage) freq threadcond memcond
        else Ret (FREQ_ONLY, freq)
      else sc_adjustCond (ru_cpuFreq stUsage) freq threadcond memcond)"

definition calcResourceScore ::
  "int \<Rightarrow> 'w os \<Rightarrow> RESOURCE_USAGE_T \<Rightarrow> scores \<Rightarrow> 'w \<Rightarrow> (SCORE_RESULT_T \<times> scores \<times> 'w) run" where
  "calcResourceScore junk os stUsage st w =
     (let diff_memoryUsage = rnd32 (ru_memoryUsage stUsage - ru_memoryUsage (preUsage st)) in
      run_bind (calcDiff junk (preUsage st) stUsage) (\<lambda>stDiff.
      let st = st\<lparr>preUsage := stUsage\<rparr> in
      run_bind (resource_score st stUsage diff_memoryUsage) (\<lambda>scoreResult.
      run_bind (checkCPUUsageCond (ru_cpuUsage stUsage) (ru_cpuFreq stUsage) stDiff st) (\<lambda>(freq, st).
      run_bind (decide stUsage stDiff freq) (\<lambda>(adjcond, freq).
      run_bind (if pseONOFF st = 1 \<and> adjcond \<noteq> 0 then set_cpufreq_to_value os freq w else Ret w) (\<lambda>w.
      Ret (\<lparr>sr_score = scoreResult, sr_avgScore = 0, sr_finalDecision = adjcond, sr_targetFreq = 0\<rparr>, st, w)))))))"

text \<open>Not called by the daemon.\<close>

definition calcTargetFreq :: "int \<Rightarrow> 'w os \<Rightarrow> int \<Rightarrow> 'w \<Rightarrow> (int \<times> 'w) run" where
  "calcTargetFreq junk os score w =
     run_bind (read_scaling_cur_freq junk os w) (\<lambda>(freq, w).
     let curFreq = c_int freq in
     run_bind (c_signed (c_trunc (rnd32 (rnd32 (rnd32 (of_int score) / 210) * rnd32 (of_int curFreq))))) (\<lambda>variationFreq.
     run_bind (c_signed (curFreq - variationFreq)) (\<lambda>targetFreq.
     run_bind (set_cpufreq_to_value os (c_uint targetFreq) w) (\<lambda>w. Ret (targetFreq, w)))))"


section \<open>The rows of the default table\<close>

text \<open>Row \<open>i\<close> of the table and the frequency step of the same number.\<close>

definition mhz :: "nat \<Rightarrow> int" where
  "mhz i = initValue ! 0 ! i"

definition khz :: "nat \<Rightarrow> u32" where
  "khz i = exynos4412_cpufreq_table ! (15 - i)"

lemma row_cases:
  assumes "i < (16 :: nat)"
  obtains "i = 0" | "i = 1" | "i = 2" | "i = 3" | "i = 4" | "i = 5" | "i = 6" | "i = 7" | "i = 8" | "i = 9" | "i = 10"
    | "i = 11" | "i = 12" | "i = 13" | "i = 14" | "i = 15"
proof -
  have "i = 15 \<or> i = 14 \<or> i = 13 \<or> i = 12 \<or> i = 11 \<or> i = 10 \<or> i = 9 \<or> i = 8
    \<or> i = 7 \<or> i = 6 \<or> i = 5 \<or> i = 4 \<or> i = 3 \<or> i = 2 \<or> i = 1 \<or> i = 0" using assms by presburger
  then show thesis by (elim disjE) (rule that; assumption)+
qed

lemma khz_mhz: "i < 16 \<Longrightarrow> khz i = c_uint (mhz i * 1000)" "i < 16 \<Longrightarrow> khz i = c_uint (mhz i) * 1000"
  "i < 16 \<Longrightarrow> 200 \<le> mhz i \<and> mhz i \<le> 1704"
  by (erule row_cases; simp add: khz_def mhz_def initValue_def exynos4412_cpufreq_table_def c_uint_def)+

lemma khz_next: "i < 16 \<Longrightarrow> get_next_freq (khz i) = Some (khz (min 15 (i + 1)))"
  by (erule row_cases; simp add: khz_def get_next_freq_def exynos4412_cpufreq_table_def nth_int_def nth_opt_def)

lemma khz_prev: "i < 16 \<Longrightarrow> get_prev_freq (khz i) = Some (khz (i - 1))"
  by (erule row_cases; simp add: khz_def get_prev_freq_def exynos4412_cpufreq_table_def nth_int_def nth_opt_def)

lemma khz_ends: "i < 16 \<Longrightarrow> (khz i = CPUFREQ_MAX) = (i = 15)" "i < 16 \<Longrightarrow> (khz i = CPUFREQ_MIN) = (i = 0)"
  "i < 16 \<Longrightarrow> khz i \<noteq> 0"
  by (erule row_cases; simp add: khz_def exynos4412_cpufreq_table_def)+

lemma mhz_ends: "i < 16 \<Longrightarrow> (mhz i = 1704) = (i = 15)" "i < 16 \<Longrightarrow> (mhz i = 200) = (i = 0)"
  by (erule row_cases; simp add: mhz_def initValue_def)+

lemma steps_up: "i < 16 \<Longrightarrow> steps get_next_freq n (khz i) = Ret (khz (min 15 (i + n)))"
proof (induction n arbitrary: i)
  case (Suc n)
  have "steps get_next_freq (Suc n) (khz i) = Ret (khz (min 15 (min 15 (i + 1) + n)))"
    using Suc by (simp add: khz_next)
  moreover have "min 15 (min 15 (i + 1) + n) = min 15 (i + Suc n)" by simp
  ultimately show ?case by simp
qed simp

lemma steps_down: "i < 16 \<Longrightarrow> steps get_prev_freq n (khz i) = Ret (khz (i - n))"
  by (induction n arbitrary: i) (simp_all add: khz_prev)

lemma c_khz [simp]: "c_int CPUFREQ_MAX = 1704000" "c_int CPUFREQ_MIN = 200000"
  by (simp_all add: c_int_small)

lemma mhz_signed: "i < 16 \<Longrightarrow> c_signed (mhz i * 1000) = Ret (mhz i * 1000)"
  using khz_mhz(3) [of i] by (simp add: c_signed_def)

section \<open>Scaling stays inside the table\<close>

lemma percent_range:
  assumes "0 \<le> u" "u \<le> 100"
  shows "0 \<le> percent u" "percent u \<le> 1"
  using rnd32_between [of 0 "of_int u / 100" 1] assms by (simp_all add: percent_def rnd32_int)

lemma percent_100: "percent 100 = 1"
  using rnd32_int [of 1] rnd32_int [of 100] by (simp add: percent_def)

lemma percent_mono: "u \<le> v \<Longrightarrow> percent u \<le> percent v"
  by (simp add: percent_def rnd32_mono divide_right_mono)

lemma float_constants:
  "rnd32 (127 / 128) = 127 / 128" "rnd32 (127 / 64) = 127 / 64" "rnd32 (959 / 64) = 959 / 64"
  "rnd32 (1023 / 64) = 1023 / 64" "rnd32 (5 / 16) = 5 / 16"
  by code_simp+

text \<open>Scaling up ends between the current row and the last.\<close>

lemma scale_up_adj:
  assumes "0 \<le> u" "u \<le> 100" "k < 16"
  defines "x \<equiv> rnd32 (rnd32 (rnd32 (of_int (15 - int k + 1)) * percent u) + rnd32 (of_int (int k - 1)))"
  shows "of_int (int k - 1) \<le> x" "x \<le> of_int 15" "k = 14 \<Longrightarrow> u < 100 \<Longrightarrow> x \<le> 959 / 64"
proof -
  have r: "rnd32 (of_int (15 - int k + 1)) = of_int (16 - int k)" "rnd32 (of_int (int k - 1)) = (of_int (int k - 1) :: rat)"
    using assms(3) rnd32_int [of "15 - int k + 1"] rnd32_int [of "int k - 1"] by simp_all
  let ?m = "of_int (16 - int k) * percent u"
  have m: "of_int 0 \<le> ?m" "?m \<le> of_int (16 - int k)"
    using percent_range [OF assms(1,2)] assms(3) mult_left_le [of "percent u" "of_int (16 - int k)"] by auto
  have "of_int 0 \<le> rnd32 ?m" "rnd32 ?m \<le> of_int (16 - int k)"
    using rnd32_between [OF m] assms(3) by simp_all
  then have y: "of_int (int k - 1) \<le> rnd32 ?m + of_int (int k - 1)" "rnd32 ?m + of_int (int k - 1) \<le> of_int 15"
    by simp_all
  show "of_int (int k - 1) \<le> x" "x \<le> of_int 15"
    using rnd32_between [OF y] assms(3) unfolding x_def r by simp_all
  show "x \<le> 959 / 64" if "k = 14" "u < 100"
  proof -
    have "of_int u / 100 \<le> (127 / 128 :: rat)" using that(2) of_int_le_iff [of u 99, where 'a = rat] by simp
    then have "percent u \<le> 127 / 128"
      using rnd32_mono [of "of_int u / 100" "127 / 128"] assms(1,2) by (simp add: percent_def float_constants rnd32_int)
    then have "rnd32 (2 * percent u) \<le> 127 / 64"
      using rnd32_mono [of "2 * percent u" "127 / 64"] by (simp add: float_constants)
    then show ?thesis
      using rnd32_mono [of "rnd32 (2 * percent u) + 13" "959 / 64"] that(1) unfolding x_def r by (simp add: float_constants)
  qed
qed

lemma c_trunc_less: "q < of_int n \<Longrightarrow> 0 < n \<Longrightarrow> c_trunc q < n"
  by (auto simp: c_trunc_def floor_less_iff ceiling_less_iff intro: le_less_trans [of _ 0])

lemma c_trunc_int [simp]: "c_trunc (of_int n) = n"
  by (simp add: c_trunc_def)

lemma c_trunc_nat [simp]: "c_trunc (of_nat n) = int n" "c_trunc (numeral m) = numeral m" "c_trunc 0 = 0"
  by (simp_all add: c_trunc_def)

lemma less_trunc: "q < of_int (c_trunc q) + 1"
  by (auto simp: c_trunc_def) linarith+

lemma scale_up_range:
  assumes "0 \<le> u" "u \<le> 100" "k < 16"
  shows "int k \<le> scale_up_index 15 (int k) u" "scale_up_index 15 (int k) u \<le> 15"
proof -
  define x where "x = rnd32 (rnd32 (rnd32 (of_int (15 - int k + 1)) * percent u) + rnd32 (of_int (int k - 1)))"
  note x = scale_up_adj [OF assms, folded x_def]
  have k: "rnd32 (of_int (int k)) = of_int (int k)" by (rule rnd32_int) (use assms(3) in simp)
  have t: "int k - 1 \<le> c_trunc x" "c_trunc x \<le> 15" using c_trunc_between [OF x(1,2)] by simp_all
  have up: "int k \<le> c_trunc (rnd32 (x + 1)) \<and> c_trunc (rnd32 (x + 1)) \<le> 15" if c: "c_trunc x = int k" "int k < 15"
  proof -
    have lo: "of_int (int k) \<le> x + 1" using x(1) by simp
    consider "k < 14" | "k = 14" "u < 100" | "k = 14" "u = 100" using c(2) assms(2) by linarith
    then show ?thesis
    proof cases
      case 1
      have "x + 1 \<le> of_int (int k + 2)" using less_trunc [of x] c(1) by simp
      from rnd32_between [OF lo this] have b: "of_int (int k) \<le> rnd32 (x + 1)" "rnd32 (x + 1) \<le> of_int (int k + 2)"
        using assms(3) by simp_all
      show ?thesis using c_trunc_between [OF b] 1 by simp
    next
      case 2
      have "rnd32 (x + 1) \<le> 1023 / 64" using rnd32_mono [of "x + 1" "1023 / 64"] x(3) 2 by (simp add: float_constants)
      then have "c_trunc (rnd32 (x + 1)) < 16" by (intro c_trunc_less) simp_all
      moreover have "of_int (int k) \<le> rnd32 (x + 1)" using rnd32_mono [OF lo] k by simp
      then have "int k \<le> c_trunc (rnd32 (x + 1))" using 2(1) by (simp add: c_trunc_def le_floor_iff)
      ultimately show ?thesis by simp
    next
      case 3
      have "x = 15" using rnd32_int [of 2] rnd32_int [of 13] rnd32_int [of 15] 3 by (simp add: x_def percent_100)
      then have False using c(1) 3(1) c_trunc_int [of 15] by simp
      then show ?thesis ..
    qed
  qed
  show "int k \<le> scale_up_index 15 (int k) u" "scale_up_index 15 (int k) u \<le> 15"
    using t up assms(3) unfolding scale_up_index_def Let_def x_def [symmetric] k by auto
qed

lemma scale_up_full: "k < 16 \<Longrightarrow> scale_up_index 15 (int k) 100 = 15"
proof -
  assume "k < 16"
  then have "rnd32 (rnd32 (rnd32 (of_int (15 - int k + 1)) * percent 100) + rnd32 (of_int (int k - 1))) = of_int 15"
    using rnd32_int [of "15 - int k + 1"] rnd32_int [of "int k - 1"] rnd32_int [of 15] by (simp add: percent_100)
  then show ?thesis using \<open>k < 16\<close> unfolding scale_up_index_def Let_def by (simp del: of_int_numeral)
qed

text \<open>Scaling down at a usage of at most 30 ends between the first row and the current one.\<close>

lemma scale_down_range:
  assumes "0 \<le> u" "u \<le> 30" "k < 16"
  shows "0 \<le> scale_down_index 0 (int k) u" "scale_down_index 0 (int k) u \<le> int k"
proof -
  have p: "0 \<le> percent u" "percent u \<le> 5 / 16"
  proof -
    show "0 \<le> percent u" using percent_range(1) assms by simp
    have "of_int u / 100 \<le> (5 / 16 :: rat)" using assms(2) of_int_le_iff [of u 30, where 'a = rat] by simp
    then show "percent u \<le> 5 / 16"
      using rnd32_mono [of "of_int u / 100" "5 / 16"] assms(1,2) by (simp add: percent_def float_constants rnd32_int)
  qed
  let ?m = "of_int (int k + 1) * percent u"
  have r: "rnd32 (of_int (int k - 0 + 1)) = of_int (int k + 1)" using rnd32_int [of "int k + 1"] assms(3) by simp
  have z: "rnd32 (of_int 0) = 0" by simp
  have m0: "of_int 0 \<le> ?m" using p(1) by simp
  have "0 \<le> c_trunc (rnd32 ?m) \<and> c_trunc (rnd32 ?m) \<le> int k"
  proof (cases "k = 0")
    case True
    then have "rnd32 ?m \<le> 5 / 16" using rnd32_mono [OF p(2)] by (simp add: float_constants)
    moreover have "0 \<le> rnd32 ?m" using rnd32_pos m0 by simp
    ultimately show ?thesis using True by (simp add: c_trunc_def floor_le_iff)
  next
    case False
    have "?m \<le> of_int (int k + 1) * (5 / 16)" using p(2) by (intro mult_left_mono) auto
    also have "\<dots> \<le> of_int (int k)"
    proof -
      have "of_nat 1 \<le> (of_nat k :: rat)" using False by (simp only: of_nat_le_iff)
      then show ?thesis by simp
    qed
    finally have "of_int 0 \<le> rnd32 ?m" "rnd32 ?m \<le> of_int (int k)"
      using rnd32_between [OF m0, of "int k"] assms(3) by simp_all
    then show ?thesis using c_trunc_between by blast
  qed
  then show "0 \<le> scale_down_index 0 (int k) u" "scale_down_index 0 (int k) u \<le> int k"
    unfolding scale_down_index_def Let_def r z by (auto simp: c_trunc_def)
qed

section \<open>The daemon with its default tables\<close>

definition daemon_ready :: "scores \<Rightarrow> bool" where
  "daemon_ready st \<longleftrightarrow> (\<exists>st0. astCpuScore st = astCpuScore (loaded initValue st0)
      \<and> astThreadScore st = astThreadScore (loaded initValue st0) \<and> astMemoryScore st = astMemoryScore (loaded initValue st0))
   \<and> sc_maxfreqindex st \<in> {- 1, 15} \<and> sc_minfreqindex st \<in> {- 1, 0}"

definition usage_ok :: "RESOURCE_USAGE_T \<Rightarrow> bool" where
  "usage_ok u \<longleftrightarrow> 0 \<le> ru_cpuUsage u \<and> ru_cpuUsage u \<le> 100 \<and> 0 \<le> ru_threadUsage u \<and> ru_threadUsage u < 2 ^ 31"

lemma ready_tables:
  assumes "daemon_ready st"
  shows "astCpuScore st = map2 (\<lambda>f s. \<lparr>cs_cpuFreq = f, cs_score = s\<rparr>) (initValue ! 0) (initValue ! 1)"
    "astThreadScore st = map2 (\<lambda>n s. \<lparr>ts_threadNum = n, ts_score = s\<rparr>) (initValue ! 2) (initValue ! 3)"
    "astMemoryScore st = map2 (\<lambda>d s. \<lparr>ms_diffUsage = d, ms_score = s\<rparr>) (initValue ! 4) (initValue ! 5)"
  using assms by (auto simp: daemon_ready_def loaded_def)

lemma default_lengths: "length (initValue ! 0) = 20" "length (initValue ! 1) = 20"
  by (simp_all add: initValue_def)

lemma default_scores:
  assumes "daemon_ready st"
  shows "e \<in> set (astCpuScore st) \<Longrightarrow> cs_score e \<in> {0..100}"
    "e' \<in> set (astThreadScore st) \<Longrightarrow> ts_score e' \<in> {0..100}"
    "e'' \<in> set (astMemoryScore st) \<Longrightarrow> ms_score e'' \<in> {0..100}"
  unfolding ready_tables [OF assms] by (auto simp: initValue_def)

lemma dropWhile_in: "dropWhile P xs = x # r \<Longrightarrow> x \<in> set xs"
  by (metis list.set_intros(1) set_dropWhileD)

lemma cpu_scores_ready:
  assumes "daemon_ready st" "usage_ok u"
  shows "\<exists>a b. cpu_scores st u = Ret (a, b) \<and> \<bar>a\<bar> \<le> 100 \<and> \<bar>b\<bar> \<le> 100"
proof (cases "dropWhile (\<lambda>e. ru_cpuFreq u \<noteq> cs_cpuFreq e) (astCpuScore st)")
  case (Cons e r)
  have "cs_score e \<in> {0..100}" by (rule default_scores(1) [OF assms(1) dropWhile_in [OF Cons]])
  then show ?thesis using Cons assms(2) by (auto simp: cpu_scores_def c_signed_def usage_ok_def)
next
  case Nil
  show ?thesis unfolding cpu_scores_def Nil by simp
qed

lemma thread_score_ready:
  assumes "daemon_ready st" "\<bar>a\<bar> \<le> 100"
  shows "\<exists>t. thread_score st u a = Ret t \<and> \<bar>t\<bar> \<le> 200"
proof (cases "dropWhile (\<lambda>e. ru_threadUsage u \<noteq> ts_threadNum e) (astThreadScore st)")
  case (Cons e r)
  have "ts_score e \<in> {0..100}" by (rule default_scores(2) [OF assms(1) dropWhile_in [OF Cons]])
  then show ?thesis using Cons assms(2) by (auto simp: thread_score_def c_signed_def)
next
  case Nil
  show ?thesis unfolding thread_score_def Nil by simp
qed

lemma memory_score_ready:
  assumes "daemon_ready st"
  shows "\<bar>memory_score st d\<bar> \<le> 100"
proof (cases "dropWhile (\<lambda>e. \<not> rnd32 (d * 10) \<le> rnd32 (of_int (ms_diffUsage e))) (astMemoryScore st)")
  case (Cons e r)
  have "ms_score e \<in> {0..100}" by (rule default_scores(3) [OF assms dropWhile_in [OF Cons]])
  then show ?thesis using Cons by (auto simp: memory_score_def signed_divide_int_def sgn_if)
next
  case Nil
  show ?thesis unfolding memory_score_def Nil by simp
qed

lemma resource_score_ready:
  assumes "daemon_ready st" "usage_ok u"
  shows "\<exists>s. resource_score st u d = Ret s"
proof -
  obtain a b where c: "cpu_scores st u = Ret (a, b)" "\<bar>a\<bar> \<le> 100" "\<bar>b\<bar> \<le> 100"
    using cpu_scores_ready [OF assms] by blast
  obtain t where t: "thread_score st u a = Ret t" "\<bar>t\<bar> \<le> 200" using thread_score_ready [OF assms(1) c(2)] by blast
  show ?thesis using c t memory_score_ready [OF assms(1), of d]
    by (auto simp: resource_score_def c_signed_def abs_le_iff)
qed

lemma calcDiff_ready:
  assumes "usage_ok p" "usage_ok u"
  shows "calcDiff junk p u = Ret \<lparr>ru_cpuUsage = ru_cpuUsage u - ru_cpuUsage p,
     ru_threadUsage = ru_threadUsage u - ru_threadUsage p,
     ru_memoryUsage = rnd32 (ru_memoryUsage u - ru_memoryUsage p), ru_cpuFreq = junk\<rparr>"
  using assms by (simp add: calcDiff_def c_signed_def usage_ok_def)

text \<open>Looking up a row.\<close>

lemma index_of_mhz:
  assumes "daemon_ready st" "i < 16"
  shows "sc_getCPUFreqIndexFromTbl st (mhz i) = int i"
  using assms(2) unfolding sc_getCPUFreqIndexFromTbl_def ready_tables [OF assms(1)]
  by (cases rule: row_cases) (simp_all add: mhz_def initValue_def)

lemma table_khz_ready:
  assumes "daemon_ready st" "i < 16"
  shows "table_khz st (int i) = Ret (khz i)"
proof -
  have "length (astCpuScore st) = 20" "cs_cpuFreq (astCpuScore st ! i) = mhz i"
    using assms(2) default_lengths unfolding ready_tables [OF assms(1)] mhz_def by simp_all
  then show ?thesis
    using assms(2) mhz_signed [OF assms(2)] khz_mhz(1) [OF assms(2)]
    by (simp add: table_khz_def sc_getCPUFreqFromTbl_def)
qed

lemma static_indices_ready:
  assumes "daemon_ready st"
  shows "sc_maxfreqindex (static_indices st) = 15" "sc_minfreqindex (static_indices st) = 0"
    "daemon_ready (static_indices st)" "pseONOFF (static_indices st) = pseONOFF st" "preUsage (static_indices st) = preUsage st"
proof -
  have i: "sc_getCPUFreqIndexFromTbl st 1704 = 15" "sc_getCPUFreqIndexFromTbl st 200 = 0"
    using index_of_mhz [OF assms, of 15] index_of_mhz [OF assms, of 0] by (simp_all add: mhz_def initValue_def)
  have t: "sc_getCPUFreqIndexFromTbl (st\<lparr>sc_maxfreqindex := n\<rparr>) f = sc_getCPUFreqIndexFromTbl st f" for n f
    by (simp add: sc_getCPUFreqIndexFromTbl_def)
  show "sc_maxfreqindex (static_indices st) = 15" "sc_minfreqindex (static_indices st) = 0"
    "daemon_ready (static_indices st)" "pseONOFF (static_indices st) = pseONOFF st" "preUsage (static_indices st) = preUsage st"
    using assms i by (auto simp: static_indices_def daemon_ready_def t Let_def)
qed

section \<open>The decision\<close>

lemma adjust_ready:
  assumes "k < 16" "\<bar>tc\<bar> \<le> 1" "\<bar>mc\<bar> \<le> 1"
  shows "\<exists>d i. sc_adjustCond (mhz k) 0 tc mc = Ret (d, if d = 0 then 0 else khz i) \<and> i < 16
      \<and> (tc + mc \<ge> 0 \<longrightarrow> k \<le> i) \<and> (tc + mc \<le> 0 \<longrightarrow> i \<le> k)"
    and "i < 16 \<Longrightarrow> \<exists>d j. sc_adjustCond (mhz k) (khz i) tc mc = Ret (d, khz j) \<and> j < 16
      \<and> (tc + mc \<ge> 0 \<longrightarrow> i \<le> j) \<and> (tc + mc \<le> 0 \<longrightarrow> j \<le> i)"
proof -
  have max: "(mhz k * 1000 = 1704000) = (k = 15)" "(mhz k * 1000 = 200000) = (k = 0)"
    using mhz_ends [OF assms(1)] by auto
  note k = steps_up [OF assms(1)] steps_down [OF assms(1)] mhz_signed [OF assms(1)] khz_mhz(2) [OF assms(1)]
  consider "tc + mc > 0" "k = 15" | "tc + mc > 0" "k \<noteq> 15" | "tc + mc < 0" "k = 0" | "tc + mc < 0" "k \<noteq> 0" | "tc + mc = 0"
    by linarith
  then show "\<exists>d i. sc_adjustCond (mhz k) 0 tc mc = Ret (d, if d = 0 then 0 else khz i) \<and> i < 16
      \<and> (tc + mc \<ge> 0 \<longrightarrow> k \<le> i) \<and> (tc + mc \<le> 0 \<longrightarrow> i \<le> k)"
  proof cases
    case 2
    then show ?thesis using assms(1) max
      by (intro exI [of _ 1] exI [of _ "min 15 (k + nat (tc + mc))"]) (simp add: sc_adjustCond_def k(3) k(1) flip: k(4))
  next
    case 4
    then show ?thesis using assms(1) max
      by (intro exI [of _ "- 1"] exI [of _ "k - nat (- (tc + mc))"]) (simp add: sc_adjustCond_def k(3) k(2) flip: k(4))
  qed (use assms(1) max in \<open>auto simp: sc_adjustCond_def c_signed_def k(3) intro!: exI [of _ 0] exI [of _ k]\<close>)
  show "\<exists>d j. sc_adjustCond (mhz k) (khz i) tc mc = Ret (d, khz j) \<and> j < 16
      \<and> (tc + mc \<ge> 0 \<longrightarrow> i \<le> j) \<and> (tc + mc \<le> 0 \<longrightarrow> j \<le> i)" if i: "i < 16"
  proof -
    note j = steps_up [OF i] steps_down [OF i] khz_ends [OF i]
    consider "tc + mc > 0" "i \<noteq> 15" | "tc + mc < 0" "i \<noteq> 0" | "tc + mc = 0 \<or> tc + mc > 0 \<and> i = 15 \<or> tc + mc < 0 \<and> i = 0"
      by linarith
    then show ?thesis
    proof cases
      case 1
      then show ?thesis using i j
        by (intro exI [of _ 2] exI [of _ "min 15 (i + nat (tc + mc))"]) (simp add: sc_adjustCond_def)
    next
      case 2
      then show ?thesis using i j
        by (intro exI [of _ "- 2"] exI [of _ "i - nat (- (tc + mc))"]) (simp add: sc_adjustCond_def)
    next
      case 3
      then show ?thesis using i j
        by (intro exI [of _ "if tc + mc = 0 then 3 else 0"] exI [of _ i]) (auto simp: sc_adjustCond_def)
    qed
  qed
qed

lemma conds_small: "\<bar>sc_checkThreadCond d\<bar> \<le> 1" "\<bar>sc_checkMemCond d\<bar> \<le> 1"
  by (simp_all add: sc_checkThreadCond_def sc_checkMemCond_def)

text \<open>What the usage alone asks for: nothing (0) or a row.\<close>

lemma usage_cond_ready:
  assumes "daemon_ready st" "k < 16" "0 \<le> u" "u \<le> 100" "d = ru_cpuUsage stDiff"
  shows "\<exists>i. checkCPUUsageCond u (mhz k) stDiff st = Ret (khz i, static_indices st) \<and> i < 16
        \<and> (d \<ge> 20 \<longrightarrow> k \<le> i) \<and> (d \<le> - 20 \<and> u \<le> 30 \<longrightarrow> i \<le> k)
      \<or> checkCPUUsageCond u (mhz k) stDiff st = Ret (0, static_indices st) \<and> d < 20 \<and> \<not> (d \<le> - 20 \<and> u \<le> 30)"
proof -
  note st = static_indices_ready [OF assms(1)]
  note idx = index_of_mhz [OF st(3) assms(2)]
  have row: "table_khz (static_indices st) n = Ret (khz (nat n))" if "0 \<le> n" "n < 16" for n
    using table_khz_ready [OF st(3), of "nat n"] that by simp
  consider "d \<ge> 20" | "d < 20" "d \<le> - 20" "u \<le> 30" | "d < 20" "\<not> (d \<le> - 20 \<and> u \<le> 30)" by linarith
  then show ?thesis
  proof cases
    case 1
    then show ?thesis
      using scale_up_range [OF assms(3,4,2)] assms(2,5)
      by (intro exI [of _ "nat (scale_up_index 15 (int k) u)"]) (simp add: checkCPUUsageCond_def st idx row le_nat_iff nat_less_iff)
  next
    case 2
    then show ?thesis
      using scale_down_range [OF assms(3) 2(3) assms(2)] assms(2,5)
      by (intro exI [of _ "nat (scale_down_index 0 (int k) u)"]) (simp add: checkCPUUsageCond_def st idx row le_nat_iff nat_less_iff)
  next
    case 3
    then have "checkCPUUsageCond u (mhz k) stDiff st =
      (if u < 30 then if k = 0 then Ret (0, static_indices st) else Ret (khz (k - 1), static_indices st)
       else if u > 50 then if k = 15 then Ret (0, static_indices st) else Ret (khz (min 15 (k + 1)), static_indices st)
       else Ret (0, static_indices st))"
      using assms(2,5) mhz_ends [OF assms(2)] khz_mhz(2) [OF assms(2)] khz_next [OF assms(2)] khz_prev [OF assms(2)]
      by (auto simp: checkCPUUsageCond_def Let_def)
    moreover have "k - 1 < 16" "min 15 (k + 1) < 16" using assms(2) by simp_all
    ultimately show ?thesis using 3 assms(5) by (smt (verit, best))
  qed
qed

section \<open>Properties\<close>

text \<open>The change of the resources, and the state after a call.\<close>

definition usage_diff :: "int \<Rightarrow> RESOURCE_USAGE_T \<Rightarrow> RESOURCE_USAGE_T \<Rightarrow> RESOURCE_USAGE_T" where
  "usage_diff junk p u = \<lparr>ru_cpuUsage = ru_cpuUsage u - ru_cpuUsage p, ru_threadUsage = ru_threadUsage u - ru_threadUsage p,
     ru_memoryUsage = rnd32 (ru_memoryUsage u - ru_memoryUsage p), ru_cpuFreq = junk\<rparr>"

definition scored :: "RESOURCE_USAGE_T \<Rightarrow> scores \<Rightarrow> scores" where
  "scored u st = static_indices (st\<lparr>preUsage := u\<rparr>)"

definition score_result :: "int \<Rightarrow> int \<Rightarrow> SCORE_RESULT_T" where
  "score_result s d = \<lparr>sr_score = s, sr_avgScore = 0, sr_finalDecision = d, sr_targetFreq = 0\<rparr>"

lemma scored_ready:
  assumes "daemon_ready st"
  shows "daemon_ready (st\<lparr>preUsage := u\<rparr>)" "daemon_ready (scored u st)" "pseONOFF (scored u st) = pseONOFF st"
    "preUsage (scored u st) = u"
proof -
  show r: "daemon_ready (st\<lparr>preUsage := u\<rparr>)" using assms by (simp add: daemon_ready_def)
  show "daemon_ready (scored u st)" "pseONOFF (scored u st) = pseONOFF st" "preUsage (scored u st) = u"
    using static_indices_ready [OF r] by (simp_all add: scored_def)
qed

lemma calc_ready:
  assumes "daemon_ready st" "usage_ok u" "usage_ok (preUsage st)"
    "checkCPUUsageCond (ru_cpuUsage u) (ru_cpuFreq u) (usage_diff junk (preUsage st) u) (st\<lparr>preUsage := u\<rparr>) = Ret (f, scored u st)"
    "decide u (usage_diff junk (preUsage st) u) f = Ret (d, g)"
  shows "\<exists>s. calcResourceScore junk os u st w
     = run_bind (if pseONOFF st = 1 \<and> d \<noteq> 0 then set_cpufreq_to_value os g w else Ret w) (\<lambda>w. Ret (score_result s d, scored u st, w))"
proof -
  obtain s where "resource_score (st\<lparr>preUsage := u\<rparr>) u (rnd32 (ru_memoryUsage u - ru_memoryUsage (preUsage st))) = Ret s"
    using resource_score_ready [OF scored_ready(1) [OF assms(1)] assms(2)] by blast
  then show ?thesis
    using assms(4,5) calcDiff_ready [OF assms(3,2), of junk] scored_ready(3) [OF assms(1), of u]
    by (intro exI [of _ s]) (simp add: calcResourceScore_def score_result_def flip: usage_diff_def)
qed

lemma decision_safe:
  assumes "daemon_ready st" "k < 16" "ru_cpuFreq u = mhz k" "usage_ok u" "usage_ok (preUsage st)"
  shows "\<exists>s d i. calcResourceScore junk os u st w
        = run_bind (if pseONOFF st = 1 \<and> d \<noteq> 0 then set_cpufreq_to_value os (khz i) w else Ret w)
            (\<lambda>w. Ret (score_result s d, scored u st, w))
      \<and> i < 16 \<and> daemon_ready (scored u st) \<and> usage_ok (preUsage (scored u st))
      \<and> (ru_cpuUsage u - ru_cpuUsage (preUsage st) \<ge> 20 \<longrightarrow> k \<le> i)
      \<and> (ru_cpuUsage u - ru_cpuUsage (preUsage st) \<le> - 20 \<and> ru_cpuUsage u \<le> 30 \<longrightarrow> i \<le> k)"
proof -
  let ?D = "usage_diff junk (preUsage st) u"
  let ?tc = "sc_checkThreadCond ?D" and ?mc = "sc_checkMemCond ?D"
  have D: "ru_cpuUsage ?D = ru_cpuUsage u - ru_cpuUsage (preUsage st)" by (simp add: usage_diff_def)
  have u: "0 \<le> ru_cpuUsage u" "ru_cpuUsage u \<le> 100" using assms(4) by (simp_all add: usage_ok_def)
  have keep: "daemon_ready (scored u st)" "usage_ok (preUsage (scored u st))"
    using scored_ready [OF assms(1)] assms(4) by simp_all
  note calc = calc_ready [OF assms(1,4,5), of junk _ _ _ os w]
  note cond = usage_cond_ready [OF scored_ready(1) [OF assms(1), of u] assms(2) u refl, of ?D, folded scored_def, unfolded D]
  from cond show ?thesis
  proof (elim disjE exE conjE, goal_cases)
    case (1 i)
    note i = 1
    obtain d j where j: "sc_adjustCond (mhz k) (khz i) ?tc ?mc = Ret (d, khz j)" "j < 16"
      "?tc + ?mc \<ge> 0 \<longrightarrow> i \<le> j" "?tc + ?mc \<le> 0 \<longrightarrow> j \<le> i"
      using adjust_ready(2) [OF assms(2) conds_small i(2)] by blast
    have nz: "khz i \<noteq> 0" using khz_ends(3) [OF i(2)] .
    obtain e n where dec: "decide u ?D (khz i) = Ret (e, khz n)" and n: "n < 16"
      and up: "ru_cpuUsage ?D \<ge> 20 \<Longrightarrow> i \<le> n" and down: "ru_cpuUsage ?D \<le> - 20 \<Longrightarrow> n \<le> i"
    proof (cases "ru_cpuUsage ?D < 0 \<and> ?tc + ?mc < 0 \<or> ru_cpuUsage ?D > 0 \<and> ?tc + ?mc > 0")
      case True
      then have "decide u ?D (khz i) = Ret (d, khz j)" using j(1) nz assms(3) by (auto simp: decide_def Let_def)
      then show ?thesis by (rule that) (use True j(2-4) in linarith)+
    next
      case False
      then have "decide u ?D (khz i) = Ret (3, khz i)" using nz by (auto simp: decide_def Let_def)
      then show ?thesis by (rule that) (use i(2) in simp_all)
    qed
    obtain s where s: "calcResourceScore junk os u st w = run_bind
        (if pseONOFF st = 1 \<and> e \<noteq> 0 then set_cpufreq_to_value os (khz n) w else Ret w)
        (\<lambda>w. Ret (score_result s e, scored u st, w))"
      by (rule exE [OF calc [OF i(1) [folded assms(3)] dec]])
    show ?case
      by (rule exI [of _ s], rule exI [of _ e], rule exI [of _ n])
        (use i(3,4) up down n keep s D in auto)
  next
    case 2
    obtain d i where i: "sc_adjustCond (mhz k) 0 ?tc ?mc = Ret (d, if d = 0 then 0 else khz i)" "i < 16"
      using adjust_ready(1) [OF assms(2) conds_small] by blast
    have dec: "decide u ?D 0 = Ret (d, if d = 0 then 0 else khz i)"
      using i(1) assms(3) by (simp add: decide_def)
    obtain s where s: "calcResourceScore junk os u st w = run_bind
        (if pseONOFF st = 1 \<and> d \<noteq> 0 then set_cpufreq_to_value os (if d = 0 then 0 else khz i) w else Ret w)
        (\<lambda>w. Ret (score_result s d, scored u st, w))"
      by (rule exE [OF calc [OF 2(1) [folded assms(3)] dec]])
    have "calcResourceScore junk os u st w = run_bind
        (if pseONOFF st = 1 \<and> d \<noteq> 0 then set_cpufreq_to_value os (khz i) w else Ret w)
        (\<lambda>w. Ret (score_result s d, scored u st, w))"
      unfolding s by simp
    note r = this
    show ?case
      by (rule exI [of _ s], rule exI [of _ d], rule exI [of _ i])
        (use i(2) keep 2(2,3) r in auto)
  qed
qed

text \<open>
  Claim C11. With the default tables, from any frequency of the table and for usages between 0 and 100
  percent, a decision never reads outside a table nor overflows: it writes at most one frequency, one of the table, not
  below the current one when the usage rose by 20 points or more, and not above it when it fell by as
  much to at most 30. The state it leaves is again one from which the next decision can be made.
\<close>

theorem daemon_decision_safe:
  assumes "daemon_ready st" "k < 16" "ru_cpuFreq u = mhz k" "usage_ok u" "usage_ok (preUsage st)"
  shows "\<exists>s d i. calcResourceScore junk os u st w
        = run_bind (if pseONOFF st = 1 \<and> d \<noteq> 0 then set_cpufreq_to_value os (khz i) w else Ret w)
            (\<lambda>w. Ret (score_result s d, scored u st, w))
      \<and> i < 16 \<and> daemon_ready (scored u st) \<and> usage_ok (preUsage (scored u st))
      \<and> (ru_cpuUsage u - ru_cpuUsage (preUsage st) \<ge> 20 \<longrightarrow> k \<le> i)
      \<and> (ru_cpuUsage u - ru_cpuUsage (preUsage st) \<le> - 20 \<and> ru_cpuUsage u \<le> 30 \<longrightarrow> i \<le> k)"
  by (rule decision_safe [OF assms])

definition demo_scores :: scores where
  "demo_scores = loaded initValue scores_init\<lparr>pseONOFF := 1, preUsage := \<lparr>ru_cpuUsage = 20, ru_threadUsage = 2, ru_memoryUsage = 8, ru_cpuFreq = 500\<rparr>\<rparr>"

lemma demo_scores_ready: "daemon_ready demo_scores" "usage_ok (preUsage demo_scores)" "pseONOFF demo_scores = 1"
  by (auto simp: demo_scores_def daemon_ready_def loaded_def scores_init_def usage_ok_def)

definition busy_usage :: "int \<Rightarrow> RESOURCE_USAGE_T" where
  "busy_usage threads = \<lparr>ru_cpuUsage = 100, ru_threadUsage = threads, ru_memoryUsage = 8, ru_cpuFreq = 500\<rparr>"

theorem daemon_decision_safe_witness:
  "\<exists>s d i. calcResourceScore 0 disk (busy_usage 2) demo_scores new_disk
        = run_bind (if pseONOFF demo_scores = 1 \<and> d \<noteq> 0 then set_cpufreq_to_value disk (khz i) new_disk else Ret new_disk)
            (\<lambda>w. Ret (score_result s d, scored (busy_usage 2) demo_scores, w))
      \<and> i < 16 \<and> 3 \<le> i"
proof -
  have f: "ru_cpuFreq (busy_usage 2) = mhz 3" "usage_ok (busy_usage 2)"
    "ru_cpuUsage (busy_usage 2) - ru_cpuUsage (preUsage demo_scores) \<ge> 20"
    by (simp_all add: busy_usage_def mhz_def initValue_def usage_ok_def demo_scores_def)
  show ?thesis
    using daemon_decision_safe [OF demo_scores_ready(1) _ f(1,2) demo_scores_ready(2), of 0 disk new_disk] f(3) by fastforce
qed

text \<open>
  Claim C40. When the usage jumps to 100 percent, the table's highest frequency is the answer, but it is only written if
  neither threads nor memory grew on balance: if they did, the adjustment finds the frequency already
  at the maximum, reports that no change is needed, and nothing is written at all.
\<close>

theorem daemon_drops_full_scale:
  assumes "daemon_ready st" "k < 16" "ru_cpuFreq u = mhz k" "usage_ok u" "usage_ok (preUsage st)"
    "ru_cpuUsage u = 100" "ru_cpuUsage (preUsage st) \<le> 80" "pseONOFF st = 1"
  shows "\<exists>s. calcResourceScore junk os u st w
      = (if sc_checkThreadCond (usage_diff junk (preUsage st) u) + sc_checkMemCond (usage_diff junk (preUsage st) u) > 0
         then Ret (score_result s 0, scored u st, w)
         else run_bind (set_cpufreq_to_value os CPUFREQ_MAX w) (\<lambda>w. Ret (score_result s 3, scored u st, w)))"
proof -
  let ?D = "usage_diff junk (preUsage st) u"
  let ?c = "sc_checkThreadCond ?D + sc_checkMemCond ?D"
  have D: "ru_cpuUsage ?D \<ge> 20" using assms(6,7) by (simp add: usage_diff_def)
  note ready = scored_ready(1) [OF assms(1), of u]
  note si = static_indices_ready [OF ready]
  have "checkCPUUsageCond (ru_cpuUsage u) (ru_cpuFreq u) ?D (st\<lparr>preUsage := u\<rparr>) = Ret (khz 15, scored u st)"
    using D table_khz_ready [OF si(3), of 15] scale_up_full [OF assms(2)]
    by (simp add: checkCPUUsageCond_def assms(3,6) si index_of_mhz [OF si(3) assms(2)] scored_def)
  moreover have m: "khz 15 = CPUFREQ_MAX" by (simp add: khz_def exynos4412_cpufreq_table_def)
  moreover have "decide u ?D CPUFREQ_MAX = Ret (if ?c > 0 then 0 else 3, CPUFREQ_MAX)"
    using D by (simp add: decide_def Let_def sc_adjustCond_def)
  ultimately obtain s where "calcResourceScore junk os u st w
     = run_bind (if pseONOFF st = 1 \<and> (if ?c > 0 then 0 else 3) \<noteq> (0 :: int) then set_cpufreq_to_value os CPUFREQ_MAX w else Ret w)
         (\<lambda>w. Ret (score_result s (if ?c > 0 then 0 else 3), scored u st, w))"
    using calc_ready [OF assms(1,4,5), of junk "khz 15" _ _ os w] by auto
  then show ?thesis using assms(8) by (intro exI [of _ s]) simp
qed

theorem daemon_drops_full_scale_witness:
  "(\<exists>s. calcResourceScore 0 disk (busy_usage 6) demo_scores new_disk = Ret (score_result s 0, scored (busy_usage 6) demo_scores, new_disk))
   \<and> (\<exists>s. calcResourceScore 0 disk (busy_usage 2) demo_scores new_disk
        = Ret (score_result s 3, scored (busy_usage 2) demo_scores,
 new_disk(scaling_file ''scaling_setspeed'' := Some (sprintf_d 1704000))))"
proof -
  have f: "ru_cpuFreq (busy_usage n) = mhz 3" "ru_cpuUsage (busy_usage n) = 100" for n
    by (simp_all add: busy_usage_def mhz_def initValue_def)
  have ok: "usage_ok (busy_usage 6)" "usage_ok (busy_usage 2)" by (simp_all add: busy_usage_def usage_ok_def)
  have p: "ru_cpuUsage (preUsage demo_scores) \<le> 80" by (simp add: demo_scores_def)
  have c: "sc_checkThreadCond (usage_diff 0 (preUsage demo_scores) (busy_usage 6)) = 1"
    "sc_checkThreadCond (usage_diff 0 (preUsage demo_scores) (busy_usage 2)) = 0"
    "sc_checkMemCond (usage_diff 0 (preUsage demo_scores) (busy_usage n)) = 0" for n
    by (simp_all add: usage_diff_def demo_scores_def busy_usage_def sc_checkThreadCond_def sc_checkMemCond_def MEM_THRESHOLD_def)
  show ?thesis
    using daemon_drops_full_scale [OF demo_scores_ready(1) _ f(1) ok(1) demo_scores_ready(2) f(2) p demo_scores_ready(3), of 0 disk new_disk]
      daemon_drops_full_scale [OF demo_scores_ready(1) _ f(1) ok(2) demo_scores_ready(2) f(2) p demo_scores_ready(3), of 0 disk new_disk] c
    by (simp add: set_cpufreq_to_value_def write_file_def)
qed

end
