(* ===== verification/Mem_Info.thy ===== *)
theory Mem_Info
  imports Freq_Steps C_Float
begin

text \<open>
  The memory share of the daemons (\<open>system/extras/cpuusage/meminfo.c\<close>): the parser of \<open>/proc/meminfo\<close> and the
  share of the used memory or of the sum of the processes' PSS. The library \<open>libpagemap\<close>, the allocator and
  \<open>qsort\<close> are parameters; what is only printed is left out.
\<close>

section \<open>The parser of /proc/meminfo\<close>

definition tags :: "string list" where
  "tags = [''MemTotal:'', ''MemFree:'', ''Buffers:'', ''Cached:'', ''Shmem:'', ''Slab:'']"

text \<open>The inner loop: the first tag the line starts with. The character behind the number is overwritten by a \<open>NUL\<close> and
  stepped over, whatever it is.\<close>

fun match_tag :: "string \<Rightarrow> (nat \<times> string) list \<Rightarrow> string \<times> int list \<times> nat \<Rightarrow> string \<times> int list \<times> nat" where
  "match_tag p [] x = x"
| "match_tag p ((i, tag) # r) (q, mem, numFound) =
     (if take (length tag) p = tag then
        let num = dropWhile (\<lambda>c. c = blank) (drop (length tag) p)
        in (drop 1 (dropWhile is_digit num),
            mem[i := s32 (min (2 ^ 63 - 1) (int (dec_val (takeWhile is_digit num))))], numFound + 1)
      else match_tag p r (q, mem, numFound))"

definition mem_line :: "string \<Rightarrow> int list \<times> nat \<Rightarrow> string \<times> int list \<times> nat" where
  "mem_line p x = (case match_tag p (enumerate 0 tags) (p, x) of (p, x) \<Rightarrow> (drop 1 (dropWhile (\<lambda>c. c \<noteq> newline) p), x))"

lemma match_tag_shrinks: "length q \<le> length p \<Longrightarrow> length (fst (match_tag p r (q, x))) \<le> length p"
proof (induction r)
  case (Cons a r)
  obtain i tag m n where a: "a = (i, tag)" "x = (m, n)" by (cases a, cases x)
  have "length (drop 1 (dropWhile is_digit (dropWhile (\<lambda>c. c = blank) (drop (length tag) p)))) \<le> length p"
    using length_dropWhile_le [of is_digit "dropWhile (\<lambda>c. c = blank) (drop (length tag) p)"]
      length_dropWhile_le [of "\<lambda>c. c = blank" "drop (length tag) p"] by simp
  then show ?case using Cons by (simp add: a Let_def)
qed simp

lemma mem_line_shrinks: "p \<noteq> [] \<Longrightarrow> length (fst (mem_line p x)) < length p"
proof -
  assume p: "p \<noteq> []"
  obtain q y where q: "match_tag p (enumerate 0 tags) (p, x) = (q, y)"
    by (cases "match_tag p (enumerate 0 tags) (p, x)")
  have "length q \<le> length p" using match_tag_shrinks [of p p "enumerate 0 tags" x] q by simp
  moreover have "length (drop 1 (dropWhile (\<lambda>c. c \<noteq> newline) q)) \<le> length q - 1"
    using length_dropWhile_le [of "\<lambda>c. c \<noteq> newline" q] by simp
  moreover have "0 < length p" using p by simp
  ultimately have "length (drop 1 (dropWhile (\<lambda>c. c \<noteq> newline) q)) < length p" by linarith
  then show "length (fst (mem_line p x)) < length p" by (simp add: mem_line_def q)
qed

text \<open>\<open>while (*p && numFound < 6)\<close>.\<close>

function mem_lines :: "string \<Rightarrow> int list \<times> nat \<Rightarrow> int list \<times> nat" where
  "mem_lines p (mem, numFound) =
     (if p \<noteq> [] \<and> numFound < 6 then case mem_line p (mem, numFound) of (p, x) \<Rightarrow> mem_lines p x
      else (mem, numFound))"
  by pat_completeness auto
termination
  by (relation "measure (length \<circ> fst)") (simp, metis comp_apply fst_conv in_measure mem_line_shrinks)

declare mem_lines.simps [simp del]

definition no_mem :: "int list" where
  "no_mem = [0, 0, 0, 0, 0, 0]"

text \<open>The buffer holds 1023 characters and ends at a \<open>NUL\<close>. The state is the static array \<open>mem\<close>, which a
  file that cannot be opened leaves as it was.\<close>

definition print_mem_info :: "'w os \<Rightarrow> int list \<times> 'w \<Rightarrow> int \<times> int list \<times> 'w" where
  "print_mem_info os x = (case x of (mem, w) \<Rightarrow> (case os_read os ''/proc/meminfo'' w of
     (None, w) \<Rightarrow> (0, mem, w)
   | (Some s, w) \<Rightarrow>
       let (mem, _) = mem_lines (takeWhile (\<lambda>c. c \<noteq> NUL) (take 1023 s)) (no_mem, 0) in (mem ! 0, mem, w)))"

section \<open>Processes\<close>

record pm_memusage =
  mu_vss :: u32
  mu_rss :: u32
  mu_pss :: u32
  mu_uss :: u32

record proc_info =
  pi_pid :: int
  pi_usage :: pm_memusage

definition numcmp :: "int \<Rightarrow> int \<Rightarrow> int" where
  "numcmp a b = (if a < b then - 1 else if a > b then 1 else 0)"

definition sort_by :: "(pm_memusage \<Rightarrow> u32) \<Rightarrow> int \<Rightarrow> proc_info \<Rightarrow> proc_info \<Rightarrow> int" where
  "sort_by field order a b = order * numcmp (uint (field (pi_usage a))) (uint (field (pi_usage b)))"

text \<open>\<open>pm_pids\<close> is \<open>None\<close> when listing fails; \<open>pm_usage\<close> is \<open>None\<close> when the process cannot be opened, otherwise what
  \<open>pm_process_usage\<close> leaves in the structure.\<close>

record pagemap =
  pm_kernel_error :: bool
  pm_pids :: "int list option"
  pm_usage :: "int \<Rightarrow> pm_memusage option"
  pm_calloc :: bool
  pm_malloc :: "nat \<Rightarrow> bool"
  pm_qsort :: "(proc_info \<Rightarrow> proc_info \<Rightarrow> int) \<Rightarrow> proc_info list \<Rightarrow> proc_info list"

definition usage_zero :: pm_memusage where
  "usage_zero = \<lparr>mu_vss = 0, mu_rss = 0, mu_pss = 0, mu_uss = 0\<rparr>"

definition read_proc :: "pagemap \<Rightarrow> int \<Rightarrow> proc_info" where
  "read_proc pm pid = \<lparr>pi_pid = pid, pi_usage = case pm_usage pm pid of None \<Rightarrow> usage_zero | Some u \<Rightarrow> u\<rparr>"

text \<open>The processes with a non-zero VSS in descending order of PSS; \<open>None\<close> is a return of -1.\<close>

definition collect_procs :: "pagemap \<Rightarrow> proc_info list option" where
  "collect_procs pm =
     (if pm_kernel_error pm then None
      else case pm_pids pm of
        None \<Rightarrow> None
      | Some pids \<Rightarrow>
          if \<not> pm_calloc pm \<or> (\<exists>i < length pids. \<not> pm_malloc pm i) then None
          else Some (pm_qsort pm (sort_by mu_pss (- 1))
                 (filter (\<lambda>p. mu_vss (pi_usage p) \<noteq> 0) (map (read_proc pm) pids))))"

text \<open>The name of a process: \<open>fgets\<close> of the first line of its command line, or \<open><unknown>\<close>. The state tells whether
  \<open>asprintf\<close> finds memory.\<close>

definition getprocname :: "('w \<Rightarrow> bool) \<Rightarrow> 'w os \<Rightarrow> int \<Rightarrow> int \<Rightarrow> 'w \<Rightarrow> int \<times> string \<times> 'w" where
  "getprocname asprintf os pid len w =
     (if len \<le> 0 then (- 1, [], w)
      else
        let (rc, buf, w) =
          (if \<not> asprintf w then (1, [], w)
           else case os_read os (''/proc/'' @ sprintf_d pid @ ''/cmdline'') w of
             (None, w) \<Rightarrow> (2, [], w)
           | (Some s, w) \<Rightarrow>
               if s = [] then (3, [], w)
               else (0, take (nat (len - 1)) (takeWhile (\<lambda>c. c \<noteq> newline) s @ take 1 (dropWhile (\<lambda>c. c \<noteq> newline) s)), w))
        in if rc = 0 then (0, buf, w)
           else (if int (length ''<unknown>'') \<ge> len then 4 else rc, take (nat (len - 1)) ''<unknown>'', w))"

definition add_usage :: "pm_memusage \<Rightarrow> pm_memusage \<Rightarrow> pm_memusage" where
  "add_usage t u = \<lparr>mu_vss = mu_vss t + mu_vss u, mu_rss = mu_rss t + mu_rss u, mu_pss = mu_pss t + mu_pss u,
     mu_uss = mu_uss t + mu_uss u\<rparr>"

text \<open>The sums over the processes whose name can be read into the buffer of 256 bytes, and in kilobytes.\<close>

fun sum_procs :: "('w \<Rightarrow> bool) \<Rightarrow> 'w os \<Rightarrow> proc_info list \<Rightarrow> pm_memusage \<times> 'w \<Rightarrow> pm_memusage \<times> 'w" where
  "sum_procs asprintf os [] x = x"
| "sum_procs asprintf os (p # ps) (t, w) = (case getprocname asprintf os (pi_pid p) 256 w of (rc, _, w) \<Rightarrow>
     sum_procs asprintf os ps (if rc < 0 then t else add_usage t (pi_usage p), w))"

definition kilobytes :: "pm_memusage \<Rightarrow> pm_memusage" where
  "kilobytes t = \<lparr>mu_vss = mu_vss t div 1024, mu_rss = mu_rss t div 1024, mu_pss = mu_pss t div 1024, mu_uss = mu_uss t div 1024\<rparr>"

definition usage_totals :: "pagemap \<Rightarrow> ('w \<Rightarrow> bool) \<Rightarrow> 'w os \<Rightarrow> 'w \<Rightarrow> (pm_memusage \<times> 'w) option" where
  "usage_totals pm asprintf os w = (case collect_procs pm of
     None \<Rightarrow> None
   | Some procs \<Rightarrow> (case sum_procs asprintf os procs (usage_zero, w) of (t, w) \<Rightarrow> Some (kilobytes t, w)))"

section \<open>The share\<close>

definition read_use_pss :: "'w os \<Rightarrow> 'w \<Rightarrow> (int \<times> 'w) run" where
  "read_use_pss os w = read_number (Ret 0) 0 os (scaling_file ''use_pss'') w"

text \<open>\<open>(float)a * 100 / b\<close>.\<close>

definition float_share :: "int \<Rightarrow> int \<Rightarrow> rat" where
  "float_share a b = rnd32 (rnd32 (rnd32 (of_int a) * 100) / rnd32 (of_int b))"

definition used_mem :: "int list \<Rightarrow> int run" where
  "used_mem mem = run_bind (c_signed (mem ! 0 - mem ! 1)) (\<lambda>n. run_bind (c_signed (n - mem ! 2)) (\<lambda>n. c_signed (n - mem ! 3)))"

text \<open>The state is \<open>mem\<close> and the static array \<open>meminfo\<close>. \<open>total_mem\<close> is unsigned, so that the test \<open>total_mem <= 0\<close>
  is one for 0.\<close>

definition share_of :: "bool \<Rightarrow> u32 \<Rightarrow> u32 \<Rightarrow> int list \<Rightarrow> (rat \<times> rat list) run" where
  "share_of use_pss total_pss total_mem mem =
     run_bind (used_mem mem) (\<lambda>used.
     let pss = float_share (uint total_pss) (uint total_mem); share = float_share used (uint total_mem) in
     Ret (if use_pss then pss else share,
          [rnd32 (of_int (uint total_mem)), if use_pss then rnd32 (of_int (uint total_pss)) else 0,
           if use_pss then pss else 0, rnd32 (of_int used), share]))"

definition get_mem_info ::
  "pagemap \<Rightarrow> ('w \<Rightarrow> bool) \<Rightarrow> 'w os \<Rightarrow> (int list \<times> rat list) \<times> 'w \<Rightarrow> (rat \<times> (int list \<times> rat list) \<times> 'w) run" where
  "get_mem_info pm asprintf os x = (case x of ((mem, info), w) \<Rightarrow>
     run_bind (read_use_pss os w) (\<lambda>(use_pss, w).
     case (if use_pss = 1 then usage_totals pm asprintf os w else Some (usage_zero, w)) of
       None \<Rightarrow> Ret (- 1, (mem, info), w)
     | Some (t, w) \<Rightarrow>
         (case print_mem_info os (mem, w) of (total_mem, mem, w) \<Rightarrow>
            if c_uint total_mem = 0 then Ret (- 1, (mem, info), w)
            else run_bind (share_of (use_pss = 1) (mu_pss t) (c_uint total_mem) mem) (\<lambda>(ret, info).
                 Ret (ret, (mem, info), w)))))"

section \<open>The sum of the processes\<close>

lemma getprocname_rc: "0 < len \<Longrightarrow> 0 \<le> fst (getprocname asprintf os pid len w)"
  by (auto simp: getprocname_def Let_def split: prod.splits option.splits)

text \<open>No process is skipped, so that the sum is over all of them, in whatever order \<open>qsort\<close> left them.\<close>

lemma sum_procs_pss:
  "mu_pss (fst (sum_procs asprintf os ps (t, w))) = mu_pss t + sum_list (map (mu_pss \<circ> pi_usage) ps)"
proof (induction ps arbitrary: t w)
  case (Cons p ps)
  obtain rc b w' where g: "getprocname asprintf os (pi_pid p) 256 w = (rc, b, w')"
    by (cases "getprocname asprintf os (pi_pid p) 256 w")
  have "\<not> rc < 0" using getprocname_rc [of 256 asprintf os "pi_pid p" w] g by simp
  then show ?case using Cons by (simp add: g add_usage_def add.assoc)
qed simp

section \<open>What the parser finds\<close>

text \<open>A line as the kernel prints it: a name that ends in its only colon, blanks, a number, the unit.\<close>

definition tag_name :: "string \<Rightarrow> bool" where
  "tag_name name \<longleftrightarrow> (\<exists>pre. name = pre @ '':'' \<and> CHR '':'' \<notin> set pre \<and> newline \<notin> set pre \<and> NUL \<notin> set pre)"

definition meminfo_line :: "string \<times> nat \<times> nat \<Rightarrow> string" where
  "meminfo_line l = (case l of (name, k, n) \<Rightarrow> name @ replicate k blank @ dec_str n @ '' kB'' @ [newline])"

definition set_line :: "string \<times> nat \<times> nat \<Rightarrow> int list \<Rightarrow> int list" where
  "set_line l mem = (case l of (name, k, n) \<Rightarrow>
     if name \<in> set tags then mem[length (takeWhile (\<lambda>t. t \<noteq> name) tags) := int n] else mem)"

lemma tags_named: "tag \<in> set tags \<Longrightarrow> tag_name tag"
proof -
  have n: "tag_name (pre @ '':'')" if "CHR '':'' \<notin> set pre" "newline \<notin> set pre" "NUL \<notin> set pre" for pre
    using that by (auto simp: tag_name_def)
  assume "tag \<in> set tags"
  then show "tag_name tag"
    using n [of "''MemTotal''"] n [of "''MemFree''"] n [of "''Buffers''"] n [of "''Cached''"] n [of "''Shmem''"] n [of "''Slab''"]
    by (auto simp: tags_def)
qed

lemma tag_prefix:
  assumes "tag_name tag" "tag_name name" "take (length tag) (name @ s) = tag"
  shows "tag = name"
proof -
  obtain a b where ab: "tag = a @ '':''" "CHR '':'' \<notin> set a" "name = b @ '':''" "CHR '':'' \<notin> set b"
    using assms(1,2) by (auto simp: tag_name_def)
  have l: "length tag \<le> length (name @ s)" using assms(3) by (metis length_take min.cobounded1 min_def nat_le_linear)
  have nth_eq: "tag ! j = (name @ s) ! j" if "j < length tag" for j
    using assms(3) that by (metis nth_take)
  have tag_at: "(name @ s) ! length a = CHR '':''" using nth_eq [of "length a"] ab(1) by simp
  have name_at: "(name @ s) ! length b = CHR '':''" using ab(3) by (simp add: nth_append)
  have "length a = length b"
  proof (rule linorder_cases [of "length a" "length b"])
    assume less: "length a < length b"
    then have "(name @ s) ! length a = b ! length a" using ab(3) by (simp add: nth_append)
    then show ?thesis using tag_at ab(4) less by (metis nth_mem)
  next
    assume less: "length b < length a"
    then have "tag ! length b = a ! length b" using ab(1) by (simp add: nth_append)
    moreover have "tag ! length b = CHR '':''" using nth_eq [of "length b"] less name_at ab(1) by simp
    ultimately show ?thesis using ab(2) less by (metis nth_mem)
  qed
  then have "length tag = length name" using ab by simp
  then show ?thesis using assms(3) by simp
qed

lemma match_tag_at:
  assumes "tag_name name" "\<forall>(i, tag) \<in> set r. tag_name tag"
  shows "match_tag (name @ s) r x = (case find (\<lambda>(i, tag). tag = name) r of
     None \<Rightarrow> x
   | Some (i, _) \<Rightarrow> (case x of (q, mem, numFound) \<Rightarrow>
       let num = dropWhile (\<lambda>c. c = blank) s
       in (drop 1 (dropWhile is_digit num), mem[i := s32 (min (2 ^ 63 - 1) (int (dec_val (takeWhile is_digit num))))], numFound + 1)))"
  using assms(2)
proof (induction r)
  case (Cons a r)
  obtain i tag where a: "a = (i, tag)" by (cases a)
  obtain q mem m where x: "x = (q, mem, m)" by (cases x)
  have "(take (length tag) (name @ s) = tag) = (tag = name)"
    using tag_prefix [OF _ assms(1)] Cons.prems by (auto simp: a)
  then show ?case using Cons by (auto simp: a x Let_def)
qed simp

lemma dec_str_text: "takeWhile is_digit (dec_str n @ '' kB'' @ s) = dec_str n"
  "dropWhile is_digit (dec_str n @ '' kB'' @ s) = '' kB'' @ s"
  "dropWhile (\<lambda>c. c = blank) (replicate k blank @ dec_str n @ s) = dec_str n @ s"
proof -
  have d: "\<forall>c \<in> set (dec_str n). is_digit c" by (rule dec_str_digits)
  have b: "\<not> is_digit blank" by (simp add: is_digit_def)
  show "takeWhile is_digit (dec_str n @ '' kB'' @ s) = dec_str n" "dropWhile is_digit (dec_str n @ '' kB'' @ s) = '' kB'' @ s"
    using d b by (simp_all add: takeWhile_append2 dropWhile_append2)
  have "hd (dec_str n) \<noteq> blank" using d b by (metis dec_str_nonempty list.set_sel(1))
  then have "dropWhile (\<lambda>c. c = blank) (dec_str n @ s) = dec_str n @ s"
    by (cases "dec_str n") auto
  then show "dropWhile (\<lambda>c. c = blank) (replicate k blank @ dec_str n @ s) = dec_str n @ s"
    by (induction k) auto
qed

lemma dropWhile_line: "newline \<notin> set a \<Longrightarrow> drop 1 (dropWhile (\<lambda>c. c \<noteq> newline) (a @ newline # s)) = s"
  by (subst dropWhile_append2) auto

lemma find_enumerate: "find (\<lambda>(i, t). t = x) (enumerate k l)
   = (if x \<in> set l then Some (k + length (takeWhile (\<lambda>t. t \<noteq> x) l), x) else None)"
  by (induction l arbitrary: k) auto

lemma mem_line_text:
  assumes "tag_name name" "n < 2 ^ 31"
  shows "mem_line (meminfo_line (name, k, n) @ s) (mem, f)
     = (s, set_line (name, k, n) mem, if name \<in> set tags then f + 1 else f)"
proof -
  obtain pre where pre: "name = pre @ '':''" "newline \<notin> set pre" using assms(1) by (auto simp: tag_name_def)
  have nd: "newline \<notin> set (dec_str n)" using dec_str_digits [of n] not_digit_newline by blast
  have tn: "\<forall>(i, tag) \<in> set (enumerate 0 tags). tag_name tag"
    using tags_named nth_mem [of _ tags] by (auto simp: in_set_enumerate_eq)
  have r: "match_tag (meminfo_line (name, k, n) @ s) (enumerate 0 tags) y
     = (case find (\<lambda>(i, tag). tag = name) (enumerate 0 tags) of
     None \<Rightarrow> y
   | Some (i, _) \<Rightarrow> (case y of (q, mem, numFound) \<Rightarrow>
       (''kB'' @ newline # s, mem[i := s32 (min (2 ^ 63 - 1) (int n))], numFound + 1)))" for y
    using match_tag_at [OF assms(1) tn, of "replicate k blank @ dec_str n @ '' kB'' @ newline # s" y]
      dec_str_text(1,2) [of n "newline # s"] dec_str_text(3) [of k n "'' kB'' @ newline # s"]
    by (auto simp: meminfo_line_def dec_val_str Let_def split: option.splits)
  show ?thesis
  proof (cases "name \<in> set tags")
    case True
    then show ?thesis using dropWhile_line [of "''kB''" s] assms(2)
      by (simp add: mem_line_def r find_enumerate set_line_def s32_id)
  next
    case False
    have "meminfo_line (name, k, n) @ s = (pre @ '':'' @ replicate k blank @ dec_str n @ '' kB'') @ newline # s"
      by (simp add: meminfo_line_def pre)
    moreover have "drop 1 (dropWhile (\<lambda>c. c \<noteq> newline) ((pre @ '':'' @ replicate k blank @ dec_str n @ '' kB'') @ newline # s)) = s"
      by (rule dropWhile_line) (use pre(2) nd in simp)
    ultimately have "drop 1 (dropWhile (\<lambda>c. c \<noteq> newline) (meminfo_line (name, k, n) @ s)) = s" by (simp only:)
    then show ?thesis using False by (simp add: mem_line_def r find_enumerate set_line_def)
  qed
qed

lemma foldl_other_lines:
  "(\<And>l. l \<in> set ls \<Longrightarrow> fst l \<notin> set tags) \<Longrightarrow> fold set_line ls mem = mem"
proof (induction ls arbitrary: mem)
  case (Cons l ls)
  obtain name k n where l: "l = (name, k, n)" by (cases l)
  have "set_line l mem = mem" using Cons.prems [of l] by (simp add: set_line_def l)
  then show ?case using Cons by simp
qed simp

lemma tags_distinct: "distinct tags" "length tags = 6"
  by (simp_all add: tags_def)

text \<open>The loop may stop early, but only once all the tags have been found.\<close>

lemma mem_lines_text:
  assumes "\<forall>(name, k, n) \<in> set ls. tag_name name \<and> n < 2 ^ 31" "distinct (map fst ls)"
    "D \<subseteq> set tags" "card D = f" "D \<inter> set (map fst ls) = {}"
  shows "fst (mem_lines (concat (map meminfo_line ls)) (mem, f)) = fold set_line ls mem"
  using assms
proof (induction ls arbitrary: mem f D)
  case Nil
  then show ?case by (simp add: mem_lines.simps)
next
  case (Cons l ls)
  obtain name k n where l: "l = (name, k, n)" by (cases l)
  have line: "tag_name name" "n < 2 ^ 31" using Cons.prems(1) by (auto simp: l)
  have ne: "concat (map meminfo_line (l # ls)) \<noteq> []" by (simp add: l meminfo_line_def)
  show ?case
  proof (cases "f < 6")
    case True
    let ?D = "if name \<in> set tags then insert name D else D"
    let ?f = "if name \<in> set tags then f + 1 else f"
    have D: "?D \<subseteq> set tags" "card ?D = ?f" "?D \<inter> set (map fst ls) = {}"
    proof -
      have "finite D" using Cons.prems(3) finite_subset by blast
      then show "?D \<subseteq> set tags" "card ?D = ?f" "?D \<inter> set (map fst ls) = {}"
        using Cons.prems(2-5) by (auto simp: l)
    qed
    have "mem_lines (concat (map meminfo_line (l # ls))) (mem, f)
      = mem_lines (concat (map meminfo_line ls)) (set_line l mem, ?f)"
      using mem_line_text [OF line, of k "concat (map meminfo_line ls)" mem f] True ne
      by (subst mem_lines.simps) (simp add: l)
    then show ?thesis using Cons.IH [of ?D ?f] Cons.prems(1,2) D by simp
  next
    case False
    have "card D \<le> card (set tags)" using Cons.prems(3) by (rule card_mono [rotated]) simp
    also have "\<dots> = 6" using tags_distinct distinct_card by metis
    finally have "D = set tags"
      using False Cons.prems(3,4) tags_distinct distinct_card [OF tags_distinct(1)] by (intro card_subset_eq) auto
    then have "\<And>x. x \<in> set (l # ls) \<Longrightarrow> fst x \<notin> set tags" using Cons.prems(5) by auto
    then have "fold set_line (l # ls) mem = mem" by (rule foldl_other_lines)
    then show ?thesis using False by (subst mem_lines.simps) simp
  qed
qed

lemma index_in: "x \<in> set l \<Longrightarrow> length (takeWhile (\<lambda>t. t \<noteq> x) l) < length l \<and> l ! length (takeWhile (\<lambda>t. t \<noteq> x) l) = x"
  by (induction l) auto

lemma set_line_nth:
  assumes "i < 6" "length mem = 6"
  shows "length (set_line l mem) = 6"
    "set_line l mem ! i = (if fst l = tags ! i then int (snd (snd l)) else mem ! i)"
proof -
  obtain name k n where l: "l = (name, k, n)" by (cases l)
  show "length (set_line l mem) = 6" using assms(2) by (simp add: l set_line_def)
  have i: "tags ! i \<in> set tags" using assms(1) tags_distinct by simp
  let ?j = "length (takeWhile (\<lambda>t. t \<noteq> name) tags)"
  have "(?j = i) = (name = tags ! i)" if "name \<in> set tags"
  proof -
    have j: "?j < length tags" "tags ! ?j = name"
      using index_in [OF that] by blast+
    then show ?thesis using assms(1) tags_distinct nth_eq_iff_index_eq [of tags ?j i] by auto
  qed
  then show "set_line l mem ! i = (if fst l = tags ! i then int (snd (snd l)) else mem ! i)"
    using assms i by (auto simp: l set_line_def nth_list_update)
qed

definition line_value :: "(string \<times> nat \<times> nat) list \<Rightarrow> string \<Rightarrow> int" where
  "line_value ls tag = (case map_of (map (\<lambda>(name, k, n). (name, n)) ls) tag of None \<Rightarrow> 0 | Some n \<Rightarrow> int n)"

lemma fold_set_line:
  assumes "distinct (map fst ls)" "i < 6" "length mem = 6"
  shows "fold set_line ls mem ! i = (if tags ! i \<in> fst ` set ls then line_value ls (tags ! i) else mem ! i)"
  using assms
proof (induction ls arbitrary: mem)
  case (Cons l ls)
  obtain name k n where l: "l = (name, k, n)" by (cases l)
  show ?case
    using Cons.IH [of "set_line l mem"] Cons.prems set_line_nth [OF Cons.prems(2,3), of l]
    by (auto simp: l line_value_def)
qed simp

lemma fold_set_line_length: "length (fold set_line ls mem) = length mem"
  by (induction ls arbitrary: mem) (auto simp: set_line_def split: prod.splits)

text \<open>
  Claim C31. From a listing of lines with distinct names that fits the buffer, the parser finds the value of each of the
  six tags, in whatever order the lines come and whatever other lines are between them, and 0 for a
  tag that has no line; the result is the total memory.
\<close>

theorem meminfo_values:
  assumes "os_read os ''/proc/meminfo'' w = (Some (concat (map meminfo_line ls)), w')"
    "\<forall>(name, k, n) \<in> set ls. tag_name name \<and> n < 2 ^ 31" "distinct (map fst ls)"
    "length (concat (map meminfo_line ls)) \<le> 1023"
  shows "print_mem_info os (mem, w) = (line_value ls ''MemTotal:'', map (line_value ls) tags, w')"
proof -
  let ?t = "concat (map meminfo_line ls)"
  have "NUL \<notin> set (meminfo_line l)" if lin: "l \<in> set ls" for l
  proof -
    obtain name k n where l: "l = (name, k, n)" by (cases l)
    have "tag_name name" using assms(2) lin by (auto simp: l)
    moreover have "NUL \<notin> set (dec_str n)" using dec_str_digits [of n] by (auto simp: is_digit_def)
    ultimately show ?thesis by (auto simp: l meminfo_line_def tag_name_def)
  qed
  then have t: "takeWhile (\<lambda>c. c \<noteq> NUL) (take 1023 ?t) = ?t"
    using assms(4) by (auto simp: takeWhile_eq_all_conv)
  have f: "fst (mem_lines ?t (no_mem, 0)) = fold set_line ls no_mem"
    by (rule mem_lines_text [where D = "{}"]) (use assms(2,3) in auto)
  have v: "fold set_line ls no_mem ! i = line_value ls (tags ! i)" if "i < 6" for i
  proof (cases "tags ! i \<in> fst ` set ls")
    case False
    then have "map_of (map (\<lambda>(name, k, n). (name, n)) ls) (tags ! i) = None"
      by (force simp: map_of_eq_None_iff)
    moreover have "no_mem ! i = 0" using that by (auto simp: no_mem_def less_Suc_eq eval_nat_numeral)
    ultimately show ?thesis using fold_set_line [OF assms(3) that, of no_mem] False by (simp add: no_mem_def line_value_def)
  qed (use fold_set_line [OF assms(3) that, of no_mem] in \<open>simp add: no_mem_def\<close>)
  have "fold set_line ls no_mem = map (line_value ls) tags"
    by (rule nth_equalityI) (use v tags_distinct in \<open>auto simp: fold_set_line_length no_mem_def\<close>)
  moreover have "tags ! 0 = ''MemTotal:''" by (simp add: tags_def)
  ultimately show ?thesis
    using f v [of 0] by (simp add: print_mem_info_def assms(1) t case_prod_unfold)
qed

definition demo_meminfo :: "(string \<times> nat \<times> nat) list" where
  "demo_meminfo = [(''MemTotal:'', 8, 1030), (''MemFree:'', 9, 200), (''SwapCached:'', 10, 7), (''Cached:'', 3, 30)]"

theorem meminfo_values_witness:
  "print_mem_info \<lparr>os_read = \<lambda>p w. (Some (concat (map meminfo_line demo_meminfo)), w),
      os_write = \<lambda>p t w. None, os_exists = \<lambda>p w. True\<rparr> ([], ())
   = (1030, [1030, 200, 0, 30, 0, 0], ())"
proof -
  have n: "tag_name (pre @ '':'')" if "CHR '':'' \<notin> set pre" "newline \<notin> set pre" "NUL \<notin> set pre" for pre
    using that by (auto simp: tag_name_def)
  have d: "length (dec_str k) \<le> 4" if "k < 10000" for k
    using that by (simp add: dec_str.simps [of k] dec_str.simps [of "k div 10"] dec_str.simps [of "k div 10 div 10"]
        dec_str.simps [of "k div 10 div 10 div 10"])
  have l: "length (concat (map meminfo_line demo_meminfo)) \<le> 1023"
    using d [of 1030] d [of 200] d [of 7] d [of 30] by (simp add: demo_meminfo_def meminfo_line_def)
  have "print_mem_info \<lparr>os_read = \<lambda>p w. (Some (concat (map meminfo_line demo_meminfo)), w),
      os_write = \<lambda>p t w. None, os_exists = \<lambda>p w. True\<rparr> ([], ())
    = (line_value demo_meminfo ''MemTotal:'', map (line_value demo_meminfo) tags, ())"
    by (rule meminfo_values)
      (use n [of "''MemTotal''"] n [of "''MemFree''"] n [of "''Cached''"] n [of "''SwapCached''"] l
        in \<open>simp_all add: demo_meminfo_def\<close>)
  then show ?thesis by (simp add: line_value_def demo_meminfo_def tags_def)
qed

end
