(* ===== verification/Cpu_Usage.thy ===== *)
theory Cpu_Usage
  imports Score_Calc Mem_Info
begin

text \<open>
  The main loop of the daemon (\<open>system/extras/cpuusage/cpuusage.c\<close>, \<open>cpuinfo.c\<close>): the counters of \<open>/proc/stat\<close>,
  the percentages, one round of measuring and deciding, and the program from its start to its end. The
  lines of the log file are left out, not whether it opens.
\<close>

section \<open>The counters of the CPU\<close>

record procstat_t =
  ps_cpu :: string
  ps_user :: u64
  ps_nice :: u64
  ps_system :: u64
  ps_idle :: u64
  ps_iowait :: u64
  ps_irq :: u64
  ps_softirq :: u64
  ps_steal :: u64
  ps_guest :: u64
  ps_guest_nice :: u64

definition counts :: "procstat_t \<Rightarrow> u64 list" where
  "counts p = [ps_user p, ps_nice p, ps_system p, ps_idle p, ps_iowait p, ps_irq p, ps_softirq p, ps_steal p,
     ps_guest p, ps_guest_nice p]"

definition set_counts :: "u64 list \<Rightarrow> procstat_t \<Rightarrow> procstat_t" where
  "set_counts l p = p\<lparr>ps_user := l ! 0, ps_nice := l ! 1, ps_system := l ! 2, ps_idle := l ! 3, ps_iowait := l ! 4,
     ps_irq := l ! 5, ps_softirq := l ! 6, ps_steal := l ! 7, ps_guest := l ! 8, ps_guest_nice := l ! 9\<rparr>"

text \<open>The conversions \<open>%llu\<close> stop at the first that fails; the fields behind it keep what they had.\<close>

fun scan_counts :: "string \<Rightarrow> u64 list \<Rightarrow> u64 list" where
  "scan_counts s [] = []"
| "scan_counts s (old # r) = (case fscanf_llu s of Scan n s \<Rightarrow> n # scan_counts s r | _ \<Rightarrow> old # r)"

text \<open>The buffer of \<open>%s\<close> has 20 bytes.\<close>

definition read_proc_stat :: "'w os \<Rightarrow> procstat_t \<Rightarrow> 'w \<Rightarrow> (procstat_t \<times> 'w) run" where
  "read_proc_stat os p w = (case os_read os ''/proc/stat'' w of
     (None, w) \<Rightarrow> Exit (- 1)
   | (Some s, w) \<Rightarrow> (case fscanf_s s of
       Scan word s \<Rightarrow> if length word \<ge> 20 then Undefined
                      else Ret (set_counts (scan_counts s (counts p)) (p\<lparr>ps_cpu := word\<rparr>), w)
     | _ \<Rightarrow> Ret (p, w)))"

definition diff_proc_stat :: "procstat_t \<Rightarrow> procstat_t \<Rightarrow> procstat_t \<Rightarrow> procstat_t" where
  "diff_proc_stat a b d = d\<lparr>ps_user := ps_user a - ps_user b, ps_nice := ps_nice a - ps_nice b,
     ps_system := ps_system a - ps_system b, ps_idle := ps_idle a - ps_idle b, ps_iowait := ps_iowait a - ps_iowait b,
     ps_irq := ps_irq a - ps_irq b, ps_softirq := ps_softirq a - ps_softirq b, ps_steal := ps_steal a - ps_steal b,
     ps_guest := ps_guest a - ps_guest b, ps_guest_nice := ps_guest_nice a - ps_guest_nice b\<rparr>"

definition stat_total :: "procstat_t \<Rightarrow> u64" where
  "stat_total d = ps_user d + ps_system d + ps_nice d + ps_idle d + ps_iowait d + ps_irq d + ps_softirq d
     + ps_steal d + ps_guest d + ps_guest_nice d"

text \<open>\<open>u100\<close>: hundredths of a percent; a division by zero is undefined.\<close>

definition percentages :: "procstat_t \<Rightarrow> procstat_t \<Rightarrow> procstat_t run" where
  "percentages d u = (let t = stat_total d in
     if t = 0 then Undefined
     else Ret (u\<lparr>ps_user := ps_user d * 10000 div t, ps_nice := ps_nice d * 10000 div t,
       ps_system := ps_system d * 10000 div t, ps_idle := ps_idle d * 10000 div t,
       ps_iowait := ps_iowait d * 10000 div t, ps_irq := ps_irq d * 10000 div t,
       ps_softirq := ps_softirq d * 10000 div t, ps_steal := ps_steal d * 10000 div t,
       ps_guest := ps_guest d * 10000 div t, ps_guest_nice := ps_guest_nice d * 10000 div t\<rparr>))"

definition usage100 :: "procstat_t \<Rightarrow> u64" where
  "usage100 u100 = 10000 - ps_idle u100"

section \<open>The files of the CPUs\<close>

record cpuinfo_t =
  scaling_cur_freq :: u32
  run_thread :: int

text \<open>A failed conversion leaves the field as it was.\<close>

definition read_field :: "'w os \<Rightarrow> string \<Rightarrow> (int \<Rightarrow> cpuinfo_t \<Rightarrow> cpuinfo_t) \<Rightarrow> cpuinfo_t \<Rightarrow> 'w \<Rightarrow> (cpuinfo_t \<times> 'w) run" where
  "read_field os path upd c w = (case os_read os path w of
     (None, w) \<Rightarrow> Exit (- 1)
   | (Some s, w) \<Rightarrow> (case fscanf_d s of Scan n _ \<Rightarrow> Ret (upd n c, w) | _ \<Rightarrow> Ret (c, w)))"

definition read_cpu0_cur_freq :: "'w os \<Rightarrow> cpuinfo_t \<Rightarrow> 'w \<Rightarrow> (cpuinfo_t \<times> 'w) run" where
  "read_cpu0_cur_freq os = read_field os (scaling_file ''scaling_cur_freq'') (\<lambda>n c. c\<lparr>scaling_cur_freq := c_uint n\<rparr>)"

text \<open>The other CPUs: their \<open>online\<close> flag goes into the field of the frequency.\<close>

definition read_cpu_online :: "string \<Rightarrow> 'w os \<Rightarrow> cpuinfo_t \<Rightarrow> 'w \<Rightarrow> (cpuinfo_t \<times> 'w) run" where
  "read_cpu_online cpu os = read_field os (''/sys/devices/system/cpu/'' @ cpu @ ''/online'')
     (\<lambda>n c. c\<lparr>scaling_cur_freq := c_uint n\<rparr>)"

definition read_cpu1_cur_freq :: "'w os \<Rightarrow> cpuinfo_t \<Rightarrow> 'w \<Rightarrow> (cpuinfo_t \<times> 'w) run" where
  "read_cpu1_cur_freq = read_cpu_online ''cpu1''"

definition read_cpu2_cur_freq :: "'w os \<Rightarrow> cpuinfo_t \<Rightarrow> 'w \<Rightarrow> (cpuinfo_t \<times> 'w) run" where
  "read_cpu2_cur_freq = read_cpu_online ''cpu2''"

definition read_cpu3_cur_freq :: "'w os \<Rightarrow> cpuinfo_t \<Rightarrow> 'w \<Rightarrow> (cpuinfo_t \<times> 'w) run" where
  "read_cpu3_cur_freq = read_cpu_online ''cpu3''"

definition read_run_thread_number :: "'w os \<Rightarrow> cpuinfo_t \<Rightarrow> 'w \<Rightarrow> (cpuinfo_t \<times> 'w) run" where
  "read_run_thread_number os = read_field os (scaling_file ''run_thread'') (\<lambda>n c. c\<lparr>run_thread := n\<rparr>)"

section \<open>The program\<close>

text \<open>What else the program uses: the clock in seconds, sleeping for some microseconds, and the log
  (\<open>False\<close> to create it, \<open>True\<close> to append), which may fail to open.\<close>

record 'w daemon_env =
  de_os :: "'w os"
  de_pagemap :: "'w \<Rightarrow> pagemap"
  de_asprintf :: "'w \<Rightarrow> bool"
  de_time :: "'w \<Rightarrow> int \<times> 'w"
  de_usleep :: "int \<Rightarrow> 'w \<Rightarrow> 'w"
  de_log :: "bool \<Rightarrow> 'w \<Rightarrow> 'w option"
  de_junk :: int

record daemon =
  dm_pre :: procstat_t
  dm_cur :: procstat_t
  dm_d :: procstat_t
  dm_u100 :: procstat_t
  dm_cpus :: "cpuinfo_t list"
  dm_mem :: "int list \<times> rat list"
  dm_scores :: scores
  dm_first :: bool

text \<open>\<open>(float)usage100/100\<close> as an \<open>int\<close>.\<close>

definition cpu_usage :: "u64 \<Rightarrow> int run" where
  "cpu_usage u = c_signed (c_trunc (rnd32 (rnd32 (of_int (uint u)) / 100)))"

text \<open>The counters, the files of the CPUs and the memory share.\<close>

definition measure_round :: "'w daemon_env \<Rightarrow> daemon \<Rightarrow> 'w \<Rightarrow> (rat \<times> daemon \<times> 'w) run" where
  "measure_round e dm w = (let os = de_os e in
     run_bind (read_proc_stat os (dm_cur dm) w) (\<lambda>(cur, w).
     let d = diff_proc_stat cur (dm_pre dm) (dm_d dm) in
     run_bind (read_run_thread_number os (dm_cpus dm ! 0) w) (\<lambda>(c0, w).
     run_bind (read_cpu0_cur_freq os c0 w) (\<lambda>(c0, w).
     run_bind (read_cpu1_cur_freq os (dm_cpus dm ! 1) w) (\<lambda>(c1, w).
     run_bind (read_cpu2_cur_freq os (dm_cpus dm ! 2) w) (\<lambda>(c2, w).
     run_bind (read_cpu3_cur_freq os (dm_cpus dm ! 3) w) (\<lambda>(c3, w).
     run_bind (get_mem_info (de_pagemap e w) (de_asprintf e) os (dm_mem dm, w)) (\<lambda>(mem_portion, mem, w).
     run_bind (percentages d (dm_u100 dm)) (\<lambda>u100.
     Ret (mem_portion, dm\<lparr>dm_pre := cur, dm_cur := cur, dm_d := d, dm_u100 := u100, dm_cpus := [c0, c1, c2, c3],
       dm_mem := mem\<rparr>, w))))))))))"

text \<open>The first round loads the tables and creates the log; \<open>False\<close> when it cannot be opened, which ends the program.\<close>

definition open_log :: "'w daemon_env \<Rightarrow> bool \<Rightarrow> daemon \<Rightarrow> 'w \<Rightarrow> bool \<times> daemon \<times> 'w" where
  "open_log e again dm w = (case de_log e again w of None \<Rightarrow> (False, dm, w) | Some w \<Rightarrow> (True, dm, w))"

definition first_round :: "'w daemon_env \<Rightarrow> daemon \<Rightarrow> 'w \<Rightarrow> (bool \<times> daemon \<times> 'w) run" where
  "first_round e dm w =
     (if dm_first dm then
        run_bind (loadUsageScoreValue (de_junk e) (de_junk e) (de_os e) (dm_scores dm) w) (\<lambda>(st, w).
        Ret (open_log e False (dm\<lparr>dm_first := False, dm_scores := st\<rparr>) w))
      else Ret (True, dm, w))"

definition daemon_usage :: "int \<Rightarrow> rat \<Rightarrow> daemon \<Rightarrow> RESOURCE_USAGE_T" where
  "daemon_usage u mem dm = \<lparr>ru_cpuUsage = u, ru_threadUsage = run_thread (dm_cpus dm ! 0), ru_memoryUsage = mem,
     ru_cpuFreq = c_int (scaling_cur_freq (dm_cpus dm ! 0) div 1000)\<rparr>"

definition decide_round :: "'w daemon_env \<Rightarrow> rat \<Rightarrow> daemon \<Rightarrow> 'w \<Rightarrow> (bool \<times> daemon \<times> 'w) run" where
  "decide_round e mem dm w = (case open_log e True dm w of (ok, dm, w) \<Rightarrow>
     if \<not> ok then Ret (False, dm, w)
     else
       run_bind (cpu_usage (usage100 (dm_u100 dm))) (\<lambda>u.
       run_bind (calcResourceScore (de_junk e) (de_os e) (daemon_usage u mem dm) (dm_scores dm) w) (\<lambda>(_, st, w).
       Ret (True, dm\<lparr>dm_scores := st\<rparr>, w))))"

definition daemon_round :: "'w daemon_env \<Rightarrow> int \<Rightarrow> daemon \<Rightarrow> 'w \<Rightarrow> (bool \<times> daemon \<times> 'w) run" where
  "daemon_round e logInterval dm w =
     run_bind (measure_round e dm (de_usleep e logInterval w)) (\<lambda>(mem, dm, w).
     run_bind (first_round e dm w) (\<lambda>(ok, dm, w).
     if ok then decide_round e mem dm w else Ret (False, dm, w)))"

text \<open>The end: back to \<open>ondemand\<close>.\<close>

definition daemon_end :: "'w daemon_env \<Rightarrow> 'w \<Rightarrow> 'w run" where
  "daemon_end e w = run_bind (read_scaling_governor (de_os e) w) (\<lambda>(g, w).
     if g \<noteq> G_ONDEMAND then set_scaling_governor (de_os e) G_ONDEMAND w else Ret w)"

text \<open>\<open>while (1)\<close>, on fuel: \<open>None\<close> when it runs out. The flag tells a run to the end of its time from one that
  the log stopped.\<close>

fun daemon_loop :: "nat \<Rightarrow> 'w daemon_env \<Rightarrow> int \<Rightarrow> int \<Rightarrow> int \<Rightarrow> daemon \<Rightarrow> 'w \<Rightarrow> (bool \<times> daemon \<times> 'w) run option" where
  "daemon_loop 0 e logInterval logTime old dm w = None"
| "daemon_loop (Suc n) e logInterval logTime old dm w = (case de_time e w of (new, w) \<Rightarrow>
     if new - old < logTime then
       (case daemon_round e logInterval dm w of
          Ret (True, dm, w) \<Rightarrow> daemon_loop n e logInterval logTime old dm w
        | Ret (False, dm, w) \<Rightarrow> Some (Ret (False, dm, w))
        | Exit k \<Rightarrow> Some (Exit k)
        | Undefined \<Rightarrow> Some Undefined)
     else Some (run_bind (daemon_end e w) (\<lambda>w. Ret (True, dm, w))))"

text \<open>From the start, after the arguments; \<open>dm\<close> holds the uninitialised locals and the static variables.\<close>

definition daemon_main :: "nat \<Rightarrow> 'w daemon_env \<Rightarrow> int \<Rightarrow> int \<Rightarrow> daemon \<Rightarrow> 'w \<Rightarrow> (bool \<times> daemon \<times> 'w) run option" where
  "daemon_main fuel e interval logTime dm w =
     (case c_signed (interval * 1000) of
        Ret logInterval \<Rightarrow>
          (case de_time e w of (old, w) \<Rightarrow>
          (case read_proc_stat (de_os e) (dm_pre dm) w of
             Ret (pre, w) \<Rightarrow>
               (case os_read (de_os e) (cpulog ''pseON.txt'') w of
                  (None, w) \<Rightarrow> Some (Ret (False, dm, w))
                | (Some s, w) \<Rightarrow>
                    (case (if fst (scan_into 0 s) = 1 then
                             run_bind (read_scaling_governor (de_os e) w) (\<lambda>(g, w).
                             if g \<noteq> G_USERSPACE then set_scaling_governor (de_os e) G_USERSPACE w else Ret w)
                           else Ret w) of
                       Ret w \<Rightarrow> daemon_loop fuel e logInterval logTime old (dm\<lparr>dm_pre := pre\<rparr>) w
                     | Exit k \<Rightarrow> Some (Exit k)
                     | Undefined \<Rightarrow> Some Undefined))
           | Exit k \<Rightarrow> Some (Exit k)
           | Undefined \<Rightarrow> Some Undefined))
      | Exit k \<Rightarrow> Some (Exit k)
      | Undefined \<Rightarrow> Some Undefined)"

section \<open>The percentages\<close>

lemma div_mult_word:
  assumes "unat (x :: u64) * 10000 < 2 ^ 64"
  shows "unat (x * 10000 div t) = unat x * 10000 div unat t"
  using assms by (simp add: unat_div unat_word_ariths)

text \<open>The counters of a sample: none goes back and ten thousand times their sum still fits.\<close>

definition sum_counts :: "procstat_t \<Rightarrow> nat" where
  "sum_counts d = sum_list (map unat (counts d))"

lemma stat_total_unat:
  assumes "sum_counts d * 10000 < 2 ^ 64"
  shows "unat (stat_total d) = sum_counts d"
proof -
  have add: "unat (a + b) = unat a + unat b" if "unat a + unat b < 2 ^ 64" for a b :: u64
    using that by (simp add: unat_word_ariths)
  show ?thesis using assms by (simp add: sum_counts_def counts_def stat_total_def add)
qed

lemma percentages_parts:
  assumes "sum_counts d * 10000 < 2 ^ 64" "sum_counts d \<noteq> 0"
  shows "\<exists>u'. percentages d u = Ret u' \<and> map unat (counts u') = map (\<lambda>x. unat x * 10000 div sum_counts d) (counts d)"
proof -
  have t: "unat (stat_total d) = sum_counts d" by (rule stat_total_unat [OF assms(1)])
  then have nz: "stat_total d \<noteq> 0" using assms(2) by auto
  have small: "\<forall>x \<in> set (counts d). unat x * 10000 < 2 ^ 64"
    using assms(1) member_le_sum_list [of _ "map unat (counts d)"]
    unfolding sum_counts_def by (auto intro: le_less_trans [rotated])
  have p: "\<forall>x \<in> set (counts d). unat (x * 10000 div stat_total d) = unat x * 10000 div sum_counts d"
    using small div_mult_word t by metis
  show ?thesis using nz p by (simp add: percentages_def Let_def counts_def)
qed

lemma sum_div_bounds:
  fixes xs :: "nat list"
  assumes "0 < t"
  shows "sum_list (map (\<lambda>x. x * k div t) xs) * t \<le> sum_list xs * k"
    "sum_list xs * k \<le> sum_list (map (\<lambda>x. x * k div t) xs) * t + length xs * (t - 1)"
proof -
  define c where "c = t - 1"
  let ?f = "\<lambda>x. x * k div t"
  have "sum_list (map ?f xs) * t \<le> sum_list xs * k \<and> sum_list xs * k \<le> sum_list (map ?f xs) * t + length xs * c"
  proof (induction xs)
    case (Cons x xs)
    have h: "?f x * t \<le> x * k" by simp
    have h': "x * k \<le> ?f x * t + c"
      using mod_less_divisor [OF assms, of "x * k"] div_mult_mod_eq [of "x * k" t] unfolding c_def by linarith
    have e: "sum_list (map ?f (x # xs)) * t = ?f x * t + sum_list (map ?f xs) * t"
      "sum_list (x # xs) * k = x * k + sum_list xs * k" "length (x # xs) * c = c + length xs * c"
      by (simp_all add: add_mult_distrib)
    show ?case unfolding e using Cons h h' by linarith
  qed simp
  then show "sum_list (map ?f xs) * t \<le> sum_list xs * k" "sum_list xs * k \<le> sum_list (map ?f xs) * t + length xs * (t - 1)"
    by (simp_all add: c_def)
qed


definition demo_stat :: procstat_t where
  "demo_stat = \<lparr>ps_cpu = ''cpu'', ps_user = 30, ps_nice = 0, ps_system = 20, ps_idle = 100, ps_iowait = 0, ps_irq = 0,
     ps_softirq = 0, ps_steal = 0, ps_guest = 0, ps_guest_nice = 0\<rparr>"


end
