(* ===== verification/Cpu_Daemon.thy ===== *)
theory Cpu_Daemon
  imports Cpu_Usage
begin

text \<open>
  The daemon from its start to its end: it stops when its time is over, and a run to that end leaves the
  \<open>ondemand\<close> governor behind.
\<close>

section \<open>Time only passes\<close>

text \<open>\<open>T\<close> is the time of a state in microseconds.\<close>

definition os_clock :: "('w \<Rightarrow> int) \<Rightarrow> 'w os \<Rightarrow> bool" where
  "os_clock T os \<longleftrightarrow> (\<forall>p w. T w \<le> T (snd (os_read os p w))) \<and> (\<forall>p t w w'. os_write os p t w = Some w' \<longrightarrow> T w \<le> T w')"

definition clock_env :: "('w \<Rightarrow> int) \<Rightarrow> 'w daemon_env \<Rightarrow> bool" where
  "clock_env T e \<longleftrightarrow> (\<forall>w. fst (de_time e w) = T w div 1000000 \<and> T w \<le> T (snd (de_time e w)))
     \<and> (\<forall>n w. T w + n \<le> T (de_usleep e n w)) \<and> (\<forall>b w w'. de_log e b w = Some w' \<longrightarrow> T w \<le> T w') \<and> os_clock T (de_os e)"

abbreviation after :: "('w \<Rightarrow> int) \<Rightarrow> int \<Rightarrow> ('a \<times> 'w) run \<Rightarrow> bool" where
  "after T t r \<equiv> run_all (\<lambda>x. t \<le> T (snd x)) r"

lemma os_clock_read: "os_clock T os \<Longrightarrow> os_read os p w = (s, w') \<Longrightarrow> t \<le> T w \<Longrightarrow> t \<le> T w'"
  by (metis os_clock_def order_trans snd_conv)

lemma os_clock_write: "os_clock T os \<Longrightarrow> os_write os p s w = Some w' \<Longrightarrow> t \<le> T w \<Longrightarrow> t \<le> T w'"
  by (fastforce simp: os_clock_def)

lemma write_file_after: "os_clock T os \<Longrightarrow> t \<le> T w \<Longrightarrow> run_all (\<lambda>w. t \<le> T w) (write_file os p s w)"
  by (auto simp: write_file_def os_clock_write split: option.splits)

lemma read_field_after: "os_clock T os \<Longrightarrow> t \<le> T w \<Longrightarrow> after T t (read_field os p upd c w)"
  by (auto simp: read_field_def os_clock_read split: option.splits scan.splits prod.splits)

lemma read_proc_stat_after: "os_clock T os \<Longrightarrow> t \<le> T w \<Longrightarrow> after T t (read_proc_stat os p w)"
  by (auto simp: read_proc_stat_def os_clock_read split: option.splits scan.splits prod.splits)

lemma read_governor_after: "os_clock T os \<Longrightarrow> t \<le> T w \<Longrightarrow> after T t (read_scaling_governor os w)"
  by (auto simp: read_scaling_governor_def os_clock_read split: option.splits scan.splits prod.splits)

lemma set_governor_after: "os_clock T os \<Longrightarrow> t \<le> T w \<Longrightarrow> run_all (\<lambda>w. t \<le> T w) (set_scaling_governor os g w)"
  by (auto simp: set_scaling_governor_def write_file_after split: option.splits intro!: run_all_anything)

lemma read_use_pss_after: "os_clock T os \<Longrightarrow> t \<le> T w \<Longrightarrow> after T t (read_use_pss os w)"
  by (auto simp: read_use_pss_def read_number_def os_clock_read split: option.splits scan.splits prod.splits)

lemma print_mem_info_after: "os_clock T os \<Longrightarrow> t \<le> T w \<Longrightarrow> print_mem_info os (m, w) = (a, m', w') \<Longrightarrow> t \<le> T w'"
  by (auto simp: print_mem_info_def os_clock_read split: option.splits prod.splits)

lemma sum_procs_after: "os_clock T os \<Longrightarrow> t \<le> T w \<Longrightarrow> t \<le> T (snd (sum_procs asp os ps (s, w)))"
proof (induction ps arbitrary: s w)
  case (Cons p ps)
  obtain rc b w' where g: "getprocname asp os (pi_pid p) 256 w = (rc, b, w')"
    by (cases "getprocname asp os (pi_pid p) 256 w")
  have "t \<le> T w'"
    using g Cons.prems by (auto simp: getprocname_def Let_def os_clock_read split: prod.splits option.splits if_splits)
  then show ?case using Cons by (simp add: g)
qed simp

lemma get_mem_info_after:
  assumes "os_clock T os" "t \<le> T w"
  shows "run_all (\<lambda>(_, _, w). t \<le> T w) (get_mem_info pm asp os ((m, i), w))"
proof -
  have mem: "run_all (\<lambda>(_, _, w). t \<le> T w) (case print_mem_info os (m, w) of (total_mem, mem, w) \<Rightarrow>
            if c_uint total_mem = 0 then Ret (- 1, (mem, i), w)
            else run_bind (share_of b total_pss (c_uint total_mem) mem) (\<lambda>(ret, info). Ret (ret, (mem, info), w)))"
    if "t \<le> T w" for w b total_pss
  proof -
    obtain n m' w' where r: "print_mem_info os (m, w) = (n, m', w')" by (cases "print_mem_info os (m, w)")
    have "t \<le> T w'" by (rule print_mem_info_after [OF assms(1) that r])
    then show ?thesis by (simp add: r) (auto intro!: run_all_anything split: prod.splits)
  qed
  have tot: "t \<le> T w'" if "t \<le> T w" "usage_totals pm asp os w = Some (s, w')" for w s w'
    using sum_procs_after [OF assms(1) that(1)] that(2)
    by (auto simp: usage_totals_def split: option.splits prod.splits) (metis snd_conv)
  show ?thesis
    unfolding get_mem_info_def prod.case
  proof (rule run_all_bind [OF read_use_pss_after [OF assms]], clarify)
    fix u :: int and w assume w: "t \<le> T (snd (u, w))"
    show "run_all (\<lambda>(_, _, w). t \<le> T w)
      (case if u = 1 then usage_totals pm asp os w else Some (usage_zero, w) of None \<Rightarrow> Ret (- 1, (m, i), w)
       | Some (s, w) \<Rightarrow> (case print_mem_info os (m, w) of (total_mem, mem, w) \<Rightarrow>
            if c_uint total_mem = 0 then Ret (- 1, (mem, i), w)
            else run_bind (share_of (u = 1) (mu_pss s) (c_uint total_mem) mem) (\<lambda>(ret, info). Ret (ret, (mem, info), w))))"
    proof (cases "if u = 1 then usage_totals pm asp os w else Some (usage_zero, w)")
      case (Some x)
      obtain s w' where x: "x = (s, w')" by (cases x)
      have "t \<le> T w'" using w tot [of w s w'] Some by (auto simp: x split: if_splits)
      then show ?thesis unfolding Some x option.case prod.case by (rule mem)
    qed (use w in simp)
  qed
qed

lemma create_files_after: "os_clock T os \<Longrightarrow> t \<le> T w \<Longrightarrow> t \<le> T (snd (create_files os l w))"
proof (induction l arbitrary: w)
  case (Cons x l)
  then show ?case by (cases x) (auto simp: os_clock_write split: option.splits)
qed simp

lemma tableFilesCheck_after: "os_clock T os \<Longrightarrow> t \<le> T w \<Longrightarrow> run_all (\<lambda>w. t \<le> T w) (tableFilesCheck os w)"
  using create_files_after [of T os t w "zip file_name initValue"]
  by (auto simp: tableFilesCheck_def split: prod.splits bool.splits)

lemma load_files_after: "os_clock T os \<Longrightarrow> t \<le> T w \<Longrightarrow> after T t (load_files os l ((d, st), w))"
proof (induction l arbitrary: d st w)
  case (Cons x l)
  obtain f col where x: "x = (f, col)" by (cases x)
  show ?case
    using Cons by (auto simp: x os_clock_read split: option.splits prod.splits intro!: run_all_anything)
qed simp

lemma loadUsageScoreValue_after:
  assumes "os_clock T os" "t \<le> T w"
  shows "after T t (loadUsageScoreValue i0 junk os st w)"
  unfolding loadUsageScoreValue_def
  by (rule run_all_bind [OF tableFilesCheck_after [OF assms]]) (rule load_files_after [OF assms(1)])

lemma calcResourceScore_after:
  assumes "os_clock T os" "t \<le> T w"
  shows "run_all (\<lambda>(_, _, w). t \<le> T w) (calcResourceScore junk os u st w)"
proof -
  have s: "run_all (\<lambda>w. t \<le> T w) (if P then set_cpufreq_to_value os f w else Ret w)" for P f
    using assms by (simp add: set_cpufreq_to_value_def write_file_after)
  show ?thesis
    unfolding calcResourceScore_def Let_def
    by (intro run_all_anything) (auto split: prod.splits intro!: run_all_anything run_all_bind [OF s])
qed

section \<open>A round\<close>

abbreviation later :: "('w \<Rightarrow> int) \<Rightarrow> int \<Rightarrow> ('a \<times> 'b \<times> 'w) run \<Rightarrow> bool" where
  "later T t r \<equiv> run_all (\<lambda>(_, _, w). t \<le> T w) r"

lemma run_all_pair: "run_all (\<lambda>x. t \<le> T (snd x)) m \<Longrightarrow> (\<And>a w. t \<le> T w \<Longrightarrow> run_all Q (f a w))
    \<Longrightarrow> run_all Q (run_bind m (\<lambda>(a, w). f a w))"
  by (erule run_all_bind) auto

lemma clock_env_os: "clock_env T e \<Longrightarrow> os_clock T (de_os e)"
  by (simp add: clock_env_def)

lemma measure_round_after:
  assumes "os_clock T (de_os e)" "t \<le> T w"
  shows "later T t (measure_round e dm w)"
proof -
  note f = run_all_pair [OF read_field_after [OF assms(1)]]
  have m: "later T t (run_bind (get_mem_info pm asp (de_os e) (dm_mem dm, w)) (\<lambda>(mem_portion, mem, w).
      run_bind (percentages d u) (\<lambda>u100. Ret (mem_portion, F mem u100, w))))"
    if "t \<le> T w" for pm asp w d u and F :: "int list \<times> rat list \<Rightarrow> procstat_t \<Rightarrow> daemon"
  proof -
    obtain m i where m: "dm_mem dm = (m, i)" by (cases "dm_mem dm")
    show ?thesis unfolding m
      by (rule run_all_bind [OF get_mem_info_after [OF assms(1) that]]) (auto intro!: run_all_anything)
  qed
  show ?thesis
    unfolding measure_round_def Let_def read_cpu0_cur_freq_def read_cpu1_cur_freq_def read_cpu2_cur_freq_def
      read_cpu3_cur_freq_def read_run_thread_number_def read_cpu_online_def
    by (rule run_all_pair [OF read_proc_stat_after [OF assms]], rule f, assumption, rule f, assumption,
        rule f, assumption, rule f, assumption, rule f, assumption, rule m)
qed

lemma open_log_after: "clock_env T e \<Longrightarrow> t \<le> T w \<Longrightarrow> open_log e b dm w = (ok, dm', w') \<Longrightarrow> t \<le> T w'"
  by (auto simp: open_log_def clock_env_def split: option.splits intro: order_trans)

lemma first_round_after:
  assumes "clock_env T e" "t \<le> T w"
  shows "later T t (first_round e dm w)"
proof -
  have "later T t (Ret (open_log e b d w))" if "t \<le> T w" for b d w
    using open_log_after [OF assms(1) that] by (cases "open_log e b d w") simp
  then show ?thesis
    using assms(2) by (auto simp: first_round_def intro!: run_all_pair [OF loadUsageScoreValue_after] clock_env_os assms)
qed

lemma decide_round_after:
  assumes "clock_env T e" "t \<le> T w"
  shows "later T t (decide_round e mem dm w)"
proof -
  obtain ok d w' where o: "open_log e True dm w = (ok, d, w')" by (cases "open_log e True dm w")
  have w': "t \<le> T w'" by (rule open_log_after [OF assms o])
  have "later T t (run_bind (calcResourceScore (de_junk e) (de_os e) u (dm_scores d) w') (\<lambda>(_, st, w). Ret (True, d\<lparr>dm_scores := st\<rparr>, w)))" for u
    by (rule run_all_bind [OF calcResourceScore_after [OF clock_env_os [OF assms(1)] w']]) auto
  then show ?thesis using w' by (simp add: decide_round_def o) (intro impI run_all_anything [of _ _ "cpu_usage u" for u])
qed

lemma daemon_round_after:
  assumes "clock_env T e"
  shows "later T (T w + n) (daemon_round e n dm w)"
proof -
  have "T w + n \<le> T (de_usleep e n w)" using assms by (simp add: clock_env_def)
  note m = measure_round_after [OF clock_env_os [OF assms] this, of dm]
  have "later T (T w + n) (run_bind (first_round e d w') (\<lambda>(ok, d, w). if ok then decide_round e mem d w else Ret (False, d, w)))"
    if "T w + n \<le> T w'" for mem d w'
    by (rule run_all_bind [OF first_round_after [OF assms that]]) (auto intro: decide_round_after [OF assms])
  then show ?thesis
    unfolding daemon_round_def by (intro run_all_bind [OF m]) auto
qed

text \<open>Seconds.\<close>

lemma seconds: "(x div 1000000) * 1000000 \<le> (x :: int)" "x < (x div 1000000 + 1) * 1000000"
  by presburger+

section \<open>The end of the loop\<close>

lemma daemon_loop_ends:
  assumes "clock_env T e" "1000 \<le> n" "(old + logTime) * 1000000 \<le> T w + 1000 * int fuel"
  shows "daemon_loop (Suc fuel) e n logTime old dm w \<noteq> None"
  using assms(3)
proof (induction fuel arbitrary: dm w)
  case (0 dm w)
  obtain new w' where t: "de_time e w = (new, w')" by (cases "de_time e w")
  have "new = T w div 1000000" using assms(1) t by (metis clock_env_def fst_conv)
  then have "\<not> new - old < logTime" using 0 seconds [of "T w"] by auto
  then show ?case by (simp add: t)
next
  case (Suc fuel)
  obtain new w1 where t: "de_time e w = (new, w1)" by (cases "de_time e w")
  have w1: "T w \<le> T w1" using assms(1) t by (metis clock_env_def snd_conv)
  show ?case
  proof (cases "new - old < logTime")
    case True
    show ?thesis
    proof (cases "daemon_round e n dm w1")
      case (Ret x)
      obtain ok d w2 where x: "x = (ok, d, w2)" by (cases x)
      have "T w1 + n \<le> T w2" using daemon_round_after [OF assms(1), of w1 n dm] by (simp add: Ret x)
      then have "(old + logTime) * 1000000 \<le> T w2 + 1000 * int fuel" using Suc.prems w1 assms(2) by simp
      then show ?thesis
        using Suc.IH [of w2 d] t True Ret x by (cases ok) simp_all
    qed (simp_all add: t True)
  qed (simp add: t)
qed

text \<open>
  Claim C25. With an interval of at least a millisecond and a clock that advances at least by what the daemon sleeps, the
  program ends: after the time it was given, at most a thousand rounds for every second of it.
\<close>

theorem daemon_main_ends:
  assumes "clock_env T e" "1 \<le> interval" "logTime * 1000 \<le> int fuel"
  shows "daemon_main (Suc fuel) e interval logTime dm w \<noteq> None"
proof -
  have bound: "(T w div 1000000 + logTime) * 1000000 \<le> T w' + 1000 * int fuel" if "T w \<le> T w'" for w w'
    using that assms(3) seconds(1) [of "T w"] unfolding distrib_right by linarith
  obtain old w1 where t: "de_time e w = (old, w1)" by (cases "de_time e w")
  have old: "old = T w div 1000000" and w1: "T w \<le> T w1"
    using assms(1) t by (metis clock_env_def fst_conv, metis clock_env_def snd_conv)
  note os = clock_env_os [OF assms(1)]
  show ?thesis
  proof (cases "c_signed (interval * 1000)")
    case (Ret n)
    note R1 = Ret
    then have n: "1000 \<le> n" using assms(2) by (auto simp: c_signed_def split: if_splits)
    show ?thesis
    proof (cases "read_proc_stat (de_os e) (dm_pre dm) w1")
      case (Ret x)
      note R2 = Ret
      obtain pre w2 where x: "x = (pre, w2)" by (cases x)
      have w2: "T w \<le> T w2" using read_proc_stat_after [OF os w1, of "dm_pre dm"] by (simp add: Ret x)
      obtain s w3 where r: "os_read (de_os e) (cpulog ''pseON.txt'') w2 = (s, w3)" by (cases "os_read (de_os e) (cpulog ''pseON.txt'') w2")
      have w3: "T w \<le> T w3" by (rule os_clock_read [OF os r w2])
      show ?thesis
      proof (cases s)
        case (Some tx)
        let ?g = "if fst (scan_into 0 tx) = 1 then run_bind (read_scaling_governor (de_os e) w3) (\<lambda>(g, w).
             if g \<noteq> G_USERSPACE then set_scaling_governor (de_os e) G_USERSPACE w else Ret w) else Ret w3"
        have g: "run_all (\<lambda>w'. T w \<le> T w') ?g"
          using w3 by (auto intro!: run_all_pair [OF read_governor_after] os set_governor_after)
        show ?thesis
        proof (cases ?g)
          case (Ret w4)
          then have "T w \<le> T w4" using g by simp
          then have "daemon_loop (Suc fuel) e n logTime old (dm\<lparr>dm_pre := pre\<rparr>) w4 \<noteq> None"
            unfolding old by (intro daemon_loop_ends [OF assms(1) n] bound)
          then show ?thesis
            using Ret R1 R2
            by (simp add: daemon_main_def t x r Some)
        qed (simp_all add: daemon_main_def t x r Some R1 R2)
      qed (simp add: daemon_main_def t x r R1 R2)
    qed (simp_all add: daemon_main_def t R1)
  qed (simp_all add: daemon_main_def)
qed

text \<open>Files on a disk, a clock that counts what the daemon sleeps, and a log that opens.\<close>

definition demo_daemon :: "((string \<Rightarrow> string option) \<times> int) daemon_env" where
  "demo_daemon = \<lparr>de_os = \<lparr>os_read = \<lambda>p w. (fst w p, w), os_write = \<lambda>p t w. Some ((fst w)(p := Some t), snd w),
       os_exists = \<lambda>p w. fst w p \<noteq> None\<rparr>,
     de_pagemap = \<lambda>_. \<lparr>pm_kernel_error = True, pm_pids = None, pm_usage = \<lambda>_. None, pm_calloc = True, pm_malloc = \<lambda>_. True,
       pm_qsort = \<lambda>_ l. l\<rparr>, de_asprintf = \<lambda>_. True,
     de_time = \<lambda>w. (snd w div 1000000, w), de_usleep = \<lambda>n w. (fst w, snd w + n), de_log = \<lambda>_ w. Some w, de_junk = 0\<rparr>"

definition demo_stat0 :: procstat_t where
  "demo_stat0 = set_counts (replicate 10 0) \<lparr>ps_cpu = [], ps_user = 0, ps_nice = 0, ps_system = 0, ps_idle = 0, ps_iowait = 0,
     ps_irq = 0, ps_softirq = 0, ps_steal = 0, ps_guest = 0, ps_guest_nice = 0\<rparr>"

definition demo_start :: daemon where
  "demo_start = \<lparr>dm_pre = demo_stat0, dm_cur = demo_stat0, dm_d = demo_stat0, dm_u100 = demo_stat0,
     dm_cpus = replicate 4 \<lparr>scaling_cur_freq = 0, run_thread = 0\<rparr>, dm_mem = ([], []), dm_scores = scores_init, dm_first = True\<rparr>"

theorem daemon_main_ends_witness:
  "daemon_main 3001 demo_daemon 500 3 demo_start (new_disk, 0) \<noteq> None"
proof -
  have "clock_env snd demo_daemon" by (simp add: clock_env_def os_clock_def demo_daemon_def)
  from daemon_main_ends [OF this, of 500 3 3000] show ?thesis by simp
qed

section \<open>The governor at the end\<close>

text \<open>What the governor file is relied on for: it shows what was last written, and reading does not change it.\<close>

definition governor_file_ok :: "'w os \<Rightarrow> bool" where
  "governor_file_ok os \<longleftrightarrow> (let gov = scaling_file ''scaling_governor'' in
     (\<forall>t w w'. os_write os gov t w = Some w' \<longrightarrow> fst (os_read os gov w') = Some t)
   \<and> (\<forall>w. fst (os_read os gov (snd (os_read os gov w))) = fst (os_read os gov w)))"

lemma scan_ondemand: "fscanf_s ''ondemand'' = Scan ''ondemand'' []"
  by (simp add: fscanf_s_def isspace_def)

lemma daemon_end_ondemand:
  assumes "governor_file_ok (de_os e)" "daemon_end e w = Ret w'"
  shows "\<exists>w''. read_scaling_governor (de_os e) w' = Ret (G_ONDEMAND, w'')"
proof -
  let ?os = "de_os e" and ?gov = "scaling_file ''scaling_governor''"
  obtain g w1 where g: "read_scaling_governor ?os w = Ret (g, w1)"
    and w': "(if g \<noteq> G_ONDEMAND then set_scaling_governor ?os G_ONDEMAND w1 else Ret w1) = Ret w'"
    using assms(2) by (auto simp: daemon_end_def run_bind_eq_Ret)
  show ?thesis
  proof (cases "g = G_ONDEMAND")
    case False
    then have "os_write ?os ?gov ''ondemand'' w1 = Some w'"
      using w' by (auto simp: set_scaling_governor_def governor_text_def write_file_def split: option.splits)
    then have "fst (os_read ?os ?gov w') = Some ''ondemand''" using assms(1) unfolding governor_file_ok_def Let_def by blast
    then show ?thesis
      by (cases "os_read ?os ?gov w'") (simp add: read_scaling_governor_def scan_ondemand governor_of_def)
  next
    case True
    obtain s where s: "os_read ?os ?gov w = (Some s, w1)"
      using g by (auto simp: read_scaling_governor_def split: prod.splits option.splits scan.splits if_splits)
    have w1: "w' = w1" using w' True by simp
    have "fst (os_read ?os ?gov w1) = Some s" using assms(1) s unfolding governor_file_ok_def Let_def by (metis fst_conv snd_conv)
    then show ?thesis
      using g s True unfolding w1
      by (cases "os_read ?os ?gov w1") (auto simp: read_scaling_governor_def split: option.splits scan.splits if_splits)
  qed
qed

lemma daemon_loop_end:
  "daemon_loop n e i l old dm w = Some (Ret (True, dm', w')) \<Longrightarrow> \<exists>w1. daemon_end e w1 = Ret w'"
proof (induction n arbitrary: dm w)
  case (Suc n)
  then show ?case
    by (auto simp: run_bind_eq_Ret split: prod.splits if_splits run.splits bool.splits)
qed simp


definition userspace_files :: "string \<Rightarrow> string option" where
  "userspace_files f = (if f = scaling_file ''scaling_governor'' then Some ''userspace''
     else if f = ''/proc/stat'' then Some ''cpu'' else if f = cpulog ''pseON.txt'' then Some ''0'' else None)"


end
