(* ===== verification/Cpu_Pse.thy ===== *)
theory Cpu_Pse
  imports Cpu_Usage
begin

text \<open>
  The power save enhancer (\<open>system/extras/cpu_pse/cpupse.c\<close>): windows of the last ten samples and a score of the
  change between the last two. Its two actors only print, so that the score has no effect beyond the log. The file
  repeats the readers of the other daemon; those are the same definitions here under the names with \<open>ps_\<close>.
\<close>

section \<open>The readers\<close>

definition ps_read_proc_stat :: "'w os \<Rightarrow> procstat_t \<Rightarrow> 'w \<Rightarrow> (procstat_t \<times> 'w) run" where
  "ps_read_proc_stat = read_proc_stat"

definition ps_read_cpu0_cur_freq :: "'w os \<Rightarrow> cpuinfo_t \<Rightarrow> 'w \<Rightarrow> (cpuinfo_t \<times> 'w) run" where
  "ps_read_cpu0_cur_freq = read_cpu0_cur_freq"

definition ps_read_cpu1_cur_freq :: "'w os \<Rightarrow> cpuinfo_t \<Rightarrow> 'w \<Rightarrow> (cpuinfo_t \<times> 'w) run" where
  "ps_read_cpu1_cur_freq = read_cpu1_cur_freq"

definition ps_read_cpu2_cur_freq :: "'w os \<Rightarrow> cpuinfo_t \<Rightarrow> 'w \<Rightarrow> (cpuinfo_t \<times> 'w) run" where
  "ps_read_cpu2_cur_freq = read_cpu2_cur_freq"

definition ps_read_cpu3_cur_freq :: "'w os \<Rightarrow> cpuinfo_t \<Rightarrow> 'w \<Rightarrow> (cpuinfo_t \<times> 'w) run" where
  "ps_read_cpu3_cur_freq = read_cpu3_cur_freq"

definition ps_read_run_thread_number :: "'w os \<Rightarrow> cpuinfo_t \<Rightarrow> 'w \<Rightarrow> (cpuinfo_t \<times> 'w) run" where
  "ps_read_run_thread_number = read_run_thread_number"

definition ps_getprocname :: "('w \<Rightarrow> bool) \<Rightarrow> 'w os \<Rightarrow> int \<Rightarrow> int \<Rightarrow> 'w \<Rightarrow> int \<times> string \<times> 'w" where
  "ps_getprocname = getprocname"

definition ps_print_mem_info :: "'w os \<Rightarrow> int list \<times> 'w \<Rightarrow> int \<times> int list \<times> 'w" where
  "ps_print_mem_info = print_mem_info"

definition ps_diff_proc_stat :: "procstat_t \<Rightarrow> procstat_t \<Rightarrow> procstat_t \<Rightarrow> procstat_t" where
  "ps_diff_proc_stat = diff_proc_stat"

text \<open>The memory share is always that of the PSS. The state is the static array \<open>mem\<close>.\<close>

definition ps_get_mem_info ::
  "pagemap \<Rightarrow> ('w \<Rightarrow> bool) \<Rightarrow> 'w os \<Rightarrow> int list \<times> 'w \<Rightarrow> rat \<times> int list \<times> 'w" where
  "ps_get_mem_info pm asprintf os x = (case x of (mem, w) \<Rightarrow>
     (case usage_totals pm asprintf os w of
        None \<Rightarrow> (- 1, mem, w)
      | Some (t, w) \<Rightarrow>
          (case ps_print_mem_info os (mem, w) of (total_mem, mem, w) \<Rightarrow>
             if c_uint total_mem = 0 then (- 1, mem, w)
             else (float_share (uint (mu_pss t)) (uint (c_uint total_mem)), mem, w))))"

section \<open>The windows\<close>

record windows =
  usage_window :: "int list"
  thread_window :: "int list"
  mem_window :: "int list"

definition windows_init :: windows where
  "windows_init = \<lparr>usage_window = replicate 10 0, thread_window = replicate 10 0, mem_window = replicate 10 0\<rparr>"

text \<open>The loop that moves every entry by one, and the store behind it.\<close>

fun shift :: "int \<Rightarrow> int list \<Rightarrow> int list" where
  "shift swap_new [] = []"
| "shift swap_new (swap_orig # r) = swap_new # shift swap_orig r"

definition window_manager :: "int \<Rightarrow> int \<Rightarrow> int \<Rightarrow> windows \<Rightarrow> windows" where
  "window_manager usage thread mem w =
     w\<lparr>usage_window := (shift usage (usage_window w))[0 := usage],
       thread_window := (shift thread (thread_window w))[0 := thread],
       mem_window := (shift mem (mem_window w))[0 := mem]\<rparr>"

section \<open>The score\<close>

definition usage_grade :: "int \<Rightarrow> int" where
  "usage_grade d =
     (if d > 8000 then 8 else if d > 7000 then 7 else if d > 6000 then 6 else if d > 5000 then 5
      else if d > 4000 then 4 else if d > 3000 then 3 else if d > 2000 then 2 else if d > 1000 then 1 else 0)"

text \<open>The last condition is the assignment \<open>diff_thread = 1\<close>.\<close>

definition thread_grade :: "int \<Rightarrow> int" where
  "thread_grade d =
     (if d > 5 then 5 else if d > 4 then 4 else if d > 3 then 3 else if d > 2 then 2
      else let d = 1 in if d \<noteq> (0 :: int) then 1 else 0)"

definition mem_grade :: "int \<Rightarrow> int" where
  "mem_grade d =
     (if d > 400 then 8 else if d > 350 then 7 else if d > 300 then 6 else if d > 250 then 5
      else if d > 200 then 4 else if d > 150 then 3 else if d > 100 then 2 else if d > 50 then 1 else 0)"

text \<open>A falling value is graded by its absolute value and the grade negated.\<close>

definition signed_grade :: "(int \<Rightarrow> int) \<Rightarrow> int list \<Rightarrow> int run" where
  "signed_grade grade window =
     run_bind (c_signed (window ! 0 - window ! 1)) (\<lambda>d.
     if d < 0 then run_bind (c_signed (d * - 1)) (\<lambda>d. Ret (grade d * - 1)) else Ret (grade d))"

definition score_calculator :: "windows \<Rightarrow> int run" where
  "score_calculator w =
     run_bind (signed_grade usage_grade (usage_window w)) (\<lambda>usage_score.
     run_bind (signed_grade thread_grade (thread_window w)) (\<lambda>thread_score.
     run_bind (signed_grade mem_grade (mem_window w)) (\<lambda>mem_score.
     Ret (usage_score + thread_score + mem_score))))"

text \<open>The actors print.\<close>

definition pse_actor :: "int \<Rightarrow> 'w \<Rightarrow> 'w" where
  "pse_actor score w = w"

definition fcb_actor :: "int \<Rightarrow> 'w \<Rightarrow> 'w" where
  "fcb_actor score w = w"

section \<open>The program\<close>

record pse =
  pn_m1 :: procstat_t
  pn_m2 :: procstat_t
  pn_d :: procstat_t
  pn_u100 :: procstat_t
  pn_cpus :: "cpuinfo_t list"
  pn_mem :: "int list"
  pn_windows :: windows
  pn_first :: bool

text \<open>\<open>int_usage = usage100\<close> and \<open>int_mem = pss_portion * 100\<close>.\<close>

definition int_usage :: "u64 \<Rightarrow> int" where
  "int_usage u = c_int (ucast u)"

definition int_mem :: "rat \<Rightarrow> int run" where
  "int_mem p = c_signed (c_trunc (rnd32 (p * 100)))"

definition ps_open_log :: "'w daemon_env \<Rightarrow> pse \<Rightarrow> 'w \<Rightarrow> bool \<times> pse \<times> 'w" where
  "ps_open_log e x w =
     (case (if pn_first x then de_log e False w else Some w) of
        None \<Rightarrow> (False, x\<lparr>pn_first := False\<rparr>, w)
      | Some w \<Rightarrow> (case de_log e True w of None \<Rightarrow> (False, x\<lparr>pn_first := False\<rparr>, w) | Some w \<Rightarrow> (True, x\<lparr>pn_first := False\<rparr>, w)))"

definition pse_round :: "'w daemon_env \<Rightarrow> int \<Rightarrow> pse \<Rightarrow> 'w \<Rightarrow> (bool \<times> pse \<times> 'w) run" where
  "pse_round e logInterval x w = (let os = de_os e in
     run_bind (ps_read_proc_stat os (pn_m1 x) w) (\<lambda>(m1, w).
     run_bind (ps_read_proc_stat os (pn_m2 x) (de_usleep e logInterval w)) (\<lambda>(m2, w).
     let d = ps_diff_proc_stat m2 m1 (pn_d x) in
     run_bind (ps_read_run_thread_number os (pn_cpus x ! 0) w) (\<lambda>(c0, w).
     run_bind (ps_read_cpu0_cur_freq os c0 w) (\<lambda>(c0, w).
     run_bind (ps_read_cpu1_cur_freq os (pn_cpus x ! 1) w) (\<lambda>(c1, w).
     run_bind (ps_read_cpu2_cur_freq os (pn_cpus x ! 2) w) (\<lambda>(c2, w).
     run_bind (ps_read_cpu3_cur_freq os (pn_cpus x ! 3) w) (\<lambda>(c3, w).
     case ps_get_mem_info (de_pagemap e w) (de_asprintf e) os (pn_mem x, w) of (pss_portion, mem, w) \<Rightarrow>
     run_bind (percentages d (pn_u100 x)) (\<lambda>u100.
     run_bind (int_mem pss_portion) (\<lambda>m.
     let windows = window_manager (int_usage (usage100 u100)) (run_thread c0) m (pn_windows x) in
     run_bind (score_calculator windows) (\<lambda>current_score.
     let w = (if current_score < 0 then pse_actor current_score w else fcb_actor current_score w);
         x = x\<lparr>pn_m1 := m1, pn_m2 := m2, pn_d := d, pn_u100 := u100, pn_cpus := [c0, c1, c2, c3], pn_mem := mem,
           pn_windows := windows\<rparr>
     in Ret (ps_open_log e x w))))))))))))"

fun pse_loop :: "nat \<Rightarrow> 'w daemon_env \<Rightarrow> int \<Rightarrow> int \<Rightarrow> int \<Rightarrow> pse \<Rightarrow> 'w \<Rightarrow> (pse \<times> 'w) run option" where
  "pse_loop 0 e logInterval logTime old x w = None"
| "pse_loop (Suc n) e logInterval logTime old x w = (case de_time e w of (new, w) \<Rightarrow>
     if new - old < logTime then
       (case pse_round e logInterval x w of
          Ret (True, x, w) \<Rightarrow> pse_loop n e logInterval logTime old x w
        | Ret (False, x, w) \<Rightarrow> Some (Ret (x, w))
        | Exit k \<Rightarrow> Some (Exit k)
        | Undefined \<Rightarrow> Some Undefined)
     else Some (Ret (x, w)))"

text \<open>The windows are static; their first entries are cleared once more.\<close>

definition pse_main :: "nat \<Rightarrow> 'w daemon_env \<Rightarrow> int \<Rightarrow> int \<Rightarrow> pse \<Rightarrow> 'w \<Rightarrow> (pse \<times> 'w) run option" where
  "pse_main fuel e interval logTime x w =
     (case c_signed (interval * 1000) of
        Ret logInterval \<Rightarrow>
          let x = x\<lparr>pn_first := True, pn_windows := (pn_windows x)
                \<lparr>usage_window := (usage_window (pn_windows x))[0 := 0], thread_window := (thread_window (pn_windows x))[0 := 0],
                 mem_window := (mem_window (pn_windows x))[0 := 0]\<rparr>\<rparr>
          in (case de_time e w of (old, w) \<Rightarrow> pse_loop fuel e logInterval logTime old x w)
      | Exit k \<Rightarrow> Some (Exit k)
      | Undefined \<Rightarrow> Some Undefined)"

section \<open>Windows\<close>

lemma shift_butlast: "shift n l = (if l = [] then [] else n # butlast l)"
  by (induction l arbitrary: n) auto

text \<open>After any number of samples a window holds the last ten, the newest first.\<close>

lemma window_manager_lengths:
  assumes "length (usage_window w) = 10" "length (thread_window w) = 10" "length (mem_window w) = 10"
  shows "length (usage_window (window_manager u t m w)) = 10" "length (thread_window (window_manager u t m w)) = 10"
    "length (mem_window (window_manager u t m w)) = 10"
  using assms by (auto simp: window_manager_def shift_butlast)

definition fed :: "(int \<times> int \<times> int) list \<Rightarrow> windows" where
  "fed samples = fold (\<lambda>(u, t, m). window_manager u t m) samples windows_init"

lemma fed_snoc: "fed (xs @ [(u, t, m)]) = window_manager u t m (fed xs)"
  by (simp add: fed_def)

lemma shift_last: "length l = 10 \<Longrightarrow> (shift n l)[0 := n] = take 10 (n # l)"
  by (cases l) (auto simp: shift_butlast butlast_conv_take)

lemma fed_windows:
  "usage_window (fed xs) = take 10 (rev (map fst xs) @ replicate 10 0)
   \<and> thread_window (fed xs) = take 10 (rev (map (fst \<circ> snd) xs) @ replicate 10 0)
   \<and> mem_window (fed xs) = take 10 (rev (map (snd \<circ> snd) xs) @ replicate 10 0)"
proof (induction xs rule: rev_induct)
  case Nil
  then show ?case by (simp add: fed_def windows_init_def)
next
  case (snoc x xs)
  obtain u t m where x: "x = (u, t, m)" by (cases x)
  have cut: "take 10 (n # take 10 (l @ replicate 10 0)) = take 10 ((n # l) @ replicate 10 0)" for n and l :: "int list"
    by (simp add: take_Cons')
  show ?case using snoc unfolding x fed_snoc window_manager_def
    by (simp add: shift_last cut [simplified])
qed

section \<open>Properties of the score\<close>

lemma grades_range: "usage_grade d \<in> {0..8}" "thread_grade d \<in> {1..5}" "mem_grade d \<in> {0..8}"
  by (simp_all add: usage_grade_def thread_grade_def mem_grade_def)

definition sample_small :: "int \<times> int \<times> int \<Rightarrow> bool" where
  "sample_small s \<longleftrightarrow> (case s of (u, t, m) \<Rightarrow> \<bar>u\<bar> < 2 ^ 30 \<and> \<bar>t\<bar> < 2 ^ 30 \<and> \<bar>m\<bar> < 2 ^ 30)"

definition sgrade :: "(int \<Rightarrow> int) \<Rightarrow> int \<Rightarrow> int" where
  "sgrade grade d = (if d < 0 then - grade (- d) else grade d)"

lemma signed_grade_eq:
  assumes "\<bar>window ! 0\<bar> < 2 ^ 30" "\<bar>window ! 1\<bar> < 2 ^ 30"
  shows "signed_grade grade window = Ret (sgrade grade (window ! 0 - window ! 1))"
  using assms by (auto simp: signed_grade_def sgrade_def c_signed_def abs_less_iff)

lemma fed_last_two:
  "usage_window (fed (xs @ [(u, t, m), (u', t', m')])) ! 0 = u'" "usage_window (fed (xs @ [(u, t, m), (u', t', m')])) ! 1 = u"
  "thread_window (fed (xs @ [(u, t, m), (u', t', m')])) ! 0 = t'" "thread_window (fed (xs @ [(u, t, m), (u', t', m')])) ! 1 = t"
  "mem_window (fed (xs @ [(u, t, m), (u', t', m')])) ! 0 = m'" "mem_window (fed (xs @ [(u, t, m), (u', t', m')])) ! 1 = m"
  by (simp_all add: fed_windows)

lemma score_of_fed:
  assumes "sample_small (u, t, m)" "sample_small (u', t', m')"
  shows "score_calculator (fed (xs @ [(u, t, m), (u', t', m')]))
     = Ret (sgrade usage_grade (u' - u) + sgrade thread_grade (t' - t) + sgrade mem_grade (m' - m))"
  using assms by (simp add: score_calculator_def signed_grade_eq fed_last_two sample_small_def del: One_nat_def)



end
