(* ===== verification/Daemon_Stack.thy ===== *)
theory Daemon_Stack
  imports Stack_Safety Score_Calc
begin

text \<open>
  The daemon on the kernel: the sysfs files that the daemon reads and writes are those of the cpufreq core on an Exynos
  board, so that a decision ends as a request to the driver.
\<close>

section \<open>The files\<close>

definition attr_file :: "string \<Rightarrow> policy_attr option" where
  "attr_file = map_of [(scaling_file ''scaling_governor'', scaling_governor), (scaling_file ''scaling_setspeed'', scaling_setspeed),
     (scaling_file ''scaling_cur_freq'', scaling_cur_freq), (scaling_file ''run_thread'', run_thread),
     (scaling_file ''use_pss'', use_pss)]"

text \<open>A file that shows an error reads as empty, and the error of a store is not seen. A call that does not return would be a file that does
  not open; the property below shows that it does not happen.\<close>

definition kernel_os :: "('g, 'd) core_env \<Rightarrow> nat \<Rightarrow> ('g, 'd) core os" where
  "kernel_os env p = \<lparr>
     os_read = \<lambda>path c. (case attr_file path of
        None \<Rightarrow> (None, c)
      | Some a \<Rightarrow> (case cpufreq_show env a p c of
           Some (Text t, c) \<Rightarrow> (Some t, c) | Some (Text_error _, c) \<Rightarrow> (Some [], c) | None \<Rightarrow> (None, c))),
     os_write = \<lambda>path t c. (case attr_file path of
        None \<Rightarrow> None
      | Some a \<Rightarrow> if t = [] then Some c else map_option snd (cpufreq_store env a p t c)),
     os_exists = \<lambda>path c. attr_file path \<noteq> None\<rparr>"

lemma attr_file_setspeed: "attr_file (scaling_file ''scaling_setspeed'') = Some scaling_setspeed"
  by (simp add: attr_file_def scaling_file_def)

section \<open>A speed reaches the driver\<close>

lemma stack_speed_log:
  assumes "stack_tuned xe (g, s) p n" "gv_store_setspeed (stack_gov ke (Some (exynos_target xe)) n) = Some store"
    "store p f (g, s) = Some (rc, g', s')"
  shows "target_log s' = target_log s @ [(p, min (max f (pol_min (policies s p))) (pol_max (policies s p)), RELATION_L)]"
proof -
  obtain v o' u where g: "g = (v, o', u)" by (metis prod.exhaust)
  let ?lo = "pol_min (policies s p)" and ?hi = "pol_max (policies s p)"
  have c: "(if (if f < ?lo then ?lo else f) > ?hi then ?hi else if f < ?lo then ?lo else f) = min (max f ?lo) ?hi"
    by (auto simp: min_def max_def)
  have log: "target_log s' = target_log s @ [(p, min (max f ?lo) ?hi, RELATION_L)]"
    if "cpufreq_driver_target_locked (Some (exynos_target xe)) p (min (max f ?lo) ?hi) RELATION_L s = Some (rc, s')"
    by (rule exynos.locked_log [OF that])
  have "n \<in> gov_names" using assms(1) by (simp add: g stack_tuned_def stack_running_def)
  then show ?thesis
  proof (cases rule: gov_names_cases)
    case 1
    then show ?thesis
      using assms(2,3) log by (auto simp: g stack_gov_defs vbfs_cpufreq_set_def Let_def c split: bind_splits)
  next
    case 2
    then show ?thesis using assms(2) by (simp add: stack_gov_defs)
  next
    case 3
    have m: "cpu_is_managed u (pol_cpu (policies s p)) \<noteq> 0" "cpu_min_freq u (pol_cpu (policies s p)) = ?lo"
      "cpu_max_freq u (pol_cpu (policies s p)) = ?hi"
      using assms(1) by (simp_all add: 3 g stack_state_defs)
    let ?u = "u\<lparr>cpu_set_freq := (cpu_set_freq u)(pol_cpu (policies s p) := f)\<rparr>"
    have e: "cpu_min_freq ?u = cpu_min_freq u" "cpu_max_freq ?u = cpu_max_freq u" by simp_all
    have "userspace_cpufreq_set told_log (Some (exynos_target xe)) p f (u, s)
      = Option.bind (cpufreq_driver_target_locked (Some (exynos_target xe)) p (min (max f ?lo) ?hi) RELATION_L s)
          (\<lambda>(ret, s'). Some (ret, us_hear told_log s s' ?u, s'))"
      by (simp only: userspace_cpufreq_set_def prod.case Let_def if_False e m c)
    then show ?thesis
      using assms(2,3) log by (auto simp: 3 g stack_gov_defs split: bind_splits)
  qed
qed

lemma takes_speed: "n = ''userspace'' \<or> n = ''vbfs'' \<Longrightarrow> \<exists>store. gv_store_setspeed (stack_gov ke tgt n) = Some store"
  by (auto simp: stack_gov_defs)

lemma sscanf_u_printed:
  assumes "0 \<le> i"
  shows "sscanf_u (sprintf_d i) = Some (c_uint i)"
proof -
  have t: "takeWhile is_digit (dec_str n) = dec_str n" for n
    using dec_str_digits [of n] by (simp only: takeWhile_eq_all_conv)
  have d: "dropWhile is_space (dec_str n) = dec_str n" for n
    using dropWhile_dec [of n "[]"] by (simp only: append_Nil2)
  show ?thesis using assms by (simp add: sscanf_u_def sprintf_d_def t d dec_val_str c_uint_def)
qed

text \<open>A write of a number to \<open>scaling_setspeed\<close> under a governor that takes speeds.\<close>

lemma setspeed_write:
  assumes "stack_ok ke xe base"
    "policy_at (stack_env ke xe base) (exynos_driver xe) gov_names (stack_tuned xe) c p Sem_free"
    "pol_governor (pol c p) = Some n" "n = ''userspace'' \<or> n = ''vbfs''" "0 \<le> i"
  shows "\<exists>c'. cpufreq_store (stack_env ke xe base) scaling_setspeed p (sprintf_d i) c = Some (int (length (sprintf_d i)), c')
    \<and> policy_at (stack_env ke xe base) (exynos_driver xe) gov_names (stack_tuned xe) c' p Sem_free
    \<and> target_log (csys c') = target_log (csys c)
        @ [(p, min (max (c_uint i) (pol_min (pol c p))) (pol_max (pol c p)), RELATION_L)]"
proof -
  let ?env = "stack_env ke xe base"
  note cs = exynos_core_stack [OF assms(1)]
  have f: "findable c p Sem_free" using assms(2) by (simp add: policy_at_def)
  obtain k where k: "policy_cpu c (pol_cpu (pol c p)) = Some k" using f by (auto simp: findable_def)
  let ?c2 = "set_sem k Sem_write (ref_up p c)"
  have live: "stack_tuned xe (gsts c, csys c) p n" "pol_min (pol c p) \<le> pol_max (pol c p)"
    using assms(2,3) by (auto simp: policy_at_def live_policy_def in_range_def)
  obtain r c3 c5 where c: "fattr_store ?env scaling_setspeed p (sprintf_d i) ?c2 = Some (r, c3)"
    "policy_cpu c3 (pol_cpu (pol c p)) = Some k" "pol_cpu (pol c3 p) = pol_cpu (pol c p)" "rwsem c3 k = Sem_write"
    "kobject_put p (set_sem k Sem_free c3) = c5"
    "policy_at ?env (exynos_driver xe) gov_names (stack_tuned xe) c5 p Sem_free" "op_ok p c c5"
    using core_stack.locked_call [OF cs assms(2) k disjI1 [OF refl], of "fattr_store ?env scaling_setspeed p (sprintf_d i)"]
      core_stack.fattr_store_op [OF cs] by blast
  have p2: "policy_at ?env (exynos_driver xe) gov_names (stack_tuned xe) ?c2 p Sem_write"
    by (rule core_stack.policy_at_ref(1) [OF cs assms(2) k])
  then have tuned2: "stack_tuned xe (gsts c, csys ?c2) p n"
    using assms(3) by (auto simp: policy_at_def live_policy_def)
  obtain store where s: "gv_store_setspeed (ce_gov ?env n) = Some store" using takes_speed [OF assms(4)] by auto
  obtain rc g' s' where st: "store p (c_uint i) (gsts c, csys ?c2) = Some (rc, g', s')"
    and fr: "sys_frame s' = sys_frame (csys ?c2)"
    using core_stack.store_speed [OF cs tuned2 s, of "c_uint i"] live(2) by auto
  have log: "target_log s' = target_log (csys c) @ [(p, min (max (c_uint i) (pol_min (pol c p))) (pol_max (pol c p)), RELATION_L)]"
    using stack_speed_log [OF tuned2 s [unfolded stack_env_simps] st] by simp
  have r: "r = int (length (sprintf_d i))" "c3 = ?c2\<lparr>gsts := g', csys := s'\<rparr>"
    using c(1) assms(3) s st by (simp_all add: store_scaling_setspeed_def sscanf_u_printed [OF assms(5)] fattr_store_def)
  have "lock_policy_rwsem_write (pol_cpu (pol c p)) (ref_up p c) = Some (0, ?c2)"
    using lock_write_run [OF findable_ref [OF f], of k] k by simp
  then have "cpufreq_store ?env scaling_setspeed p (sprintf_d i) c = Some (r, c5)"
    using get_findable [OF f] c(1-5) unlock_write_run [of c3 "pol_cpu (pol c p)" k] by (simp add: cpufreq_store_def)
  moreover have "target_log (csys c5) = target_log s'"
  proof -
    have "pol_refs s' p = pol_refs (csys c) p + 1" using sys_frameD(5) [OF fr] by simp
    then have "1 < pol_refs (csys (set_sem k Sem_free c3)) p" using f by (simp add: r(2) findable_def)
    from put_ref [OF this] show ?thesis by (simp add: c(5) [symmetric] r(2))
  qed
  ultimately show ?thesis using c(6) log r(1) by auto
qed



end
