(* ===== verification/Sched_Types.thy ===== *)
theory Sched_Types
  imports Prelude
begin

text \<open>
  The data of the scheduler (\<open>kernel/sched.c\<close>) as the configurations of the boards build it: SMP, tickless, with group
  scheduling, on 32 bits, without kernel preemption and without scheduler statistics. Tasks are numbers; the state holds
  the run queue of every CPU and the global counters of the load average. The scheduling classes live in files that are not
  part of the source: they are one parameter, \<open>se_op\<close>, and \<open>class_ops_ok\<close> states what they may change.
\<close>

section \<open>Constants\<close>

abbreviation (input) TASK_RUNNING :: u32 where "TASK_RUNNING \<equiv> 0"
abbreviation (input) TASK_INTERRUPTIBLE :: u32 where "TASK_INTERRUPTIBLE \<equiv> 1"
abbreviation (input) TASK_UNINTERRUPTIBLE :: u32 where "TASK_UNINTERRUPTIBLE \<equiv> 2"
abbreviation (input) TASK_NORMAL :: u32 where "TASK_NORMAL \<equiv> 3"
abbreviation (input) TASK_ALL :: u32 where "TASK_ALL \<equiv> 15"
abbreviation (input) TASK_DEAD :: u32 where "TASK_DEAD \<equiv> 64"
abbreviation (input) TASK_WAKING :: u32 where "TASK_WAKING \<equiv> 256"

abbreviation (input) PF_WQ_WORKER :: u32 where "PF_WQ_WORKER \<equiv> 0x20"
abbreviation (input) PF_THREAD_BOUND :: u32 where "PF_THREAD_BOUND \<equiv> 0x04000000"

abbreviation (input) MAX_RT_PRIO :: int where "MAX_RT_PRIO \<equiv> 100"
abbreviation (input) MAX_USER_RT_PRIO :: int where "MAX_USER_RT_PRIO \<equiv> 100"
abbreviation (input) MAX_PRIO :: int where "MAX_PRIO \<equiv> 140"

abbreviation (input) SCHED_NORMAL :: int where "SCHED_NORMAL \<equiv> 0"
abbreviation (input) SCHED_FIFO :: int where "SCHED_FIFO \<equiv> 1"
abbreviation (input) SCHED_RR :: int where "SCHED_RR \<equiv> 2"
abbreviation (input) SCHED_BATCH :: int where "SCHED_BATCH \<equiv> 3"
abbreviation (input) SCHED_IDLE :: int where "SCHED_IDLE \<equiv> 5"

abbreviation (input) ENQUEUE_WAKEUP :: u32 where "ENQUEUE_WAKEUP \<equiv> 1"
abbreviation (input) ENQUEUE_HEAD :: u32 where "ENQUEUE_HEAD \<equiv> 2"
abbreviation (input) ENQUEUE_WAKING :: u32 where "ENQUEUE_WAKING \<equiv> 4"
abbreviation (input) DEQUEUE_SLEEP :: u32 where "DEQUEUE_SLEEP \<equiv> 1"

section \<open>Tasks and run queues\<close>

datatype sched_class = Stop_class | Rt_class | Fair_class | Idle_class

record load_weight =
  weight :: u32
  inv_weight :: u32

record task =
  t_state :: u32
  t_flags :: u32
  on_rq :: bool
  on_cpu :: bool
  t_cpu :: cpuid
  t_policy :: int
  t_prio :: int
  static_prio :: int
  t_normal_prio :: int
  t_rt_priority :: u32
  t_class :: sched_class
  t_load :: load_weight
  reset_on_fork :: bool
  contributes_to_load :: bool
  has_mm :: bool
  cpus_allowed :: "cpuid \<Rightarrow> bool"
  nr_migrations :: u64
  nvcsw :: u32
  nivcsw :: u32

text \<open>\<open>calc_load_active\<close> is a \<open>long\<close>, kept as a word.\<close>

record rq =
  rq_nr_running :: u32
  cpu_load :: "u32 list"
  last_load_update_tick :: u32
  skip_clock_update :: int
  nr_load_updates :: u32
  nr_switches :: u64
  rq_nr_uninterruptible :: u32
  curr :: nat
  idle :: nat
  stop :: "nat option"
  clock :: u64
  clock_task :: u64
  rq_nr_iowait :: u32
  rq_online :: bool
  avg_load_per_task :: u32
  rt_avg :: u64
  age_stamp :: u64
  idle_stamp :: u64
  avg_idle :: u64
  rq_calc_load_update :: u32
  calc_load_active :: u32
  wake_list :: "nat list"

text \<open>
  The state. \<open>rq_load\<close> (the \<open>load\<close> of a run queue), \<open>cfs_nr_running\<close> and \<open>need_resched\<close> are written by the scheduling
  classes too and therefore stand apart; \<open>in_schedule\<close> tells of a CPU that it is between the two halves of
  \<open>__schedule\<close>, where it may drop the lock of its run queue, and whether the switch is a voluntary one.
\<close>

record 'c sched =
  tasks :: "nat \<Rightarrow> task"
  pids :: "nat list"
  rqs :: "cpuid \<Rightarrow> rq"
  rq_load :: "cpuid \<Rightarrow> load_weight"
  cfs_nr_running :: "cpuid \<Rightarrow> u32"
  need_resched :: "nat \<Rightarrow> bool"
  class_data :: 'c
  cpus_online :: "cpuid \<Rightarrow> bool"
  cpus_active :: "cpuid \<Rightarrow> bool"
  in_schedule :: "cpuid \<Rightarrow> bool option"
  jiffies :: u32
  calc_load_tasks :: u32
  calc_load_tasks_idle :: u32
  calc_load_update :: u32
  avenrun :: "u32 list"
  run_thread_number :: int

section \<open>What is not in the source\<close>

text \<open>The calls into a scheduling class: the class, the CPU of the run queue, the task.\<close>

datatype class_op =
    Enqueue sched_class cpuid nat u32
  | Dequeue sched_class cpuid nat u32
  | Put_prev sched_class cpuid nat
  | Set_curr sched_class cpuid
  | Check_preempt sched_class cpuid nat
  | Switched_from sched_class cpuid nat
  | Switched_to sched_class cpuid nat
  | Prio_changed sched_class cpuid nat int
  | Task_woken sched_class cpuid nat
  | Task_waking sched_class nat
  | Task_fork sched_class nat
  | Task_tick sched_class cpuid nat
  | Rq_online sched_class cpuid
  | Rq_offline sched_class cpuid
  | Set_allowed sched_class nat "cpuid \<Rightarrow> bool"

text \<open>
  The parameters: the possible CPUs, \<open>task_contributes_to_load\<close> on state and flags, the classes with their choice of the next
  task and of a CPU for a task, the fallback CPU mask of the cpusets, \<open>signal_pending_state\<close>, the worker that a
  sleeping worker wakes, \<open>rt_mutex_getprio\<close>, the clock, and the features.
\<close>

record 'c sched_env =
  se_possible :: "cpuid list"
  se_contributes :: "u32 \<Rightarrow> u32 \<Rightarrow> bool"
  se_op :: "class_op \<Rightarrow> 'c sched \<Rightarrow> 'c sched"
  se_pick :: "sched_class \<Rightarrow> cpuid \<Rightarrow> 'c sched \<Rightarrow> nat option \<times> 'c sched"
  se_select :: "nat \<Rightarrow> 'c sched \<Rightarrow> cpuid \<times> 'c sched"
  se_fallback :: "nat \<Rightarrow> 'c sched \<Rightarrow> cpuid \<times> (cpuid \<Rightarrow> bool)"
  se_signal :: "nat \<Rightarrow> 'c sched \<Rightarrow> bool"
  se_wq_sleeping :: "nat \<Rightarrow> cpuid \<Rightarrow> 'c sched \<Rightarrow> nat option"
  se_getprio :: "nat \<Rightarrow> task \<Rightarrow> int"
  se_clock :: "cpuid \<Rightarrow> 'c sched \<Rightarrow> u64"
  se_ttwu_queue :: bool
  se_irqs_on_ctxsw :: bool
  se_migration_cost :: u64
  se_time_avg :: u32

text \<open>A class changes its own data, the load of a run queue, the number of fair tasks and the reschedule flags.\<close>

definition class_frame :: "'c sched \<Rightarrow> 'c sched \<Rightarrow> bool" where
  "class_frame s s' \<longleftrightarrow> (\<exists>ld n r d. s' = s\<lparr>rq_load := ld, cfs_nr_running := n, need_resched := r, class_data := d\<rparr>)"

text \<open>The next task of a class is one it has queued on that CPU; the idle class always has the idle task.\<close>

definition pick_ok :: "cpuid \<Rightarrow> sched_class \<Rightarrow> nat \<Rightarrow> 'c sched \<Rightarrow> bool" where
  "pick_ok c cls p s \<longleftrightarrow> (case cls of
     Idle_class \<Rightarrow> p = idle (rqs s c)
   | Stop_class \<Rightarrow> stop (rqs s c) = Some p \<and> on_rq (tasks s p) \<and> t_cpu (tasks s p) = c
   | _ \<Rightarrow> t_class (tasks s p) = cls \<and> on_rq (tasks s p) \<and> t_cpu (tasks s p) = c)"

definition class_ops_ok :: "'c sched_env \<Rightarrow> bool" where
  "class_ops_ok e \<longleftrightarrow>
     (\<forall>op s. class_frame s (se_op e op s))
   \<and> (\<forall>cls c s. class_frame s (snd (se_pick e cls c s)))
   \<and> (\<forall>cls c s p. fst (se_pick e cls c s) = Some p \<longrightarrow> pick_ok c cls p s)
   \<and> (\<forall>c s. fst (se_pick e Idle_class c s) \<noteq> None)
   \<and> (\<forall>p s. class_frame s (snd (se_select e p s)))"

text \<open>Tasks and CPUs that come from other files exist.\<close>

definition others_ok :: "'c sched_env \<Rightarrow> bool" where
  "others_ok e \<longleftrightarrow>
     (\<forall>p c s w. se_wq_sleeping e p c s = Some w \<longrightarrow> w \<in> set (pids s))
   \<and> (\<forall>p s. fst (se_fallback e p s) \<in> set (se_possible e))"

text \<open>A running task and one that is being woken do not count for the load.\<close>

definition contributes_ok :: "'c sched_env \<Rightarrow> bool" where
  "contributes_ok e \<longleftrightarrow> (\<forall>f. \<not> se_contributes e TASK_RUNNING f \<and> \<not> se_contributes e TASK_WAKING f)"

section \<open>Updates\<close>

definition upd_task :: "nat \<Rightarrow> (task \<Rightarrow> task) \<Rightarrow> 'c sched \<Rightarrow> 'c sched" where
  "upd_task p f s = s\<lparr>tasks := (tasks s)(p := f (tasks s p))\<rparr>"

definition upd_rq :: "cpuid \<Rightarrow> (rq \<Rightarrow> rq) \<Rightarrow> 'c sched \<Rightarrow> 'c sched" where
  "upd_rq c f s = s\<lparr>rqs := (rqs s)(c := f (rqs s c))\<rparr>"

lemma upd_simps [simp]:
  "tasks (upd_task p f s) = (tasks s)(p := f (tasks s p))" "rqs (upd_task p f s) = rqs s"
  "rqs (upd_rq c g s) = (rqs s)(c := g (rqs s c))" "tasks (upd_rq c g s) = tasks s"
  "pids (upd_task p f s) = pids s" "pids (upd_rq c g s) = pids s"
  "in_schedule (upd_task p f s) = in_schedule s" "in_schedule (upd_rq c g s) = in_schedule s"
  "calc_load_tasks (upd_task p f s) = calc_load_tasks s" "calc_load_tasks (upd_rq c g s) = calc_load_tasks s"
  "calc_load_tasks_idle (upd_task p f s) = calc_load_tasks_idle s" "calc_load_tasks_idle (upd_rq c g s) = calc_load_tasks_idle s"
  "cpus_online (upd_task p f s) = cpus_online s" "cpus_online (upd_rq c g s) = cpus_online s"
  "cpus_active (upd_task p f s) = cpus_active s" "cpus_active (upd_rq c g s) = cpus_active s"
  by (simp_all add: upd_task_def upd_rq_def)

end
