(* ===== verification/Sched_Load.thy ===== *)
theory Sched_Load
  imports Sched_Types Complex_Main
begin

text \<open>
  The counters that the scheduler shows to the rest of the system: the number of runnable threads, which the governors,
  the hotplug code and the daemons use, the load average with its catch-up after an idle period, and the decaying load of
  every run queue (\<open>kernel/sched.c\<close>, \<open>nr_running\<close> to \<open>update_cpu_load_active\<close>).
\<close>

section \<open>Counters\<close>

text \<open>The counter behind \<open>run_thread_number\<close> is an \<open>int\<close>.\<close>

definition nr_running :: "'c sched_env \<Rightarrow> 'c sched \<Rightarrow> u32 \<times> 'c sched" where
  "nr_running e s =
     (let sum = fold (\<lambda>i sum. sum + rq_nr_running (rqs s i)) (filter (cpus_online s) (se_possible e)) 0
      in (sum, s\<lparr>run_thread_number := c_int sum\<rparr>))"

definition nr_uninterruptible :: "'c sched_env \<Rightarrow> 'c sched \<Rightarrow> u32" where
  "nr_uninterruptible e s =
     (let sum = fold (\<lambda>i sum. sum + rq_nr_uninterruptible (rqs s i)) (se_possible e) 0
      in if c_int sum < 0 then 0 else sum)"

definition nr_context_switches :: "'c sched_env \<Rightarrow> 'c sched \<Rightarrow> u64" where
  "nr_context_switches e s = fold (\<lambda>i sum. sum + nr_switches (rqs s i)) (se_possible e) 0"

definition nr_iowait :: "'c sched_env \<Rightarrow> 'c sched \<Rightarrow> u32" where
  "nr_iowait e s = fold (\<lambda>i sum. sum + rq_nr_iowait (rqs s i)) (se_possible e) 0"

definition nr_iowait_cpu :: "cpuid \<Rightarrow> 'c sched \<Rightarrow> u32" where
  "nr_iowait_cpu cpu s = rq_nr_iowait (rqs s cpu)"

definition this_cpu_load :: "cpuid \<Rightarrow> 'c sched \<Rightarrow> u32" where
  "this_cpu_load cpu s = cpu_load (rqs s cpu) ! 0"

definition weighted_cpuload :: "cpuid \<Rightarrow> 'c sched \<Rightarrow> u32" where
  "weighted_cpuload cpu s = weight (rq_load s cpu)"

definition source_load :: "bool \<Rightarrow> cpuid \<Rightarrow> nat \<Rightarrow> 'c sched \<Rightarrow> u32" where
  "source_load lb_bias cpu type s =
     (let total = weighted_cpuload cpu s
      in if type = 0 \<or> \<not> lb_bias then total else min (cpu_load (rqs s cpu) ! (type - 1)) total)"

definition target_load :: "bool \<Rightarrow> cpuid \<Rightarrow> nat \<Rightarrow> 'c sched \<Rightarrow> u32" where
  "target_load lb_bias cpu type s =
     (let total = weighted_cpuload cpu s
      in if type = 0 \<or> \<not> lb_bias then total else max (cpu_load (rqs s cpu) ! (type - 1)) total)"

definition cpu_avg_load_per_task :: "cpuid \<Rightarrow> 'c sched \<Rightarrow> u32 \<times> 'c sched" where
  "cpu_avg_load_per_task cpu s =
     (let nr_running = rq_nr_running (rqs s cpu);
          a = (if nr_running \<noteq> 0 then weight (rq_load s cpu) div nr_running else 0)
      in (a, upd_rq cpu (\<lambda>r. r\<lparr>avg_load_per_task := a\<rparr>) s))"

section \<open>The load average\<close>

abbreviation (input) FSHIFT :: nat where "FSHIFT \<equiv> 11"
abbreviation (input) FIXED_1 :: u32 where "FIXED_1 \<equiv> 2048"
abbreviation (input) EXP_1 :: u32 where "EXP_1 \<equiv> 1884"
abbreviation (input) EXP_5 :: u32 where "EXP_5 \<equiv> 2014"
abbreviation (input) EXP_15 :: u32 where "EXP_15 \<equiv> 2037"

text \<open>\<open>5 * HZ + 1\<close> with 200 ticks a second.\<close>

abbreviation (input) LOAD_FREQ :: int where "LOAD_FREQ \<equiv> 1001"

definition time_before :: "u32 \<Rightarrow> u32 \<Rightarrow> bool" where
  "time_before a b \<longleftrightarrow> c_int (a - b) < 0"

definition calc_load_fold_active :: "cpuid \<Rightarrow> 'c sched \<Rightarrow> u32 \<times> 'c sched" where
  "calc_load_fold_active cpu s =
     (let nr_active = rq_nr_running (rqs s cpu) + rq_nr_uninterruptible (rqs s cpu)
      in if nr_active \<noteq> calc_load_active (rqs s cpu)
         then (nr_active - calc_load_active (rqs s cpu), upd_rq cpu (\<lambda>r. r\<lparr>calc_load_active := nr_active\<rparr>) s)
         else (0, s))"

definition calc_load :: "u32 \<Rightarrow> u32 \<Rightarrow> u32 \<Rightarrow> u32" where
  "calc_load load ex active =
     (let load = load * ex;
          load = load + active * (FIXED_1 - ex);
          load = load + push_bit (FSHIFT - 1) 1
      in drop_bit FSHIFT load)"

definition calc_load_account_idle :: "cpuid \<Rightarrow> 'c sched \<Rightarrow> 'c sched" where
  "calc_load_account_idle cpu s = (case calc_load_fold_active cpu s of (delta, s) \<Rightarrow>
     if delta \<noteq> 0 then s\<lparr>calc_load_tasks_idle := calc_load_tasks_idle s + delta\<rparr> else s)"

definition calc_load_fold_idle :: "'c sched \<Rightarrow> u32 \<times> 'c sched" where
  "calc_load_fold_idle s =
     (if calc_load_tasks_idle s \<noteq> 0 then (calc_load_tasks_idle s, s\<lparr>calc_load_tasks_idle := 0\<rparr>) else (0, s))"

text \<open>One fixed-point product with rounding.\<close>

definition fixed_mult :: "u32 \<Rightarrow> u32 \<Rightarrow> nat \<Rightarrow> u32" where
  "fixed_mult a b frac_bits = drop_bit frac_bits (a * b + push_bit (frac_bits - 1) 1)"

fun power_loop :: "u32 \<Rightarrow> nat \<Rightarrow> nat \<Rightarrow> u32 \<Rightarrow> u32" where
  "power_loop x frac_bits n result =
     (let result = (if odd n then fixed_mult result x frac_bits else result)
      in if n div 2 = 0 then result else power_loop (fixed_mult x x frac_bits) frac_bits (n div 2) result)"

definition fixed_power_int :: "u32 \<Rightarrow> nat \<Rightarrow> u32 \<Rightarrow> u32" where
  "fixed_power_int x frac_bits n =
     (let result = push_bit frac_bits 1 in if n \<noteq> 0 then power_loop x frac_bits (unat n) result else result)"

definition calc_load_n :: "u32 \<Rightarrow> u32 \<Rightarrow> u32 \<Rightarrow> u32 \<Rightarrow> u32" where
  "calc_load_n load ex active n = calc_load load (fixed_power_int ex FSHIFT n) active"

text \<open>The active tasks in fixed point; a negative count is 0.\<close>

definition active_fixed :: "'c sched \<Rightarrow> u32" where
  "active_fixed s = (if c_int (calc_load_tasks s) > 0 then calc_load_tasks s * FIXED_1 else 0)"

definition upd_avenrun :: "(u32 \<Rightarrow> u32 \<Rightarrow> u32) \<Rightarrow> 'c sched \<Rightarrow> 'c sched" where
  "upd_avenrun f s = s\<lparr>avenrun := [f (avenrun s ! 0) EXP_1, f (avenrun s ! 1) EXP_5, f (avenrun s ! 2) EXP_15]\<rparr>"

definition calc_global_nohz :: "'c sched \<Rightarrow> 'c sched" where
  "calc_global_nohz s = (case calc_load_fold_idle s of (delta, s) \<Rightarrow>
     let s = (if delta \<noteq> 0 then s\<lparr>calc_load_tasks := calc_load_tasks s + delta\<rparr> else s)
     in if time_before (jiffies s) (calc_load_update s + 10) then s
        else let delta = c_int (jiffies s - calc_load_update s - 10);
                 n = 1 + delta sdiv LOAD_FREQ;
                 active = active_fixed s;
                 s = upd_avenrun (\<lambda>load ex. calc_load_n load ex active (c_uint n)) s
             in s\<lparr>calc_load_update := calc_load_update s + c_uint (n * LOAD_FREQ)\<rparr>)"

definition get_avenrun :: "u32 \<Rightarrow> nat \<Rightarrow> 'c sched \<Rightarrow> u32 list" where
  "get_avenrun offset shift s = map (\<lambda>l. push_bit shift (l + offset)) (avenrun s)"

definition calc_global_load :: "'c sched \<Rightarrow> 'c sched" where
  "calc_global_load s =
     (if time_before (jiffies s) (calc_load_update s + 10) then s
      else let active = active_fixed s;
               s = upd_avenrun (\<lambda>load ex. calc_load load ex active) s
           in calc_global_nohz (s\<lparr>calc_load_update := calc_load_update s + c_uint LOAD_FREQ\<rparr>))"

definition calc_load_account_active :: "cpuid \<Rightarrow> 'c sched \<Rightarrow> 'c sched" where
  "calc_load_account_active cpu s =
     (if time_before (jiffies s) (rq_calc_load_update (rqs s cpu)) then s
      else case calc_load_fold_active cpu s of (delta, s) \<Rightarrow>
           case calc_load_fold_idle s of (delta', s) \<Rightarrow>
           let delta = delta + delta';
               s = (if delta \<noteq> 0 then s\<lparr>calc_load_tasks := calc_load_tasks s + delta\<rparr> else s)
           in upd_rq cpu (\<lambda>r. r\<lparr>rq_calc_load_update := rq_calc_load_update r + c_uint LOAD_FREQ\<rparr>) s)"

section \<open>The decaying load of a run queue\<close>

abbreviation (input) CPU_LOAD_IDX_MAX :: nat where "CPU_LOAD_IDX_MAX \<equiv> 5"
abbreviation (input) DEGRADE_SHIFT :: nat where "DEGRADE_SHIFT \<equiv> 7"

definition degrade_zero_ticks :: "u32 list" where
  "degrade_zero_ticks = [0, 8, 32, 64, 128]"

text \<open>Entries that an initialiser leaves out are 0.\<close>

definition degrade_factor :: "u32 list list" where
  "degrade_factor = [[0, 0, 0, 0, 0, 0, 0, 0], [64, 32, 8, 0, 0, 0, 0, 0], [96, 72, 40, 12, 1, 0, 0, 0],
     [112, 98, 75, 43, 15, 1, 0, 0], [120, 112, 98, 76, 45, 16, 2, 0]]"

text \<open>\<open>None\<close> is a read past the end of a row.\<close>

fun decay_loop :: "u32 \<Rightarrow> nat \<Rightarrow> u32 list \<Rightarrow> u32 option" where
  "decay_loop load missed row =
     (if missed = 0 then Some load
      else case row of [] \<Rightarrow> None
           | f # row \<Rightarrow> decay_loop (if odd missed then drop_bit DEGRADE_SHIFT (load * f) else load) (missed div 2) row)"

definition decay_load_missed :: "u32 \<Rightarrow> u32 \<Rightarrow> nat \<Rightarrow> u32 option" where
  "decay_load_missed load missed_updates idx =
     (if missed_updates = 0 then Some load
      else if missed_updates \<ge> degrade_zero_ticks ! idx then Some 0
      else if idx = 1 then Some (drop_bit (unat missed_updates) load)
      else decay_loop load (unat missed_updates) (degrade_factor ! idx))"

definition sched_avg_period :: "'c sched_env \<Rightarrow> u64" where
  "sched_avg_period e = ucast (se_time_avg e) * 1000000 div 2"

text \<open>The loop; \<open>None\<close> when it never ends.\<close>

partial_function (option) sched_avg_loop :: "u64 \<Rightarrow> u64 \<Rightarrow> u64 \<Rightarrow> u64 \<Rightarrow> (u64 \<times> u64) option" where
  "sched_avg_loop now period stamp avg =
     (if sint (now - stamp) > sint period then sched_avg_loop now period (stamp + period) (avg div 2)
      else Some (stamp, avg))"

definition sched_avg_update :: "'c sched_env \<Rightarrow> cpuid \<Rightarrow> 'c sched \<Rightarrow> 'c sched option" where
  "sched_avg_update e cpu s =
     map_option (\<lambda>(stamp, avg). upd_rq cpu (\<lambda>r. r\<lparr>age_stamp := stamp, rt_avg := avg\<rparr>) s)
       (sched_avg_loop (clock (rqs s cpu)) (sched_avg_period e) (age_stamp (rqs s cpu)) (rt_avg (rqs s cpu)))"

definition sched_rt_avg_update :: "'c sched_env \<Rightarrow> cpuid \<Rightarrow> u64 \<Rightarrow> 'c sched \<Rightarrow> 'c sched option" where
  "sched_rt_avg_update e cpu rt_delta s = sched_avg_update e cpu (upd_rq cpu (\<lambda>r. r\<lparr>rt_avg := rt_avg r + rt_delta\<rparr>) s)"

text \<open>The new value of one index; \<open>scale\<close> is \<open>2 ^ i\<close>.\<close>

definition mix_load :: "nat \<Rightarrow> u32 \<Rightarrow> u32 \<Rightarrow> u32" where
  "mix_load i old_load new_load =
     (let scale = 2 ^ i;
          new_load = (if new_load > old_load then new_load + (scale - 1) else new_load)
      in drop_bit i (old_load * (scale - 1) + new_load))"

fun update_loads :: "u32 \<Rightarrow> u32 \<Rightarrow> nat list \<Rightarrow> u32 list \<Rightarrow> u32 list option" where
  "update_loads this_load pending [] l = Some l"
| "update_loads this_load pending (i # r) l =
     Option.bind (decay_load_missed (l ! i) (pending - 1) i) (\<lambda>old_load.
     update_loads this_load pending r (l[i := mix_load i old_load this_load]))"

definition update_cpu_load :: "'c sched_env \<Rightarrow> cpuid \<Rightarrow> 'c sched \<Rightarrow> 'c sched option" where
  "update_cpu_load e cpu s =
     (let this_load = weight (rq_load s cpu);
          s = upd_rq cpu (\<lambda>r. r\<lparr>nr_load_updates := nr_load_updates r + 1\<rparr>) s
      in if jiffies s = last_load_update_tick (rqs s cpu) then Some s
         else let pending_updates = jiffies s - last_load_update_tick (rqs s cpu)
              in Option.bind (update_loads this_load pending_updates [1..<CPU_LOAD_IDX_MAX]
                     ((cpu_load (rqs s cpu))[0 := this_load])) (\<lambda>l.
                 sched_avg_update e cpu (upd_rq cpu (\<lambda>r. r\<lparr>last_load_update_tick := jiffies s, cpu_load := l\<rparr>) s)))"

definition update_cpu_load_active :: "'c sched_env \<Rightarrow> cpuid \<Rightarrow> 'c sched \<Rightarrow> 'c sched option" where
  "update_cpu_load_active e cpu s = map_option (calc_load_account_active cpu) (update_cpu_load e cpu s)"

declare power_loop.simps [simp del] decay_loop.simps [simp del]

end
