(* ===== verification/Sched_Prio.thy ===== *)
theory Sched_Prio
  imports Sched_Types
begin

text \<open>
  Priorities and weights: the conversions between nice values, real-time priorities and the kernel's priorities, the load
  weight of a task, the scaling of a time by a weight, and what the scheduling system calls check
  (\<open>kernel/sched.c\<close>, \<open>rt_policy\<close>, \<open>calc_delta_mine\<close> to \<open>set_load_weight\<close>, \<open>can_nice\<close> to \<open>__sched_setscheduler\<close>).
\<close>

section \<open>Weights\<close>

abbreviation (input) WEIGHT_IDLEPRIO :: u32 where "WEIGHT_IDLEPRIO \<equiv> 3"
abbreviation (input) WMULT_IDLEPRIO :: u32 where "WMULT_IDLEPRIO \<equiv> 1431655765"
abbreviation (input) WMULT_CONST :: u32 where "WMULT_CONST \<equiv> 0xFFFFFFFF"

definition prio_to_weight :: "u32 list" where
  "prio_to_weight =
     [88761, 71755, 56483, 46273, 36291, 29154, 23254, 18705, 14949, 11916, 9548, 7620, 6100, 4904, 3906, 3121, 2501, 1991,
      1586, 1277, 1024, 820, 655, 526, 423, 335, 272, 215, 172, 137, 110, 87, 70, 56, 45, 36, 29, 23, 18, 15]"

definition prio_to_wmult :: "u32 list" where
  "prio_to_wmult =
     [48388, 59856, 76040, 92818, 118348, 147320, 184698, 229616, 287308, 360437, 449829, 563644, 704093, 875809, 1099582,
      1376151, 1717300, 2157191, 2708050, 3363326, 4194304, 5237765, 6557202, 8165337, 10153587, 12820798, 15790321,
      19976592, 24970740, 31350126, 39045157, 49367440, 61356676, 76695844, 95443717, 119304647, 148102320, 186737708,
      238609294, 286331153]"

definition update_load_add :: "u32 \<Rightarrow> load_weight \<Rightarrow> load_weight" where
  "update_load_add inc lw = lw\<lparr>weight := weight lw + inc, inv_weight := 0\<rparr>"

definition update_load_sub :: "u32 \<Rightarrow> load_weight \<Rightarrow> load_weight" where
  "update_load_sub dec lw = lw\<lparr>weight := weight lw - dec, inv_weight := 0\<rparr>"

definition update_load_set :: "u32 \<Rightarrow> load_weight \<Rightarrow> load_weight" where
  "update_load_set w lw = lw\<lparr>weight := w, inv_weight := 0\<rparr>"

definition inc_cpu_load :: "cpuid \<Rightarrow> u32 \<Rightarrow> 'c sched \<Rightarrow> 'c sched" where
  "inc_cpu_load cpu load s = s\<lparr>rq_load := (rq_load s)(cpu := update_load_add load (rq_load s cpu))\<rparr>"

definition dec_cpu_load :: "cpuid \<Rightarrow> u32 \<Rightarrow> 'c sched \<Rightarrow> 'c sched" where
  "dec_cpu_load cpu load s = s\<lparr>rq_load := (rq_load s)(cpu := update_load_sub load (rq_load s cpu))\<rparr>"

text \<open>Shift right and round.\<close>

definition SRR :: "u64 \<Rightarrow> nat \<Rightarrow> u64" where
  "SRR x y = drop_bit y (x + push_bit (y - 1) 1)"

text \<open>\<open>delta * weight / lw\<close> with the inverse of the load, which is computed and kept when it is missing.\<close>

definition load_inverse :: "load_weight \<Rightarrow> load_weight" where
  "load_inverse lw =
     (if inv_weight lw = 0
      then lw\<lparr>inv_weight := (if weight lw = 0 then WMULT_CONST else WMULT_CONST div weight lw)\<rparr> else lw)"

definition calc_delta_mine :: "u32 \<Rightarrow> u32 \<Rightarrow> load_weight \<Rightarrow> u32 \<times> load_weight" where
  "calc_delta_mine delta_exec w lw =
     (let tmp = (if w > 1 then ucast delta_exec * ucast w else ucast delta_exec :: u64);
          lw = load_inverse lw;
          tmp = (if tmp > ucast WMULT_CONST then SRR (SRR tmp 16 * ucast (inv_weight lw)) 16
                 else SRR (tmp * ucast (inv_weight lw)) 32)
      in (ucast (min tmp 0x7FFFFFFF), lw))"

section \<open>Priorities\<close>

definition rt_policy :: "int \<Rightarrow> bool" where
  "rt_policy policy \<longleftrightarrow> policy = SCHED_FIFO \<or> policy = SCHED_RR"

definition task_has_rt_policy :: "task \<Rightarrow> bool" where
  "task_has_rt_policy p = rt_policy (t_policy p)"

definition rt_prio :: "int \<Rightarrow> bool" where
  "rt_prio prio \<longleftrightarrow> prio < MAX_RT_PRIO"

definition NICE_TO_PRIO :: "int \<Rightarrow> int" where
  "NICE_TO_PRIO nice = MAX_RT_PRIO + nice + 20"

definition PRIO_TO_NICE :: "int \<Rightarrow> int" where
  "PRIO_TO_NICE prio = prio - MAX_RT_PRIO - 20"

definition task_nice :: "task \<Rightarrow> int" where
  "task_nice p = PRIO_TO_NICE (static_prio p)"

definition task_prio :: "task \<Rightarrow> int" where
  "task_prio p = t_prio p - MAX_RT_PRIO"

definition normal_prio :: "task \<Rightarrow> int" where
  "normal_prio p = (if task_has_rt_policy p then c_int (c_uint (MAX_RT_PRIO - 1) - t_rt_priority p) else static_prio p)"

definition effective_prio :: "task \<Rightarrow> int \<times> task" where
  "effective_prio p =
     (let p = p\<lparr>t_normal_prio := normal_prio p\<rparr>
      in (if \<not> rt_prio (t_prio p) then t_normal_prio p else t_prio p, p))"

definition set_load_weight :: "task \<Rightarrow> task" where
  "set_load_weight p =
     (let prio = static_prio p - MAX_RT_PRIO
      in if t_policy p = SCHED_IDLE then p\<lparr>t_load := \<lparr>weight = WEIGHT_IDLEPRIO, inv_weight = WMULT_IDLEPRIO\<rparr>\<rparr>
         else p\<lparr>t_load := \<lparr>weight = prio_to_weight ! nat prio, inv_weight = prio_to_wmult ! nat prio\<rparr>\<rparr>)"

text \<open>The class that goes with a priority.\<close>

definition class_of_prio :: "int \<Rightarrow> sched_class" where
  "class_of_prio prio = (if rt_prio prio then Rt_class else Fair_class)"

text \<open>\<open>__setscheduler\<close>; \<open>getprio\<close> is \<open>rt_mutex_getprio\<close>.\<close>

definition setscheduler :: "(task \<Rightarrow> int) \<Rightarrow> int \<Rightarrow> int \<Rightarrow> task \<Rightarrow> task" where
  "setscheduler getprio policy prio p =
     (let p = p\<lparr>t_policy := policy, t_rt_priority := c_uint prio\<rparr>;
          p = p\<lparr>t_normal_prio := normal_prio p\<rparr>;
          p = p\<lparr>t_prio := getprio p\<rparr>;
          p = p\<lparr>t_class := class_of_prio (t_prio p)\<rparr>
      in set_load_weight p)"

section \<open>The checks of the system calls\<close>

record caller =
  ca_user :: bool
  ca_capable :: bool
  ca_rlim_nice :: u32
  ca_rlim_rtprio :: u32
  ca_same_owner :: bool
  ca_security :: int

definition can_nice :: "caller \<Rightarrow> int \<Rightarrow> bool" where
  "can_nice ca nice \<longleftrightarrow> c_uint (20 - nice) \<le> ca_rlim_nice ca \<or> ca_capable ca"

text \<open>The nice value that the system call sets, or its error.\<close>

definition nice_value :: "int \<Rightarrow> caller \<Rightarrow> task \<Rightarrow> int + int" where
  "nice_value increment ca p =
     (let increment = (if increment < - 40 then - 40 else increment);
          increment = (if increment > 40 then 40 else increment);
          nice = task_nice p + increment;
          nice = (if nice < - 20 then - 20 else nice);
          nice = (if nice > 19 then 19 else nice)
      in if increment < 0 \<and> \<not> can_nice ca nice then Inl (- EPERM)
         else if ca_security ca \<noteq> 0 then Inl (ca_security ca)
         else Inr nice)"

abbreviation (input) SCHED_RESET_ON_FORK :: int where "SCHED_RESET_ON_FORK \<equiv> 0x40000000"

definition sched_get_priority_max :: "int \<Rightarrow> int" where
  "sched_get_priority_max policy =
     (if policy = SCHED_FIFO \<or> policy = SCHED_RR then MAX_USER_RT_PRIO - 1
      else if policy = SCHED_NORMAL \<or> policy = SCHED_BATCH \<or> policy = SCHED_IDLE then 0 else - EINVAL)"

definition sched_get_priority_min :: "int \<Rightarrow> int" where
  "sched_get_priority_min policy =
     (if policy = SCHED_FIFO \<or> policy = SCHED_RR then 1
      else if policy = SCHED_NORMAL \<or> policy = SCHED_BATCH \<or> policy = SCHED_IDLE then 0 else - EINVAL)"

text \<open>The policy without its flag, and the flag; a negative policy keeps both.\<close>

definition wanted_policy :: "int \<Rightarrow> task \<Rightarrow> (int \<times> bool) option" where
  "wanted_policy policy p =
     (if policy < 0 then Some (t_policy p, reset_on_fork p)
      else let reset = (policy AND SCHED_RESET_ON_FORK \<noteq> 0); policy = policy AND NOT SCHED_RESET_ON_FORK
           in if policy \<noteq> SCHED_FIFO \<and> policy \<noteq> SCHED_RR \<and> policy \<noteq> SCHED_NORMAL \<and> policy \<noteq> SCHED_BATCH \<and> policy \<noteq> SCHED_IDLE
              then None else Some (policy, reset))"

definition unprivileged_ok :: "caller \<Rightarrow> int \<Rightarrow> int \<Rightarrow> bool \<Rightarrow> task \<Rightarrow> bool" where
  "unprivileged_ok ca policy prio reset p \<longleftrightarrow>
     \<not> (rt_policy policy \<and> (policy \<noteq> t_policy p \<and> ca_rlim_rtprio ca = 0
          \<or> c_uint prio > t_rt_priority p \<and> c_uint prio > ca_rlim_rtprio ca))
   \<and> \<not> (t_policy p = SCHED_IDLE \<and> policy \<noteq> SCHED_IDLE \<and> \<not> can_nice ca (task_nice p))
   \<and> ca_same_owner ca
   \<and> \<not> (reset_on_fork p \<and> \<not> reset)"

text \<open>Everything before the lock of the run queue is taken.\<close>

definition setscheduler_checks :: "caller \<Rightarrow> int \<Rightarrow> int \<Rightarrow> task \<Rightarrow> int + int \<times> bool" where
  "setscheduler_checks ca policy prio p = (case wanted_policy policy p of
     None \<Rightarrow> Inl (- EINVAL)
   | Some (policy, reset) \<Rightarrow>
       if prio < 0 \<or> has_mm p \<and> prio > MAX_USER_RT_PRIO - 1 \<or> \<not> has_mm p \<and> prio > MAX_RT_PRIO - 1 then Inl (- EINVAL)
       else if rt_policy policy \<noteq> (prio \<noteq> 0) then Inl (- EINVAL)
       else if ca_user ca \<and> \<not> ca_capable ca \<and> \<not> unprivileged_ok ca policy prio reset p then Inl (- EPERM)
       else if ca_user ca \<and> ca_security ca \<noteq> 0 then Inl (ca_security ca)
       else Inr (policy, reset))"

section \<open>Well-formed tasks\<close>

definition weight_ok :: "task \<Rightarrow> bool" where
  "weight_ok p \<longleftrightarrow> t_load p = t_load (set_load_weight p)"

definition task_ok :: "task \<Rightarrow> bool" where
  "task_ok p \<longleftrightarrow>
     MAX_RT_PRIO \<le> static_prio p \<and> static_prio p < MAX_PRIO
   \<and> t_policy p \<in> {SCHED_NORMAL, SCHED_FIFO, SCHED_RR, SCHED_BATCH, SCHED_IDLE}
   \<and> (task_has_rt_policy p \<longrightarrow> 1 \<le> t_rt_priority p \<and> t_rt_priority p \<le> 99)
   \<and> t_normal_prio p = normal_prio p
   \<and> 0 \<le> t_prio p \<and> t_prio p \<le> t_normal_prio p
   \<and> t_class p = class_of_prio (t_prio p)
   \<and> (task_has_rt_policy p \<or> weight_ok p)"

lemma set_load_weight_rest [simp]:
  "static_prio (set_load_weight p) = static_prio p" "t_policy (set_load_weight p) = t_policy p"
  "t_rt_priority (set_load_weight p) = t_rt_priority p" "t_normal_prio (set_load_weight p) = t_normal_prio p"
  "t_prio (set_load_weight p) = t_prio p" "t_class (set_load_weight p) = t_class p"
  "t_state (set_load_weight p) = t_state p" "on_rq (set_load_weight p) = on_rq p" "t_cpu (set_load_weight p) = t_cpu p"
  "t_flags (set_load_weight p) = t_flags p" "contributes_to_load (set_load_weight p) = contributes_to_load p"
  "on_cpu (set_load_weight p) = on_cpu p" "reset_on_fork (set_load_weight p) = reset_on_fork p" "has_mm (set_load_weight p) = has_mm p"
  by (simp_all add: set_load_weight_def Let_def)

lemma set_load_weight_ok [simp]: "weight_ok (set_load_weight p)"
  by (simp add: weight_ok_def set_load_weight_def Let_def)

lemma normal_prio_cong:
  "t_policy p = t_policy q \<Longrightarrow> t_rt_priority p = t_rt_priority q \<Longrightarrow> static_prio p = static_prio q \<Longrightarrow> normal_prio p = normal_prio q"
  by (simp add: normal_prio_def task_has_rt_policy_def)

lemma weight_ok_cong: "t_policy p = t_policy q \<Longrightarrow> static_prio p = static_prio q \<Longrightarrow> t_load p = t_load q \<Longrightarrow> weight_ok p = weight_ok q"
  by (simp add: weight_ok_def set_load_weight_def Let_def)

lemma rt_normal_prio:
  assumes "task_has_rt_policy p" "t_rt_priority p \<le> 99"
  shows "normal_prio p = 99 - int (unat (t_rt_priority p))"
proof -
  have le: "unat (t_rt_priority p) \<le> 99" using assms(2) by (simp add: word_le_nat_alt)
  have "c_int (99 - t_rt_priority p) = int (unat (99 - t_rt_priority p))"
    using assms(2) by (intro c_int_small) (simp add: unat_sub_le)
  also have "unat (99 - t_rt_priority p) = 99 - unat (t_rt_priority p)" using assms(2) by (simp add: unat_sub_le)
  finally show ?thesis using assms(1) le by (simp add: normal_prio_def c_uint_def)
qed

lemma normal_prio_range:
  assumes "MAX_RT_PRIO \<le> static_prio p" "static_prio p < MAX_PRIO" "task_has_rt_policy p \<longrightarrow> t_rt_priority p \<le> 99"
  shows "0 \<le> normal_prio p" "normal_prio p < MAX_PRIO" "rt_prio (normal_prio p) = task_has_rt_policy p"
proof -
  have "0 \<le> normal_prio p \<and> normal_prio p < MAX_PRIO \<and> rt_prio (normal_prio p) = task_has_rt_policy p"
  proof (cases "task_has_rt_policy p")
    case True
    obtain n where n: "n = unat (t_rt_priority p)" by blast
    then have "n \<le> 99" "normal_prio p = 99 - int n"
      using rt_normal_prio [OF True] True assms(3) by (simp_all only: word_le_nat_alt) simp
    then show ?thesis using True by (simp add: rt_prio_def)
  next
    case False
    then show ?thesis using assms by (simp add: normal_prio_def rt_prio_def)
  qed
  then show "0 \<le> normal_prio p" "normal_prio p < MAX_PRIO" "rt_prio (normal_prio p) = task_has_rt_policy p" by auto
qed

text \<open>What the checks let through.\<close>

lemma wanted_policy_valid:
  assumes "wanted_policy policy p = Some (pol, reset)" "task_ok p"
  shows "pol \<in> {SCHED_NORMAL, SCHED_FIFO, SCHED_RR, SCHED_BATCH, SCHED_IDLE}"
proof (cases "policy < 0")
  case True
  then show ?thesis using assms by (simp add: wanted_policy_def task_ok_def)
next
  case False
  then show ?thesis using assms(1) by (simp add: wanted_policy_def Let_def split: if_splits) blast
qed

lemma checks_passed:
  assumes "setscheduler_checks ca policy prio p = Inr (pol, reset)" "task_ok p"
  shows "pol \<in> {SCHED_NORMAL, SCHED_FIFO, SCHED_RR, SCHED_BATCH, SCHED_IDLE}" "rt_policy pol = (prio \<noteq> 0)" "0 \<le> prio" "prio \<le> 99"
proof -
  obtain q r where w: "wanted_policy policy p = Some (q, r)" using assms(1) by (cases "wanted_policy policy p") (auto simp: setscheduler_checks_def)
  have c: "q = pol" "rt_policy pol = (prio \<noteq> 0)" "0 \<le> prio" "prio \<le> 99"
    using assms(1) by (cases "has_mm p"; simp add: setscheduler_checks_def w split: if_splits)+
  then show "rt_policy pol = (prio \<noteq> 0)" "0 \<le> prio" "prio \<le> 99" by auto
  show "pol \<in> {SCHED_NORMAL, SCHED_FIFO, SCHED_RR, SCHED_BATCH, SCHED_IDLE}" using wanted_policy_valid [OF w assms(2)] c(1) by blast
qed

lemma setscheduler_ok:
  assumes "task_ok p" "pol \<in> {SCHED_NORMAL, SCHED_FIFO, SCHED_RR, SCHED_BATCH, SCHED_IDLE}" "rt_policy pol = (prio \<noteq> 0)"
    "0 \<le> prio" "prio \<le> 99" "\<And>q. 0 \<le> t_normal_prio q \<Longrightarrow> 0 \<le> getprio q \<and> getprio q \<le> t_normal_prio q"
  shows "task_ok (setscheduler getprio pol prio p)"
proof -
  let ?p = "p\<lparr>t_policy := pol, t_rt_priority := c_uint prio\<rparr>"
  let ?q = "?p\<lparr>t_normal_prio := normal_prio ?p\<rparr>"
  have r: "rt_policy pol \<longrightarrow> 1 \<le> c_uint prio \<and> c_uint prio \<le> 99"
    using assms(3-5) unat_c_uint [of prio] by (auto simp: word_le_nat_alt simp del: one_le_word)
  have s: "MAX_RT_PRIO \<le> static_prio ?p" "static_prio ?p < MAX_PRIO" using assms(1) by (auto simp: task_ok_def)
  have t: "task_has_rt_policy ?p = rt_policy pol" by (simp add: task_has_rt_policy_def)
  have n: "0 \<le> normal_prio ?p" "normal_prio ?p < MAX_PRIO" using normal_prio_range [OF s] r t by auto
  then have g: "0 \<le> getprio ?q" "getprio ?q \<le> normal_prio ?p" using assms(6) [of ?q] by auto
  have "normal_prio (setscheduler getprio pol prio p) = normal_prio ?p" by (rule normal_prio_cong) (simp_all add: setscheduler_def Let_def)
  then show ?thesis
    using assms(2) r s g by (simp add: task_ok_def setscheduler_def Let_def task_has_rt_policy_def)
qed

end
