(* ===== verification/Sched_Core.thy ===== *)
theory Sched_Core
  imports Sched_Load Sched_Prio
begin

text \<open>
  The run queues (\<open>kernel/sched.c\<close>): putting a task on a queue and taking it off, waking a task up, also from another CPU
  through the wake list, the two halves of \<open>__schedule\<close>, forking, changing priority, policy and affinity,
  migration and the CPU hotplug callbacks. A function that takes the lock of a run queue is one step; where the source
  waits for another CPU or stops at a \<open>BUG\<close> the value is \<open>None\<close>.
\<close>

section \<open>Queueing\<close>

definition contributes :: "'c sched_env \<Rightarrow> nat \<Rightarrow> 'c sched \<Rightarrow> bool" where
  "contributes e p s = se_contributes e (t_state (tasks s p)) (t_flags (tasks s p))"

definition class_of :: "nat \<Rightarrow> 'c sched \<Rightarrow> sched_class" where
  "class_of p s = t_class (tasks s p)"

definition task_curr :: "nat \<Rightarrow> 'c sched \<Rightarrow> bool" where
  "task_curr p s \<longleftrightarrow> curr (rqs s (t_cpu (tasks s p))) = p"

definition idle_cpu :: "cpuid \<Rightarrow> 'c sched \<Rightarrow> bool" where
  "idle_cpu cpu s \<longleftrightarrow> curr (rqs s cpu) = idle (rqs s cpu)"

definition update_rq_clock :: "'c sched_env \<Rightarrow> cpuid \<Rightarrow> 'c sched \<Rightarrow> 'c sched" where
  "update_rq_clock e c s =
     (if skip_clock_update (rqs s c) > 0 then s
      else let delta = se_clock e c s - clock (rqs s c)
           in upd_rq c (\<lambda>r. r\<lparr>clock := clock r + delta, clock_task := clock_task r + delta\<rparr>) s)"

definition inc_nr_running :: "cpuid \<Rightarrow> 'c sched \<Rightarrow> 'c sched" where
  "inc_nr_running c = upd_rq c (\<lambda>r. r\<lparr>rq_nr_running := rq_nr_running r + 1\<rparr>)"

definition dec_nr_running :: "cpuid \<Rightarrow> 'c sched \<Rightarrow> 'c sched" where
  "dec_nr_running c = upd_rq c (\<lambda>r. r\<lparr>rq_nr_running := rq_nr_running r - 1\<rparr>)"

definition enqueue_task :: "'c sched_env \<Rightarrow> cpuid \<Rightarrow> nat \<Rightarrow> u32 \<Rightarrow> 'c sched \<Rightarrow> 'c sched" where
  "enqueue_task e c p flags s = (let s = update_rq_clock e c s in se_op e (Enqueue (class_of p s) c p flags) s)"

definition dequeue_task :: "'c sched_env \<Rightarrow> cpuid \<Rightarrow> nat \<Rightarrow> u32 \<Rightarrow> 'c sched \<Rightarrow> 'c sched" where
  "dequeue_task e c p flags s = (let s = update_rq_clock e c s in se_op e (Dequeue (class_of p s) c p flags) s)"

definition add_uninterruptible :: "cpuid \<Rightarrow> u32 \<Rightarrow> 'c sched \<Rightarrow> 'c sched" where
  "add_uninterruptible c n = upd_rq c (\<lambda>r. r\<lparr>rq_nr_uninterruptible := rq_nr_uninterruptible r + n\<rparr>)"

definition activate_task :: "'c sched_env \<Rightarrow> cpuid \<Rightarrow> nat \<Rightarrow> u32 \<Rightarrow> 'c sched \<Rightarrow> 'c sched" where
  "activate_task e c p flags s =
     (let s = (if contributes e p s then add_uninterruptible c (- 1) s else s)
      in inc_nr_running c (enqueue_task e c p flags s))"

definition deactivate_task :: "'c sched_env \<Rightarrow> cpuid \<Rightarrow> nat \<Rightarrow> u32 \<Rightarrow> 'c sched \<Rightarrow> 'c sched" where
  "deactivate_task e c p flags s =
     (let s = (if contributes e p s then add_uninterruptible c 1 s else s)
      in dec_nr_running c (dequeue_task e c p flags s))"

section \<open>Preemption checks\<close>

definition resched_task :: "nat \<Rightarrow> 'c sched \<Rightarrow> 'c sched" where
  "resched_task p s = s\<lparr>need_resched := (need_resched s)(p := True)\<rparr>"

definition all_classes :: "sched_class list" where
  "all_classes = [Stop_class, Rt_class, Fair_class, Idle_class]"

text \<open>The walk over the classes from the highest: does the class of the woken task come before that of the current one?\<close>

fun comes_first :: "sched_class list \<Rightarrow> sched_class \<Rightarrow> sched_class \<Rightarrow> bool" where
  "comes_first [] cur new = False"
| "comes_first (c # cs) cur new = (if c = cur then False else if c = new then True else comes_first cs cur new)"

definition check_preempt_curr :: "'c sched_env \<Rightarrow> cpuid \<Rightarrow> nat \<Rightarrow> 'c sched \<Rightarrow> 'c sched" where
  "check_preempt_curr e c p s =
     (let cur = curr (rqs s c);
          s = (if class_of p s = class_of cur s then se_op e (Check_preempt (class_of cur s) c p) s
               else if comes_first all_classes (class_of cur s) (class_of p s) then resched_task cur s else s)
      in if on_rq (tasks s cur) \<and> need_resched s cur then upd_rq c (\<lambda>r. r\<lparr>skip_clock_update := 1\<rparr>) s else s)"

definition check_class_changed :: "'c sched_env \<Rightarrow> cpuid \<Rightarrow> nat \<Rightarrow> sched_class \<Rightarrow> int \<Rightarrow> 'c sched \<Rightarrow> 'c sched" where
  "check_class_changed e c p prev_class oldprio s =
     (if prev_class \<noteq> class_of p s
      then let s = se_op e (Switched_from prev_class c p) s in se_op e (Switched_to (class_of p s) c p) s
      else if oldprio \<noteq> t_prio (tasks s p) then se_op e (Prio_changed (class_of p s) c p oldprio) s else s)"

section \<open>Waking up\<close>

definition set_task_cpu :: "nat \<Rightarrow> cpuid \<Rightarrow> 'c sched \<Rightarrow> 'c sched" where
  "set_task_cpu p new_cpu =
     upd_task p (\<lambda>t. (if t_cpu t \<noteq> new_cpu then t\<lparr>nr_migrations := nr_migrations t + 1\<rparr> else t)\<lparr>t_cpu := new_cpu\<rparr>)"

text \<open>The first active CPU that the task may use, or what the cpusets fall back to.\<close>

definition select_fallback_rq :: "'c sched_env \<Rightarrow> nat \<Rightarrow> 'c sched \<Rightarrow> cpuid \<times> 'c sched" where
  "select_fallback_rq e p s = (case filter (\<lambda>c. cpus_active s c \<and> cpus_allowed (tasks s p) c) (se_possible e) of
     c # _ \<Rightarrow> (c, s)
   | [] \<Rightarrow> (case se_fallback e p s of (c, cpus) \<Rightarrow> (c, upd_task p (\<lambda>t. t\<lparr>cpus_allowed := cpus\<rparr>) s)))"

definition select_task_rq :: "'c sched_env \<Rightarrow> nat \<Rightarrow> 'c sched \<Rightarrow> cpuid \<times> 'c sched" where
  "select_task_rq e p s = (case se_select e p s of (cpu, s) \<Rightarrow>
     if \<not> cpus_allowed (tasks s p) cpu \<or> \<not> cpus_online s cpu then select_fallback_rq e p s else (cpu, s))"

definition update_avg :: "u64 \<Rightarrow> u64 \<Rightarrow> u64" where
  "update_avg avg sample = avg + signed_drop_bit 3 (sample - avg)"

definition ttwu_activate :: "'c sched_env \<Rightarrow> cpuid \<Rightarrow> nat \<Rightarrow> u32 \<Rightarrow> 'c sched \<Rightarrow> 'c sched" where
  "ttwu_activate e c p en_flags s = upd_task p (\<lambda>t. t\<lparr>on_rq := True\<rparr>) (activate_task e c p en_flags s)"

definition end_idle :: "'c sched_env \<Rightarrow> rq \<Rightarrow> rq" where
  "end_idle e r =
     (if idle_stamp r \<noteq> 0
      then let delta = clock r - idle_stamp r; top = 2 * se_migration_cost e
           in r\<lparr>avg_idle := (if delta > top then top else update_avg (avg_idle r) delta), idle_stamp := 0\<rparr>
      else r)"

definition ttwu_do_wakeup :: "'c sched_env \<Rightarrow> cpuid \<Rightarrow> nat \<Rightarrow> 'c sched \<Rightarrow> 'c sched" where
  "ttwu_do_wakeup e c p s =
     (let s = check_preempt_curr e c p s;
          s = upd_task p (\<lambda>t. t\<lparr>t_state := TASK_RUNNING\<rparr>) s;
          s = se_op e (Task_woken (class_of p s) c p) s
      in upd_rq c (end_idle e) s)"

definition ttwu_do_activate :: "'c sched_env \<Rightarrow> cpuid \<Rightarrow> nat \<Rightarrow> 'c sched \<Rightarrow> 'c sched" where
  "ttwu_do_activate e c p s =
     (let s = (if contributes_to_load (tasks s p) then add_uninterruptible c (- 1) s else s)
      in ttwu_do_wakeup e c p (ttwu_activate e c p (ENQUEUE_WAKEUP OR ENQUEUE_WAKING) s))"

definition ttwu_remote :: "'c sched_env \<Rightarrow> nat \<Rightarrow> 'c sched \<Rightarrow> bool \<times> 'c sched" where
  "ttwu_remote e p s =
     (if on_rq (tasks s p) then (True, ttwu_do_wakeup e (t_cpu (tasks s p)) p s) else (False, s))"

definition sched_ttwu_do_pending :: "'c sched_env \<Rightarrow> cpuid \<Rightarrow> nat list \<Rightarrow> 'c sched \<Rightarrow> 'c sched" where
  "sched_ttwu_do_pending e c = fold (ttwu_do_activate e c)"

definition sched_ttwu_pending :: "'c sched_env \<Rightarrow> cpuid \<Rightarrow> 'c sched \<Rightarrow> 'c sched" where
  "sched_ttwu_pending e c s =
     (let list = wake_list (rqs s c) in sched_ttwu_do_pending e c list (upd_rq c (\<lambda>r. r\<lparr>wake_list := []\<rparr>) s))"

definition scheduler_ipi :: "'c sched_env \<Rightarrow> cpuid \<Rightarrow> 'c sched \<Rightarrow> 'c sched" where
  "scheduler_ipi e c s =
     (let list = wake_list (rqs s c) in sched_ttwu_do_pending e c list (upd_rq c (\<lambda>r. r\<lparr>wake_list := []\<rparr>) s))"

definition ttwu_queue_remote :: "nat \<Rightarrow> cpuid \<Rightarrow> 'c sched \<Rightarrow> 'c sched" where
  "ttwu_queue_remote p c = upd_rq c (\<lambda>r. r\<lparr>wake_list := p # wake_list r\<rparr>)"

definition ttwu_activate_remote :: "'c sched_env \<Rightarrow> nat \<Rightarrow> 'c sched \<Rightarrow> 'c sched" where
  "ttwu_activate_remote e p s =
     (let c = t_cpu (tasks s p) in ttwu_do_wakeup e c p (ttwu_activate e c p ENQUEUE_WAKEUP s))"

definition ttwu_queue :: "'c sched_env \<Rightarrow> cpuid \<Rightarrow> nat \<Rightarrow> cpuid \<Rightarrow> 'c sched \<Rightarrow> 'c sched" where
  "ttwu_queue e this_cpu p c s =
     (if se_ttwu_queue e \<and> c \<noteq> this_cpu then ttwu_queue_remote p c s else ttwu_do_activate e c p s)"

text \<open>A task that still runs on its CPU is waited for, unless the architecture enables interrupts during a switch.\<close>

definition try_to_wake_up :: "'c sched_env \<Rightarrow> cpuid \<Rightarrow> nat \<Rightarrow> u32 \<Rightarrow> 'c sched \<Rightarrow> (bool \<times> 'c sched) option" where
  "try_to_wake_up e this_cpu p state s =
     (if t_state (tasks s p) AND state = 0 then Some (False, s)
      else case ttwu_remote e p s of
          (True, s) \<Rightarrow> Some (True, s)
        | (False, s) \<Rightarrow>
            if on_cpu (tasks s p) then
              if se_irqs_on_ctxsw e then Some (True, ttwu_activate_remote e p s) else None
            else
              let s = upd_task p (\<lambda>t. t\<lparr>contributes_to_load := contributes e p s, t_state := TASK_WAKING\<rparr>) s;
                  s = se_op e (Task_waking (class_of p s) p) s
              in (case select_task_rq e p s of (cpu, s) \<Rightarrow>
                  let s = (if t_cpu (tasks s p) \<noteq> cpu then set_task_cpu p cpu s else s)
                  in Some (True, ttwu_queue e this_cpu p cpu s)))"

definition wake_up_process :: "'c sched_env \<Rightarrow> cpuid \<Rightarrow> nat \<Rightarrow> 'c sched \<Rightarrow> (bool \<times> 'c sched) option" where
  "wake_up_process e this_cpu p = try_to_wake_up e this_cpu p TASK_ALL"

definition wake_up_state :: "'c sched_env \<Rightarrow> cpuid \<Rightarrow> nat \<Rightarrow> u32 \<Rightarrow> 'c sched \<Rightarrow> (bool \<times> 'c sched) option" where
  "wake_up_state e this_cpu p state = try_to_wake_up e this_cpu p state"

definition try_to_wake_up_local :: "'c sched_env \<Rightarrow> cpuid \<Rightarrow> nat \<Rightarrow> 'c sched \<Rightarrow> 'c sched option" where
  "try_to_wake_up_local e c p s =
     (if t_cpu (tasks s p) \<noteq> c \<or> p = curr (rqs s c) then None
      else if t_state (tasks s p) AND TASK_NORMAL = 0 then Some s
      else let s = (if \<not> on_rq (tasks s p) then ttwu_activate e c p ENQUEUE_WAKEUP s else s)
           in Some (ttwu_do_wakeup e c p s))"

section \<open>Fork\<close>

text \<open>What \<open>sched_fork\<close> does to the copy of the parent, up to the call of the class.\<close>

definition fork_prio :: "task \<Rightarrow> task \<Rightarrow> task" where
  "fork_prio cur p =
     (let p = p\<lparr>on_rq := False\<rparr>;
          p = p\<lparr>t_state := TASK_RUNNING\<rparr>;
          p = (if reset_on_fork p then
                 let p = (if rt_policy (t_policy p) then p\<lparr>t_policy := SCHED_NORMAL, t_normal_prio := static_prio p\<rparr> else p);
                     p = (if PRIO_TO_NICE (static_prio p) < 0
                          then set_load_weight (p\<lparr>static_prio := NICE_TO_PRIO 0, t_normal_prio := NICE_TO_PRIO 0\<rparr>) else p)
                 in p\<lparr>reset_on_fork := False\<rparr>
               else p);
          p = p\<lparr>t_prio := t_normal_prio cur\<rparr>
      in if \<not> rt_prio (t_prio p) then p\<lparr>t_class := Fair_class\<rparr> else p)"

definition sched_fork :: "'c sched_env \<Rightarrow> cpuid \<Rightarrow> nat \<Rightarrow> 'c sched \<Rightarrow> 'c sched" where
  "sched_fork e cpu p s =
     (let cur = tasks s (curr (rqs s cpu));
          s = upd_task p (fork_prio cur) s;
          s = se_op e (Task_fork (class_of p s) p) s;
          s = set_task_cpu p cpu s
      in upd_task p (\<lambda>t. t\<lparr>on_cpu := False\<rparr>) s)"

definition wake_up_new_task :: "'c sched_env \<Rightarrow> nat \<Rightarrow> 'c sched \<Rightarrow> 'c sched" where
  "wake_up_new_task e p s = (case select_task_rq e p s of (cpu, s) \<Rightarrow>
     let s = set_task_cpu p cpu s;
         c = t_cpu (tasks s p);
         s = activate_task e c p 0 s;
         s = upd_task p (\<lambda>t. t\<lparr>on_rq := True\<rparr>) s;
         s = check_preempt_curr e c p s
     in se_op e (Task_woken (class_of p s) c p) s)"

section \<open>The scheduler\<close>

fun pick_classes :: "'c sched_env \<Rightarrow> cpuid \<Rightarrow> sched_class list \<Rightarrow> 'c sched \<Rightarrow> (nat \<times> 'c sched) option" where
  "pick_classes e c [] s = None"
| "pick_classes e c (cls # r) s = (case se_pick e cls c s of
     (Some p, s) \<Rightarrow> Some (p, s) | (None, s) \<Rightarrow> pick_classes e c r s)"

definition pick_next_task :: "'c sched_env \<Rightarrow> cpuid \<Rightarrow> 'c sched \<Rightarrow> (nat \<times> 'c sched) option" where
  "pick_next_task e c s =
     (if rq_nr_running (rqs s c) = cfs_nr_running s c
      then (case se_pick e Fair_class c s of (Some p, s) \<Rightarrow> Some (p, s) | (None, s) \<Rightarrow> pick_classes e c all_classes s)
      else pick_classes e c all_classes s)"

definition put_prev_task :: "'c sched_env \<Rightarrow> cpuid \<Rightarrow> nat \<Rightarrow> 'c sched \<Rightarrow> 'c sched" where
  "put_prev_task e c prev s =
     (let s = (if on_rq (tasks s prev) \<or> skip_clock_update (rqs s c) < 0 then update_rq_clock e c s else s)
      in se_op e (Put_prev (class_of prev s) c prev) s)"

text \<open>\<open>__schedule\<close> up to the balancing.\<close>

definition schedule_out :: "'c sched_env \<Rightarrow> cpuid \<Rightarrow> bool \<Rightarrow> 'c sched \<Rightarrow> 'c sched option" where
  "schedule_out e c preempt_active s =
     (let prev = curr (rqs s c);
          vol = (t_state (tasks s prev) \<noteq> 0 \<and> \<not> preempt_active);
          s = s\<lparr>in_schedule := (in_schedule s)(c := Some vol)\<rparr>
      in if vol then
           if se_signal e prev s then Some (upd_task prev (\<lambda>t. t\<lparr>t_state := TASK_RUNNING\<rparr>) s)
           else let s = deactivate_task e c prev DEQUEUE_SLEEP s;
                    s = upd_task prev (\<lambda>t. t\<lparr>on_rq := False\<rparr>) s
                in if t_flags (tasks s prev) AND PF_WQ_WORKER \<noteq> 0
                   then (case se_wq_sleeping e prev c s of None \<Rightarrow> Some s | Some w \<Rightarrow> try_to_wake_up_local e c w s)
                   else Some s
         else Some s)"

text \<open>And from \<open>put_prev_task\<close> on.\<close>

definition switch_to :: "cpuid \<Rightarrow> nat \<Rightarrow> nat \<Rightarrow> bool \<Rightarrow> 'c sched \<Rightarrow> 'c sched" where
  "switch_to c prev nxt vol s =
     (let s = upd_rq c (\<lambda>r. r\<lparr>nr_switches := nr_switches r + 1, curr := nxt\<rparr>) s;
          s = upd_task prev (\<lambda>t. if vol then t\<lparr>nvcsw := nvcsw t + 1\<rparr> else t\<lparr>nivcsw := nivcsw t + 1\<rparr>) s;
          s = upd_task nxt (\<lambda>t. t\<lparr>on_cpu := True\<rparr>) s
      in upd_task prev (\<lambda>t. t\<lparr>on_cpu := False\<rparr>) s)"

definition schedule_in :: "'c sched_env \<Rightarrow> cpuid \<Rightarrow> 'c sched \<Rightarrow> 'c sched option" where
  "schedule_in e c s = (case in_schedule s c of
     None \<Rightarrow> None
   | Some vol \<Rightarrow>
       let prev = curr (rqs s c); s = put_prev_task e c prev s
       in (case pick_next_task e c s of
            None \<Rightarrow> None
          | Some (nxt, s) \<Rightarrow>
              let s = s\<lparr>need_resched := (need_resched s)(prev := False)\<rparr>;
                  s = upd_rq c (\<lambda>r. r\<lparr>skip_clock_update := 0\<rparr>) s;
                  s = (if prev \<noteq> nxt then switch_to c prev nxt vol s else s)
              in Some (s\<lparr>in_schedule := (in_schedule s)(c := None)\<rparr>)))"

definition scheduler_tick :: "'c sched_env \<Rightarrow> cpuid \<Rightarrow> 'c sched \<Rightarrow> 'c sched option" where
  "scheduler_tick e c s =
     (let cur = curr (rqs s c); s = update_rq_clock e c s
      in map_option (\<lambda>s. se_op e (Task_tick (class_of cur s) c cur) s) (update_cpu_load_active e c s))"

end
