(* ===== verification/Sched_Change.thy ===== *)
theory Sched_Change
  imports Sched_Core
begin

text \<open>
  Changes of a task that may be on a run queue: nice value, policy, inherited priority, affinity, and the migration of tasks,
  which also empties the run queue of a CPU that goes down (\<open>kernel/sched.c\<close>, \<open>rt_mutex_setprio\<close> to
  \<open>__sched_setscheduler\<close>, \<open>set_cpus_allowed_ptr\<close> to \<open>migration_call\<close>, \<open>normalize_rt_tasks\<close>).
\<close>

section \<open>Priority and policy\<close>

definition rt_mutex_setprio :: "'c sched_env \<Rightarrow> nat \<Rightarrow> int \<Rightarrow> 'c sched \<Rightarrow> 'c sched option" where
  "rt_mutex_setprio e p prio s =
     (if prio < 0 \<or> prio > MAX_PRIO then None
      else let c = t_cpu (tasks s p); oldprio = t_prio (tasks s p); prev_class = class_of p s;
               queued = on_rq (tasks s p); running = (curr (rqs s c) = p);
               s = (if queued then dequeue_task e c p 0 s else s);
               s = (if running then se_op e (Put_prev (class_of p s) c p) s else s);
               s = upd_task p (\<lambda>t. t\<lparr>t_class := class_of_prio prio\<rparr>) s;
               s = upd_task p (\<lambda>t. t\<lparr>t_prio := prio\<rparr>) s;
               s = (if running then se_op e (Set_curr (class_of p s) c) s else s);
               s = (if queued then enqueue_task e c p (if oldprio < prio then ENQUEUE_HEAD else 0) s else s)
           in Some (check_class_changed e c p prev_class oldprio s))"

text \<open>The new nice value of a task that is not real-time, and its new priority.\<close>

definition renice :: "int \<Rightarrow> task \<Rightarrow> task" where
  "renice nice t =
     (let t = set_load_weight (t\<lparr>static_prio := NICE_TO_PRIO nice\<rparr>)
      in case effective_prio t of (prio, t) \<Rightarrow> t\<lparr>t_prio := prio\<rparr>)"

definition set_user_nice :: "'c sched_env \<Rightarrow> nat \<Rightarrow> int \<Rightarrow> 'c sched \<Rightarrow> 'c sched" where
  "set_user_nice e p nice s =
     (if task_nice (tasks s p) = nice \<or> nice < - 20 \<or> nice > 19 then s
      else if task_has_rt_policy (tasks s p) then upd_task p (\<lambda>t. t\<lparr>static_prio := NICE_TO_PRIO nice\<rparr>) s
      else let c = t_cpu (tasks s p); queued = on_rq (tasks s p);
               s = (if queued then dequeue_task e c p 0 s else s);
               old_prio = t_prio (tasks s p);
               s = upd_task p (renice nice) s;
               delta = t_prio (tasks s p) - old_prio
           in if queued then
                let s = enqueue_task e c p 0 s
                in if delta < 0 \<or> delta > 0 \<and> on_cpu (tasks s p) then resched_task (curr (rqs s c)) s else s
              else s)"

text \<open>The system call for the current task of a CPU.\<close>

definition sys_nice :: "'c sched_env \<Rightarrow> caller \<Rightarrow> nat \<Rightarrow> int \<Rightarrow> 'c sched \<Rightarrow> int \<times> 'c sched" where
  "sys_nice e ca current increment s = (case nice_value increment ca (tasks s current) of
     Inl err \<Rightarrow> (err, s) | Inr nice \<Rightarrow> (0, set_user_nice e current nice s))"

text \<open>
  \<open>no_runtime\<close>: the group of the task has no real-time runtime while the bandwidth is limited. The policy cannot have changed
  when the lock is taken, because the checks and the change are one step here.
\<close>

definition sched_setscheduler :: "'c sched_env \<Rightarrow> caller \<Rightarrow> bool \<Rightarrow> nat \<Rightarrow> int \<Rightarrow> int \<Rightarrow> 'c sched \<Rightarrow> int \<times> 'c sched" where
  "sched_setscheduler e ca no_runtime p policy prio s = (case setscheduler_checks ca policy prio (tasks s p) of
     Inl err \<Rightarrow> (err, s)
   | Inr (policy, reset) \<Rightarrow>
       let c = t_cpu (tasks s p)
       in if stop (rqs s c) = Some p then (- EINVAL, s)
          else if policy = t_policy (tasks s p) \<and> (\<not> rt_policy policy \<or> c_uint prio = t_rt_priority (tasks s p)) then (0, s)
          else if ca_user ca \<and> rt_policy policy \<and> no_runtime then (- EPERM, s)
          else let queued = on_rq (tasks s p); running = (curr (rqs s c) = p);
                   s = (if queued then deactivate_task e c p 0 s else s);
                   s = (if running then se_op e (Put_prev (class_of p s) c p) s else s);
                   s = upd_task p (\<lambda>t. t\<lparr>reset_on_fork := reset\<rparr>) s;
                   oldprio = t_prio (tasks s p); prev_class = class_of p s;
                   s = upd_task p (setscheduler (se_getprio e p) policy prio) s;
                   s = (if running then se_op e (Set_curr (class_of p s) c) s else s);
                   s = (if queued then activate_task e c p 0 s else s)
               in (0, check_class_changed e c p prev_class oldprio s))"

definition sched_setscheduler_nocheck :: "'c sched_env \<Rightarrow> bool \<Rightarrow> nat \<Rightarrow> int \<Rightarrow> int \<Rightarrow> 'c sched \<Rightarrow> int \<times> 'c sched" where
  "sched_setscheduler_nocheck e =
     sched_setscheduler e \<lparr>ca_user = False, ca_capable = False, ca_rlim_nice = 0, ca_rlim_rtprio = 0, ca_same_owner = False, ca_security = 0\<rparr>"

text \<open>The thread that stops a CPU looks like a FIFO task; the old one becomes one.\<close>

definition sched_set_stop_task :: "'c sched_env \<Rightarrow> cpuid \<Rightarrow> nat option \<Rightarrow> 'c sched \<Rightarrow> 'c sched" where
  "sched_set_stop_task e cpu stp s =
     (let old_stop = stop (rqs s cpu);
          s = (case stp of None \<Rightarrow> s
               | Some p \<Rightarrow> upd_task p (\<lambda>t. t\<lparr>t_class := Stop_class\<rparr>) (snd (sched_setscheduler_nocheck e False p SCHED_FIFO 99 s)));
          s = upd_rq cpu (\<lambda>r. r\<lparr>stop := stp\<rparr>) s
      in case old_stop of None \<Rightarrow> s | Some p \<Rightarrow> upd_task p (\<lambda>t. t\<lparr>t_class := Rt_class\<rparr>) s)"

definition normalize_task :: "'c sched_env \<Rightarrow> nat \<Rightarrow> 'c sched \<Rightarrow> 'c sched" where
  "normalize_task e p s =
     (let c = t_cpu (tasks s p); prev_class = class_of p s; old_prio = t_prio (tasks s p); queued = on_rq (tasks s p);
          s = (if queued then deactivate_task e c p 0 s else s);
          s = upd_task p (setscheduler (se_getprio e p) SCHED_NORMAL 0) s;
          s = (if queued then resched_task (curr (rqs s c)) (activate_task e c p 0 s) else s)
      in check_class_changed e c p prev_class old_prio s)"

definition normalize_one :: "'c sched_env \<Rightarrow> nat \<Rightarrow> 'c sched \<Rightarrow> 'c sched" where
  "normalize_one e p s =
     (if \<not> has_mm (tasks s p) then s
      else if \<not> rt_prio (t_prio (tasks s p)) then
        if task_nice (tasks s p) < 0 then set_user_nice e p 0 s else s
      else normalize_task e p s)"

definition normalize_rt_tasks :: "'c sched_env \<Rightarrow> 'c sched \<Rightarrow> 'c sched" where
  "normalize_rt_tasks e s = fold (normalize_one e) (pids s) s"

section \<open>Affinity and migration\<close>

definition cpumask_any_and :: "'c sched_env \<Rightarrow> (cpuid \<Rightarrow> bool) \<Rightarrow> (cpuid \<Rightarrow> bool) \<Rightarrow> cpuid option" where
  "cpumask_any_and e a b = find (\<lambda>c. a c \<and> b c) (se_possible e)"

text \<open>The real-time class copies the mask itself, for the others this function does.\<close>

definition do_set_cpus_allowed :: "'c sched_env \<Rightarrow> nat \<Rightarrow> (cpuid \<Rightarrow> bool) \<Rightarrow> 'c sched \<Rightarrow> 'c sched" where
  "do_set_cpus_allowed e p new_mask s =
     upd_task p (\<lambda>t. t\<lparr>cpus_allowed := new_mask\<rparr>) (se_op e (Set_allowed (class_of p s) p new_mask) s)"

text \<open>The result, and the CPU that the migration thread is asked to move the task to.\<close>

definition set_cpus_allowed_ptr :: "'c sched_env \<Rightarrow> bool \<Rightarrow> nat \<Rightarrow> (cpuid \<Rightarrow> bool) \<Rightarrow> 'c sched \<Rightarrow> int \<times> cpuid option \<times> 'c sched" where
  "set_cpus_allowed_ptr e by_itself p new_mask s =
     (if list_all (\<lambda>c. cpus_allowed (tasks s p) c = new_mask c) (se_possible e) then (0, None, s)
      else case cpumask_any_and e (cpus_active s) new_mask of
        None \<Rightarrow> (- EINVAL, None, s)
      | Some dest_cpu \<Rightarrow>
          if t_flags (tasks s p) AND PF_THREAD_BOUND \<noteq> 0 \<and> \<not> by_itself then (- EINVAL, None, s)
          else let s = do_set_cpus_allowed e p new_mask s
               in if new_mask (t_cpu (tasks s p)) then (0, None, s)
                  else if on_rq (tasks s p) then (0, Some dest_cpu, s) else (0, None, s))"

definition migrate_task :: "'c sched_env \<Rightarrow> nat \<Rightarrow> cpuid \<Rightarrow> cpuid \<Rightarrow> 'c sched \<Rightarrow> bool \<times> 'c sched" where
  "migrate_task e p src_cpu dest_cpu s =
     (if \<not> cpus_active s dest_cpu then (False, s)
      else if t_cpu (tasks s p) \<noteq> src_cpu then (True, s)
      else if \<not> cpus_allowed (tasks s p) dest_cpu then (False, s)
      else if on_rq (tasks s p) then
        (True, check_preempt_curr e dest_cpu p
           (activate_task e dest_cpu p 0 (set_task_cpu p dest_cpu (deactivate_task e src_cpu p 0 s))))
      else (True, s))"

section \<open>CPU hotplug\<close>

definition migrate_nr_uninterruptible :: "'c sched_env \<Rightarrow> cpuid \<Rightarrow> 'c sched \<Rightarrow> 'c sched option" where
  "migrate_nr_uninterruptible e src s = (case find (cpus_active s) (se_possible e) of
     None \<Rightarrow> None
   | Some dest \<Rightarrow> Some (upd_rq src (\<lambda>r. r\<lparr>rq_nr_uninterruptible := 0\<rparr>)
        (add_uninterruptible dest (rq_nr_uninterruptible (rqs s src)) s)))"

definition calc_global_load_remove :: "cpuid \<Rightarrow> 'c sched \<Rightarrow> 'c sched" where
  "calc_global_load_remove c s = upd_rq c (\<lambda>r. r\<lparr>calc_load_active := 0\<rparr>)
     (s\<lparr>calc_load_tasks := calc_load_tasks s - calc_load_active (rqs s c)\<rparr>)"

text \<open>The loop of \<open>migrate_tasks\<close>, on fuel.\<close>

fun migrate_loop :: "nat \<Rightarrow> 'c sched_env \<Rightarrow> cpuid \<Rightarrow> 'c sched \<Rightarrow> 'c sched option" where
  "migrate_loop 0 e c s = None"
| "migrate_loop (Suc n) e c s =
     (if rq_nr_running (rqs s c) = 1 then Some s
      else case pick_next_task e c s of
        None \<Rightarrow> None
      | Some (nxt, s) \<Rightarrow>
          let s = se_op e (Put_prev (class_of nxt s) c nxt) s
          in (case select_fallback_rq e nxt s of (dest_cpu, s) \<Rightarrow>
              migrate_loop n e c (snd (migrate_task e nxt c dest_cpu s))))"

definition migrate_tasks :: "nat \<Rightarrow> 'c sched_env \<Rightarrow> cpuid \<Rightarrow> 'c sched \<Rightarrow> 'c sched option" where
  "migrate_tasks fuel e c s =
     (let stp = stop (rqs s c)
      in map_option (upd_rq c (\<lambda>r. r\<lparr>stop := stp\<rparr>)) (migrate_loop fuel e c (upd_rq c (\<lambda>r. r\<lparr>stop := None\<rparr>) s)))"

definition set_rq_online :: "'c sched_env \<Rightarrow> cpuid \<Rightarrow> 'c sched \<Rightarrow> 'c sched" where
  "set_rq_online e c s =
     (if \<not> rq_online (rqs s c)
      then fold (\<lambda>cls. se_op e (Rq_online cls c)) all_classes (upd_rq c (\<lambda>r. r\<lparr>rq_online := True\<rparr>) s) else s)"

definition set_rq_offline :: "'c sched_env \<Rightarrow> cpuid \<Rightarrow> 'c sched \<Rightarrow> 'c sched" where
  "set_rq_offline e c s =
     (if rq_online (rqs s c)
      then upd_rq c (\<lambda>r. r\<lparr>rq_online := False\<rparr>) (fold (\<lambda>cls. se_op e (Rq_offline cls c)) all_classes s) else s)"

datatype migration_action = CPU_UP_PREPARE | CPU_ONLINE | CPU_DYING | CPU_DOWN_PREPARE | CPU_DOWN_FAILED | CPU_OTHER_ACTION

definition migration_call :: "nat \<Rightarrow> 'c sched_env \<Rightarrow> migration_action \<Rightarrow> cpuid \<Rightarrow> 'c sched \<Rightarrow> 'c sched option" where
  "migration_call fuel e action cpu s = (case action of
     CPU_UP_PREPARE \<Rightarrow> Some (upd_rq cpu (\<lambda>r. r\<lparr>rq_calc_load_update := calc_load_update s\<rparr>) s)
   | CPU_ONLINE \<Rightarrow> Some (set_rq_online e cpu s)
   | CPU_DYING \<Rightarrow>
       let s = set_rq_offline e cpu (sched_ttwu_pending e cpu s)
       in Option.bind (migrate_tasks fuel e cpu s) (\<lambda>s.
          if rq_nr_running (rqs s cpu) \<noteq> 1 then None
          else map_option (calc_global_load_remove cpu) (migrate_nr_uninterruptible e cpu s))
   | _ \<Rightarrow> Some s)"

text \<open>The value that the notifier chain gets, \<open>NOTIFY_OK\<close> or \<open>NOTIFY_DONE\<close>, and the state.\<close>

definition sched_cpu_active :: "migration_action \<Rightarrow> cpuid \<Rightarrow> 'c sched \<Rightarrow> int \<times> 'c sched" where
  "sched_cpu_active action cpu s =
     (if action = CPU_ONLINE \<or> action = CPU_DOWN_FAILED then (1, s\<lparr>cpus_active := (cpus_active s)(cpu := True)\<rparr>) else (0, s))"

definition sched_cpu_inactive :: "migration_action \<Rightarrow> cpuid \<Rightarrow> 'c sched \<Rightarrow> int \<times> 'c sched" where
  "sched_cpu_inactive action cpu s =
     (if action = CPU_DOWN_PREPARE then (1, s\<lparr>cpus_active := (cpus_active s)(cpu := False)\<rparr>) else (0, s))"

end
