(* ===== verification/Sched_Counts.thy ===== *)
theory Sched_Counts
  imports Sched_Change
begin

text \<open>
  What the counters of the run queues count. The view of a state is what the counting depends on; each function is shown
  to act on the view as a few counter updates, and the invariant is kept by those.
\<close>

section \<open>The view\<close>

definition same_task :: "task \<Rightarrow> task \<Rightarrow> bool" where
  "same_task t u \<longleftrightarrow> on_rq t = on_rq u \<and> t_cpu t = t_cpu u \<and> t_state t = t_state u \<and> t_flags t = t_flags u
     \<and> contributes_to_load t = contributes_to_load u"

definition same_rq :: "rq \<Rightarrow> rq \<Rightarrow> bool" where
  "same_rq r q \<longleftrightarrow> rq_nr_running r = rq_nr_running q \<and> rq_nr_uninterruptible r = rq_nr_uninterruptible q \<and> curr r = curr q
     \<and> idle r = idle q \<and> wake_list r = wake_list q \<and> calc_load_active r = calc_load_active q"

definition same :: "'c sched \<Rightarrow> 'c sched \<Rightarrow> bool" where
  "same s u \<longleftrightarrow> (\<forall>p. same_task (tasks s p) (tasks u p)) \<and> (\<forall>c. same_rq (rqs s c) (rqs u c)) \<and> pids s = pids u
     \<and> in_schedule s = in_schedule u \<and> cpus_online s = cpus_online u \<and> cpus_active s = cpus_active u
     \<and> calc_load_tasks s = calc_load_tasks u \<and> calc_load_tasks_idle s = calc_load_tasks_idle u"

named_theorems same_intros \<open>steps that the view does not show\<close>

lemma same_refl [simp, same_intros]: "same s s"
  by (simp add: same_def same_task_def same_rq_def)

lemma same_trans: "same s t \<Longrightarrow> same t u \<Longrightarrow> same s u"
  by (auto simp: same_def same_task_def same_rq_def)

lemma same_sym: "same s t \<Longrightarrow> same t s"
  by (auto simp: same_def same_task_def same_rq_def)

lemma same_frame: "class_frame s u \<Longrightarrow> same u s"
  by (auto simp: class_frame_def same_def same_task_def same_rq_def)

lemma same_upd_task: "same u s \<Longrightarrow> (\<And>t. same_task (f t) t) \<Longrightarrow> same (upd_task p f u) s"
  by (auto simp: same_def same_task_def)

lemma same_upd_rq: "same u s \<Longrightarrow> (\<And>r. same_rq (f r) r) \<Longrightarrow> same (upd_rq c f u) s"
  by (auto simp: same_def same_rq_def)

lemma same_upd_task_cong: "same u s \<Longrightarrow> (\<And>t t'. same_task t t' \<Longrightarrow> same_task (f t) (f t')) \<Longrightarrow> same (upd_task p f u) (upd_task p f s)"
  by (simp add: same_def)

lemma same_upd_rq_cong: "same u s \<Longrightarrow> (\<And>r r'. same_rq r r' \<Longrightarrow> same_rq (f r) (f r')) \<Longrightarrow> same (upd_rq c f u) (upd_rq c f s)"
  by (simp add: same_def)

lemma same_resched: "same u s \<Longrightarrow> same (resched_task p u) s"
  by (simp add: same_def resched_task_def)

lemma same_simps:
  assumes "same u s"
  shows "on_rq (tasks u p) = on_rq (tasks s p)" "t_cpu (tasks u p) = t_cpu (tasks s p)" "t_state (tasks u p) = t_state (tasks s p)"
    "t_flags (tasks u p) = t_flags (tasks s p)" "contributes_to_load (tasks u p) = contributes_to_load (tasks s p)"
    "curr (rqs u c) = curr (rqs s c)" "idle (rqs u c) = idle (rqs s c)" "wake_list (rqs u c) = wake_list (rqs s c)"
    "rq_nr_running (rqs u c) = rq_nr_running (rqs s c)" "rq_nr_uninterruptible (rqs u c) = rq_nr_uninterruptible (rqs s c)"
    "calc_load_active (rqs u c) = calc_load_active (rqs s c)" "pids u = pids s" "in_schedule u = in_schedule s"
    "cpus_online u = cpus_online s" "cpus_active u = cpus_active s" "contributes e p u = contributes e p s"
  using assms by (simp_all add: same_def same_task_def same_rq_def contributes_def)

section \<open>The functions on the view\<close>

text \<open>The counters of a run queue.\<close>

definition count :: "cpuid \<Rightarrow> u32 \<Rightarrow> u32 \<Rightarrow> 'c sched \<Rightarrow> 'c sched" where
  "count c n m = upd_rq c (\<lambda>r. r\<lparr>rq_nr_running := rq_nr_running r + n, rq_nr_uninterruptible := rq_nr_uninterruptible r + m\<rparr>)"

lemma count_simps [simp]:
  "tasks (count c n m s) = tasks s" "pids (count c n m s) = pids s" "in_schedule (count c n m s) = in_schedule s"
  "cpus_online (count c n m s) = cpus_online s" "cpus_active (count c n m s) = cpus_active s" "calc_load_tasks (count c n m s) = calc_load_tasks s"
  "calc_load_tasks_idle (count c n m s) = calc_load_tasks_idle s" "contributes e p (count c n m s) = contributes e p s"
  "curr (rqs (count c n m s) d) = curr (rqs s d)" "idle (rqs (count c n m s) d) = idle (rqs s d)"
  "wake_list (rqs (count c n m s) d) = wake_list (rqs s d)" "calc_load_active (rqs (count c n m s) d) = calc_load_active (rqs s d)"
  "rq_nr_running (rqs (count c n m s) d) = rq_nr_running (rqs s d) + (if d = c then n else 0)"
  "rq_nr_uninterruptible (rqs (count c n m s) d) = rq_nr_uninterruptible (rqs s d) + (if d = c then m else 0)"
  by (simp_all add: count_def contributes_def)

lemma same_count: "same u s \<Longrightarrow> same (count c n m u) (count c n m s)"
  unfolding count_def by (rule same_upd_rq_cong) (auto simp: same_rq_def)

lemma same_count_count: "same (count c n m (count c n' m' s)) (count c (n' + n) (m' + m) s)"
  by (simp add: same_def same_rq_def same_task_def)

lemma same_count_zero: "same (count c 0 0 s) s"
  by (simp add: same_def same_rq_def same_task_def)

definition contrib :: "'c sched_env \<Rightarrow> nat \<Rightarrow> 'c sched \<Rightarrow> u32" where
  "contrib e p s = (if contributes e p s then 1 else 0)"

lemma contrib_same: "same u s \<Longrightarrow> contrib e p u = contrib e p s"
  by (simp add: contrib_def same_simps)

lemma contrib_count [simp]: "contrib e p (count c n m s) = contrib e p s"
  by (simp add: contrib_def)

lemma update_rq_clock_same: "same (update_rq_clock e c s) s"
  unfolding update_rq_clock_def Let_def by (auto intro!: same_upd_rq simp: same_rq_def)

lemma op_same: "class_ops_ok e \<Longrightarrow> same (se_op e op s) s"
  by (rule same_frame) (simp add: class_ops_ok_def)

lemma op_same_trans: "class_ops_ok e \<Longrightarrow> same u s \<Longrightarrow> same (se_op e op u) s"
  by (rule same_trans [OF op_same])

lemma pick_same: "class_ops_ok e \<Longrightarrow> se_pick e cls c s = (p, u) \<Longrightarrow> same u s"
  by (rule same_frame) (metis class_ops_ok_def snd_conv)

lemma select_same: "class_ops_ok e \<Longrightarrow> se_select e p s = (c, u) \<Longrightarrow> same u s"
  by (rule same_frame) (metis class_ops_ok_def snd_conv)

lemma queue_same:
  assumes "class_ops_ok e"
  shows "same (enqueue_task e c p flags s) s" "same (dequeue_task e c p flags s) s"
  using same_trans [OF op_same [OF assms] update_rq_clock_same] by (simp_all add: enqueue_task_def dequeue_task_def Let_def)

lemma activate_view:
  assumes "class_ops_ok e"
  shows "same (activate_task e c p flags s) (count c 1 (- contrib e p s) s)"
proof -
  have "same (inc_nr_running c (enqueue_task e c p flags u)) (inc_nr_running c u)" for u
    unfolding inc_nr_running_def by (rule same_upd_rq_cong [OF queue_same(1) [OF assms]]) (auto simp: same_rq_def)
  moreover have "same (inc_nr_running c (if contributes e p s then add_uninterruptible c (- 1) s else s)) (count c 1 (- contrib e p s) s)"
    by (simp add: contrib_def inc_nr_running_def add_uninterruptible_def same_def same_rq_def same_task_def)
  ultimately show ?thesis unfolding activate_task_def Let_def by (rule same_trans)
qed

lemma deactivate_view:
  assumes "class_ops_ok e"
  shows "same (deactivate_task e c p flags s) (count c (- 1) (contrib e p s) s)"
proof -
  have "same (dec_nr_running c (dequeue_task e c p flags u)) (dec_nr_running c u)" for u
    unfolding dec_nr_running_def by (rule same_upd_rq_cong [OF queue_same(2) [OF assms]]) (auto simp: same_rq_def)
  moreover have "same (dec_nr_running c (if contributes e p s then add_uninterruptible c 1 s else s)) (count c (- 1) (contrib e p s) s)"
    by (simp add: contrib_def dec_nr_running_def add_uninterruptible_def same_def same_rq_def same_task_def)
  ultimately show ?thesis unfolding deactivate_task_def Let_def by (rule same_trans)
qed

lemma check_preempt_same:
  assumes "class_ops_ok e"
  shows "same (check_preempt_curr e c p s) s"
proof -
  have r: "same (if b then upd_rq c (\<lambda>r. r\<lparr>skip_clock_update := 1\<rparr>) u else u) s" if "same u s" for b and u :: "'a sched"
    using that by (auto intro: same_upd_rq simp: same_rq_def)
  have "same (if b then se_op e op s else if b' then resched_task cur s else s) s" for b b' cur op
    using op_same [OF assms] by (auto intro: same_resched)
  then show ?thesis unfolding check_preempt_curr_def Let_def by (rule r)
qed

lemma class_changed_same:
  assumes "class_ops_ok e"
  shows "same (check_class_changed e c p cls prio s) s"
  by (auto simp: check_class_changed_def Let_def intro!: op_same_trans assms)

lemma set_running_cong: "same u s \<Longrightarrow> same (upd_task p (\<lambda>t. t\<lparr>t_state := v\<rparr>) u) (upd_task p (\<lambda>t. t\<lparr>t_state := v\<rparr>) s)"
  by (rule same_upd_task_cong) (auto simp: same_task_def)

lemma do_wakeup_view:
  assumes "class_ops_ok e"
  shows "same (ttwu_do_wakeup e c p s) (upd_task p (\<lambda>t. t\<lparr>t_state := TASK_RUNNING\<rparr>) s)"
proof -
  have r: "same_rq (end_idle e r) r" for r by (auto simp: same_rq_def end_idle_def Let_def)
  show ?thesis
    unfolding ttwu_do_wakeup_def Let_def
    by (intro same_upd_rq r op_same_trans assms set_running_cong check_preempt_same)
qed

text \<open>A task goes to the run queue and runs.\<close>

definition queue_task :: "cpuid \<Rightarrow> nat \<Rightarrow> u32 \<Rightarrow> 'c sched \<Rightarrow> 'c sched" where
  "queue_task c p m s = upd_task p (\<lambda>t. t\<lparr>on_rq := True, t_state := TASK_RUNNING\<rparr>) (count c 1 (- m) s)"

lemma queue_cong: "same u s \<Longrightarrow> same (queue_task c p m u) (queue_task c p m s)"
  unfolding queue_task_def by (rule same_upd_task_cong [OF same_count]) (auto simp: same_task_def)

lemma ttwu_wakeup_view:
  assumes "class_ops_ok e"
  shows "same (ttwu_do_wakeup e c p (ttwu_activate e c p flags s)) (queue_task c p (contrib e p s) s)"
proof -
  have "same (ttwu_activate e c p flags s) (upd_task p (\<lambda>t. t\<lparr>on_rq := True\<rparr>) (count c 1 (- contrib e p s) s))"
    unfolding ttwu_activate_def by (rule same_upd_task_cong [OF activate_view [OF assms]]) (auto simp: same_task_def)
  from same_trans [OF do_wakeup_view [OF assms] set_running_cong [OF this]]
  have "same (ttwu_do_wakeup e c p (ttwu_activate e c p flags s))
    (upd_task p (\<lambda>t. t\<lparr>t_state := TASK_RUNNING\<rparr>) (upd_task p (\<lambda>t. t\<lparr>on_rq := True\<rparr>) (count c 1 (- contrib e p s) s)))" .
  then show ?thesis by (rule same_trans) (auto simp: queue_task_def same_def same_task_def same_rq_def)
qed

end
