(* ===== verification/Sched_Runnable.thy ===== *)
theory Sched_Runnable
  imports Sched_Counts
begin

text \<open>
  The step relation of the scheduler, and what its counters mean after any number of steps: the number of runnable threads
  that the governors, the hotplug code and the daemons read is the number of tasks on run queues, and the
  uninterruptible ones, counted on whatever CPU they were last seen, add up to the tasks that sleep uninterruptibly.
\<close>

section \<open>Steps\<close>

definition env_ok :: "'c sched_env \<Rightarrow> bool" where
  "env_ok e \<longleftrightarrow> class_ops_ok e \<and> contributes_ok e \<and> others_ok e \<and> distinct (se_possible e)"

text \<open>The copy of the parent that \<open>copy_process\<close> makes.\<close>

definition copied :: "cpuid \<Rightarrow> nat \<Rightarrow> 'c sched \<Rightarrow> 'c sched" where
  "copied c p s = s\<lparr>tasks := (tasks s)(p := tasks s (curr (rqs s c))), pids := p # pids s\<rparr>"

definition pull_task :: "'c sched_env \<Rightarrow> nat \<Rightarrow> cpuid \<Rightarrow> cpuid \<Rightarrow> 'c sched \<Rightarrow> 'c sched" where
  "pull_task e p src dst s = activate_task e dst p 0 (set_task_cpu p dst (deactivate_task e src p 0 s))"

text \<open>
  What can happen: the running task of a CPU changes its own state and flags; a task is woken; the functions above run; a
  class moves a waiting task to another CPU while it balances the load; the idle class accounts for a CPU
  that goes idle; a CPU is marked online or offline; the notifiers mark it active or inactive.
\<close>

inductive sched_step :: "'c sched_env \<Rightarrow> 'c sched \<Rightarrow> 'c sched \<Rightarrow> bool" for e :: "'c sched_env" where
  own_state: "c \<in> set (se_possible e) \<Longrightarrow> p = curr (rqs s c) \<Longrightarrow> in_schedule s c = None \<Longrightarrow> on_rq (tasks s p) \<Longrightarrow> v \<noteq> TASK_WAKING
    \<Longrightarrow> sched_step e s (upd_task p (\<lambda>t. t\<lparr>t_state := v, t_flags := f\<rparr>) s)"
| wake: "p \<in> set (pids s) \<Longrightarrow> states AND TASK_WAKING = 0 \<Longrightarrow> try_to_wake_up e c p states s = Some (b, s') \<Longrightarrow> sched_step e s s'"
| ipi: "c \<in> set (se_possible e) \<Longrightarrow> sched_step e s (scheduler_ipi e c s)"
| leave: "c \<in> set (se_possible e) \<Longrightarrow> in_schedule s c = None \<Longrightarrow> schedule_out e c active s = Some s' \<Longrightarrow> sched_step e s s'"
| enter: "c \<in> set (se_possible e) \<Longrightarrow> schedule_in e c s = Some s' \<Longrightarrow> sched_step e s s'"
| fork: "c \<in> set (se_possible e) \<Longrightarrow> p \<notin> set (pids s) \<Longrightarrow> \<forall>d. idle (rqs s d) \<noteq> p
    \<Longrightarrow> sched_step e s (wake_up_new_task e p (sched_fork e c p (copied c p s)))"
| nice: "p \<in> set (pids s) \<Longrightarrow> sched_step e s (set_user_nice e p n s)"
| policy: "p \<in> set (pids s) \<Longrightarrow> sched_step e s (snd (sched_setscheduler e ca z p pol prio s))"
| inherit: "p \<in> set (pids s) \<Longrightarrow> rt_mutex_setprio e p prio s = Some s' \<Longrightarrow> sched_step e s s'"
| normalize: "sched_step e s (normalize_rt_tasks e s)"
| pull: "p \<in> set (pids s) \<Longrightarrow> on_rq (tasks s p) \<Longrightarrow> p \<noteq> curr (rqs s (t_cpu (tasks s p))) \<Longrightarrow> dst \<in> set (se_possible e)
    \<Longrightarrow> sched_step e s (pull_task e p (t_cpu (tasks s p)) dst s)"
| migrate: "p \<in> set (pids s) \<Longrightarrow> p \<noteq> curr (rqs s src) \<Longrightarrow> dst \<in> set (se_possible e)
    \<Longrightarrow> sched_step e s (snd (migrate_task e p src dst s))"
| affinity: "sched_step e s (snd (snd (set_cpus_allowed_ptr e by_itself p cpus s)))"
| tick: "c \<in> set (se_possible e) \<Longrightarrow> scheduler_tick e c (s\<lparr>jiffies := j\<rparr>) = Some s' \<Longrightarrow> sched_step e s s'"
| go_idle: "c \<in> set (se_possible e) \<Longrightarrow> sched_step e s (calc_load_account_idle c s)"
| global: "sched_step e s (calc_global_load s)"
| hotplug: "c \<in> set (se_possible e) \<Longrightarrow> t_class (tasks s (curr (rqs s c))) = Stop_class
    \<Longrightarrow> (action = CPU_DYING \<longrightarrow> \<not> cpus_active s c) \<Longrightarrow> migration_call fuel e action c s = Some s' \<Longrightarrow> sched_step e s s'"
| mark: "c \<in> set (se_possible e) \<Longrightarrow> sched_step e s (s\<lparr>cpus_online := (cpus_online s)(c := b)\<rparr>)"
| active: "sched_step e s (snd (sched_cpu_active action c s))"
| inactive: "sched_step e s (snd (sched_cpu_inactive action c s))"
| count_running: "sched_step e s (snd (nr_running e s))"

section \<open>The invariant\<close>

definition load_sleeper :: "'c sched_env \<Rightarrow> 'c sched \<Rightarrow> nat \<Rightarrow> bool" where
  "load_sleeper e s p \<longleftrightarrow> \<not> on_rq (tasks s p)
     \<and> (if t_state (tasks s p) = TASK_WAKING then contributes_to_load (tasks s p) else contributes e p s)"

definition runnable :: "'c sched \<Rightarrow> cpuid \<Rightarrow> nat \<Rightarrow> bool" where
  "runnable s c p \<longleftrightarrow> on_rq (tasks s p) \<and> t_cpu (tasks s p) = c"

definition number :: "(nat \<Rightarrow> bool) \<Rightarrow> nat list \<Rightarrow> u32" where
  "number P xs = of_nat (length (filter P xs))"

definition bit_of :: "bool \<Rightarrow> u32" where
  "bit_of b = (if b then 1 else 0)"

definition total :: "'c sched_env \<Rightarrow> (rq \<Rightarrow> u32) \<Rightarrow> 'c sched \<Rightarrow> u32" where
  "total e f s = (\<Sum>c \<leftarrow> se_possible e. f (rqs s c))"

definition queues_ok :: "'c sched_env \<Rightarrow> 'c sched \<Rightarrow> bool" where
  "queues_ok e s \<longleftrightarrow> distinct (pids s)
   \<and> (\<forall>p. on_rq (tasks s p) \<longrightarrow> p \<in> set (pids s) \<and> t_state (tasks s p) \<noteq> TASK_WAKING)
   \<and> (\<forall>p \<in> set (pids s). t_cpu (tasks s p) \<in> set (se_possible e))
   \<and> (\<forall>c p. p \<in> set (wake_list (rqs s c)) \<longrightarrow> c \<in> set (se_possible e) \<and> p \<in> set (pids s) \<and> \<not> on_rq (tasks s p)
        \<and> t_state (tasks s p) = TASK_WAKING \<and> t_cpu (tasks s p) = c)
   \<and> (\<forall>c. distinct (wake_list (rqs s c)))
   \<and> (\<forall>c \<in> set (se_possible e). idle (rqs s c) \<notin> set (pids s) \<and> t_state (tasks s (idle (rqs s c))) = TASK_RUNNING)
   \<and> (\<forall>c \<in> set (se_possible e). in_schedule s c = None \<longrightarrow>
        curr (rqs s c) = idle (rqs s c) \<or> on_rq (tasks s (curr (rqs s c))) \<and> t_cpu (tasks s (curr (rqs s c))) = c)
   \<and> (\<forall>c. cpus_online s c \<longrightarrow> c \<in> set (se_possible e))"

definition counts_ok :: "'c sched_env \<Rightarrow> 'c sched \<Rightarrow> bool" where
  "counts_ok e s \<longleftrightarrow>
     (\<forall>c \<in> set (se_possible e). rq_nr_running (rqs s c) = number (runnable s c) (pids s))
   \<and> total e rq_nr_uninterruptible s = number (load_sleeper e s) (pids s)"

definition load_ok :: "'c sched_env \<Rightarrow> 'c sched \<Rightarrow> bool" where
  "load_ok e s \<longleftrightarrow> calc_load_tasks s + calc_load_tasks_idle s = total e calc_load_active s"

definition sched_ok :: "'c sched_env \<Rightarrow> 'c sched \<Rightarrow> bool" where
  "sched_ok e s \<longleftrightarrow> queues_ok e s \<and> counts_ok e s \<and> load_ok e s"

subsection \<open>Counting\<close>

lemma number_change:
  assumes "distinct xs" "p \<in> set xs" "\<And>q. q \<in> set xs \<Longrightarrow> q \<noteq> p \<Longrightarrow> P' q = P q"
  shows "number P' xs = number P xs + bit_of (P' p) - bit_of (P p)"
  using assms
proof (induction xs)
  case Nil
  then show ?case by simp
next
  case (Cons x xs)
  show ?case
  proof (cases "x = p")
    case True
    then have "filter P' xs = filter P xs" using Cons.prems by (intro filter_cong) auto
    then show ?thesis using True by (simp add: number_def bit_of_def)
  next
    case False
    then have "number P' xs = number P xs + bit_of (P' p) - bit_of (P p)" using Cons by auto
    moreover have "P' x = P x" using False Cons.prems by simp
    ultimately show ?thesis by (simp add: number_def algebra_simps)
  qed
qed

lemma number_cong: "(\<And>q. q \<in> set xs \<Longrightarrow> P' q = P q) \<Longrightarrow> number P' xs = number P xs"
  by (simp add: number_def cong: filter_cong)

lemma total_change:
  assumes "distinct (se_possible e)" "d \<in> set (se_possible e)" "\<And>c. c \<noteq> d \<Longrightarrow> f (rqs u c) = f (rqs s c)"
  shows "total e f u = total e f s + (f (rqs u d) - f (rqs s d))"
proof -
  have "(\<Sum>c \<leftarrow> xs. f (rqs u c)) = (\<Sum>c \<leftarrow> xs. f (rqs s c)) + (if d \<in> set xs then f (rqs u d) - f (rqs s d) else 0)"
    if "distinct xs" for xs
    using that
  proof (induction xs)
    case (Cons c xs)
    then show ?case using assms(3) [of c] by (cases "c = d") (auto simp: algebra_simps)
  qed simp
  then show ?thesis using assms(1,2) by (simp add: total_def)
qed

lemma total_cong: "(\<And>c. f (rqs u c) = f (rqs s c)) \<Longrightarrow> total e f u = total e f s"
  by (simp add: total_def)

text \<open>The invariant depends on the view only.\<close>

lemma same_ok:
  assumes "same u s"
  shows "sched_ok e u = sched_ok e s"
proof -
  note v = same_simps [OF assms]
  have r: "runnable u c = runnable s c" "load_sleeper e u = load_sleeper e s" for c by (auto simp: fun_eq_iff runnable_def load_sleeper_def v)
  have "total e f u = total e f s" if "f \<in> {rq_nr_uninterruptible, calc_load_active}" for f
    using that by (intro total_cong) (auto simp: v)
  then have t: "total e rq_nr_uninterruptible u = total e rq_nr_uninterruptible s" "total e calc_load_active u = total e calc_load_active s"
    by auto
  have "calc_load_tasks u = calc_load_tasks s" "calc_load_tasks_idle u = calc_load_tasks_idle s" using assms by (auto simp: same_def)
  then show ?thesis by (simp add: sched_ok_def queues_ok_def counts_ok_def load_ok_def v r t)
qed

text \<open>One task changes, and the counters with it.\<close>

lemma task_changes:
  assumes "sched_ok e s" "p \<in> set (pids s)" "\<And>q. q \<noteq> p \<Longrightarrow> same_task (tasks u q) (tasks s q)"
    "pids u = pids s" "in_schedule u = in_schedule s" "cpus_online u = cpus_online s"
    "calc_load_tasks u = calc_load_tasks s" "calc_load_tasks_idle u = calc_load_tasks_idle s"
    "\<And>c. curr (rqs u c) = curr (rqs s c) \<and> idle (rqs u c) = idle (rqs s c) \<and> wake_list (rqs u c) = wake_list (rqs s c)
       \<and> calc_load_active (rqs u c) = calc_load_active (rqs s c)"
    "\<And>c. p \<notin> set (wake_list (rqs s c))"
    "\<And>c. c \<in> set (se_possible e) \<Longrightarrow> rq_nr_running (rqs u c) = rq_nr_running (rqs s c) + bit_of (runnable u c p) - bit_of (runnable s c p)"
    "total e rq_nr_uninterruptible u = total e rq_nr_uninterruptible s + bit_of (load_sleeper e u p) - bit_of (load_sleeper e s p)"
    "t_cpu (tasks u p) \<in> set (se_possible e)" "on_rq (tasks u p) \<Longrightarrow> t_state (tasks u p) \<noteq> TASK_WAKING"
    "\<And>c. c \<in> set (se_possible e) \<Longrightarrow> in_schedule s c = None \<Longrightarrow> curr (rqs s c) = p \<Longrightarrow> runnable u c p"
  shows "sched_ok e u"
proof -
  have o: "on_rq (tasks u q) = on_rq (tasks s q)" "t_cpu (tasks u q) = t_cpu (tasks s q)" "t_state (tasks u q) = t_state (tasks s q)"
    "runnable u c q = runnable s c q" "load_sleeper e u q = load_sleeper e s q" if "q \<noteq> p" for q c
    using assms(3) [OF that] by (auto simp: same_task_def runnable_def load_sleeper_def contributes_def)
  have q: "queues_ok e s" and k: "counts_ok e s" and l: "load_ok e s" using assms(1) by (auto simp: sched_ok_def)
  have "queues_ok e u"
    unfolding queues_ok_def
  proof (intro conjI allI ballI impI)
    show "distinct (pids u)" using q assms(4) by (simp add: queues_ok_def)
  next
    fix x assume "on_rq (tasks u x)"
    then show "x \<in> set (pids u)" "t_state (tasks u x) \<noteq> TASK_WAKING"
      using q assms(2,4,14) o [of x] by (cases "x = p"; auto simp: queues_ok_def)+
  next
    fix x assume "x \<in> set (pids u)"
    then show "t_cpu (tasks u x) \<in> set (se_possible e)"
      using q assms(4,13) o [of x] by (cases "x = p") (auto simp: queues_ok_def)
  next
    fix c x assume "x \<in> set (wake_list (rqs u c))"
    then have x: "x \<in> set (wake_list (rqs s c))" "x \<noteq> p" using assms(9,10) by auto
    then show "c \<in> set (se_possible e)" "x \<in> set (pids u)" "\<not> on_rq (tasks u x)" "t_state (tasks u x) = TASK_WAKING" "t_cpu (tasks u x) = c"
      using q o [OF x(2)] assms(4) by (auto simp: queues_ok_def)
  next
    fix c show "distinct (wake_list (rqs u c))" using q assms(9) by (simp add: queues_ok_def)
  next
    fix c assume c: "c \<in> set (se_possible e)"
    then have "idle (rqs s c) \<notin> set (pids s)" "t_state (tasks s (idle (rqs s c))) = TASK_RUNNING" using q by (auto simp: queues_ok_def)
    moreover from this have "idle (rqs s c) \<noteq> p" using assms(2) by auto
    ultimately show "idle (rqs u c) \<notin> set (pids u)" "t_state (tasks u (idle (rqs u c))) = TASK_RUNNING" using assms(4,9) o by auto
  next
    fix c assume c: "c \<in> set (se_possible e)" "in_schedule u c = None"
    then have "curr (rqs s c) = idle (rqs s c) \<or> runnable s c (curr (rqs s c))"
      using q assms(5) by (auto simp: queues_ok_def runnable_def)
    then have "curr (rqs s c) = idle (rqs s c) \<or> runnable u c (curr (rqs s c))"
      using assms(15) [OF c(1)] c(2) assms(5) o(4) by (cases "curr (rqs s c) = p") auto
    then show "curr (rqs u c) = idle (rqs u c) \<or> on_rq (tasks u (curr (rqs u c))) \<and> t_cpu (tasks u (curr (rqs u c))) = c"
      using assms(9) by (simp add: runnable_def)
  next
    fix c assume "cpus_online u c" then show "c \<in> set (se_possible e)" using q assms(6) by (simp add: queues_ok_def)
  qed
  moreover have d: "distinct (pids s)" using q by (simp add: queues_ok_def)
  have "counts_ok e u"
    unfolding counts_ok_def
  proof (intro conjI ballI)
    fix c assume c: "c \<in> set (se_possible e)"
    show "rq_nr_running (rqs u c) = number (runnable u c) (pids u)"
      using k c assms(11) [OF c] number_change [OF d assms(2), of "runnable u c" "runnable s c"] o(4) assms(4)
      by (simp add: counts_ok_def)
  next
    show "total e rq_nr_uninterruptible u = number (load_sleeper e u) (pids u)"
      using k assms(12) number_change [OF d assms(2), of "load_sleeper e u" "load_sleeper e s"] o(5) assms(4) by (simp add: counts_ok_def)
  qed
  moreover have "load_ok e u" using l assms(7,8,9) by (simp add: load_ok_def total_def)
  ultimately show ?thesis by (simp add: sched_ok_def)
qed

section \<open>The steps keep it\<close>

lemma env_okD: "env_ok e \<Longrightarrow> class_ops_ok e" "env_ok e \<Longrightarrow> distinct (se_possible e)"
  "env_ok e \<Longrightarrow> \<not> se_contributes e TASK_RUNNING f" "env_ok e \<Longrightarrow> \<not> se_contributes e TASK_WAKING f" "env_ok e \<Longrightarrow> others_ok e"
  by (auto simp: env_ok_def contributes_ok_def)

lemma okD:
  assumes "sched_ok e s"
  shows "p \<in> set (wake_list (rqs s c)) \<Longrightarrow> \<not> on_rq (tasks s p) \<and> t_state (tasks s p) = TASK_WAKING \<and> p \<in> set (pids s) \<and> t_cpu (tasks s p) = c"
    "on_rq (tasks s p) \<Longrightarrow> p \<in> set (pids s) \<and> t_state (tasks s p) \<noteq> TASK_WAKING"
    "p \<in> set (pids s) \<Longrightarrow> t_cpu (tasks s p) \<in> set (se_possible e)"
    "c \<in> set (se_possible e) \<Longrightarrow> idle (rqs s c) \<notin> set (pids s) \<and> t_state (tasks s (idle (rqs s c))) = TASK_RUNNING"
    "c \<in> set (se_possible e) \<Longrightarrow> in_schedule s c = None \<Longrightarrow> curr (rqs s c) = idle (rqs s c) \<or> runnable s c (curr (rqs s c))"
    "cpus_online s c \<Longrightarrow> c \<in> set (se_possible e)" "distinct (pids s)" "distinct (wake_list (rqs s c))"
  using assms by (auto simp: sched_ok_def queues_ok_def runnable_def)

lemma not_waking:
  assumes "sched_ok e s" "on_rq (tasks s p) \<or> t_state (tasks s p) \<noteq> TASK_WAKING"
  shows "p \<notin> set (wake_list (rqs s c))"
  using okD(1) [OF assms(1)] assms(2) by blast

lemma not_current:
  assumes "sched_ok e s" "p \<in> set (pids s)" "\<not> on_rq (tasks s p)" "c \<in> set (se_possible e)" "in_schedule s c = None"
  shows "curr (rqs s c) \<noteq> p"
  using okD(4,5) [OF assms(1,4)] assms by (auto simp: runnable_def)

lemma total_count:
  assumes "distinct (se_possible e)" "c \<in> set (se_possible e)" "\<And>d. rq_nr_uninterruptible (rqs u d) = rq_nr_uninterruptible (rqs s d) + (if d = c then m else 0)"
  shows "total e rq_nr_uninterruptible u = total e rq_nr_uninterruptible s + m"
  using total_change [OF assms(1,2), of rq_nr_uninterruptible u s] assms(3) by simp

text \<open>A sleeping task is queued.\<close>

lemma queue_task_ok:
  assumes "sched_ok e s" "env_ok e" "p \<in> set (pids s)" "\<not> on_rq (tasks s p)" "\<And>c. p \<notin> set (wake_list (rqs s c))"
  shows "sched_ok e (queue_task (t_cpu (tasks s p)) p (bit_of (load_sleeper e s p)) s)"
proof -
  let ?c = "t_cpu (tasks s p)"
  let ?u = "queue_task ?c p (bit_of (load_sleeper e s p)) s"
  have c: "?c \<in> set (se_possible e)" by (rule okD(3) [OF assms(1,3)])
  have "total e rq_nr_uninterruptible ?u = total e rq_nr_uninterruptible s + (- bit_of (load_sleeper e s p))"
    by (rule total_count [OF env_okD(2) [OF assms(2)] c]) (simp add: queue_task_def)
  then show ?thesis
    by (intro task_changes [OF assms(1,3), of ?u])
      (use c assms not_current [OF assms(1,3,4)] in \<open>auto simp: queue_task_def same_task_def runnable_def load_sleeper_def bit_of_def\<close>)
qed

text \<open>The current task of a CPU goes to sleep in \<open>__schedule\<close>.\<close>

lemma sleep_ok:
  assumes "sched_ok e s" "env_ok e" "runnable s c p" "c \<in> set (se_possible e)" "in_schedule s c \<noteq> None"
  shows "sched_ok e (upd_task p (\<lambda>t. t\<lparr>on_rq := False\<rparr>) (count c (- 1) (contrib e p s) s))"
proof -
  let ?u = "upd_task p (\<lambda>t. t\<lparr>on_rq := False\<rparr>) (count c (- 1) (contrib e p s) s)"
  have p: "on_rq (tasks s p)" "t_cpu (tasks s p) = c" "p \<in> set (pids s)" "t_state (tasks s p) \<noteq> TASK_WAKING"
    using assms(3) okD(2) [OF assms(1), of p] by (auto simp: runnable_def)
  have "total e rq_nr_uninterruptible ?u = total e rq_nr_uninterruptible s + contrib e p s"
    by (rule total_count [OF env_okD(2) [OF assms(2)] assms(4)]) simp
  moreover have "runnable s d p = (d = c)" "\<not> runnable ?u d p" for d using p by (auto simp: runnable_def)
  moreover have "load_sleeper e ?u p = contributes e p s" "\<not> load_sleeper e s p" using p by (auto simp: load_sleeper_def contributes_def)
  moreover have "curr (rqs s d) \<noteq> p" if "d \<in> set (se_possible e)" "in_schedule s d = None" for d
  proof
    assume "curr (rqs s d) = p"
    then have "d = c" using okD(4,5) [OF assms(1) that(1)] that(2) p by (auto simp: runnable_def)
    then show False using that(2) assms(5) by simp
  qed
  ultimately show ?thesis
    using p assms(4) not_waking [OF assms(1)]
    by (intro task_changes [OF assms(1) p(3), of ?u]) (simp_all add: same_task_def contrib_def bit_of_def)
qed

text \<open>A waiting task moves.\<close>

lemma move_ok:
  assumes "sched_ok e s" "env_ok e" "on_rq (tasks s p)" "p \<noteq> curr (rqs s (t_cpu (tasks s p)))" "dst \<in> set (se_possible e)"
  shows "sched_ok e (count dst 1 (- contrib e p s) (set_task_cpu p dst (count (t_cpu (tasks s p)) (- 1) (contrib e p s) s)))"
proof -
  let ?c = "t_cpu (tasks s p)"
  let ?v = "set_task_cpu p dst (count ?c (- 1) (contrib e p s) s)"
  let ?u = "count dst 1 (- contrib e p s) ?v"
  have p: "p \<in> set (pids s)" "t_state (tasks s p) \<noteq> TASK_WAKING" "?c \<in> set (se_possible e)"
    using okD(2,3) [OF assms(1), of p] assms(3) by auto
  have "total e rq_nr_uninterruptible ?u = total e rq_nr_uninterruptible ?v + (- contrib e p s)"
    by (rule total_count [OF env_okD(2) [OF assms(2)] assms(5)]) simp
  moreover have "total e rq_nr_uninterruptible ?v = total e rq_nr_uninterruptible s + contrib e p s"
    by (rule total_count [OF env_okD(2) [OF assms(2)] p(3)]) (simp add: set_task_cpu_def)
  moreover have "curr (rqs s d) \<noteq> p" if "d \<in> set (se_possible e)" "in_schedule s d = None" for d
    using okD(4,5) [OF assms(1) that(1)] that(2) p assms(4) by (auto simp: runnable_def)
  ultimately show ?thesis
    using p assms not_waking [OF assms(1)]
    by (intro task_changes [OF assms(1) p(1), of ?u])
      (auto simp: set_task_cpu_def same_task_def runnable_def load_sleeper_def contributes_def bit_of_def)
qed

end
