(* ===== verification/Sched_Steps.thy ===== *)
theory Sched_Steps
  imports Sched_Runnable
begin

text \<open>Every step of the scheduler keeps the invariant of its counters.\<close>

section \<open>Changes that do not move a task\<close>

lemma own_state_ok:
  assumes "sched_ok e s" "on_rq (tasks s p)" "v \<noteq> TASK_WAKING"
  shows "sched_ok e (upd_task p (\<lambda>t. t\<lparr>t_state := v, t_flags := f\<rparr>) s)"
proof -
  let ?u = "upd_task p (\<lambda>t. t\<lparr>t_state := v, t_flags := f\<rparr>) s"
  have p: "p \<in> set (pids s)" using okD(2) [OF assms(1,2)] by simp
  have "curr (rqs s c) = p \<Longrightarrow> runnable s c p" if "c \<in> set (se_possible e)" "in_schedule s c = None" for c
    using okD(4,5) [OF assms(1) that(1)] that(2) p by auto
  then show ?thesis
    using p assms okD(3) [OF assms(1) p] not_waking [OF assms(1)]
    by (intro task_changes [OF assms(1) p, of ?u]) (auto simp: same_task_def runnable_def load_sleeper_def bit_of_def total_def)
qed

lemma running_ok:
  assumes "sched_ok e s" "on_rq (tasks s p)"
  shows "sched_ok e (upd_task p (\<lambda>t. t\<lparr>t_state := TASK_RUNNING\<rparr>) s)"
proof -
  have "same (upd_task p (\<lambda>t. t\<lparr>t_state := TASK_RUNNING\<rparr>) s) (upd_task p (\<lambda>t. t\<lparr>t_state := TASK_RUNNING, t_flags := t_flags (tasks s p)\<rparr>) s)"
    by (auto simp: same_def same_task_def same_rq_def)
  from iffD2 [OF same_ok [OF this] own_state_ok [OF assms]] show ?thesis by simp
qed

text \<open>A sleeping task becomes a waking one, with a note whether it counted; it may then change its CPU.\<close>

lemma waking_ok:
  assumes "sched_ok e s" "p \<in> set (pids s)" "\<not> on_rq (tasks s p)" "t_state (tasks s p) \<noteq> TASK_WAKING"
  shows "sched_ok e (upd_task p (\<lambda>t. t\<lparr>contributes_to_load := contributes e p s, t_state := TASK_WAKING\<rparr>) s)"
  using assms okD(3) [OF assms(1,2)] not_waking [OF assms(1)] not_current [OF assms(1-3)]
  by (intro task_changes [OF assms(1,2)]) (auto simp: same_task_def runnable_def load_sleeper_def total_def)

lemma set_cpu_ok:
  assumes "sched_ok e s" "p \<in> set (pids s)" "\<not> on_rq (tasks s p)" "\<And>c. p \<notin> set (wake_list (rqs s c))" "cpu \<in> set (se_possible e)"
  shows "sched_ok e (set_task_cpu p cpu s)"
  using assms not_current [OF assms(1-3)]
  by (intro task_changes [OF assms(1,2)])
    (auto simp: same_task_def runnable_def load_sleeper_def contributes_def bit_of_def total_def set_task_cpu_def)

lemma remote_ok:
  assumes "sched_ok e s" "p \<in> set (pids s)" "\<not> on_rq (tasks s p)" "t_state (tasks s p) = TASK_WAKING" "t_cpu (tasks s p) = c"
    "\<And>c. p \<notin> set (wake_list (rqs s c))"
  shows "sched_ok e (ttwu_queue_remote p c s)"
proof -
  have "runnable (ttwu_queue_remote p c s) = runnable s" "load_sleeper e (ttwu_queue_remote p c s) = load_sleeper e s"
    by (simp_all add: fun_eq_iff runnable_def load_sleeper_def contributes_def ttwu_queue_remote_def)
  moreover have "c \<in> set (se_possible e)" using okD(3) [OF assms(1,2)] assms(5) by simp
  moreover have "total e rq_nr_uninterruptible (ttwu_queue_remote p c s) = total e rq_nr_uninterruptible s"
    "total e calc_load_active (ttwu_queue_remote p c s) = total e calc_load_active s"
    by (rule total_cong; simp add: ttwu_queue_remote_def)+
  ultimately show ?thesis
    using assms by (auto simp: sched_ok_def queues_ok_def counts_ok_def load_ok_def ttwu_queue_remote_def)
qed

section \<open>Waking up\<close>

text \<open>What \<open>ttwu_do_activate\<close> needs to know of the task.\<close>

definition wakeable :: "'c sched \<Rightarrow> cpuid \<Rightarrow> nat \<Rightarrow> bool" where
  "wakeable s c p \<longleftrightarrow> p \<in> set (pids s) \<and> \<not> on_rq (tasks s p) \<and> t_state (tasks s p) = TASK_WAKING \<and> t_cpu (tasks s p) = c
     \<and> (\<forall>d. p \<notin> set (wake_list (rqs s d)))"

lemma do_activate_view:
  assumes "env_ok e" "t_state (tasks s p) = TASK_WAKING" "\<not> on_rq (tasks s p)"
  shows "same (ttwu_do_activate e c p s) (queue_task c p (bit_of (load_sleeper e s p)) s)"
proof -
  let ?s = "if contributes_to_load (tasks s p) then add_uninterruptible c (- 1) s else s"
  have k: "contrib e p ?s = 0" "tasks ?s = tasks s"
    using assms(2) env_okD(4) [OF assms(1)] by (auto simp: contrib_def contributes_def add_uninterruptible_def)
  have "same (ttwu_do_activate e c p s) (queue_task c p (contrib e p ?s) ?s)"
    unfolding ttwu_do_activate_def Let_def by (rule ttwu_wakeup_view [OF env_okD(1) [OF assms(1)]])
  moreover have "same (queue_task c p 0 ?s) (queue_task c p (bit_of (load_sleeper e s p)) s)"
    using assms(2,3) by (auto simp: queue_task_def load_sleeper_def bit_of_def same_def same_task_def same_rq_def add_uninterruptible_def)
  ultimately show ?thesis using k(1) same_trans by metis
qed

lemma do_activate_ok:
  assumes "env_ok e" "sched_ok e s" "wakeable s c p"
  shows "sched_ok e (ttwu_do_activate e c p s)" "q \<noteq> p \<Longrightarrow> wakeable s c q \<Longrightarrow> wakeable (ttwu_do_activate e c p s) c q"
proof -
  have v: "same (ttwu_do_activate e c p s) (queue_task c p (bit_of (load_sleeper e s p)) s)"
    by (rule do_activate_view) (use assms(1,3) in \<open>auto simp: wakeable_def\<close>)
  then show "sched_ok e (ttwu_do_activate e c p s)"
    using queue_task_ok [OF assms(2,1), of p] same_ok [OF v] assms(3) by (auto simp: wakeable_def)
  show "q \<noteq> p \<Longrightarrow> wakeable s c q \<Longrightarrow> wakeable (ttwu_do_activate e c p s) c q"
    by (simp add: wakeable_def same_simps [OF v]) (simp add: queue_task_def)
qed

lemma do_pending_ok:
  assumes "env_ok e" "sched_ok e s" "\<forall>p \<in> set ps. wakeable s c p" "distinct ps"
  shows "sched_ok e (sched_ttwu_do_pending e c ps s)"
  using assms(2-4)
proof (induction ps arbitrary: s)
  case (Cons p ps)
  then have "\<forall>q \<in> set ps. wakeable (ttwu_do_activate e c p s) c q" using do_activate_ok(2) [OF assms(1)] by (metis distinct.simps(2) list.set_intros)
  then show ?case
    using Cons.IH [of "ttwu_do_activate e c p s"] Cons.prems do_activate_ok(1) [OF assms(1)] by (simp add: sched_ttwu_do_pending_def)
qed (simp add: sched_ttwu_do_pending_def)

lemma take_list_ok:
  assumes "sched_ok e s"
  shows "sched_ok e (upd_rq c (\<lambda>r. r\<lparr>wake_list := []\<rparr>) s)"
    "p \<in> set (wake_list (rqs s c)) \<Longrightarrow> wakeable (upd_rq c (\<lambda>r. r\<lparr>wake_list := []\<rparr>) s) c p"
proof -
  let ?u = "upd_rq c (\<lambda>r. r\<lparr>wake_list := []\<rparr>) s"
  have "runnable ?u = runnable s" "load_sleeper e ?u = load_sleeper e s" by (simp_all add: fun_eq_iff runnable_def load_sleeper_def contributes_def)
  moreover have "total e rq_nr_uninterruptible ?u = total e rq_nr_uninterruptible s" "total e calc_load_active ?u = total e calc_load_active s"
    by (rule total_cong; simp)+
  ultimately show "sched_ok e ?u" using assms by (auto simp: sched_ok_def queues_ok_def counts_ok_def load_ok_def)
  show "p \<in> set (wake_list (rqs s c)) \<Longrightarrow> wakeable ?u c p" 
    using okD(1) [OF assms, of p c] okD(1) [OF assms, of p] by (auto simp: wakeable_def)
qed

lemma pending_ok:
  assumes "env_ok e" "sched_ok e s"
  shows "sched_ok e (sched_ttwu_pending e c s)" "sched_ok e (scheduler_ipi e c s)"
  using do_pending_ok [OF assms(1) take_list_ok(1) [OF assms(2)], of "wake_list (rqs s c)" c c] take_list_ok(2) [OF assms(2)] okD(8) [OF assms(2)]
  by (auto simp: sched_ttwu_pending_def scheduler_ipi_def Let_def)

lemma do_wakeup_ok:
  assumes "env_ok e" "sched_ok e s" "on_rq (tasks s p)"
  shows "sched_ok e (ttwu_do_wakeup e c p s)"
  using same_ok [OF do_wakeup_view [OF env_okD(1) [OF assms(1)]]] running_ok [OF assms(2,3)] by simp

text \<open>A task that is asleep and not being woken is activated directly.\<close>

lemma direct_wakeup_ok:
  assumes "env_ok e" "sched_ok e s" "p \<in> set (pids s)" "\<not> on_rq (tasks s p)" "t_state (tasks s p) \<noteq> TASK_WAKING" "c = t_cpu (tasks s p)"
  shows "sched_ok e (ttwu_do_wakeup e c p (ttwu_activate e c p flags s))"
proof -
  have "contrib e p s = bit_of (load_sleeper e s p)" using assms(4,5) by (simp add: contrib_def bit_of_def load_sleeper_def)
  then show ?thesis
    using same_ok [OF ttwu_wakeup_view [OF env_okD(1) [OF assms(1)], of c p flags s]]
      queue_task_ok [OF assms(2,1,3,4)] not_waking [OF assms(2)] assms(5,6) by simp
qed

lemma local_wakeup_ok:
  assumes "env_ok e" "sched_ok e s" "p \<in> set (pids s)" "try_to_wake_up_local e c p s = Some s'"
  shows "sched_ok e s'"
proof -
  have p: "t_cpu (tasks s p) = c" using assms(4) by (auto simp: try_to_wake_up_local_def split: if_splits)
  show ?thesis
  proof (cases "t_state (tasks s p) AND TASK_NORMAL = 0")
    case True
    then show ?thesis using assms(2,4) by (auto simp: try_to_wake_up_local_def split: if_splits)
  next
    case False
    then have "t_state (tasks s p) \<noteq> TASK_WAKING" by auto
    then show ?thesis
      using assms(4) False p direct_wakeup_ok [OF assms(1-3)] do_wakeup_ok [OF assms(1,2)]
      by (cases "on_rq (tasks s p)") (auto simp: try_to_wake_up_local_def split: if_splits)
  qed
qed

lemma fallback_view:
  assumes "env_ok e" "select_fallback_rq e p s = (c, u)"
  shows "same u s" "c \<in> set (se_possible e)"
proof -
  have fb: "same u s \<and> c \<in> set (se_possible e)" if "filter (\<lambda>c. cpus_active s c \<and> cpus_allowed (tasks s p) c) (se_possible e) = []"
    using assms(2) that env_okD(5) [OF assms(1)]
    by (auto simp: select_fallback_rq_def others_ok_def split: prod.splits intro!: same_upd_task simp: same_task_def) (metis fst_conv)
  have "same u s \<and> c \<in> set (se_possible e)"
  proof (cases "filter (\<lambda>c. cpus_active s c \<and> cpus_allowed (tasks s p) c) (se_possible e)")
    case (Cons d ds)
    then have "d \<in> set (se_possible e)" by (metis filter_is_subset list.set_intros(1) subsetD)
    then show ?thesis using Cons assms(2) by (simp add: select_fallback_rq_def)
  qed (rule fb)
  then show "same u s" "c \<in> set (se_possible e)" by auto
qed

lemma select_view:
  assumes "env_ok e" "sched_ok e s" "select_task_rq e p s = (c, u)"
  shows "same u s" "c \<in> set (se_possible e)"
proof -
  obtain d v where d: "se_select e p s = (d, v)" by (cases "se_select e p s")
  have v: "same v s" by (rule select_same [OF env_okD(1) [OF assms(1)] d])
  have "same u s \<and> c \<in> set (se_possible e)"
  proof (cases "\<not> cpus_allowed (tasks v p) d \<or> \<not> cpus_online v d")
    case True
    then have "select_fallback_rq e p v = (c, u)" using assms(3) d by (simp add: select_task_rq_def)
    then show ?thesis using fallback_view [OF assms(1)] v same_trans by blast
  next
    case False
    then show ?thesis using assms(3) d v okD(6) [OF assms(2)] by (simp add: select_task_rq_def same_simps [OF v])
  qed
  then show "same u s" "c \<in> set (se_possible e)" by auto
qed

lemma wake_up_ok:
  assumes "env_ok e" "sched_ok e s" "p \<in> set (pids s)" "states AND TASK_WAKING = 0" "try_to_wake_up e this p states s = Some (b, s')"
  shows "sched_ok e s'"
proof (cases "t_state (tasks s p) AND states = 0")
  case True
  then show ?thesis using assms(2,5) by (simp add: try_to_wake_up_def)
next
  case state: False
  then have nw: "t_state (tasks s p) \<noteq> TASK_WAKING" using assms(4) by (auto simp: and.commute)
  show ?thesis
  proof (cases "on_rq (tasks s p) \<or> on_cpu (tasks s p)")
    case True
    then show ?thesis
      using assms(5) state do_wakeup_ok [OF assms(1,2)] direct_wakeup_ok [OF assms(1-3) _ nw]
      by (cases "on_rq (tasks s p)") (auto simp: try_to_wake_up_def ttwu_remote_def ttwu_activate_remote_def Let_def split: if_splits)
  next
    case off: False
    let ?w = "upd_task p (\<lambda>t. t\<lparr>contributes_to_load := contributes e p s, t_state := TASK_WAKING\<rparr>) s"
    let ?v = "se_op e (Task_waking (class_of p ?w) p) ?w"
    obtain c u where c: "select_task_rq e p ?v = (c, u)" by (cases "select_task_rq e p ?v")
    have v: "same ?v ?w" "sched_ok e ?v"
      using op_same [OF env_okD(1) [OF assms(1)]] waking_ok [OF assms(2,3) _ nw] off same_ok by blast+
    note cu = select_view [OF assms(1) v(2) c]
    have u: "same u ?w" "sched_ok e u" using same_trans [OF cu(1) v(1)] same_ok [OF cu(1)] v(2) by auto
    have nl: "p \<notin> set (wake_list (rqs s d))" for d by (rule not_waking [OF assms(2)]) (use nw in simp)
    let ?x = "if t_cpu (tasks u p) \<noteq> c then set_task_cpu p c u else u"
    have "sched_ok e ?x"
      using set_cpu_ok [OF u(2), of p c] u(2) cu(2) assms(3) off nl by (auto simp: same_simps [OF u(1)])
    moreover have "wakeable ?x c p"
      using assms(3) off nl by (auto simp: wakeable_def same_simps [OF u(1)] set_task_cpu_def)
    ultimately have "sched_ok e (ttwu_queue e this p c ?x)"
      using do_activate_ok(1) [OF assms(1), of ?x c p] remote_ok [of e ?x p c] by (simp add: ttwu_queue_def wakeable_def del: upd_simps)
    moreover have "s' = ttwu_queue e this p c ?x"
      using assms(5) state off c by (simp add: try_to_wake_up_def ttwu_remote_def Let_def)
    ultimately show ?thesis by simp
  qed
qed

end
