(* ===== verification/Sched_Frames.thy ===== *)
theory Sched_Frames
  imports Sched_Steps
begin

text \<open>
  The steps of the scheduler that leave the queues as they find them: changes of priority, policy and affinity, which take a
  task off its queue and put it back, and the changes of the current task of a CPU or of the CPU masks.
\<close>

section \<open>Fields outside the counters\<close>

lemma totals_ok:
  assumes "sched_ok e s" "\<And>q. same_task (tasks u q) (tasks s q)" "pids u = pids s"
    "\<And>d. rq_nr_running (rqs u d) = rq_nr_running (rqs s d)"
    "total e rq_nr_uninterruptible u = total e rq_nr_uninterruptible s"
    "\<And>d. idle (rqs u d) = idle (rqs s d)" "\<And>d. wake_list (rqs u d) = wake_list (rqs s d)"
    "\<And>d. cpus_online u d \<Longrightarrow> d \<in> set (se_possible e)"
    "\<And>d. d \<in> set (se_possible e) \<Longrightarrow> in_schedule u d = None \<Longrightarrow> curr (rqs u d) = idle (rqs s d) \<or> runnable s d (curr (rqs u d))"
    "load_ok e u"
  shows "sched_ok e u"
proof -
  have t: "on_rq (tasks u q) = on_rq (tasks s q)" "t_cpu (tasks u q) = t_cpu (tasks s q)" "t_state (tasks u q) = t_state (tasks s q)" for q
    using assms(2) [of q] by (auto simp: same_task_def)
  have r: "runnable u d q = runnable s d q" "load_sleeper e u q = load_sleeper e s q" for d q
    using assms(2) [of q] by (auto simp: same_task_def runnable_def load_sleeper_def contributes_def)
  have "counts_ok e u"
    using assms(1,5) number_cong [OF r(1)] number_cong [OF r(2)] by (simp add: sched_ok_def counts_ok_def assms(3,4))
  moreover have "queues_ok e u"
    using assms(1,8,9) by (simp add: sched_ok_def queues_ok_def assms(3,6,7) t runnable_def)
  ultimately show ?thesis using assms(10) by (simp add: sched_ok_def)
qed

lemma frame_ok:
  assumes "sched_ok e s" "\<And>q. same_task (tasks u q) (tasks s q)" "pids u = pids s"
    "\<And>d. rq_nr_running (rqs u d) = rq_nr_running (rqs s d)" "\<And>d. rq_nr_uninterruptible (rqs u d) = rq_nr_uninterruptible (rqs s d)"
    "\<And>d. idle (rqs u d) = idle (rqs s d)" "\<And>d. wake_list (rqs u d) = wake_list (rqs s d)"
    "\<And>d. cpus_online u d \<Longrightarrow> d \<in> set (se_possible e)"
    "\<And>d. d \<in> set (se_possible e) \<Longrightarrow> in_schedule u d = None \<Longrightarrow> curr (rqs u d) = idle (rqs s d) \<or> runnable s d (curr (rqs u d))"
    "load_ok e u"
  shows "sched_ok e u"
  by (rule totals_ok [OF assms(1-4) total_cong [of rq_nr_uninterruptible u s e, OF assms(5)] assms(6-10)])

lemma load_same:
  assumes "load_ok e s" "calc_load_tasks u + calc_load_tasks_idle u = calc_load_tasks s + calc_load_tasks_idle s"
    "\<And>d. calc_load_active (rqs u d) = calc_load_active (rqs s d)"
  shows "load_ok e u"
  using assms(1,2) total_cong [of calc_load_active u s e, OF assms(3)] by (simp add: load_ok_def)

lemma okD_load: "sched_ok e s \<Longrightarrow> load_ok e s"
  by (simp add: sched_ok_def)

lemma begin_ok:
  assumes "sched_ok e s"
  shows "sched_ok e (s\<lparr>in_schedule := (in_schedule s)(c := Some v)\<rparr>)"
  by (rule frame_ok [OF assms])
    (use okD(5,6) [OF assms] in \<open>auto simp: same_task_def split: if_splits intro: load_same [OF okD_load [OF assms]]\<close>)

lemma current_ok:
  assumes "sched_ok e s" "nxt = idle (rqs s c) \<or> runnable s c nxt"
  shows "sched_ok e ((upd_rq c (\<lambda>r. r\<lparr>curr := nxt\<rparr>) s)\<lparr>in_schedule := (in_schedule s)(c := None)\<rparr>)"
  by (rule frame_ok [OF assms(1)])
    (use assms(2) okD(5,6) [OF assms(1)] in \<open>auto simp: same_task_def split: if_splits intro: load_same [OF okD_load [OF assms(1)]]\<close>)

lemma mark_ok:
  assumes "sched_ok e s" "c \<in> set (se_possible e)"
  shows "sched_ok e (s\<lparr>cpus_online := (cpus_online s)(c := b)\<rparr>)"
  by (rule frame_ok [OF assms(1)])
    (use assms(2) okD(5,6) [OF assms(1)] in \<open>auto simp: same_task_def split: if_splits intro: load_same [OF okD_load [OF assms(1)]]\<close>)

lemma active_ok:
  assumes "sched_ok e s"
  shows "sched_ok e (snd (sched_cpu_active action c s))" "sched_ok e (snd (sched_cpu_inactive action c s))"
proof -
  have "sched_ok e (s\<lparr>cpus_active := a\<rparr>)" for a
    by (rule frame_ok [OF assms])
      (use okD(5,6) [OF assms] in \<open>auto simp: same_task_def intro: load_same [OF okD_load [OF assms]]\<close>)
  then show "sched_ok e (snd (sched_cpu_active action c s))" "sched_ok e (snd (sched_cpu_inactive action c s))"
    using assms by (simp_all add: sched_cpu_active_def sched_cpu_inactive_def)
qed

section \<open>Sequences of updates\<close>

text \<open>The rules by which a body of the source is followed statement by statement.\<close>

lemma same_Let_state:
  fixes a s :: "'c sched" and f :: "'c sched \<Rightarrow> 'c sched"
  shows "same a s \<Longrightarrow> (\<And>x. same x s \<Longrightarrow> same (f x) s) \<Longrightarrow> same (Let a f) s"
  by (simp add: Let_def)

lemma same_Let: "(\<And>x. same (f x) s) \<Longrightarrow> same (Let a f) s"
  by (simp add: Let_def)

lemma same_if: "same a s \<Longrightarrow> same b s \<Longrightarrow> same (if q then a else b) s"
  by simp

lemma queue_trans:
  assumes "class_ops_ok e" "same u s"
  shows "same (enqueue_task e c p flags u) s" "same (dequeue_task e c p flags u) s" "same (update_rq_clock e c u) s"
    "same (check_preempt_curr e c p u) s" "same (check_class_changed e c p cls prio u) s"
  by (rule same_trans [OF _ assms(2)], intro queue_same update_rq_clock_same check_preempt_same class_changed_same assms(1))+

lemmas same_steps = same_Let_state same_Let same_if

text \<open>A task goes back to its queue.\<close>

lemma requeue:
  assumes "class_ops_ok e" "same u (count c (- 1) (contrib e p s) s)"
  shows "same (activate_task e c p flags u) s"
proof -
  have k: "contrib e p u = contrib e p s" using contrib_same [OF assms(2)] by simp
  have "same (count c 1 (- contrib e p u) u) (count c 1 (- contrib e p s) (count c (- 1) (contrib e p s) s))"
    unfolding k by (rule same_count [OF assms(2)])
  from same_trans [OF this same_count_count] have "same (count c 1 (- contrib e p u) u) s"
    using same_trans [OF _ same_count_zero] by simp
  then show ?thesis by (rule same_trans [OF activate_view [OF assms(1)]])
qed

lemma same_task_prio:
  "same_task (setscheduler g pol prio t) t" "same_task (renice n t) t" "same_task (t\<lparr>t_class := cl\<rparr>) t" "same_task (t\<lparr>t_prio := pr\<rparr>) t"
  "same_task (t\<lparr>reset_on_fork := r\<rparr>) t" "same_task (t\<lparr>static_prio := pr\<rparr>) t" "same_task (t\<lparr>cpus_allowed := m\<rparr>) t"
  by (simp_all add: same_task_def setscheduler_def renice_def effective_prio_def Let_def)

lemma user_nice_same:
  assumes "class_ops_ok e"
  shows "same (set_user_nice e p n s) s"
  unfolding set_user_nice_def
  by (rule same_steps same_refl same_resched same_upd_task same_task_prio queue_trans assms | assumption)+

text \<open>The same for a function that may stop, and for one with a result.\<close>

definition same_opt :: "'c sched option \<Rightarrow> 'c sched \<Rightarrow> bool" where
  "same_opt r s \<longleftrightarrow> (\<forall>u. r = Some u \<longrightarrow> same u s)"

definition same_snd :: "'a \<times> 'c sched \<Rightarrow> 'c sched \<Rightarrow> bool" where
  "same_snd r s \<longleftrightarrow> same (snd r) s"

lemma opt_Let_state:
  fixes a s :: "'c sched" and f :: "'c sched \<Rightarrow> 'c sched option"
  shows "same a s \<Longrightarrow> (\<And>x. same x s \<Longrightarrow> same_opt (f x) s) \<Longrightarrow> same_opt (Let a f) s"
  by (simp add: Let_def)

lemma opt_steps:
  "(\<And>x. same_opt (f x) s) \<Longrightarrow> same_opt (Let a f) s" "same_opt v s \<Longrightarrow> same_opt w s \<Longrightarrow> same_opt (if q then v else w) s"
  "same_opt None s" "same u s \<Longrightarrow> same_opt (Some u) s"
  by (simp_all add: Let_def same_opt_def)

lemma setprio_same:
  assumes "class_ops_ok e" "rt_mutex_setprio e p prio s = Some s'"
  shows "same s' s"
proof -
  have "same_opt (rt_mutex_setprio e p prio s) s"
    unfolding rt_mutex_setprio_def
    by (rule opt_Let_state opt_steps same_steps same_refl same_upd_task same_task_prio queue_trans op_same_trans assms(1) | assumption)+
  then show ?thesis using assms(2) by (simp add: same_opt_def)
qed

lemma snd_Let_state:
  fixes a s v :: "'c sched" and f :: "'c sched \<Rightarrow> 'a \<times> 'c sched"
  shows "same a v \<Longrightarrow> (\<And>x. same x v \<Longrightarrow> same_snd (f x) s) \<Longrightarrow> same_snd (Let a f) s"
  by (simp add: Let_def)

lemma snd_steps:
  "(\<And>x. same_snd (f x) s) \<Longrightarrow> same_snd (Let a f) s" "same_snd v s \<Longrightarrow> same_snd w s \<Longrightarrow> same_snd (if q then v else w) s"
  "same u s \<Longrightarrow> same_snd (r, u) s"
  by (simp_all add: Let_def same_snd_def)

text \<open>Between taking the task off and putting it back the view is that of \<open>off_queue\<close>.\<close>

definition off_queue :: "'c sched_env \<Rightarrow> nat \<Rightarrow> 'c sched \<Rightarrow> 'c sched" where
  "off_queue e p s = (if on_rq (tasks s p) then count (t_cpu (tasks s p)) (- 1) (contrib e p s) s else s)"

lemma let_values: "Let (b :: bool) f = f b" "Let (n :: nat) g = g n" "Let (i :: int) h = h i" "Let (k :: sched_class) m = m k"
  by (simp_all add: Let_def)

lemma off_start:
  assumes "class_ops_ok e"
  shows "same (if on_rq (tasks s p) then deactivate_task e (t_cpu (tasks s p)) p flags s else s) (off_queue e p s)"
  using deactivate_view [OF assms] by (simp add: off_queue_def)

lemma off_end:
  assumes "class_ops_ok e" "same w (off_queue e p s)"
  shows "same (if on_rq (tasks s p) then activate_task e (t_cpu (tasks s p)) p flags w else w) s"
    "same (if on_rq (tasks s p) then resched_task q (activate_task e (t_cpu (tasks s p)) p flags w) else w) s"
proof -
  have "same (activate_task e (t_cpu (tasks s p)) p flags w) s" if "on_rq (tasks s p)"
    by (rule requeue [OF assms(1)]) (use assms(2) that in \<open>simp add: off_queue_def\<close>)
  then show "same (if on_rq (tasks s p) then activate_task e (t_cpu (tasks s p)) p flags w else w) s"
    "same (if on_rq (tasks s p) then resched_task q (activate_task e (t_cpu (tasks s p)) p flags w) else w) s"
    using assms(2) by (auto simp: off_queue_def same_resched)
qed

lemma setscheduler_same:
  assumes "class_ops_ok e"
  shows "same (snd (sched_setscheduler e ca z p pol prio s)) s"
proof (cases "setscheduler_checks ca pol prio (tasks s p)")
  case (Inr r)
  obtain policy reset where r: "r = (policy, reset)" by (cases r)
  have "same_snd (sched_setscheduler e ca z p pol prio s) s"
    unfolding sched_setscheduler_def Inr r sum.case prod.case let_values
    by (rule snd_Let_state [OF off_start] snd_Let_state [OF off_end(1)] snd_Let_state [where v = "off_queue e p s"] snd_steps
      same_if same_refl same_upd_task same_task_prio queue_trans op_same_trans assms | assumption)+
  then show ?thesis by (simp add: same_snd_def)
qed (simp add: sched_setscheduler_def)

lemma off_Let:
  fixes a s :: "'c sched" and f :: "'c sched \<Rightarrow> 'c sched"
  shows "same a (off_queue e p s) \<Longrightarrow> (\<And>x. same x (off_queue e p s) \<Longrightarrow> same (f x) s) \<Longrightarrow> same (Let a f) s"
  by (simp add: Let_def)

lemma normalize_same:
  assumes "class_ops_ok e"
  shows "same (normalize_one e p s) s" "same (normalize_rt_tasks e s) s"
proof -
  have t: "same (normalize_task e p s) s" for p and s :: "'a sched"
    unfolding normalize_task_def let_values
    by (rule off_Let [OF off_start] same_Let_state [OF off_end(2)] off_Let
      same_refl same_upd_task same_task_prio queue_trans assms | assumption)+
  have o: "same (normalize_one e p s) s" for p and s :: "'a sched"
    by (simp add: normalize_one_def t user_nice_same [OF assms])
  show "same (normalize_one e p s) s" by (rule o)
  have "same (fold (normalize_one e) ps u) u" for ps and u :: "'a sched"
    by (induction ps arbitrary: u) (auto intro: same_trans o)
  then show "same (normalize_rt_tasks e s) s" by (simp add: normalize_rt_tasks_def)
qed

lemma affinity_same:
  assumes "class_ops_ok e"
  shows "same (snd (snd (set_cpus_allowed_ptr e b p m s))) s"
proof -
  have "same (do_set_cpus_allowed e p m s) s"
    unfolding do_set_cpus_allowed_def by (rule same_upd_task [OF op_same [OF assms]]) (rule same_task_prio)
  then show ?thesis by (simp add: set_cpus_allowed_ptr_def Let_def split: option.split)
qed

end
