(* ===== verification/Sched_Switch.thy ===== *)
theory Sched_Switch
  imports Sched_Frames
begin

text \<open>
  The steps that change the queues or the current task: the two halves of \<open>__schedule\<close>, forking, migration, and the
  accounting of the load at the tick and on the way to idle.
\<close>

section \<open>The scheduler\<close>

lemma schedule_sleep_ok:
  assumes "env_ok e" "sched_ok e s" "c \<in> set (se_possible e)" "in_schedule s c \<noteq> None" "runnable s c p"
    "(let s = deactivate_task e c p DEQUEUE_SLEEP s; s = upd_task p (\<lambda>t. t\<lparr>on_rq := False\<rparr>) s
      in if t_flags (tasks s p) AND PF_WQ_WORKER \<noteq> 0
         then (case se_wq_sleeping e p c s of None \<Rightarrow> Some s | Some w \<Rightarrow> try_to_wake_up_local e c w s) else Some s) = Some s'"
  shows "sched_ok e s'"
proof -
  define d where "d = upd_task p (\<lambda>t. t\<lparr>on_rq := False\<rparr>) (deactivate_task e c p DEQUEUE_SLEEP s)"
  have v: "same d (upd_task p (\<lambda>t. t\<lparr>on_rq := False\<rparr>) (count c (- 1) (contrib e p s) s))"
    unfolding d_def by (rule same_upd_task_cong [OF deactivate_view [OF env_okD(1) [OF assms(1)]]]) (auto simp: same_task_def)
  have d: "sched_ok e d" using sleep_ok [OF assms(2,1,5,3,4)] same_ok [OF v] by simp
  have k: "(if t_flags (tasks d p) AND PF_WQ_WORKER \<noteq> 0
    then (case se_wq_sleeping e p c d of None \<Rightarrow> Some d | Some w \<Rightarrow> try_to_wake_up_local e c w d) else Some d) = Some s'"
    using assms(6) unfolding d_def Let_def .
  have "w \<in> set (pids d)" if "se_wq_sleeping e p c d = Some w" for w
    using that env_okD(5) [OF assms(1)] by (simp add: others_ok_def)
  then show ?thesis using k d local_wakeup_ok [OF assms(1) d] by (simp split: if_splits option.splits)
qed

lemma schedule_out_ok:
  assumes "env_ok e" "sched_ok e s" "c \<in> set (se_possible e)" "in_schedule s c = None" "schedule_out e c active s = Some s'"
  shows "sched_ok e s'"
proof (cases "t_state (tasks s (curr (rqs s c))) \<noteq> 0 \<and> \<not> active")
  case False
  then have "s' = s\<lparr>in_schedule := (in_schedule s)(c := Some False)\<rparr>" using assms(5) by (auto simp: schedule_out_def Let_def)
  then show ?thesis using begin_ok [OF assms(2)] by simp
next
  case True
  let ?prev = "curr (rqs s c)"
  define v where "v = s\<lparr>in_schedule := (in_schedule s)(c := Some True)\<rparr>"
  have b: "sched_ok e v" "in_schedule v c \<noteq> None" unfolding v_def using begin_ok [OF assms(2)] by simp_all
  have "?prev \<noteq> idle (rqs s c)" using True okD(4) [OF assms(2,3)] by auto
  then have "runnable s c ?prev" using okD(5) [OF assms(2-4)] by simp
  then have r: "runnable v c ?prev" by (simp add: runnable_def v_def)
  have body: "schedule_out e c active s =
     (if se_signal e ?prev v then Some (upd_task ?prev (\<lambda>t. t\<lparr>t_state := TASK_RUNNING\<rparr>) v)
      else let s = deactivate_task e c ?prev DEQUEUE_SLEEP v; s = upd_task ?prev (\<lambda>t. t\<lparr>on_rq := False\<rparr>) s
           in if t_flags (tasks s ?prev) AND PF_WQ_WORKER \<noteq> 0
              then (case se_wq_sleeping e ?prev c s of None \<Rightarrow> Some s | Some w \<Rightarrow> try_to_wake_up_local e c w s) else Some s)"
    using True by (simp only: schedule_out_def Let_def v_def if_True not_False_eq_True simp_thms)
  have "sched_ok e (upd_task ?prev (\<lambda>t. t\<lparr>t_state := TASK_RUNNING\<rparr>) v)"
    by (rule running_ok [OF b(1)]) (use r in \<open>simp add: runnable_def\<close>)
  then show ?thesis
    using assms(5) schedule_sleep_ok [OF assms(1) b(1) assms(3) b(2) r] unfolding body by (cases "se_signal e ?prev v") auto
qed

text \<open>The next task, and that the choice changes nothing but the data of the classes.\<close>

lemma frame_trans: "class_frame s t \<Longrightarrow> class_frame t u \<Longrightarrow> class_frame s u"
  by (fastforce simp: class_frame_def)

lemma pick_classes_frame:
  assumes "class_ops_ok e" "pick_classes e c cs s = Some (p, u)"
  shows "class_frame s u \<and> (\<exists>cls v. class_frame s v \<and> pick_ok c cls p v)"
  using assms(2)
proof (induction cs arbitrary: s)
  case (Cons cls cs)
  obtain r v where r: "se_pick e cls c s = (r, v)" by (cases "se_pick e cls c s")
  have v: "class_frame s v" using assms(1) r by (metis class_ops_ok_def snd_conv)
  show ?case
  proof (cases r)
    case None
    then show ?thesis using Cons.IH [of v] Cons.prems r v frame_trans by fastforce
  next
    case (Some q)
    then have "pick_ok c cls q s" using assms(1) r by (metis class_ops_ok_def fst_conv)
    moreover have "class_frame s s" by (auto simp: class_frame_def intro!: exI sched.equality [symmetric])
    ultimately show ?thesis using Cons.prems Some r v by auto
  qed
qed simp

lemma pick_next_frame:
  assumes "class_ops_ok e" "pick_next_task e c s = Some (p, u)"
  shows "class_frame s u \<and> (\<exists>cls v. class_frame s v \<and> pick_ok c cls p v)"
proof (rule pick_classes_frame [OF assms(1)])
  show "pick_classes e c (if rq_nr_running (rqs s c) = cfs_nr_running s c then Fair_class # all_classes else all_classes) s = Some (p, u)"
    using assms(2) by (simp add: pick_next_task_def split: if_splits)
qed

lemma pick_next_runnable:
  assumes "class_ops_ok e" "pick_next_task e c s = Some (p, u)"
  shows "same u s" "p = idle (rqs s c) \<or> runnable s c p"
proof -
  show "same u s" by (rule same_frame) (use pick_next_frame [OF assms] in simp)
  show "p = idle (rqs s c) \<or> runnable s c p"
  proof -
    obtain cls v where "class_frame s v" "pick_ok c cls p v" using pick_next_frame [OF assms] by blast
    then show ?thesis by (cases cls) (auto simp: class_frame_def pick_ok_def runnable_def)
  qed
qed

lemma schedule_in_ok:
  assumes "env_ok e" "sched_ok e s" "schedule_in e c s = Some s'"
  shows "sched_ok e s'"
proof -
  let ?prev = "curr (rqs s c)"
  let ?v = "put_prev_task e c ?prev s"
  obtain vol where vol: "in_schedule s c = Some vol" using assms(3) by (auto simp: schedule_in_def split: option.splits)
  obtain nxt u where n: "pick_next_task e c ?v = Some (nxt, u)"
    using assms(3) by (auto simp: schedule_in_def vol Let_def split: option.splits)
  have v: "same ?v s"
    unfolding put_prev_task_def by (rule same_steps op_same_trans queue_trans same_refl env_okD(1) [OF assms(1)] | assumption)+
  note pick = pick_next_runnable [OF env_okD(1) [OF assms(1)] n]
  have u: "same u s" by (rule same_trans [OF pick(1) v])
  have nx: "nxt = idle (rqs u c) \<or> runnable u c nxt" using pick(2) by (simp add: runnable_def same_simps [OF v] same_simps [OF u])
  have "same (if ?prev \<noteq> nxt then switch_to c ?prev nxt vol w else w) (upd_rq c (\<lambda>r. r\<lparr>curr := nxt\<rparr>) u)" if "same w u" for w
    using that same_simps(6) [OF u] by (auto simp: switch_to_def same_def same_task_def same_rq_def Let_def)
  note this [OF same_upd_rq [where f = "\<lambda>r. r\<lparr>skip_clock_update := 0\<rparr>"], of _ c]
  then have "same s' ((upd_rq c (\<lambda>r. r\<lparr>curr := nxt\<rparr>) u)\<lparr>in_schedule := (in_schedule u)(c := None)\<rparr>)"
    using assms(3) n by (auto simp: schedule_in_def vol Let_def switch_to_def same_def same_task_def same_rq_def same_simps(6) [OF u])
  moreover have "sched_ok e ((upd_rq c (\<lambda>r. r\<lparr>curr := nxt\<rparr>) u)\<lparr>in_schedule := (in_schedule u)(c := None)\<rparr>)"
    by (rule current_ok [OF _ nx]) (use same_ok [OF u] assms(2) in simp)
  ultimately show ?thesis using same_ok by blast
qed

section \<open>Fork\<close>

lemma new_task_ok:
  assumes "env_ok e" "sched_ok e s" "p \<notin> set (pids s)" "\<forall>d. idle (rqs s d) \<noteq> p" "\<not> on_rq t" "t_state t = TASK_RUNNING"
    "t_cpu t \<in> set (se_possible e)"
  shows "sched_ok e (s\<lparr>tasks := (tasks s)(p := t), pids := p # pids s\<rparr>)"
proof -
  let ?u = "s\<lparr>tasks := (tasks s)(p := t), pids := p # pids s\<rparr>"
  have r: "runnable ?u c q = (q \<noteq> p \<and> runnable s c q)" "load_sleeper e ?u q = (if q = p then False else load_sleeper e s q)" for c q
    using assms(5,6) env_okD(3) [OF assms(1)] by (auto simp: runnable_def load_sleeper_def contributes_def)
  have n: "number (runnable ?u c) (pids ?u) = number (runnable s c) (pids s)" "number (load_sleeper e ?u) (pids ?u) = number (load_sleeper e s) (pids s)" for c
  proof -
    have "number P (p # pids s) = number Q (pids s)" if "\<not> P p" "\<And>q. q \<noteq> p \<Longrightarrow> P q = Q q" for P Q
    proof -
      have "filter P (pids s) = filter Q (pids s)" by (rule filter_cong [OF refl]) (metis that(2) assms(3))
      then show ?thesis using that(1) by (simp add: number_def)
    qed
    from this [of "runnable ?u c" "runnable s c"] this [of "load_sleeper e ?u" "load_sleeper e s"]
    show "number (runnable ?u c) (pids ?u) = number (runnable s c) (pids s)" "number (load_sleeper e ?u) (pids ?u) = number (load_sleeper e s) (pids s)"
      by (simp_all add: r)
  qed
  have "counts_ok e ?u" using assms(2) n by (simp add: sched_ok_def counts_ok_def total_def)
  moreover have "queues_ok e ?u"
    using assms(2-7) okD(1) [OF assms(2)] by (auto simp: sched_ok_def queues_ok_def)
  moreover have "load_ok e ?u" by (rule load_same [OF okD_load [OF assms(2)]]) simp_all
  ultimately show ?thesis by (simp add: sched_ok_def)
qed

lemma set_task_cpu_cong: "same u s \<Longrightarrow> same (set_task_cpu p c u) (set_task_cpu p c s)"
  unfolding set_task_cpu_def by (rule same_upd_task_cong) (auto simp: same_task_def)

lemma fork_ok:
  assumes "env_ok e" "sched_ok e s" "c \<in> set (se_possible e)" "p \<notin> set (pids s)" "\<forall>d. idle (rqs s d) \<noteq> p"
  shows "sched_ok e (wake_up_new_task e p (sched_fork e c p (copied c p s)))"
proof -
  let ?k = "copied c p s"
  let ?t = "fork_prio (tasks ?k (curr (rqs ?k c))) (tasks ?k p)"
  let ?n = "s\<lparr>tasks := (tasks s)(p := ?t\<lparr>t_cpu := c\<rparr>), pids := p # pids s\<rparr>"
  define f where "f = sched_fork e c p ?k"
  note ce = env_okD(1) [OF assms(1)]
  have new: "\<not> on_rq ?t" "t_state ?t = TASK_RUNNING" by (simp_all add: fork_prio_def Let_def)
  have "same f (upd_task p (\<lambda>t. t\<lparr>on_cpu := False\<rparr>) (set_task_cpu p c (upd_task p (fork_prio (tasks ?k (curr (rqs ?k c)))) ?k)))"
    unfolding f_def sched_fork_def Let_def
    by (rule same_upd_task_cong [OF set_task_cpu_cong [OF op_same [OF ce]]]) (simp add: same_task_def)
  then have "same f ?n"
    by (rule same_trans) (auto simp: same_def same_task_def same_rq_def set_task_cpu_def copied_def upd_task_def)
  moreover have "sched_ok e ?n" by (rule new_task_ok [OF assms(1,2,4,5)]) (use new assms(3) in simp_all)
  ultimately have f: "sched_ok e f" "p \<in> set (pids f)" "\<not> on_rq (tasks f p)" "t_state (tasks f p) = TASK_RUNNING"
    using new by (simp_all add: same_simps same_ok)
  obtain cpu u where sel: "select_task_rq e p f = (cpu, u)" by (cases "select_task_rq e p f")
  note u = select_view [OF assms(1) f(1) sel]
  define v where "v = set_task_cpu p cpu u"
  have nl: "p \<notin> set (wake_list (rqs u d))" for d using not_waking [OF f(1)] f(4) by (simp add: same_simps [OF u(1)])
  have "sched_ok e v"
    unfolding v_def by (rule set_cpu_ok) (use f u nl in \<open>simp_all add: same_simps [OF u(1)] same_ok [OF u(1)]\<close>)
  moreover have p: "p \<in> set (pids v)" "\<not> on_rq (tasks v p)" "t_cpu (tasks v p) = cpu" "t_state (tasks v p) = TASK_RUNNING"
    "\<And>d. p \<notin> set (wake_list (rqs v d))"
    unfolding v_def set_task_cpu_def using f nl by (auto simp: same_simps [OF u(1)])
  ultimately have q: "sched_ok e (queue_task cpu p (bit_of (load_sleeper e v p)) v)" using queue_task_ok [OF _ assms(1), of v p] by simp
  have "contrib e p v = 0" "bit_of (load_sleeper e v p) = 0"
    using p(4) env_okD(3) [OF assms(1)] by (simp_all add: contrib_def load_sleeper_def contributes_def bit_of_def)
  then have "same (upd_task p (\<lambda>t. t\<lparr>on_rq := True\<rparr>) (count cpu 1 (- contrib e p v) v)) (queue_task cpu p (bit_of (load_sleeper e v p)) v)"
    using p(4) by (auto simp: queue_task_def same_def same_task_def same_rq_def)
  moreover have "same (upd_task p (\<lambda>t. t\<lparr>on_rq := True\<rparr>) (activate_task e cpu p 0 v)) (upd_task p (\<lambda>t. t\<lparr>on_rq := True\<rparr>) (count cpu 1 (- contrib e p v) v))"
    by (rule same_upd_task_cong [OF activate_view [OF ce]]) (simp add: same_task_def)
  ultimately have "same (upd_task p (\<lambda>t. t\<lparr>on_rq := True\<rparr>) (activate_task e cpu p 0 v)) (queue_task cpu p (bit_of (load_sleeper e v p)) v)"
    using same_trans by blast
  moreover have "wake_up_new_task e p f =
     (let s = check_preempt_curr e cpu p (upd_task p (\<lambda>t. t\<lparr>on_rq := True\<rparr>) (activate_task e cpu p 0 v)) in se_op e (Task_woken (class_of p s) cpu p) s)"
    using p(3) by (simp add: wake_up_new_task_def sel v_def Let_def)
  ultimately have "same (wake_up_new_task e p f) (queue_task cpu p (bit_of (load_sleeper e v p)) v)"
    by (simp only:) (rule same_Let_state op_same_trans queue_trans ce | assumption)+
  then show ?thesis using q same_ok f_def by blast
qed

section \<open>Migration\<close>

lemma contrib_set_cpu [simp]: "contrib e q (set_task_cpu p c s) = contrib e q s"
  by (simp add: contrib_def contributes_def set_task_cpu_def)

lemma pull_view:
  assumes "class_ops_ok e"
  shows "same (pull_task e p src dst s) (count dst 1 (- contrib e p s) (set_task_cpu p dst (count src (- 1) (contrib e p s) s)))"
proof -
  define v where "v = set_task_cpu p dst (deactivate_task e src p 0 s)"
  have v: "same v (set_task_cpu p dst (count src (- 1) (contrib e p s) s))"
    unfolding v_def by (rule set_task_cpu_cong [OF deactivate_view [OF assms]])
  have k: "contrib e p v = contrib e p s" using contrib_same [OF v] by simp
  show ?thesis
    unfolding pull_task_def v_def [symmetric]
    using same_trans [OF activate_view [OF assms, of dst p 0 v] same_count [OF v]] unfolding k .
qed

lemma pull_ok:
  assumes "env_ok e" "sched_ok e s" "on_rq (tasks s p)" "p \<noteq> curr (rqs s (t_cpu (tasks s p)))" "dst \<in> set (se_possible e)"
  shows "sched_ok e (pull_task e p (t_cpu (tasks s p)) dst s)"
  using move_ok [OF assms(2,1,3-5)] same_ok [OF pull_view [OF env_okD(1) [OF assms(1)]]] by simp

lemma migrate_task_pull:
  "snd (migrate_task e p src dst s) = s
   \<or> on_rq (tasks s p) \<and> t_cpu (tasks s p) = src \<and> snd (migrate_task e p src dst s) = check_preempt_curr e dst p (pull_task e p src dst s)"
  by (simp add: migrate_task_def pull_task_def)

lemma migrate_ok:
  assumes "env_ok e" "sched_ok e s" "p \<noteq> curr (rqs s src)" "dst \<in> set (se_possible e)"
  shows "sched_ok e (snd (migrate_task e p src dst s))"
  using migrate_task_pull [of e p src dst s]
proof (elim disjE conjE)
  assume p: "on_rq (tasks s p)" "t_cpu (tasks s p) = src"
    and m: "snd (migrate_task e p src dst s) = check_preempt_curr e dst p (pull_task e p src dst s)"
  have "sched_ok e (pull_task e p src dst s)" using pull_ok [OF assms(1,2) p(1) _ assms(4)] p(2) assms(3) by simp
  then show ?thesis unfolding m using same_ok [OF check_preempt_same [OF env_okD(1) [OF assms(1)]]] by blast
qed (use assms(2) in simp)

end
