(* ===== verification/Sched_Hotplug.thy ===== *)
theory Sched_Hotplug
  imports Sched_Switch
begin

text \<open>
  The accounting of the load at the tick, on the way to idle and every five seconds, and the hotplug callback, which empties
  the run queue of a CPU that goes down: all keep the counters.
\<close>

section \<open>The load\<close>

text \<open>Nothing but the accounting of the load differs.\<close>

definition same_queues :: "'c sched \<Rightarrow> 'c sched \<Rightarrow> bool" where
  "same_queues u s \<longleftrightarrow> (\<forall>p. same_task (tasks u p) (tasks s p)) \<and> pids u = pids s \<and> in_schedule u = in_schedule s \<and> cpus_online u = cpus_online s
     \<and> (\<forall>d. rq_nr_running (rqs u d) = rq_nr_running (rqs s d) \<and> rq_nr_uninterruptible (rqs u d) = rq_nr_uninterruptible (rqs s d)
          \<and> curr (rqs u d) = curr (rqs s d) \<and> idle (rqs u d) = idle (rqs s d) \<and> wake_list (rqs u d) = wake_list (rqs s d))"

lemma accounting_ok:
  assumes "sched_ok e s" "same_queues u s" "load_ok e u"
  shows "sched_ok e u"
  by (rule frame_ok [OF assms(1) _ _ _ _ _ _ _ _ assms(3)]) (use assms(2) okD(5,6) [OF assms(1)] in \<open>simp_all add: same_queues_def\<close>)

definition calc_load_total :: "'c sched \<Rightarrow> u32" where
  "calc_load_total s = calc_load_tasks s + calc_load_tasks_idle s"

lemma load_ok_total: "load_ok e s \<longleftrightarrow> calc_load_total s = total e calc_load_active s"
  by (simp add: load_ok_def calc_load_total_def)

lemma fold_active:
  assumes "distinct (se_possible e)" "c \<in> set (se_possible e)" "calc_load_fold_active c s = (delta, u)"
  shows "same_queues u s" "total e calc_load_active u = total e calc_load_active s + delta" "calc_load_total u = calc_load_total s"
    "calc_load_tasks u = calc_load_tasks s" "calc_load_tasks_idle u = calc_load_tasks_idle s"
proof -
  have k: "same_queues u s" "calc_load_active (rqs u c) - calc_load_active (rqs s c) = delta" "calc_load_total u = calc_load_total s"
    "d \<noteq> c \<Longrightarrow> calc_load_active (rqs u d) = calc_load_active (rqs s d)"
    "calc_load_tasks u = calc_load_tasks s" "calc_load_tasks_idle u = calc_load_tasks_idle s" for d
    using assms(3) by (auto simp: calc_load_fold_active_def Let_def same_queues_def same_task_def calc_load_total_def split: if_splits)
  then show "same_queues u s" "calc_load_total u = calc_load_total s"
    "calc_load_tasks u = calc_load_tasks s" "calc_load_tasks_idle u = calc_load_tasks_idle s" by blast+
  show "total e calc_load_active u = total e calc_load_active s + delta"
    using total_change [OF assms(1,2), of calc_load_active u s] k(2,4) by simp
qed

lemma account_idle_ok:
  assumes "distinct (se_possible e)" "sched_ok e s" "c \<in> set (se_possible e)"
  shows "sched_ok e (calc_load_account_idle c s)"
proof -
  obtain delta u where u: "calc_load_fold_active c s = (delta, u)" by (cases "calc_load_fold_active c s")
  note f = fold_active [OF assms(1,3) u]
  have e: "calc_load_account_idle c s = (if delta \<noteq> 0 then u\<lparr>calc_load_tasks_idle := calc_load_tasks_idle u + delta\<rparr> else u)"
    by (simp add: calc_load_account_idle_def u)
  show ?thesis
  proof (rule accounting_ok [OF assms(2)])
    show "same_queues (calc_load_account_idle c s) s" unfolding e using f(1) by (auto simp: same_queues_def)
    show "load_ok e (calc_load_account_idle c s)"
      unfolding e using f okD_load [OF assms(2)] by (auto simp: load_ok_total calc_load_total_def total_def algebra_simps)
  qed
qed

lemma fold_idle:
  assumes "calc_load_fold_idle s = (delta, u)"
  shows "same_queues u s" "calc_load_total u + delta = calc_load_total s" "rqs u = rqs s"
  using assms by (auto simp: calc_load_fold_idle_def same_queues_def same_task_def calc_load_total_def split: if_splits)

lemma same_queues_trans: "same_queues u t \<Longrightarrow> same_queues t s \<Longrightarrow> same_queues u s"
  by (auto simp: same_queues_def same_task_def)

lemma account_active_ok:
  assumes "distinct (se_possible e)" "sched_ok e s" "c \<in> set (se_possible e)"
  shows "sched_ok e (calc_load_account_active c s)"
proof (cases "time_before (jiffies s) (rq_calc_load_update (rqs s c))")
  case False
  obtain delta u where u: "calc_load_fold_active c s = (delta, u)" by (cases "calc_load_fold_active c s")
  obtain delta' v where v: "calc_load_fold_idle u = (delta', v)" by (cases "calc_load_fold_idle u")
  note f = fold_active [OF assms(1,3) u] and g = fold_idle [OF v]
  define w where "w = (if delta + delta' \<noteq> 0 then v\<lparr>calc_load_tasks := calc_load_tasks v + (delta + delta')\<rparr> else v)"
  have w: "calc_load_total w = calc_load_total v + (delta + delta')" "rqs w = rqs v" "same_queues w v"
    by (auto simp: w_def calc_load_total_def same_queues_def same_task_def)
  let ?r = "upd_rq c (\<lambda>r. r\<lparr>rq_calc_load_update := rq_calc_load_update r + c_uint LOAD_FREQ\<rparr>) w"
  have e: "calc_load_account_active c s = ?r" using False by (simp add: calc_load_account_active_def u v w_def Let_def)
  have "same_queues ?r w" by (simp add: same_queues_def same_task_def)
  then have q: "same_queues ?r s" using w(3) g(1) f(1) same_queues_trans by blast
  have t: "total e calc_load_active ?r = total e calc_load_active w" by (rule total_cong) simp
  have "total e calc_load_active w = total e calc_load_active u" by (simp add: total_def w(2) g(3))
  then have "load_ok e ?r"
    using okD_load [OF assms(2)] t f(2,3) g(2) w(1) by (simp add: load_ok_total) (simp add: calc_load_total_def algebra_simps)
  then show ?thesis unfolding e by (rule accounting_ok [OF assms(2) q])
qed (use assms(2) in \<open>simp add: calc_load_account_active_def\<close>)

lemma global_ok:
  assumes "sched_ok e s"
  shows "sched_ok e (calc_global_load s)"
proof -
  have nohz: "same_queues (calc_global_nohz s) s \<and> calc_load_total (calc_global_nohz s) = calc_load_total s \<and> rqs (calc_global_nohz s) = rqs s"
    for s :: "'a sched"
  proof -
    obtain delta u where u: "calc_load_fold_idle s = (delta, u)" by (cases "calc_load_fold_idle s")
    show ?thesis
      using fold_idle [OF u] by (auto simp: calc_global_nohz_def u Let_def upd_avenrun_def same_queues_def same_task_def calc_load_total_def algebra_simps)
  qed
  have "same_queues (calc_global_load s) s \<and> calc_load_total (calc_global_load s) = calc_load_total s \<and> rqs (calc_global_load s) = rqs s"
  proof (cases "time_before (jiffies s) (calc_load_update s + 10)")
    case True
    then show ?thesis by (simp add: calc_global_load_def same_queues_def same_task_def)
  next
    case False
    define v where "v = (upd_avenrun (\<lambda>load ex. calc_load load ex (active_fixed s)) s)\<lparr>calc_load_update := calc_load_update s + c_uint LOAD_FREQ\<rparr>"
    have "same_queues v s" "calc_load_total v = calc_load_total s" "rqs v = rqs s"
      by (simp_all add: v_def upd_avenrun_def same_queues_def same_task_def calc_load_total_def)
    moreover have "calc_global_load s = calc_global_nohz v" using False by (simp add: calc_global_load_def v_def Let_def upd_avenrun_def)
    ultimately show ?thesis using nohz [of v] same_queues_trans by auto
  qed
  then show ?thesis
    using accounting_ok [OF assms] okD_load [OF assms] by (simp add: load_ok_total total_def)
qed

section \<open>The tick\<close>

lemma avg_update_same: "sched_avg_update e c s = Some u \<Longrightarrow> same u s"
  by (auto simp: sched_avg_update_def intro!: same_upd_rq simp: same_rq_def)

lemma update_cpu_load_same:
  assumes "update_cpu_load e c s = Some u"
  shows "same u s"
proof -
  define v where "v = upd_rq c (\<lambda>r. r\<lparr>nr_load_updates := nr_load_updates r + 1\<rparr>) s"
  have v: "same v s" unfolding v_def by (rule same_upd_rq [OF same_refl]) (simp add: same_rq_def)
  have "u = v \<or> (\<exists>l. sched_avg_update e c (upd_rq c (\<lambda>r. r\<lparr>last_load_update_tick := jiffies v, cpu_load := l\<rparr>) v) = Some u)"
    using assms unfolding update_cpu_load_def Let_def v_def [symmetric] by (auto split: if_splits bind_splits)
  moreover have "same (upd_rq c (\<lambda>r. r\<lparr>last_load_update_tick := jiffies v, cpu_load := l\<rparr>) v) s" for l
    by (rule same_upd_rq [OF v]) (simp add: same_rq_def)
  ultimately show ?thesis using v avg_update_same same_trans by blast
qed

lemma tick_ok:
  assumes "env_ok e" "sched_ok e s" "c \<in> set (se_possible e)" "scheduler_tick e c (s\<lparr>jiffies := j\<rparr>) = Some s'"
  shows "sched_ok e s'"
proof -
  let ?j = "s\<lparr>jiffies := j\<rparr>"
  obtain op v where v: "update_cpu_load e c (update_rq_clock e c ?j) = Some v" and s': "s' = se_op e op (calc_load_account_active c v)"
    using assms(4) by (auto simp: scheduler_tick_def update_cpu_load_active_def Let_def)
  have "same ?j s" by (simp add: same_def same_task_def same_rq_def)
  then have "same v s"
    using update_cpu_load_same [OF v] queue_trans(3) [OF env_okD(1) [OF assms(1)]] same_trans by blast
  then have "sched_ok e v" using same_ok assms(2) by blast
  then have "sched_ok e (calc_load_account_active c v)" by (rule account_active_ok [OF env_okD(2) [OF assms(1)] _ assms(3)])
  then show ?thesis using same_ok [OF op_same [OF env_okD(1) [OF assms(1)]]] s' by blast
qed

section \<open>The hotplug callback\<close>

text \<open>What the callback needs to survive its steps: the class of every task, the current and the stop task, the active CPUs.\<close>

definition kept :: "'c sched \<Rightarrow> 'c sched \<Rightarrow> bool" where
  "kept u s \<longleftrightarrow> (\<forall>p. t_class (tasks u p) = t_class (tasks s p)) \<and> (\<forall>d. stop (rqs u d) = stop (rqs s d) \<and> curr (rqs u d) = curr (rqs s d))
     \<and> cpus_active u = cpus_active s"

lemma kept_refl: "kept s s"
  by (simp add: kept_def)

lemma kept_trans: "kept u t \<Longrightarrow> kept t s \<Longrightarrow> kept u s"
  by (simp add: kept_def)

lemma kept_frame: "class_frame s u \<Longrightarrow> kept u s"
  by (auto simp: class_frame_def kept_def)

lemma kept_op: "class_ops_ok e \<Longrightarrow> kept u s \<Longrightarrow> kept (se_op e op u) s"
  by (rule kept_trans [OF kept_frame]) (simp_all add: class_ops_ok_def)

lemma kept_upd_task: "kept u s \<Longrightarrow> (\<And>t. t_class (f t) = t_class t) \<Longrightarrow> kept (upd_task p f u) s"
  by (simp add: kept_def)

lemma kept_upd_rq: "kept u s \<Longrightarrow> (\<And>r. stop (f r) = stop r \<and> curr (f r) = curr r) \<Longrightarrow> kept (upd_rq c f u) s"
  by (simp add: kept_def)

lemma kept_resched: "kept u s \<Longrightarrow> kept (resched_task p u) s"
  by (simp add: kept_def resched_task_def)

lemma kept_Let_state:
  fixes a s :: "'c sched" and f :: "'c sched \<Rightarrow> 'c sched"
  shows "kept a s \<Longrightarrow> (\<And>x. kept x s \<Longrightarrow> kept (f x) s) \<Longrightarrow> kept (Let a f) s"
  by (simp add: Let_def)

lemma kept_Let: "(\<And>x. kept (f x) s) \<Longrightarrow> kept (Let a f) s"
  by (simp add: Let_def)

lemma kept_if: "kept a s \<Longrightarrow> kept b s \<Longrightarrow> kept (if q then a else b) s"
  by simp

lemmas kept_steps = kept_Let_state kept_Let kept_if kept_refl kept_resched kept_op

lemma kept_queue:
  assumes "class_ops_ok e" "kept u s"
  shows "kept (activate_task e c p flags u) s" "kept (deactivate_task e c p flags u) s" "kept (check_preempt_curr e c p u) s"
    "kept (set_task_cpu p d u) s"
  unfolding activate_task_def deactivate_task_def enqueue_task_def dequeue_task_def update_rq_clock_def inc_nr_running_def
    dec_nr_running_def add_uninterruptible_def check_preempt_curr_def set_task_cpu_def
  by ((rule kept_steps kept_upd_rq kept_upd_task assms | assumption)+, simp?)+

lemma kept_activate:
  assumes "class_ops_ok e" "kept u s"
  shows "kept (ttwu_do_activate e c p u) s"
  unfolding ttwu_do_activate_def ttwu_do_wakeup_def ttwu_activate_def add_uninterruptible_def
  by ((rule kept_steps kept_queue kept_upd_rq kept_upd_task assms | assumption)+, simp?)+ (simp add: end_idle_def Let_def)

lemma kept_pending:
  assumes "class_ops_ok e"
  shows "kept (sched_ttwu_pending e c s) s" "kept (set_rq_offline e c s) s"
proof -
  have f: "kept (fold (ttwu_do_activate e c) ps u) s" if "kept u s" for ps u
    using that by (induction ps arbitrary: u) (auto intro: kept_activate [OF assms])
  show "kept (sched_ttwu_pending e c s) s"
    unfolding sched_ttwu_pending_def sched_ttwu_do_pending_def Let_def by (rule f [OF kept_upd_rq [OF kept_refl]]) simp
  have g: "kept (fold (\<lambda>cls. se_op e (Rq_offline cls c)) cs u) s" if "kept u s" for cs u
    using that by (induction cs arbitrary: u) (auto intro: kept_op [OF assms])
  show "kept (set_rq_offline e c s) s"
    unfolding set_rq_offline_def using kept_upd_rq [OF g [OF kept_refl]] by (simp add: kept_refl)
qed

lemma kept_migrate:
  assumes "class_ops_ok e"
  shows "kept (snd (migrate_task e p src dst s)) s" "kept (snd (select_fallback_rq e p s)) s"
proof -
  have "kept (check_preempt_curr e dst p (pull_task e p src dst s)) s"
    unfolding pull_task_def by (intro kept_queue [OF assms] kept_refl)
  then show "kept (snd (migrate_task e p src dst s)) s" using migrate_task_pull [of e p src dst s] kept_refl by metis
  show "kept (snd (select_fallback_rq e p s)) s"
    by (auto simp: select_fallback_rq_def kept_refl split: list.split prod.split intro!: kept_upd_task)
qed

end
