(* ===== verification/Sched_Invariant.thy ===== *)
theory Sched_Invariant
  imports Sched_Hotplug
begin

text \<open>
  The hotplug callback keeps the counters, so every step of the scheduler does; what the readers of the counters see then
  follows for every reachable state.
\<close>

section \<open>The run queue of a CPU that goes down\<close>

lemma migrate_loop_ok:
  assumes "env_ok e" "c \<in> set (se_possible e)" "sched_ok e s" "stop (rqs s c) = None" "t_class (tasks s (curr (rqs s c))) = Stop_class"
    "migrate_loop fuel e c s = Some s'"
  shows "sched_ok e s' \<and> kept s' s"
  using assms(3-6)
proof (induction fuel arbitrary: s)
  case (Suc n)
  note ce = env_okD(1) [OF assms(1)]
  show ?case
  proof (cases "rq_nr_running (rqs s c) = 1")
    case True
    then show ?thesis using Suc.prems kept_refl by simp
  next
    case False
    obtain nxt u where nxt: "pick_next_task e c s = Some (nxt, u)" using Suc.prems False by (auto split: option.splits)
    define v where "v = se_op e (Put_prev (class_of nxt u) c nxt) u"
    obtain dest w where sel: "select_fallback_rq e nxt v = (dest, w)" by (cases "select_fallback_rq e nxt v")
    define x where "x = snd (migrate_task e nxt c dest w)"
    have more: "migrate_loop n e c x = Some s'"
      using Suc.prems(4) False nxt sel by (simp add: v_def x_def Let_def)
    have kv: "kept v s" unfolding v_def by (rule kept_op [OF ce kept_frame]) (use pick_next_frame [OF ce nxt] in simp)
    have kw: "kept w s" using kept_migrate(2) [OF ce, of nxt v] sel kv kept_trans by fastforce
    have kx: "kept x s" using kept_migrate(1) [OF ce] kw kept_trans unfolding x_def by blast
    have "same v s" unfolding v_def by (rule op_same_trans [OF ce pick_next_runnable(1) [OF ce nxt]])
    then have w: "same w s" "dest \<in> set (se_possible e)" using fallback_view [OF assms(1) sel] same_trans by blast+
    have ok: "sched_ok e w" using same_ok [OF w(1)] Suc.prems(1) by simp
    have "sched_ok e x"
    proof (cases "nxt = idle (rqs s c)")
      case True
      then have "\<not> on_rq (tasks w nxt)"
        using okD(2) [OF Suc.prems(1)] okD(4) [OF Suc.prems(1) assms(2)] by (auto simp: same_simps [OF w(1)])
      then show ?thesis using migrate_task_pull [of e nxt c dest w] ok by (auto simp: x_def)
    next
      case False
      obtain cls t where t: "class_frame s t" "pick_ok c cls nxt t" using pick_next_frame [OF ce nxt] by blast
      then have "cls = Rt_class \<or> cls = Fair_class" "t_class (tasks s nxt) = cls"
        using False Suc.prems(2) by (cases cls; auto simp: pick_ok_def class_frame_def)+
      then have "nxt \<noteq> curr (rqs w c)" using Suc.prems(3) kw by (auto simp: kept_def)
      then show ?thesis unfolding x_def by (rule migrate_ok [OF assms(1) ok _ w(2)])
    qed
    then show ?thesis using Suc.IH [OF _ _ _ more] Suc.prems(2,3) kx kept_trans by (fastforce simp: kept_def)
  qed
qed simp

lemma migrate_tasks_ok:
  assumes "env_ok e" "c \<in> set (se_possible e)" "sched_ok e s" "t_class (tasks s (curr (rqs s c))) = Stop_class"
    "migrate_tasks fuel e c s = Some s'"
  shows "sched_ok e s'" "cpus_active s' = cpus_active s"
proof -
  let ?s = "upd_rq c (\<lambda>r. r\<lparr>stop := None\<rparr>) s"
  obtain u where u: "migrate_loop fuel e c ?s = Some u" "s' = upd_rq c (\<lambda>r. r\<lparr>stop := stop (rqs s c)\<rparr>) u"
    using assms(5) by (auto simp: migrate_tasks_def Let_def)
  have "same ?s s" by (rule same_upd_rq [OF same_refl]) (simp add: same_rq_def)
  then have "sched_ok e ?s" using same_ok assms(3) by blast
  from migrate_loop_ok [OF assms(1,2) this _ _ u(1)] have k: "sched_ok e u" "kept u ?s" using assms(4) by simp_all
  have "same s' u" unfolding u(2) by (rule same_upd_rq [OF same_refl]) (simp add: same_rq_def)
  then show "sched_ok e s'" using same_ok k(1) by blast
  show "cpus_active s' = cpus_active s" using k(2) by (simp add: u(2) kept_def)
qed

lemma uninterruptible_moved:
  assumes "env_ok e" "sched_ok e s" "c \<in> set (se_possible e)" "\<not> cpus_active s c" "migrate_nr_uninterruptible e c s = Some s'"
  shows "sched_ok e s'"
proof -
  obtain d where d: "find (cpus_active s) (se_possible e) = Some d" using assms(5) by (auto simp: migrate_nr_uninterruptible_def split: option.splits)
  then have dn: "d \<in> set (se_possible e)" "d \<noteq> c" using assms(4) by (auto simp: find_Some_iff)
  let ?m = "rq_nr_uninterruptible (rqs s c)"
  let ?a = "add_uninterruptible d ?m s"
  have s': "s' = upd_rq c (\<lambda>r. r\<lparr>rq_nr_uninterruptible := 0\<rparr>) ?a" using assms(5) d by (simp add: migrate_nr_uninterruptible_def)
  note dist = env_okD(2) [OF assms(1)]
  have "total e rq_nr_uninterruptible ?a = total e rq_nr_uninterruptible s + ?m"
    by (rule total_count [OF dist dn(1)]) (simp add: add_uninterruptible_def)
  moreover have "total e rq_nr_uninterruptible s' = total e rq_nr_uninterruptible ?a + (- ?m)"
    by (rule total_count [OF dist assms(3)]) (use dn(2) in \<open>simp add: s' add_uninterruptible_def\<close>)
  ultimately have "total e rq_nr_uninterruptible s' = total e rq_nr_uninterruptible s" by simp
  then show ?thesis
    by (rule totals_ok [OF assms(2), rotated 3])
      (use okD(5,6) [OF assms(2)] in \<open>auto simp: s' add_uninterruptible_def same_task_def intro: load_same [OF okD_load [OF assms(2)]]\<close>)
qed

lemma load_removed:
  assumes "env_ok e" "sched_ok e s" "c \<in> set (se_possible e)"
  shows "sched_ok e (calc_global_load_remove c s)"
proof (rule accounting_ok [OF assms(2)])
  let ?u = "calc_global_load_remove c s"
  show "same_queues ?u s" by (simp add: calc_global_load_remove_def same_queues_def same_task_def)
  have "total e calc_load_active ?u = total e calc_load_active s + (calc_load_active (rqs ?u c) - calc_load_active (rqs s c))"
    by (rule total_change [OF env_okD(2) [OF assms(1)] assms(3)]) (simp add: calc_global_load_remove_def)
  then show "load_ok e ?u"
    using okD_load [OF assms(2)] by (simp add: load_ok_def calc_global_load_remove_def)
qed

lemma migration_call_ok:
  assumes "env_ok e" "sched_ok e s" "c \<in> set (se_possible e)" "t_class (tasks s (curr (rqs s c))) = Stop_class"
    "action = CPU_DYING \<longrightarrow> \<not> cpus_active s c" "migration_call fuel e action c s = Some s'"
  shows "sched_ok e s'"
proof (cases action)
  case CPU_UP_PREPARE
  have "same s' s" using assms(6) CPU_UP_PREPARE by (auto simp: migration_call_def same_rq_def intro!: same_upd_rq)
  then show ?thesis using same_ok assms(2) by blast
next
  case CPU_ONLINE
  have f: "same (fold (\<lambda>cls. se_op e (Rq_online cls c)) cs u) s" if "same u s" for cs u
    using that by (induction cs arbitrary: u) (auto intro: op_same_trans [OF env_okD(1) [OF assms(1)]])
  have "same (upd_rq c (\<lambda>r. r\<lparr>rq_online := True\<rparr>) s) s" by (rule same_upd_rq [OF same_refl]) (simp add: same_rq_def)
  from f [OF this] have "same s' s" using assms(6) CPU_ONLINE by (auto simp: migration_call_def set_rq_online_def)
  then show ?thesis using same_ok assms(2) by blast
next
  case CPU_DYING
  note ce = env_okD(1) [OF assms(1)]
  define u where "u = set_rq_offline e c (sched_ttwu_pending e c s)"
  obtain v w where v: "migrate_tasks fuel e c u = Some v" and w: "migrate_nr_uninterruptible e c v = Some w" "s' = calc_global_load_remove c w"
    using assms(6) CPU_DYING by (auto simp: migration_call_def u_def Let_def split: bind_splits if_splits)
  have k: "kept u s" unfolding u_def using kept_pending [OF ce] kept_trans by blast
  have p: "sched_ok e (sched_ttwu_pending e c s)" by (rule pending_ok(1) [OF assms(1,2)])
  have f: "same (fold (\<lambda>cls. se_op e (Rq_offline cls c)) cs t) y" if "same t y" for cs t y
    using that by (induction cs arbitrary: t) (auto intro: op_same_trans [OF ce])
  have "same u (sched_ttwu_pending e c s)"
    unfolding u_def set_rq_offline_def using same_upd_rq [OF f [OF same_refl]] by (simp add: same_rq_def)
  then have "sched_ok e u" using same_ok p by blast
  moreover have "t_class (tasks u (curr (rqs u c))) = Stop_class" using k assms(4) by (simp add: kept_def)
  ultimately have vo: "sched_ok e v" "cpus_active v = cpus_active u" using migrate_tasks_ok [OF assms(1,3) _ _ v] by blast+
  have "\<not> cpus_active v c" using vo(2) k assms(5) CPU_DYING by (simp add: kept_def)
  then have "sched_ok e w" by (rule uninterruptible_moved [OF assms(1) vo(1) assms(3) _ w(1)])
  then show ?thesis unfolding w(2) by (rule load_removed [OF assms(1) _ assms(3)])
qed (use assms(2,6) in \<open>simp_all add: migration_call_def\<close>)

section \<open>Every step\<close>

theorem step_ok:
  assumes "env_ok e" "sched_step e s s'" "sched_ok e s"
  shows "sched_ok e s'"
proof -
  note ce = env_okD(1) [OF assms(1)]
  show ?thesis
    using assms(2,3)
  proof cases
    case (own_state c p v f)
    then show ?thesis using own_state_ok assms(3) by blast
  next
    case (wake p states c b)
    then show ?thesis using wake_up_ok [OF assms(1,3)] by blast
  next
    case (ipi c)
    then show ?thesis using pending_ok(2) [OF assms(1,3)] by blast
  next
    case (leave c active)
    then show ?thesis using schedule_out_ok [OF assms(1,3)] by blast
  next
    case (enter c)
    then show ?thesis using schedule_in_ok [OF assms(1,3)] by blast
  next
    case (fork c p)
    then show ?thesis using fork_ok [OF assms(1,3)] by blast
  next
    case (nice p n)
    then show ?thesis using same_ok [OF user_nice_same [OF ce]] assms(3) by blast
  next
    case (policy p ca z pol prio)
    then show ?thesis using same_ok [OF setscheduler_same [OF ce]] assms(3) by blast
  next
    case (inherit p prio)
    then show ?thesis using same_ok [OF setprio_same [OF ce]] assms(3) by blast
  next
    case normalize
    then show ?thesis using same_ok [OF normalize_same(2) [OF ce]] assms(3) by blast
  next
    case (pull p dst)
    then show ?thesis using pull_ok [OF assms(1,3)] by blast
  next
    case (migrate p src dst)
    then show ?thesis using migrate_ok [OF assms(1,3)] by blast
  next
    case (affinity by_itself p cpus)
    then show ?thesis using same_ok [OF affinity_same [OF ce]] assms(3) by blast
  next
    case (tick c j)
    then show ?thesis using tick_ok [OF assms(1,3)] by blast
  next
    case (go_idle c)
    then show ?thesis using account_idle_ok [OF env_okD(2) [OF assms(1)] assms(3)] by blast
  next
    case global
    then show ?thesis using global_ok assms(3) by blast
  next
    case (hotplug c action fuel)
    then show ?thesis using migration_call_ok [OF assms(1,3)] by blast
  next
    case (mark c b)
    then show ?thesis using mark_ok [OF assms(3)] by blast
  next
    case (active action c)
    then show ?thesis using active_ok(1) [OF assms(3)] by blast
  next
    case (inactive action c)
    then show ?thesis using active_ok(2) [OF assms(3)] by blast
  next
    case count_running
    have "same s' s" unfolding count_running by (simp add: nr_running_def Let_def same_def same_task_def same_rq_def)
    then show ?thesis using same_ok assms(3) by blast
  qed
qed

lemma reachable_ok:
  assumes "env_ok e" "sched_ok e s0" "(sched_step e)\<^sup>*\<^sup>* s0 s"
  shows "sched_ok e s"
  using assms(3) by (induction rule: rtranclp_induct) (use assms(1,2) step_ok in blast)+

end
