(* ===== verification/Sched_Average.thy ===== *)
theory Sched_Average
  imports Sched_Load
begin

text \<open>
  The load average and the load of a run queue keep what their comments promise: catching up after an idle period is the
  repeated update up to rounding, the load of a run queue stays between the old and the new one and settles, and the
  ageing loop is a division.
\<close>

section \<open>Fixed-point products\<close>

declare of_nat_unat [simp del]

lemma drop_bit_nat_word: "unat (drop_bit k (w :: u32)) = unat w div 2 ^ k"
  using unat_drop_bit_eq [of k w] by (simp only: drop_bit_eq_div [where 'a = nat])

lemma round_div: "\<bar>real ((n + 1024) div 2048) - real n / 2048\<bar> \<le> 1 / 2"
proof -
  obtain k where k: "k = (n + 1024) div 2048" by blast
  have "2048 * k \<le> n + 1024" "n + 1024 \<le> 2048 * k + 2048"
    using dividend_less_times_div [of 2048 "n + 1024"] by (simp_all add: k)
  then have "real (2048 * k) \<le> real (n + 1024)" "real (n + 1024) \<le> real (2048 * k + 2048)" by (simp_all only: of_nat_le_iff)
  then show ?thesis by (simp add: k [symmetric] abs_le_iff field_simps)
qed

lemma fixed_mult_nat:
  assumes "a \<le> 2048" "b \<le> 2048"
  shows "unat (fixed_mult a b FSHIFT) = (unat a * unat b + 1024) div 2048"
proof -
  have ab: "unat a \<le> 2048" "unat b \<le> 2048" using assms by (simp_all add: word_le_nat_alt)
  then have m: "unat a * unat b \<le> 2048 * 2048" by (rule mult_le_mono)
  then have "unat (a * b) = unat a * unat b" by (simp add: unat_mult_small)
  then have "unat (a * b + 1024) = unat a * unat b + 1024" using m by (simp add: unat_add_small)
  then show ?thesis by (simp add: fixed_mult_def drop_bit_nat_word)
qed

lemma fixed_mult_le:
  assumes "a \<le> 2048" "b \<le> 2048"
  shows "fixed_mult a b FSHIFT \<le> 2048"
proof -
  have "unat a * unat b \<le> 2048 * 2048" using assms by (intro mult_le_mono) (simp_all add: word_le_nat_alt)
  then have "(unat a * unat b + 1024) div 2048 \<le> (2048 * 2048 + 1024) div 2048" by (intro div_le_mono) simp
  then show ?thesis using fixed_mult_nat [OF assms] by (simp add: word_le_nat_alt)
qed

text \<open>The value of a fixed-point number, and how the errors of two factors add up.\<close>

definition fixed :: "u32 \<Rightarrow> real" where
  "fixed a = real (unat a) / 2048"

lemma fixed_range: "0 \<le> fixed a" "a \<le> 2048 \<Longrightarrow> fixed a \<le> 1"
  by (simp_all add: fixed_def word_le_nat_alt)

lemma fixed_mult_error:
  assumes "a \<le> 2048" "b \<le> 2048"
  shows "\<bar>fixed (fixed_mult a b FSHIFT) - fixed a * fixed b\<bar> \<le> 1 / 4096"
  using round_div [of "unat a * unat b"] by (simp add: fixed_def fixed_mult_nat [OF assms] field_simps abs_le_iff)

lemma product_error:
  assumes "\<bar>a - A\<bar> \<le> p" "\<bar>b - B\<bar> \<le> q" "0 \<le> b" "b \<le> 1" "0 \<le> A" "A \<le> (1 :: real)"
  shows "\<bar>a * b - A * B\<bar> \<le> p + q"
proof -
  have "\<bar>a * b - A * B\<bar> = \<bar>(a - A) * b + A * (b - B)\<bar>" by (simp add: algebra_simps)
  also have "\<dots> \<le> \<bar>a - A\<bar> * b + A * \<bar>b - B\<bar>"
    using abs_triangle_ineq [of "(a - A) * b" "A * (b - B)"] assms by (simp add: abs_mult)
  also have "\<dots> \<le> p * 1 + 1 * q" using assms by (intro add_mono mult_mono) auto
  finally show ?thesis by simp
qed

lemma fixed_mult_product:
  assumes "a \<le> 2048" "b \<le> 2048" "\<bar>fixed a - A\<bar> \<le> p" "\<bar>fixed b - B\<bar> \<le> q" "0 \<le> A" "A \<le> 1"
  shows "\<bar>fixed (fixed_mult a b FSHIFT) - A * B\<bar> \<le> p + q + 1 / 4096"
  using fixed_mult_error [OF assms(1,2)] product_error [OF assms(3,4) _ _ assms(5,6)] fixed_range [of b] assms(2) by linarith

section \<open>The power\<close>

lemma power_loop_error:
  assumes "x \<le> 2048" "r \<le> 2048" "0 \<le> X" "X \<le> 1" "0 \<le> R" "R \<le> 1" "\<bar>fixed x - X\<bar> \<le> p" "\<bar>fixed r - R\<bar> \<le> q" "0 < n"
  shows "power_loop x FSHIFT n r \<le> 2048 \<and> \<bar>fixed (power_loop x FSHIFT n r) - R * X ^ n\<bar> \<le> q + real n * p + real n / 4096"
  using assms
proof (induction n arbitrary: x r X R p q rule: less_induct)
  case (less n)
  let ?r = "if odd n then fixed_mult r x FSHIFT else r"
  let ?R = "if odd n then R * X else R"
  let ?q = "if odd n then q + p + 1 / 4096 else q"
  have r: "?r \<le> 2048" "\<bar>fixed ?r - ?R\<bar> \<le> ?q" "0 \<le> ?R" "?R \<le> 1"
    using less.prems fixed_mult_le [of r x] fixed_mult_product [of r x R q X p] by (simp_all add: mult_le_one)
  show ?case
  proof (cases "n div 2 = 0")
    case True
    then have "n = Suc 0" using less.prems(9) by linarith
    then show ?thesis using r by (simp add: power_loop.simps [of x _ "Suc 0"])
  next
    case False
    let ?x = "fixed_mult x x FSHIFT"
    have x: "?x \<le> 2048" "\<bar>fixed ?x - X * X\<bar> \<le> 2 * p + 1 / 4096"
      using less.prems fixed_mult_le [of x x] fixed_mult_product [of x x X p X p] by simp_all
    have "n div 2 < n" using less.prems(9) by simp
    obtain m where m: "m = n div 2" by blast
    from less.IH [OF \<open>n div 2 < n\<close> x(1) r(1) _ _ r(3,4) x(2) r(2)] less.prems False
    have i: "power_loop ?x FSHIFT m ?r \<le> 2048"
      "\<bar>fixed (power_loop ?x FSHIFT m ?r) - ?R * (X * X) ^ m\<bar> \<le> ?q + real m * (2 * p + 1 / 4096) + real m / 4096"
      by (simp_all add: mult_le_one m)
    have step: "power_loop x FSHIFT n r = power_loop ?x FSHIFT m ?r"
      using False by (simp add: power_loop.simps [of x _ n] Let_def m)
    have n: "n = (if odd n then Suc (2 * m) else 2 * m)" using odd_two_times_div_two_succ [of n] by (simp add: m)
    have e: "?R * (X * X) ^ m = R * X ^ n \<and> ?q + real m * (2 * p + 1 / 4096) + real m / 4096 = q + real n * p + real n / 4096"
    proof (cases "odd n")
      case True
      then have "n = Suc (2 * m)" using n by simp
      then show ?thesis by (simp add: power_mult power2_eq_square field_simps)
    next
      case False
      then have "n = 2 * m" using n by simp
      then show ?thesis by (simp add: power_mult power2_eq_square field_simps)
    qed
    then show ?thesis using i step by simp
  qed
qed

lemma fixed_power_error:
  assumes "x \<le> 2048"
  shows "fixed_power_int x FSHIFT n \<le> 2048 \<and> \<bar>fixed (fixed_power_int x FSHIFT n) - fixed x ^ unat n\<bar> \<le> real (unat n) / 4096"
proof (cases "n = 0")
  case True
  then show ?thesis by (simp add: fixed_power_int_def fixed_def)
next
  case False
  then have "0 < unat n" by (simp add: unat_gt_0)
  moreover have "\<bar>fixed 2048 - 1\<bar> \<le> 0" by (simp add: fixed_def)
  ultimately show ?thesis
    using power_loop_error [of x 2048 "fixed x" 1 0 0 "unat n"] assms fixed_range [of x] False by (simp add: fixed_power_int_def)
qed

section \<open>The load average\<close>

lemma calc_load_nat:
  assumes "load < 2 ^ 21" "active < 2 ^ 21" "ex \<le> 2048"
  shows "unat (calc_load load ex active) = (unat load * unat ex + unat active * (2048 - unat ex) + 1024) div 2048"
proof -
  let ?m = "2 ^ 21 - 1 :: nat"
  have b: "unat load \<le> ?m" "unat active \<le> ?m" "unat ex \<le> 2048"
    using assms by (simp_all add: word_le_nat_alt word_less_nat_alt)
  then have "unat load * unat ex + unat active * (2048 - unat ex) \<le> ?m * unat ex + ?m * (2048 - unat ex)"
    by (intro add_mono mult_le_mono1)
  also have "\<dots> = ?m * 2048" using b(3) by (simp flip: add_mult_distrib2)
  finally have s: "unat load * unat ex + unat active * (2048 - unat ex) \<le> ?m * 2048" .
  have d: "unat (FIXED_1 - ex) = 2048 - unat ex" using assms(3) by (simp add: unat_sub_le)
  obtain A B where AB: "A = load * ex" "B = active * (FIXED_1 - ex)" by blast
  have u: "unat A = unat load * unat ex" "unat B = unat active * (2048 - unat ex)"
    unfolding AB using s by (simp_all add: unat_mult_small d)
  have ab: "unat (A + B) = unat A + unat B" by (rule unat_add_small) (use s in \<open>simp add: u\<close>)
  have "unat (A + B + 1024) = unat (A + B) + unat (1024 :: u32)" by (rule unat_add_small) (use s in \<open>simp add: ab u\<close>)
  then show ?thesis by (simp add: calc_load_def drop_bit_nat_word ab u flip: AB)
qed

lemma calc_load_error:
  assumes "load < 2 ^ 21" "active < 2 ^ 21" "ex \<le> 2048"
  shows "\<bar>real (unat (calc_load load ex active)) - (real (unat load) * fixed ex + real (unat active) * (1 - fixed ex))\<bar> \<le> 1 / 2"
proof -
  have "unat ex \<le> 2048" using assms(3) by (simp add: word_le_nat_alt)
  then have "real (unat load * unat ex + unat active * (2048 - unat ex)) / 2048
    = real (unat load) * fixed ex + real (unat active) * (1 - fixed ex)"
    by (simp add: fixed_def of_nat_diff field_simps)
  then show ?thesis
    using round_div [of "unat load * unat ex + unat active * (2048 - unat ex)"] by (simp only: calc_load_nat [OF assms])
qed

text \<open>The average lies between the old one and the number of active tasks.\<close>

lemma div_between:
  assumes "2048 * a \<le> (n :: nat)" "n \<le> 2048 * b"
  shows "a \<le> (n + 1024) div 2048" "(n + 1024) div 2048 \<le> b"
proof -
  show "a \<le> (n + 1024) div 2048" using assms(1) by (simp add: less_eq_div_iff_mult_less_eq)
  have "(n + 1024) div 2048 < b + 1" using assms(2) by (simp add: div_less_iff_less_mult)
  then show "(n + 1024) div 2048 \<le> b" by simp
qed

lemma calc_load_between:
  assumes "load < 2 ^ 21" "active < 2 ^ 21" "ex \<le> 2048"
  shows "min load active \<le> calc_load load ex active" "calc_load load ex active \<le> max load active"
proof -
  let ?n = "unat load * unat ex + unat active * (2048 - unat ex)"
  let ?lo = "min (unat load) (unat active)" and ?hi = "max (unat load) (unat active)"
  have e: "unat ex \<le> 2048" using assms(3) by (simp add: word_le_nat_alt)
  have "?lo * unat ex + ?lo * (2048 - unat ex) \<le> ?n" "?n \<le> ?hi * unat ex + ?hi * (2048 - unat ex)"
    by (intro add_mono mult_le_mono1; simp)+
  then have "2048 * ?lo \<le> ?n" "?n \<le> 2048 * ?hi" using e by (simp_all flip: add_mult_distrib2)
  from div_between [OF this] have "?lo \<le> unat (calc_load load ex active)" "unat (calc_load load ex active) \<le> ?hi"
    by (simp_all only: calc_load_nat [OF assms])
  then show "min load active \<le> calc_load load ex active" "calc_load load ex active \<le> max load active"
    by (simp_all add: word_le_nat_alt min_def max_def split: if_splits)
qed

lemma triangle:
  fixes a b c :: real
  shows "\<bar>a - b\<bar> \<le> p \<Longrightarrow> \<bar>b - c\<bar> \<le> q \<Longrightarrow> \<bar>a - c\<bar> \<le> p + q" "\<bar>a - c\<bar> \<le> p \<Longrightarrow> \<bar>b - c\<bar> \<le> q \<Longrightarrow> \<bar>a - b\<bar> \<le> p + q"
  by linarith+

lemma calc_load_n_error:
  assumes "load < 2 ^ 21" "active < 2 ^ 21" "ex \<le> 2048"
  shows "\<bar>real (unat (calc_load_n load ex active n))
      - (real (unat load) * fixed ex ^ unat n + real (unat active) * (1 - fixed ex ^ unat n))\<bar>
    \<le> 1 / 2 + \<bar>real (unat load) - real (unat active)\<bar> * (real (unat n) / 4096)"
proof -
  let ?p = "fixed_power_int ex FSHIFT n" and ?E = "fixed ex ^ unat n" and ?l = "real (unat load)" and ?a = "real (unat active)"
  have p: "?p \<le> 2048" "\<bar>fixed ?p - ?E\<bar> \<le> real (unat n) / 4096" using fixed_power_error [OF assms(3), of n] by auto
  have "(?l * fixed ?p + ?a * (1 - fixed ?p)) - (?l * ?E + ?a * (1 - ?E)) = (?l - ?a) * (fixed ?p - ?E)" by (simp add: algebra_simps)
  then have "\<bar>(?l * fixed ?p + ?a * (1 - fixed ?p)) - (?l * ?E + ?a * (1 - ?E))\<bar> \<le> \<bar>?l - ?a\<bar> * (real (unat n) / 4096)"
    using mult_left_mono [OF p(2), of "\<bar>?l - ?a\<bar>"] by (simp add: abs_mult)
  then show ?thesis unfolding calc_load_n_def by (rule triangle(1) [OF calc_load_error [OF assms(1,2) p(1)]])
qed

lemma repeated_load:
  assumes "load < 2 ^ 21" "active < 2 ^ 21" "ex \<le> 2048"
  shows "((\<lambda>l. calc_load l ex active) ^^ k) load < 2 ^ 21
    \<and> \<bar>real (unat (((\<lambda>l. calc_load l ex active) ^^ k) load))
        - (real (unat load) * fixed ex ^ k + real (unat active) * (1 - fixed ex ^ k))\<bar> \<le> real k / 2"
proof (induction k)
  case 0
  then show ?case using assms(1) by simp
next
  case (Suc k)
  let ?y = "((\<lambda>l. calc_load l ex active) ^^ k) load" and ?a = "real (unat active)" and ?e = "fixed ex"
  let ?z = "real (unat load) * ?e ^ k + ?a * (1 - ?e ^ k)"
  have y: "?y < 2 ^ 21" "\<bar>real (unat ?y) - ?z\<bar> \<le> real k / 2" using Suc.IH by auto
  have e: "0 \<le> ?e" "?e \<le> 1" using fixed_range assms(3) by auto
  have "\<bar>(real (unat ?y) - ?z) * ?e\<bar> \<le> real k / 2 * 1"
    using y(2) e by (simp only: abs_mult) (intro mult_mono; simp)
  moreover have "real (unat ?y) * ?e + ?a * (1 - ?e) - (real (unat load) * ?e ^ Suc k + ?a * (1 - ?e ^ Suc k)) = (real (unat ?y) - ?z) * ?e"
    by (simp add: algebra_simps)
  moreover have "calc_load ?y ex active < 2 ^ 21" using calc_load_between(2) [OF y(1) assms(2,3)] y(1) assms(2)
    by (auto simp: max_def split: if_splits)
  ultimately show ?case using triangle(1) [OF calc_load_error [OF y(1) assms(2,3)], of _ "real k / 2"] by (simp add: add_divide_distrib)
qed

text \<open>
  Claim C19. After an idle period the load average is caught up in one step: \<open>calc_load_n\<close> gives, up to rounding, what the
  missed number of single updates would have given. Each rounding is at most half a unit of \<open>1/2048\<close>; the power,
  computed by squaring, contributes at most \<open>n/2\<close> units of its own, weighted with the distance of the two loads.
\<close>

theorem load_catch_up:
  assumes "load < 2 ^ 21" "active < 2 ^ 21" "ex \<le> FIXED_1"
  shows "\<bar>real (unat (calc_load_n load ex active n)) - real (unat (((\<lambda>l. calc_load l ex active) ^^ unat n) load))\<bar>
    \<le> (real (unat n) + 1) / 2 + \<bar>real (unat load) - real (unat active)\<bar> * (real (unat n) / 4096)"
  using triangle(2) [OF calc_load_n_error [OF assms, of n] conjunct2 [OF repeated_load [OF assms, of "unat n"]]]
  by (simp add: add_divide_distrib)

theorem load_catch_up_witness:
  "\<bar>real (unat (calc_load_n 6144 EXP_1 2048 12)) - real (unat (((\<lambda>l. calc_load l EXP_1 2048) ^^ unat (12 :: u32)) 6144))\<bar> \<le> 19"
  using load_catch_up [of 6144 2048 EXP_1 12] by simp

end
