(* ===== verification/Sched_Decay.thy ===== *)
theory Sched_Decay
  imports Sched_Average
begin

text \<open>The decaying load of a run queue: bounds, settling, and the ageing of the real-time average.\<close>

section \<open>Decay\<close>

lemma decay_step:
  assumes "load < 2 ^ 24" "f \<le> (128 :: u32)"
  shows "drop_bit DEGRADE_SHIFT (load * f) \<le> load"
proof -
  have b: "unat load < 2 ^ 24" "unat f \<le> 128" using assms by (simp_all add: word_le_nat_alt word_less_nat_alt)
  then have "unat load * unat f \<le> 2 ^ 24 * 128" by (intro mult_le_mono) auto
  then have m: "unat (load * f) = unat load * unat f" by (intro unat_mult_small) simp
  have "unat load * unat f div 128 \<le> unat load * 128 div 128" using b(2) by (intro div_le_mono) simp
  then show ?thesis by (simp add: word_le_nat_alt drop_bit_nat_word m)
qed

lemma decay_loop_le:
  assumes "load < 2 ^ 24" "\<forall>f \<in> set row. f \<le> 128" "missed < 2 ^ length row"
  shows "\<exists>l. decay_loop load missed row = Some l \<and> l \<le> load"
  using assms
proof (induction row arbitrary: load missed)
  case Nil
  then show ?case by (simp add: decay_loop.simps)
next
  case (Cons f row)
  let ?l = "if odd missed then drop_bit DEGRADE_SHIFT (load * f) else load"
  have l: "?l \<le> load" using decay_step Cons.prems by auto
  show ?case
  proof (cases "missed = 0")
    case True
    then show ?thesis by (simp add: decay_loop.simps)
  next
    case False
    have "\<exists>x. decay_loop ?l (missed div 2) row = Some x \<and> x \<le> ?l"
      by (rule Cons.IH) (use Cons.prems l in \<open>auto intro: le_less_trans simp: less_mult_imp_div_less\<close>)
    then show ?thesis using False l by (force simp: decay_loop.simps [of load missed])
  qed
qed

lemma decay_load_missed_le:
  assumes "load < 2 ^ 24" "i \<in> {1..<CPU_LOAD_IDX_MAX}"
  shows "\<exists>l. decay_load_missed load missed i = Some l \<and> l \<le> load"
proof (cases "missed = 0 \<or> missed \<ge> degrade_zero_ticks ! i \<or> i = 1")
  case True
  moreover have "drop_bit (unat missed) load \<le> load" by (simp add: word_le_nat_alt drop_bit_nat_word)
  ultimately show ?thesis by (auto simp: decay_load_missed_def)
next
  case False
  have i: "i = 2 \<or> i = 3 \<or> i = 4" using assms(2) False by auto
  have "unat missed < 2 ^ 8" "length (degrade_factor ! i) = 8" "\<forall>f \<in> set (degrade_factor ! i). f \<le> 128"
    using False i by (auto simp: degrade_zero_ticks_def degrade_factor_def word_le_nat_alt not_le)
  then show ?thesis using decay_loop_le [OF assms(1), of "degrade_factor ! i" "unat missed"] False by (simp add: decay_load_missed_def)
qed

section \<open>One index\<close>

lemma mix_rises:
  fixes t old new :: nat
  assumes "old < new"
  shows "old < (old * t + (new + t)) div (t + 1)" "(old * t + (new + t)) div (t + 1) \<le> new"
proof -
  have "(old + 1) * (t + 1) \<le> old * t + (new + t)" using assms by (simp add: algebra_simps)
  then show "old < (old * t + (new + t)) div (t + 1)" by (simp add: less_eq_div_iff_mult_less_eq Suc_le_eq [symmetric])
  have "old * t \<le> new * t" using assms by (intro mult_le_mono1) simp
  then have "old * t + (new + t) < (new + 1) * (t + 1)" by (simp only: algebra_simps)
  then have "(old * t + (new + t)) div (t + 1) < new + 1" by (simp only: div_less_iff_less_mult zero_less_Suc Suc_eq_plus1 [symmetric])
  then show "(old * t + (new + t)) div (t + 1) \<le> new" by simp
qed

lemma mix_falls:
  fixes t old new :: nat
  assumes "new \<le> old"
  shows "new \<le> (old * t + new) div (t + 1)" "new < old \<Longrightarrow> (old * t + new) div (t + 1) < old"
    "(old * t + new) div (t + 1) \<le> old"
proof -
  have "new * t \<le> old * t" using assms by simp
  then have "new * (t + 1) \<le> old * t + new" by (simp add: algebra_simps)
  then show "new \<le> (old * t + new) div (t + 1)" by (simp only: less_eq_div_iff_mult_less_eq zero_less_Suc Suc_eq_plus1 [symmetric])
  show less: "(old * t + new) div (t + 1) < old" if "new < old"
  proof -
    have "old * t + new < old * (t + 1)" using that by (simp add: algebra_simps)
    then show ?thesis by (simp only: div_less_iff_less_mult zero_less_Suc Suc_eq_plus1 [symmetric])
  qed
  show "(old * t + new) div (t + 1) \<le> old" 
  proof (cases "new = old")
    case True
    then have "old * t + new = old * (t + 1)" by simp
    then show ?thesis by (metis add_is_0 nonzero_mult_div_cancel_right order_refl zero_neq_one)
  qed (use less assms in simp)
qed

lemma mix_load_nat:
  assumes "old < 2 ^ 24" "new < 2 ^ 24" "i \<in> {1..<CPU_LOAD_IDX_MAX}"
  obtains t where "unat (mix_load i old new)
    = (unat old * t + (if old < new then unat new + t else unat new)) div (t + 1)"
proof -
  obtain t where t: "t = 2 ^ i - (1 :: nat)" by blast
  have i: "t + 1 = 2 ^ i" "t \<le> 15" "(2 :: u32) ^ i - 1 = of_nat t" "unat (of_nat t :: u32) = t"
  proof -
    have "i = 1 \<or> i = 2 \<or> i = 3 \<or> i = 4" using assms(3) by auto
    then show "t + 1 = 2 ^ i" "t \<le> 15" "(2 :: u32) ^ i - 1 = of_nat t" "unat (of_nat t :: u32) = t" by (auto simp: t)
  qed
  have b: "unat old < 2 ^ 24" "unat new < 2 ^ 24" using assms by (simp_all add: word_less_nat_alt)
  have p: "unat old * t \<le> 2 ^ 24 * 15" using b i by (intro mult_le_mono) auto
  obtain w where w: "w = (if old < new then new + of_nat t else new)" by blast
  have "unat (new + of_nat t) = unat new + t" using b(2) i(2) by (subst unat_add_small) (simp_all add: i(4))
  then have uw: "unat w = (if old < new then unat new + t else unat new)" by (simp add: w)
  have "unat (old * of_nat t) = unat old * t" using p by (subst unat_mult_small) (simp_all add: i(4))
  then have "unat (old * of_nat t + w) = unat old * t + unat w"
    using p b(2) i(2) by (subst unat_add_small) (auto simp: uw split: if_splits)
  moreover have m: "mix_load i old new = drop_bit i (old * of_nat t + w)" by (simp add: mix_load_def Let_def i(3) w)
  ultimately have "unat (mix_load i old new) = (unat old * t + unat w) div 2 ^ i"
    by (simp only: m drop_bit_nat_word)
  then show thesis using that uw i(1) by metis
qed

lemma mix_load_steps:
  assumes "old < 2 ^ 24" "new < 2 ^ 24" "i \<in> {1..<CPU_LOAD_IDX_MAX}"
  shows "old < new \<Longrightarrow> old < mix_load i old new \<and> mix_load i old new \<le> new"
    "new < old \<Longrightarrow> new \<le> mix_load i old new \<and> mix_load i old new < old"
    "mix_load i new new = new"
proof -
  obtain t where t: "unat (mix_load i old new) = (unat old * t + (if old < new then unat new + t else unat new)) div (t + 1)"
    using mix_load_nat [OF assms] by blast
  show "old < new \<Longrightarrow> old < mix_load i old new \<and> mix_load i old new \<le> new"
    using mix_rises [of "unat old" "unat new" t] t by (simp add: word_le_nat_alt word_less_nat_alt)
  show "new < old \<Longrightarrow> new \<le> mix_load i old new \<and> mix_load i old new < old"
    using mix_falls [of "unat new" "unat old" t] t by (auto simp: word_le_nat_alt word_less_nat_alt)
  obtain u where "unat (mix_load i new new) = (unat new * u + unat new) div (u + 1)"
    using mix_load_nat [OF assms(2,2,3)] by auto
  then show "mix_load i new new = new" using mix_falls(1,3) [of "unat new" "unat new" u] by (simp add: word_unat_eq_iff)
qed

section \<open>The whole update\<close>

lemma mix_load_le:
  assumes "old \<le> m" "new \<le> m" "m < 2 ^ 24" "i \<in> {1..<CPU_LOAD_IDX_MAX}"
  shows "mix_load i old new \<le> m"
proof -
  have "old < 2 ^ 24" "new < 2 ^ 24" using assms by auto
  from mix_load_steps [OF this assms(4)] show ?thesis using assms(1,2) by (cases rule: linorder_cases [of old new]) auto
qed

lemma update_loads_ok:
  assumes "set is \<subseteq> {1..<CPU_LOAD_IDX_MAX}" "length l = CPU_LOAD_IDX_MAX" "\<forall>x \<in> set l. x \<le> m" "this_load \<le> m" "m < 2 ^ 24"
  shows "\<exists>l'. update_loads this_load pending is l = Some l' \<and> length l' = CPU_LOAD_IDX_MAX \<and> (\<forall>x \<in> set l'. x \<le> m) \<and> l' ! 0 = l ! 0"
  using assms
proof (induction "is" arbitrary: l)
  case Nil
  then show ?case by simp
next
  case (Cons i r)
  have i: "i \<in> {1..<CPU_LOAD_IDX_MAX}" using Cons.prems(1) by simp
  have li: "l ! i \<le> m" using Cons.prems(2,3) i by simp
  then obtain o' where o': "decay_load_missed (l ! i) (pending - 1) i = Some o'" "o' \<le> l ! i"
    using decay_load_missed_le [OF _ i] Cons.prems(5) by (meson le_less_trans)
  let ?l = "l[i := mix_load i o' this_load]"
  have "mix_load i o' this_load \<le> m" using mix_load_le [OF _ Cons.prems(4,5) i] o'(2) li by simp
  then have "\<forall>x \<in> set ?l. x \<le> m" using Cons.prems(3) set_update_subset_insert [of l i] by blast
  then show ?case using Cons.IH [of ?l] Cons.prems i by (simp add: o'(1))
qed

section \<open>The ageing loop\<close>

lemma sint_diff: 
  assumes "sint (a :: u64) > sint b" "0 \<le> sint b"
  shows "sint (a - b) = sint a - sint b"
proof -
  have "sint a < 2 ^ 63" using sint_lt [of a] by simp
  then show ?thesis using assms by (simp add: sint_word_ariths signed_take_bit_int_eq_self)
qed

text \<open>The loop halves the average once for every full period, and only ends when the period is positive or nothing is to be done.\<close>

lemma sched_avg_loop_closed:
  assumes "0 < sint period"
  shows "sched_avg_loop now period stamp avg
    = (let k = nat ((sint (now - stamp) - 1) div sint period) in Some (stamp + of_nat k * period, drop_bit k avg))"
proof (induction "nat (sint (now - stamp))" arbitrary: stamp avg rule: less_induct)
  case less
  let ?t = "sint (now - stamp)" and ?p = "sint period"
  show ?case
  proof (cases "?t > ?p")
    case True
    let ?stamp = "stamp + period"
    have t: "sint (now - ?stamp) = ?t - ?p" using sint_diff [OF True] assms by (simp add: algebra_simps)
    have "nat (sint (now - ?stamp)) < nat ?t" using t True assms by simp
    from less.hyps [OF this, of "avg div 2"] t
    have r: "sched_avg_loop now period ?stamp (avg div 2)
      = (let k = nat ((?t - ?p - 1) div ?p) in Some (?stamp + of_nat k * period, drop_bit k (avg div 2)))" by simp
    have "(?t - 1) div ?p = (?t - ?p - 1) div ?p + 1" using assms div_add_self2 [of ?p "?t - ?p - 1"] by simp
    moreover have "0 \<le> (?t - ?p - 1) div ?p" using True assms by (simp add: pos_imp_zdiv_nonneg_iff)
    ultimately have k: "nat ((?t - 1) div ?p) = Suc (nat ((?t - ?p - 1) div ?p))" by simp
    show ?thesis
      by (subst sched_avg_loop.simps) (use True in \<open>simp add: r k drop_bit_Suc Let_def distrib_right add.assoc\<close>)
  next
    case False
    then have "nat ((?t - 1) div ?p) = 0"
    proof (cases "?t \<le> 0")
      case True
      then have "(?t - 1) div ?p < 0" using assms by (simp only: pos_imp_zdiv_neg_iff)
      then show ?thesis by simp
    next
      case False
      then show ?thesis using \<open>\<not> ?p < ?t\<close> by (simp add: div_pos_pos_trivial)
    qed
    then show ?thesis by (subst sched_avg_loop.simps) (use False in simp)
  qed
qed

lemma sched_avg_loop_returns:
  "sched_avg_loop now period stamp avg = Some y \<Longrightarrow> period = 0 \<longrightarrow> sint (now - stamp) \<le> 0"
  by (erule sched_avg_loop.raw_induct [where P = "\<lambda>now period stamp avg y. period = 0 \<longrightarrow> sint (now - stamp) \<le> 0", rotated])
    (auto split: if_splits)

lemma avg_period: "sint (sched_avg_period e) = int (unat (se_time_avg e)) * 500000"
proof -
  have w: "unat (se_time_avg e) < 2 ^ 32" using unsigned_less [where 'a = nat, of "se_time_avg e"] by simp
  have "unat (ucast (se_time_avg e) * 1000000 :: u64) = unat (se_time_avg e) * 1000000"
    using w by (simp add: unat_word_ariths unsigned_ucast_eq take_bit_nat_eq_self)
  then have "unat (sched_avg_period e) = unat (se_time_avg e) * 500000" by (simp add: sched_avg_period_def unat_div)
  moreover from this have "unat (sched_avg_period e) < 2 ^ 63" using w by simp
  moreover have "uint (sched_avg_period e) = int (unat (sched_avg_period e))" by (simp only: of_nat_unat)
  ultimately have "uint (sched_avg_period e) = int (unat (se_time_avg e)) * 500000" "uint (sched_avg_period e) < 2 ^ 63"
    by (simp_all only: of_nat_mult of_nat_numeral) (use w in simp)
  then show ?thesis by (simp add: sint_uint signed_take_bit_int_eq_self)
qed

text \<open>
  Claim C38. The loop that ages the real-time average of a run queue is a division: it advances the stamp by as many
  whole periods as leave at most one period to go and halves the average that often. With
  \<open>sched_time_avg\<close> set to 0 it never ends once the clock is ahead of the stamp, with the lock of the run queue held.
\<close>

theorem sched_avg_is_division:
  "sched_avg_update e cpu s =
     (let r = rqs s cpu; ahead = sint (clock r - age_stamp r);
          k = nat ((ahead - 1) div (int (unat (se_time_avg e)) * 500000))
      in if se_time_avg e = 0 \<and> 0 < ahead then None
         else Some (upd_rq cpu (\<lambda>r. r\<lparr>age_stamp := age_stamp r + of_nat k * sched_avg_period e, rt_avg := drop_bit k (rt_avg r)\<rparr>) s))"
proof (cases "se_time_avg e = 0")
  case True
  then have p: "sched_avg_period e = 0" by (simp add: sched_avg_period_def)
  show ?thesis
  proof (cases "0 < sint (clock (rqs s cpu) - age_stamp (rqs s cpu))")
    case ahead: True
    then have "sched_avg_loop (clock (rqs s cpu)) 0 (age_stamp (rqs s cpu)) (rt_avg (rqs s cpu)) = None"
      using sched_avg_loop_returns by (metis not_le option.exhaust)
    then show ?thesis using True ahead p by (simp add: sched_avg_update_def)
  next
    case False
    then show ?thesis using True p by (subst sched_avg_update_def, subst sched_avg_loop.simps) (simp add: upd_rq_def)
  qed
next
  case False
  then have "0 < sint (sched_avg_period e)" by (simp add: avg_period unat_gt_0)
  from sched_avg_loop_closed [OF this] False show ?thesis by (simp add: sched_avg_update_def avg_period upd_rq_def Let_def)
qed

lemma sched_avg_update_rest:
  assumes "se_time_avg e \<noteq> 0"
  obtains a v where "sched_avg_update e cpu s = Some (upd_rq cpu (\<lambda>r. r\<lparr>age_stamp := a, rt_avg := v\<rparr>) s)"
proof -
  have "0 < sint (sched_avg_period e)" using assms by (simp add: avg_period unat_gt_0)
  from sched_avg_loop_closed [OF this] show thesis using that by (fastforce simp: sched_avg_update_def Let_def)
qed

text \<open>
  Claim C21. With weights below \<open>2 ^ 24\<close> an update of the load of a run queue returns, for every number of missed ticks: it
  reads inside the tables of factors, nothing overflows, and no index exceeds the largest of the old values
  and the present load, which is what index 0 shows.
\<close>

theorem cpu_load_bounded:
  assumes "length (cpu_load (rqs s cpu)) = CPU_LOAD_IDX_MAX" "\<forall>x \<in> set (cpu_load (rqs s cpu)). x \<le> m"
    "weight (rq_load s cpu) \<le> m" "m < 2 ^ 24" "se_time_avg e \<noteq> 0"
  shows "\<exists>s'. update_cpu_load e cpu s = Some s' \<and> length (cpu_load (rqs s' cpu)) = CPU_LOAD_IDX_MAX
    \<and> (\<forall>x \<in> set (cpu_load (rqs s' cpu)). x \<le> m)
    \<and> (jiffies s = last_load_update_tick (rqs s cpu) \<or> cpu_load (rqs s' cpu) ! 0 = weight (rq_load s cpu))"
proof (cases "jiffies s = last_load_update_tick (rqs s cpu)")
  case True
  then show ?thesis using assms(1,2) by (simp add: update_cpu_load_def upd_rq_def)
next
  case False
  let ?l = "(cpu_load (rqs s cpu))[0 := weight (rq_load s cpu)]"
  have "set [1..<CPU_LOAD_IDX_MAX] \<subseteq> {1..<CPU_LOAD_IDX_MAX}" "length ?l = CPU_LOAD_IDX_MAX" using assms(1) by simp_all
  moreover have "\<forall>x \<in> set ?l. x \<le> m" using assms(2,3) set_update_subset_insert [of "cpu_load (rqs s cpu)" 0] by blast
  ultimately obtain l' where l': "update_loads (weight (rq_load s cpu)) (jiffies s - last_load_update_tick (rqs s cpu)) [1..<CPU_LOAD_IDX_MAX] ?l = Some l'"
    "length l' = CPU_LOAD_IDX_MAX" "\<forall>x \<in> set l'. x \<le> m" "l' ! 0 = ?l ! 0"
    using update_loads_ok [OF _ _ _ assms(3,4)] by blast
  let ?s = "upd_rq cpu (\<lambda>r. r\<lparr>last_load_update_tick := jiffies s, cpu_load := l'\<rparr>)
    (upd_rq cpu (\<lambda>r. r\<lparr>nr_load_updates := nr_load_updates r + 1\<rparr>) s)"
  obtain a v where "sched_avg_update e cpu ?s = Some (upd_rq cpu (\<lambda>r. r\<lparr>age_stamp := a, rt_avg := v\<rparr>) ?s)"
    using sched_avg_update_rest [OF assms(5)] by blast
  then show ?thesis using False l' assms(1) by (simp add: update_cpu_load_def upd_rq_def del: upt_Suc)
qed

end
