(* ===== verification/Sched_Reach.thy ===== *)
theory Sched_Reach
  imports Sched_Invariant Sched_Decay Sched_Average
begin

text \<open>What the readers of the counters see in every state that the scheduler can reach.\<close>

section \<open>Sums of counters\<close>

lemma number_disj:
  assumes "\<And>p. p \<in> set ps \<Longrightarrow> \<not> (P p \<and> Q p)"
  shows "number (\<lambda>p. P p \<or> Q p) ps = number P ps + number Q ps"
  using assms
proof (induction ps)
  case (Cons p ps)
  then show ?case by (cases "P p"; cases "Q p") (auto simp: number_def)
qed (simp add: number_def)

lemma number_sum:
  assumes "distinct xs" "\<And>c d p. P c p \<Longrightarrow> P d p \<Longrightarrow> c = d"
  shows "(\<Sum>c \<leftarrow> xs. number (P c) ps) = number (\<lambda>p. \<exists>c \<in> set xs. P c p) ps"
  using assms(1)
proof (induction xs)
  case (Cons x xs)
  have "number (\<lambda>p. P x p \<or> (\<exists>c \<in> set xs. P c p)) ps = number (P x) ps + number (\<lambda>p. \<exists>c \<in> set xs. P c p) ps"
    by (rule number_disj) (use Cons.prems assms(2) in auto)
  then show ?case using Cons by simp
qed (simp add: number_def)

lemma fold_sum: "fold (\<lambda>i sum. sum + f i) xs a = a + (\<Sum>i \<leftarrow> xs. f i :: u32)"
  by (induction xs arbitrary: a) (simp_all add: algebra_simps)

lemma queues_sum:
  assumes "sched_ok e s" "distinct xs" "set xs \<subseteq> set (se_possible e)"
  shows "(\<Sum>c \<leftarrow> xs. rq_nr_running (rqs s c)) = number (\<lambda>p. on_rq (tasks s p) \<and> t_cpu (tasks s p) \<in> set xs) (pids s)"
proof -
  have "(\<Sum>c \<leftarrow> xs. rq_nr_running (rqs s c)) = (\<Sum>c \<leftarrow> xs. number (runnable s c) (pids s))"
    using assms(1,3) by (intro arg_cong [where f = sum_list] map_cong) (auto simp: sched_ok_def counts_ok_def)
  also have "\<dots> = number (\<lambda>p. \<exists>c \<in> set xs. runnable s c p) (pids s)" by (rule number_sum [OF assms(2)]) (simp add: runnable_def)
  also have "\<dots> = number (\<lambda>p. on_rq (tasks s p) \<and> t_cpu (tasks s p) \<in> set xs) (pids s)" by (rule number_cong) (auto simp: runnable_def)
  finally show ?thesis .
qed

lemma online_counted:
  assumes "env_ok e" "sched_ok e s"
  shows "fst (nr_running e s) = of_nat (length (filter (\<lambda>p. on_rq (tasks s p) \<and> cpus_online s (t_cpu (tasks s p))) (pids s)))"
proof -
  have "fst (nr_running e s) = (\<Sum>c \<leftarrow> filter (cpus_online s) (se_possible e). rq_nr_running (rqs s c))"
    by (simp add: nr_running_def fold_sum Let_def)
  also have "\<dots> = number (\<lambda>p. on_rq (tasks s p) \<and> t_cpu (tasks s p) \<in> set (filter (cpus_online s) (se_possible e))) (pids s)"
    by (rule queues_sum [OF assms(2)]) (use env_okD(2) [OF assms(1)] in auto)
  also have "\<dots> = number (\<lambda>p. on_rq (tasks s p) \<and> cpus_online s (t_cpu (tasks s p))) (pids s)"
    by (rule number_cong) (use okD(3) [OF assms(2)] in auto)
  finally show ?thesis by (simp add: number_def)
qed

lemma sleepers_total:
  assumes "sched_ok e s" "length (filter (load_sleeper e s) (pids s)) < 2 ^ 31"
  shows "nr_uninterruptible e s = of_nat (length (filter (load_sleeper e s) (pids s)))"
proof -
  let ?n = "length (filter (load_sleeper e s) (pids s))"
  have "fold (\<lambda>i sum. sum + rq_nr_uninterruptible (rqs s i)) (se_possible e) 0 = of_nat ?n"
    using assms(1) by (simp add: fold_sum sched_ok_def counts_ok_def total_def number_def)
  moreover have "c_int (of_nat ?n) = int ?n" using assms(2) by (subst c_int_small) (simp_all add: unat_of_nat)
  ultimately show ?thesis by (simp add: nr_uninterruptible_def Let_def)
qed

lemma folded_load:
  assumes "env_ok e" "sched_ok e s"
    "\<And>c. c \<in> set (se_possible e) \<Longrightarrow> calc_load_active (rqs s c) = rq_nr_running (rqs s c) + rq_nr_uninterruptible (rqs s c)"
  shows "calc_load_tasks s + calc_load_tasks_idle s = of_nat (length (filter (\<lambda>p. on_rq (tasks s p) \<or> load_sleeper e s p) (pids s)))"
proof -
  have "total e calc_load_active s = (\<Sum>c \<leftarrow> se_possible e. rq_nr_running (rqs s c) + rq_nr_uninterruptible (rqs s c))"
    unfolding total_def by (intro arg_cong [where f = sum_list] map_cong) (use assms(3) in auto)
  also have "\<dots> = (\<Sum>c \<leftarrow> se_possible e. rq_nr_running (rqs s c)) + total e rq_nr_uninterruptible s"
    unfolding total_def by (induction "se_possible e") (simp_all add: sum_list_addf)
  also have "(\<Sum>c \<leftarrow> se_possible e. rq_nr_running (rqs s c)) = number (\<lambda>p. on_rq (tasks s p) \<and> t_cpu (tasks s p) \<in> set (se_possible e)) (pids s)"
    by (rule queues_sum [OF assms(2) env_okD(2) [OF assms(1)]]) simp
  also have "\<dots> = number (\<lambda>p. on_rq (tasks s p)) (pids s)" by (rule number_cong) (use okD(3) [OF assms(2)] in auto)
  also have "total e rq_nr_uninterruptible s = number (load_sleeper e s) (pids s)" using assms(2) by (simp add: sched_ok_def counts_ok_def)
  also have "number (\<lambda>p. on_rq (tasks s p)) (pids s) + number (load_sleeper e s) (pids s) = number (\<lambda>p. on_rq (tasks s p) \<or> load_sleeper e s p) (pids s)"
    by (rule number_disj [symmetric]) (auto simp: load_sleeper_def)
  finally show ?thesis using okD_load [OF assms(2)] by (simp add: load_ok_def number_def)
qed

section \<open>A small system\<close>

text \<open>Two CPUs and classes without data of their own: the first queued task of a class is its next one.\<close>

definition small_env :: "unit sched_env" where
  "small_env = \<lparr>se_possible = [0, 1], se_contributes = (\<lambda>st f. st AND TASK_UNINTERRUPTIBLE \<noteq> 0), se_op = (\<lambda>op s. s),
     se_pick = (\<lambda>cls c s. (case cls of
         Stop_class \<Rightarrow> (case stop (rqs s c) of None \<Rightarrow> None | Some p \<Rightarrow> if on_rq (tasks s p) \<and> t_cpu (tasks s p) = c then Some p else None)
       | Idle_class \<Rightarrow> Some (idle (rqs s c))
       | _ \<Rightarrow> find (\<lambda>p. t_class (tasks s p) = cls \<and> on_rq (tasks s p) \<and> t_cpu (tasks s p) = c) (pids s), s)),
     se_select = (\<lambda>p s. (t_cpu (tasks s p), s)), se_fallback = (\<lambda>p s. (0, \<lambda>c. True)), se_signal = (\<lambda>p s. False),
     se_wq_sleeping = (\<lambda>p c s. None), se_getprio = (\<lambda>p t. t_normal_prio t), se_clock = (\<lambda>c s. clock (rqs s c) + 5000000),
     se_ttwu_queue = True, se_irqs_on_ctxsw = True, se_migration_cost = 500000, se_time_avg = 1000\<rparr>"

definition small_task :: task where
  "small_task = \<lparr>t_state = TASK_RUNNING, t_flags = 0, on_rq = True, on_cpu = False, t_cpu = 0, t_policy = SCHED_NORMAL, t_prio = 120,
     static_prio = 120, t_normal_prio = 120, t_rt_priority = 0, t_class = Fair_class, t_load = \<lparr>weight = 1024, inv_weight = 4194304\<rparr>,
     reset_on_fork = False, contributes_to_load = False, has_mm = True, cpus_allowed = (\<lambda>c. True), nr_migrations = 0, nvcsw = 0, nivcsw = 0\<rparr>"

definition small_rq :: "u32 \<Rightarrow> nat \<Rightarrow> nat \<Rightarrow> rq" where
  "small_rq n cur idl = \<lparr>rq_nr_running = n, cpu_load = [0, 0, 0, 0, 0], last_load_update_tick = 0, skip_clock_update = 0, nr_load_updates = 0,
     nr_switches = 0, rq_nr_uninterruptible = 0, curr = cur, idle = idl, stop = None, clock = 0, clock_task = 0, rq_nr_iowait = 0,
     rq_online = True, avg_load_per_task = 0, rt_avg = 0, age_stamp = 0, idle_stamp = 0, avg_idle = 0, rq_calc_load_update = 1001,
     calc_load_active = 0, wake_list = []\<rparr>"

text \<open>Tasks 1 and 2 are on the queue of CPU 0, the first one runs; 10 and 11 are the idle tasks.\<close>

definition small_start :: "unit sched" where
  "small_start = \<lparr>tasks = (\<lambda>p. if p = 1 \<or> p = 2 then small_task else small_task\<lparr>on_rq := False, t_class := Idle_class, has_mm := False\<rparr>), pids = [1, 2],
     rqs = (\<lambda>c. if c = 0 then small_rq 2 1 10 else small_rq 0 11 11), rq_load = (\<lambda>c. \<lparr>weight = if c = 0 then 2048 else 0, inv_weight = 0\<rparr>),
     cfs_nr_running = (\<lambda>c. if c = 0 then 2 else 0), need_resched = (\<lambda>p. False), class_data = (), cpus_online = (\<lambda>c. c = 0 \<or> c = 1),
     cpus_active = (\<lambda>c. c = 0 \<or> c = 1), in_schedule = (\<lambda>c. None), jiffies = 0, calc_load_tasks = 0, calc_load_tasks_idle = 0,
     calc_load_update = 1001, avenrun = [0, 0, 0], run_thread_number = 0\<rparr>"

text \<open>Task 1 goes to sleep uninterruptibly, and both CPUs report their load.\<close>

definition small_sleep :: "unit sched" where
  "small_sleep = upd_task 1 (\<lambda>t. t\<lparr>t_state := TASK_UNINTERRUPTIBLE, t_flags := 0\<rparr>) small_start"

definition small_out :: "unit sched" where
  "small_out = (case schedule_out small_env 0 False small_sleep of None \<Rightarrow> small_sleep | Some s \<Rightarrow> s)"

definition small_end :: "unit sched" where
  "small_end = calc_load_account_idle 1 (calc_load_account_idle 0 small_out)"

lemma small_env_ok: "env_ok small_env"
proof -
  have k: "class_frame s s" for s :: "unit sched" by (auto simp: class_frame_def intro!: exI sched.equality [symmetric])
  have "pick_ok c cls p s" if "fst (se_pick small_env cls c s) = Some p" for c cls p s
    using that by (cases cls) (auto simp: small_env_def pick_ok_def find_Some_iff split: option.splits if_splits)
  then have "class_ops_ok small_env" using k by (simp add: class_ops_ok_def) (simp add: small_env_def k)
  then show ?thesis by (simp add: env_ok_def contributes_ok_def others_ok_def) (simp add: small_env_def)
qed

lemma small_start_ok: "sched_ok small_env small_start"
  by (simp add: sched_ok_def queues_ok_def counts_ok_def load_ok_def total_def number_def runnable_def load_sleeper_def contributes_def
      small_env_def small_start_def small_task_def small_rq_def)

lemma small_out_some: "schedule_out small_env 0 False small_sleep = Some small_out"
  by (simp add: small_out_def schedule_out_def Let_def small_env_def small_sleep_def small_start_def small_rq_def small_task_def
      deactivate_task_def dequeue_task_def update_rq_clock_def dec_nr_running_def add_uninterruptible_def contributes_def)

lemma small_reach: "(sched_step small_env)\<^sup>*\<^sup>* small_start small_end"
proof -
  have own: "sched_step small_env small_start small_sleep"
    unfolding small_sleep_def by (rule own_state [of 0]) (simp_all add: small_env_def small_start_def small_rq_def small_task_def)
  have out: "sched_step small_env small_sleep small_out"
    by (rule leave [OF _ _ small_out_some]) (simp_all add: small_env_def small_sleep_def small_start_def)
  have idle0: "sched_step small_env small_out (calc_load_account_idle 0 small_out)" by (rule go_idle) (simp add: small_env_def)
  have idle1: "sched_step small_env (calc_load_account_idle 0 small_out) small_end"
    unfolding small_end_def by (rule go_idle) (simp add: small_env_def)
  note steps = rtranclp.rtrancl_into_rtrancl
  show ?thesis by (rule steps [OF steps [OF steps [OF r_into_rtranclp [of "sched_step small_env", OF own] out] idle0] idle1])
qed

lemmas small_eval = small_end_def small_out_def schedule_out_def Let_def small_env_def small_sleep_def small_start_def small_rq_def small_task_def
  deactivate_task_def dequeue_task_def update_rq_clock_def dec_nr_running_def add_uninterruptible_def contributes_def
  calc_load_account_idle_def calc_load_fold_active_def

section \<open>What the readers see\<close>

text \<open>
  Claim C6. The number of running threads, which the governors, the hotplug code and the daemons read, is exact in every
  reachable state: after any sequence of wake-ups, also through the wake list of another CPU, sleeps, forks, changes of
  priority, policy and affinity, migrations, ticks and CPUs going up and down, it is the number of tasks
  on the run queues of the online CPUs (modulo \<open>2 ^ 32\<close>, the width of the counter).
\<close>
theorem runnable_threads_counted:
  assumes "env_ok e" "sched_ok e s0" "(sched_step e)\<^sup>*\<^sup>* s0 s"
  shows "fst (nr_running e s) = of_nat (length (filter (\<lambda>p. on_rq (tasks s p) \<and> cpus_online s (t_cpu (tasks s p))) (pids s)))"
  by (rule online_counted [OF assms(1) reachable_ok [OF assms]])


text \<open>
  Claim C18. The load average averages the right number: in a reachable state where every CPU has just reported, the active
  tasks reported so far and those parked by idle CPUs add up to the tasks that are runnable or counted as sleeping
  uninterruptibly; no report is lost or counted twice, also when CPUs go idle or are unplugged in between.
\<close>
theorem load_average_counts:
  assumes "env_ok e" "sched_ok e s0" "(sched_step e)\<^sup>*\<^sup>* s0 s"
    "list_all (\<lambda>c. calc_load_active (rqs s c) = rq_nr_running (rqs s c) + rq_nr_uninterruptible (rqs s c)) (se_possible e)"
  shows "calc_load_tasks s + calc_load_tasks_idle s = of_nat (length (filter (\<lambda>p. on_rq (tasks s p) \<or> load_sleeper e s p) (pids s)))"
  by (rule folded_load [OF assms(1) reachable_ok [OF assms(1-3)]]) (use assms(4) in \<open>auto simp: list_all_iff\<close>)

section \<open>Witnesses\<close>

lemma runnable_threads_counted_witness:
  "fst (nr_running small_env small_end) = 1"
proof -
  have "length (filter (\<lambda>p. on_rq (tasks small_end p) \<and> cpus_online small_end (t_cpu (tasks small_end p))) (pids small_end)) = 1"
    by (simp add: small_eval)
  then show ?thesis using runnable_threads_counted [OF small_env_ok small_start_ok small_reach] by simp
qed


lemma load_average_counts_witness: "calc_load_tasks small_end + calc_load_tasks_idle small_end = 2"
proof -
  have "list_all (\<lambda>c. calc_load_active (rqs small_end c) = rq_nr_running (rqs small_end c) + rq_nr_uninterruptible (rqs small_end c)) (se_possible small_env)"
    by (simp add: small_eval)
  moreover have "length (filter (\<lambda>p. on_rq (tasks small_end p) \<or> load_sleeper small_env small_end p) (pids small_end)) = 2"
    by (simp add: small_eval load_sleeper_def)
  ultimately show ?thesis using load_average_counts [OF small_env_ok small_start_ok small_reach] by simp
qed

text \<open>The load of the first run queue after seven ticks.\<close>

lemma cpu_load_bounded_witness:
  "\<exists>s'. update_cpu_load small_env 0 (small_start\<lparr>jiffies := 7\<rparr>) = Some s' \<and> length (cpu_load (rqs s' 0)) = CPU_LOAD_IDX_MAX
    \<and> (\<forall>x \<in> set (cpu_load (rqs s' 0)). x \<le> 2048) \<and> cpu_load (rqs s' 0) ! 0 = 2048"
proof -
  let ?s = "small_start\<lparr>jiffies := 7\<rparr>"
  have "length (cpu_load (rqs ?s 0)) = CPU_LOAD_IDX_MAX" "\<forall>x \<in> set (cpu_load (rqs ?s 0)). x \<le> 2048" "weight (rq_load ?s 0) \<le> 2048"
    "se_time_avg small_env \<noteq> 0" "jiffies ?s \<noteq> last_load_update_tick (rqs ?s 0)" "weight (rq_load ?s 0) = 2048"
    by (simp_all add: small_start_def small_rq_def small_env_def)
  then show ?thesis using cpu_load_bounded [of ?s 0 2048 small_env] by auto
qed

end
