(* ===== verification/Sched_Tasks.thy ===== *)
theory Sched_Tasks
  imports Sched_Reach
begin

text \<open>
  The priority fields of a task stay consistent: policy, real-time priority, nice value, normal and effective priority,
  scheduling class and load weight agree after every change of priority or policy and in a new task; the one
  exception is the child of a real-time task that asked for a reset on fork.
\<close>

section \<open>What a change of priority does to the tasks\<close>

text \<open>The stop threads and the idle tasks stand outside the priorities; they have no memory of their own.\<close>

definition ordinary :: "task \<Rightarrow> bool" where
  "ordinary t \<longleftrightarrow> t_class t = Rt_class \<or> t_class t = Fair_class"

definition prio_ok :: "task \<Rightarrow> bool" where
  "prio_ok t \<longleftrightarrow> (if ordinary t then task_ok t else \<not> has_mm t)"

definition getprio_ok :: "'c sched_env \<Rightarrow> bool" where
  "getprio_ok e \<longleftrightarrow> (\<forall>p t. 0 \<le> t_normal_prio t \<longrightarrow> 0 \<le> se_getprio e p t \<and> se_getprio e p t \<le> t_normal_prio t)"

inductive prio_step :: "'c sched_env \<Rightarrow> 'c sched \<Rightarrow> 'c sched \<Rightarrow> bool" for e :: "'c sched_env" where
  nice: "prio_step e s (set_user_nice e p n s)"
| sys_nice: "prio_step e s (snd (sys_nice e ca p inc s))"
| policy: "ordinary (tasks s p) \<Longrightarrow> prio_step e s (snd (sched_setscheduler e ca z p pol prio s))"
| inherit: "ordinary (tasks s p) \<Longrightarrow> prio \<le> t_normal_prio (tasks s p) \<Longrightarrow> rt_mutex_setprio e p prio s = Some s' \<Longrightarrow> prio_step e s s'"
| normalize: "prio_step e s (normalize_rt_tasks e s)"
| fork: "ordinary (tasks s (curr (rqs s c))) \<Longrightarrow> \<not> reset_on_fork (tasks s (curr (rqs s c)))
    \<Longrightarrow> prio_step e s (sched_fork e c p (copied c p s))"

text \<open>The view of a task that the priorities depend on.\<close>

definition same_prio :: "task \<Rightarrow> task \<Rightarrow> bool" where
  "same_prio t u \<longleftrightarrow> t_policy t = t_policy u \<and> t_prio t = t_prio u \<and> static_prio t = static_prio u \<and> t_normal_prio t = t_normal_prio u
     \<and> t_rt_priority t = t_rt_priority u \<and> t_class t = t_class u \<and> t_load t = t_load u \<and> has_mm t = has_mm u"

lemma prio_ok_cong:
  assumes "same_prio t u"
  shows "task_ok t = task_ok u" "prio_ok t = prio_ok u"
proof -
  have e: "t_policy t = t_policy u" "t_prio t = t_prio u" "static_prio t = static_prio u" "t_normal_prio t = t_normal_prio u"
    "t_rt_priority t = t_rt_priority u" "t_class t = t_class u" "t_load t = t_load u" "has_mm t = has_mm u"
    using assms by (simp_all add: same_prio_def)
  show k: "task_ok t = task_ok u"
    unfolding task_ok_def e task_has_rt_policy_def normal_prio_cong [OF e(1,5,3)] weight_ok_cong [OF e(1,3,7)] by simp
  show "prio_ok t = prio_ok u" unfolding prio_ok_def ordinary_def e k ..
qed

lemma op_tasks: "class_ops_ok e \<Longrightarrow> tasks (se_op e op s) = tasks s"
  unfolding class_ops_ok_def class_frame_def by (metis (no_types, lifting) sched.select_convs(1) sched.surjective sched.update_convs(4-7))

lemma queue_tasks:
  assumes "class_ops_ok e"
  shows "tasks (enqueue_task e c p f s) = tasks s" "tasks (dequeue_task e c p f s) = tasks s" "tasks (activate_task e c p f s) = tasks s"
    "tasks (deactivate_task e c p f s) = tasks s" "tasks (check_class_changed e c p cls prio s) = tasks s" "tasks (resched_task q s) = tasks s"
  by (simp_all add: enqueue_task_def dequeue_task_def activate_task_def deactivate_task_def check_class_changed_def resched_task_def
      update_rq_clock_def inc_nr_running_def dec_nr_running_def add_uninterruptible_def op_tasks [OF assms] Let_def)

lemma nice_tasks:
  assumes "class_ops_ok e"
  shows "tasks (set_user_nice e p n s) =
    (if task_nice (tasks s p) = n \<or> n < - 20 \<or> n > 19 then tasks s
     else if task_has_rt_policy (tasks s p) then (tasks s)(p := (tasks s p)\<lparr>static_prio := NICE_TO_PRIO n\<rparr>)
     else (tasks s)(p := renice n (tasks s p)))"
  by (simp add: set_user_nice_def queue_tasks [OF assms] Let_def)

lemma static_change_ok:
  assumes "task_ok t" "task_has_rt_policy t" "- 20 \<le> n" "n \<le> 19"
  shows "task_ok (t\<lparr>static_prio := NICE_TO_PRIO n\<rparr>)"
  using assms by (simp add: task_ok_def NICE_TO_PRIO_def task_has_rt_policy_def normal_prio_def class_of_prio_def)

lemma renice_ok:
  assumes "task_ok t" "\<not> task_has_rt_policy t" "- 20 \<le> n" "n \<le> 19"
  shows "task_ok (renice n t)"
proof -
  let ?w = "set_load_weight (t\<lparr>static_prio := NICE_TO_PRIO n\<rparr>)"
  let ?q = "?w\<lparr>t_normal_prio := NICE_TO_PRIO n\<rparr>"
  have n: "normal_prio ?w = NICE_TO_PRIO n" using assms(2) by (simp add: normal_prio_def task_has_rt_policy_def)
  have r: "renice n t = ?q\<lparr>t_prio := (if rt_prio (t_prio t) then t_prio t else NICE_TO_PRIO n)\<rparr>"
    by (simp add: renice_def effective_prio_def Let_def n)
  have "weight_ok (renice n t)" unfolding r by (simp add: weight_ok_def set_load_weight_def Let_def)
  then show ?thesis
    using assms by (simp add: task_ok_def r normal_prio_def task_has_rt_policy_def class_of_prio_def rt_prio_def NICE_TO_PRIO_def)
qed

lemma nice_ok:
  assumes "class_ops_ok e" "\<And>q. prio_ok (tasks s q)"
  shows "prio_ok (tasks (set_user_nice e p n s) q)"
proof -
  have k: "t_class (renice n t) = t_class t" "has_mm (renice n t) = has_mm t" for t by (simp_all add: renice_def effective_prio_def Let_def)
  show ?thesis
    using assms(2) [of q] renice_ok [of "tasks s p" n] static_change_ok [of "tasks s p" n]
    by (auto simp: nice_tasks [OF assms(1)] prio_ok_def ordinary_def k)
qed

lemma setscheduler_tasks:
  assumes "class_ops_ok e"
  shows "tasks (snd (sched_setscheduler e ca z p pol prio s)) = tasks s
    \<or> (\<exists>policy reset. setscheduler_checks ca pol prio (tasks s p) = Inr (policy, reset)
        \<and> tasks (snd (sched_setscheduler e ca z p pol prio s))
          = (tasks s)(p := setscheduler (se_getprio e p) policy prio ((tasks s p)\<lparr>reset_on_fork := reset\<rparr>)))"
proof (cases "setscheduler_checks ca pol prio (tasks s p)")
  case (Inr r)
  obtain policy reset where r: "r = (policy, reset)" by (cases r)
  show ?thesis
    unfolding sched_setscheduler_def Inr r sum.case prod.case let_values
    by (simp add: Let_def queue_tasks [OF assms] op_tasks [OF assms])
qed (simp add: sched_setscheduler_def)

lemma setscheduler_ordinary: "ordinary (setscheduler g pol prio t)"
  by (simp add: setscheduler_def Let_def class_of_prio_def ordinary_def)

lemma policy_ok:
  assumes "class_ops_ok e" "getprio_ok e" "\<And>q. prio_ok (tasks s q)" "ordinary (tasks s p)"
  shows "prio_ok (tasks (snd (sched_setscheduler e ca z p pol prio s)) q)"
  using setscheduler_tasks [OF assms(1), of ca z p pol prio s]
proof (elim disjE exE conjE)
  fix policy reset
  let ?t = "(tasks s p)\<lparr>reset_on_fork := reset\<rparr>"
  assume c: "setscheduler_checks ca pol prio (tasks s p) = Inr (policy, reset)"
    and t: "tasks (snd (sched_setscheduler e ca z p pol prio s)) = (tasks s)(p := setscheduler (se_getprio e p) policy prio ?t)"
  have k: "task_ok (tasks s p)" using assms(3) [of p] assms(4) by (simp add: prio_ok_def)
  have kt: "task_ok ?t" using k prio_ok_cong(1) [of ?t "tasks s p"] by (simp add: same_prio_def)
  note ch = checks_passed [OF c k]
  have "task_ok (setscheduler (se_getprio e p) policy prio ?t)"
    by (rule setscheduler_ok [OF kt ch]) (use assms(2) in \<open>simp add: getprio_ok_def\<close>)
  moreover have "ordinary (setscheduler (se_getprio e p) policy prio ?t)" by (rule setscheduler_ordinary)
  ultimately show ?thesis using assms(3) unfolding t by (simp add: prio_ok_def)
qed (use assms(3) in simp)

lemma inherit_ok:
  assumes "class_ops_ok e" "\<And>q. prio_ok (tasks s q)" "ordinary (tasks s p)" "prio \<le> t_normal_prio (tasks s p)"
    "rt_mutex_setprio e p prio s = Some s'"
  shows "prio_ok (tasks s' q)"
proof -
  have t: "tasks s' = (tasks s)(p := (tasks s p)\<lparr>t_class := class_of_prio prio, t_prio := prio\<rparr>)" and "0 \<le> prio"
    using assms(5) unfolding rt_mutex_setprio_def let_values
    by (auto simp: Let_def queue_tasks [OF assms(1)] op_tasks [OF assms(1)] split: if_splits)
  moreover have "task_ok (tasks s p)" using assms(2) [of p] assms(3) by (simp add: prio_ok_def)
  ultimately have "task_ok (tasks s' p)" using assms(4)
    by (simp add: task_ok_def task_has_rt_policy_def normal_prio_def weight_ok_def set_load_weight_def Let_def) (auto split: if_splits)
  then show ?thesis using assms(2) [of q] t by (cases "q = p") (auto simp: prio_ok_def ordinary_def class_of_prio_def)
qed

lemma normalize_ok:
  assumes "class_ops_ok e" "getprio_ok e" "\<And>q. prio_ok (tasks s q)"
  shows "prio_ok (tasks (normalize_rt_tasks e s) q)"
proof -
  have one: "\<forall>q. prio_ok (tasks (normalize_one e p u) q)" if "\<forall>q. prio_ok (tasks u q)" for p u
  proof (cases "has_mm (tasks u p) \<and> rt_prio (t_prio (tasks u p))")
    case True
    then have k: "task_ok (tasks u p)" using that by (metis prio_ok_def)
    have "tasks (normalize_one e p u) = (tasks u)(p := setscheduler (se_getprio e p) SCHED_NORMAL 0 (tasks u p))"
      using True by (simp add: normalize_one_def normalize_task_def Let_def queue_tasks [OF assms(1)])
    moreover have "task_ok (setscheduler (se_getprio e p) SCHED_NORMAL 0 (tasks u p))"
      by (rule setscheduler_ok [OF k]) (use assms(2) in \<open>simp_all add: rt_policy_def getprio_ok_def\<close>)
    moreover have "ordinary (setscheduler (se_getprio e p) SCHED_NORMAL 0 (tasks u p))" by (rule setscheduler_ordinary)
    ultimately show ?thesis using that by (simp add: prio_ok_def)
  next
    case False
    then show ?thesis using that nice_ok [OF assms(1), of u p 0] by (auto simp: normalize_one_def)
  qed
  have "\<forall>q. prio_ok (tasks (fold (normalize_one e) ps u) q)" if "\<forall>q. prio_ok (tasks u q)" for ps u
    using that one by (induction ps arbitrary: u) auto
  then show ?thesis using assms(3) by (simp add: normalize_rt_tasks_def)
qed

text \<open>The new task, with everything the view of the priorities needs.\<close>

lemma fork_tasks:
  assumes "class_ops_ok e"
  shows "same_prio (tasks (sched_fork e c p (copied c p s)) p)
      (fork_prio (tasks (copied c p s) (curr (rqs s c))) (tasks s (curr (rqs s c))))"
    "q \<noteq> p \<Longrightarrow> tasks (sched_fork e c p (copied c p s)) q = tasks s q"
  by (simp_all add: sched_fork_def copied_def Let_def op_tasks [OF assms] set_task_cpu_def same_prio_def)

lemma fork_prio_ok:
  assumes "task_ok t" "ordinary t" "\<not> reset_on_fork t"
  shows "task_ok (fork_prio t t)" "ordinary (fork_prio t t)"
proof -
  let ?n = "t\<lparr>t_prio := t_normal_prio t, t_class := (if rt_prio (t_normal_prio t) then t_class t else Fair_class)\<rparr>"
  have s: "same_prio (fork_prio t t) ?n" using assms(3) by (simp add: fork_prio_def Let_def same_prio_def)
  have "task_ok ?n"
    using assms(1) by (simp add: task_ok_def task_has_rt_policy_def normal_prio_def weight_ok_def set_load_weight_def Let_def class_of_prio_def rt_prio_def)
      (auto split: if_splits)
  then show "task_ok (fork_prio t t)" using prio_ok_cong(1) [OF s] by simp
  show "ordinary (fork_prio t t)" using s assms(2) by (simp add: same_prio_def ordinary_def)
qed

lemma fork_keeps_ok:
  assumes "class_ops_ok e" "\<And>q. prio_ok (tasks s q)" "ordinary (tasks s (curr (rqs s c)))" "\<not> reset_on_fork (tasks s (curr (rqs s c)))"
  shows "prio_ok (tasks (sched_fork e c p (copied c p s)) q)"
proof (cases "q = p")
  case True
  let ?t = "tasks s (curr (rqs s c))"
  have "tasks (copied c p s) (curr (rqs s c)) = ?t" by (simp add: copied_def)
  moreover have "task_ok ?t" using assms(2) [of "curr (rqs s c)"] assms(3) by (simp add: prio_ok_def)
  ultimately show ?thesis
    using fork_prio_ok [OF _ assms(3,4)] prio_ok_cong(2) [OF fork_tasks(1) [OF assms(1), of c p s]] True by (simp add: prio_ok_def)
qed (simp add: fork_tasks(2) [OF assms(1)] assms(2))

lemma prio_step_ok:
  assumes "class_ops_ok e" "getprio_ok e" "prio_step e s s'" "\<And>q. prio_ok (tasks s q)"
  shows "prio_ok (tasks s' q)"
  using assms(3)
proof cases
  case (sys_nice ca p inc)
  then show ?thesis using assms(4) nice_ok [OF assms(1,4)] by (simp add: sys_nice_def split: sum.split)
qed (use assms(4) nice_ok [OF assms(1,4)] policy_ok [OF assms(1,2,4)] inherit_ok [OF assms(1,4)] normalize_ok [OF assms(1,2,4)]
    fork_keeps_ok [OF assms(1,4)] in blast)+

section \<open>The invariant\<close>


text \<open>
  Claim C39. The flag that resets the scheduling of a child on fork does not reset it: the child of a real-time task with the flag
  has the normal policy but keeps the real-time priority of its parent and its real-time class, since the
  assignment that keeps an inherited priority from leaking overwrites the reset.
\<close>
theorem fork_reset_stays_real_time:
  assumes "class_ops_ok e" "task_ok (tasks s (curr (rqs s c)))" "task_has_rt_policy (tasks s (curr (rqs s c)))"
    "reset_on_fork (tasks s (curr (rqs s c)))"
  shows "let child = tasks (sched_fork e c p (copied c p s)) p
         in t_policy child = SCHED_NORMAL \<and> t_prio child = t_normal_prio (tasks s (curr (rqs s c))) \<and> t_class child = Rt_class"
proof -
  let ?t = "tasks s (curr (rqs s c))"
  have n: "rt_prio (t_normal_prio ?t)" using normal_prio_range(3) [of ?t] assms(2,3) by (auto simp: task_ok_def)
  moreover have "t_class ?t = Rt_class" using assms(2) n by (auto simp: task_ok_def class_of_prio_def rt_prio_def)
  moreover have "tasks (copied c p s) (curr (rqs s c)) = ?t" by (simp add: copied_def)
  ultimately show ?thesis
    using fork_tasks(1) [OF assms(1), of c p s] assms(3,4)
    by (auto simp: same_prio_def fork_prio_def Let_def task_has_rt_policy_def)
qed

section \<open>Witnesses\<close>

text \<open>The first task of the small system gets a lower priority; or it is real-time and forks.\<close>

definition small_rt :: "unit sched" where
  "small_rt = upd_task 1 (\<lambda>t. t\<lparr>t_policy := SCHED_FIFO, t_rt_priority := 50, t_normal_prio := 49, t_prio := 49, t_class := Rt_class,
     reset_on_fork := True\<rparr>) small_start"

lemma small_ops_ok: "class_ops_ok small_env"
  using small_env_ok by (simp add: env_ok_def)

lemma small_prios: "prio_ok (tasks small_start q)"
  by (simp add: small_start_def small_task_def prio_ok_def ordinary_def task_ok_def task_has_rt_policy_def rt_policy_def normal_prio_def
      class_of_prio_def rt_prio_def weight_ok_def set_load_weight_def prio_to_weight_def prio_to_wmult_def Let_def)


lemma fork_reset_stays_real_time_witness:
  "t_class (tasks (sched_fork small_env 0 3 (copied 0 3 small_rt)) 3) = Rt_class \<and>
   t_policy (tasks (sched_fork small_env 0 3 (copied 0 3 small_rt)) 3) = SCHED_NORMAL"
proof -
  have c: "curr (rqs small_rt 0) = 1" by (simp add: small_rt_def small_start_def small_rq_def)
  have "task_ok (tasks small_rt 1)"
    by (simp add: small_rt_def small_start_def small_task_def task_ok_def task_has_rt_policy_def rt_policy_def normal_prio_def
        class_of_prio_def rt_prio_def c_int_def c_uint_def)
  moreover have "task_has_rt_policy (tasks small_rt 1)" "reset_on_fork (tasks small_rt 1)"
    by (simp_all add: small_rt_def task_has_rt_policy_def rt_policy_def)
  ultimately show ?thesis using fork_reset_stays_real_time [OF small_ops_ok, of small_rt 0 3] unfolding c by (simp add: Let_def)
qed

end
