(* ===== verification/Sched_Plugging.thy ===== *)
theory Sched_Plugging
  imports Sched_Tasks Hotplug_Safety
begin

text \<open>
  The scheduler and the CPU hotplug together: the number that the hotplug code compares with its limits is that of the
  tasks that want to run, so tasks that stay on the run queues bring CPUs up.
\<close>

text \<open>The tasks on run queues of online CPUs.\<close>

definition on_queues :: "'c sched \<Rightarrow> nat list" where
  "on_queues s = filter (\<lambda>p. on_rq (tasks s p) \<and> cpus_online s (t_cpu (tasks s p))) (pids s)"

lemma busy_count:
  assumes "env_ok e" "sched_ok e s" "4 \<le> length (on_queues s)" "length (on_queues s) < 2 ^ 32"
  shows "4 \<le> fst (nr_running e s)"
  using assms(3,4) unfolding online_counted [OF assms(1,2)] on_queues_def [symmetric]
  by (simp add: word_le_nat_alt unat_of_nat)

text \<open>
  Claim C13. Work brings CPUs up: if at each of 15 frequency changes in a row, seen in any states that the scheduler reached
  from a consistent one, at least four tasks are on the run queues of the online CPUs and the chip runs at
  800 MHz or more, then all four CPUs are online in the end, whatever the counters of the hotplug code were (short of
  wrapping round).
\<close>
theorem queued_tasks_bring_cpus_up:
  assumes "env_ok e" "sched_ok e s0" "soc_is_exynos4412 hp" "cpus_work hp" "can_hotplug h \<noteq> 0"
    "\<forall>c \<in> {ctn_nr_running_over2 h, ctn_nr_running_over3 h, ctn_nr_running_over4 h, ctn_freq_in_trg_cnt h}. unat c + 15 < 2 ^ 32"
    "length l = 15"
    "\<forall>(s, old, new) \<in> set l. (sched_step e)\<^sup>*\<^sup>* s0 s \<and> 4 \<le> length (on_queues s) \<and> length (on_queues s) < 2 ^ 32 \<and> old \<ge> 800000 \<and> new \<ge> 800000"
  shows "\<exists>h' w'. hp_samples hp (map (\<lambda>(s, old, new). (fst (nr_running e s), old, new)) l) (h, w) = Some (h', w')
    \<and> hp_online hp w' 1 \<and> hp_online hp w' 2 \<and> hp_online hp w' 3"
proof (rule busy_all_up [OF assms(3-6)])
  show "\<forall>(n, old, new) \<in> set (map (\<lambda>(s, old, new). (fst (nr_running e s), old, new)) l). n \<ge> 4 \<and> old \<ge> 800000 \<and> new \<ge> 800000"
  proof (intro ballI, clarify)
    fix n old new assume "(n, old, new) \<in> set (map (\<lambda>(s, old, new). (fst (nr_running e s), old, new)) l)"
    then obtain s where s: "(s, old, new) \<in> set l" "n = fst (nr_running e s)" by auto
    then have r: "(sched_step e)\<^sup>*\<^sup>* s0 s" "4 \<le> length (on_queues s)" "length (on_queues s) < 2 ^ 32" "old \<ge> 800000" "new \<ge> 800000"
      using assms(8) by auto
    then show "n \<ge> 4 \<and> old \<ge> 800000 \<and> new \<ge> 800000"
      using busy_count [OF assms(1) reachable_ok [OF assms(1,2) r(1)] r(2,3)] s(2) by simp
  qed
qed (simp add: assms(7))

text \<open>Four tasks on one CPU, and the other three CPUs come up.\<close>

definition small_busy :: "unit sched" where
  "small_busy = small_start\<lparr>tasks := (\<lambda>p. if p \<in> {1, 2, 3, 4} then small_task else small_task\<lparr>on_rq := False, t_class := Idle_class, has_mm := False\<rparr>),
     pids := [1, 2, 3, 4], rqs := (\<lambda>c. if c = 0 then small_rq 4 1 10 else small_rq 0 11 11)\<rparr>"

lemma queued_tasks_bring_cpus_up_witness:
  "\<exists>h' w'. hp_samples quad (replicate 15 (4, 1400000, 1400000)) (hotplug_static\<lparr>can_hotplug := 1\<rparr>, \<lambda>j. j = 0) = Some (h', w') \<and> w' 1 \<and> w' 2 \<and> w' 3
   \<and> fst (nr_running small_env small_busy) = 4"
proof -
  have ok: "sched_ok small_env small_busy"
    by (simp add: sched_ok_def queues_ok_def counts_ok_def load_ok_def total_def number_def runnable_def load_sleeper_def contributes_def
        small_busy_def small_env_def small_start_def small_task_def small_rq_def)
  have n: "length (on_queues small_busy) = 4" by (simp add: on_queues_def small_busy_def small_start_def small_task_def)
  have k: "fst (nr_running small_env small_busy) = 4"
    by (simp add: nr_running_def small_env_def small_busy_def small_start_def small_rq_def Let_def)
  show ?thesis
    using queued_tasks_bring_cpus_up [OF small_env_ok ok quad_ok(1,2), of "hotplug_static\<lparr>can_hotplug := 1\<rparr>"
        "replicate 15 (small_busy, 1400000, 1400000)" "\<lambda>j. j = 0"] n k
    by (simp add: hotplug_static_def) (simp add: quad_def)
qed

end
