(* ===== verification/Spec2Isabelle.thy ===== *)
theory Spec2Isabelle
  imports Stack_Safety Exynos_Faults Core_Hotplug Hotplug_Core Cpu_Daemon Cpu_Pse Daemon_Stack Sched_Plugging
begin

text \<open>
  A model of an Android kernel tree that was changed to save power, and of the daemons that steer it. The tree holds
  the cpufreq core with a governor of its own (\<open>vbfs\<close>), the Exynos frequency driver, a CPU hotplug driven by the
  number of running threads, the scheduler that counts those threads, and two user-space programs that
  compute a score from the usage of the machine and set the frequency through sysfs.

  \<^bold>\<open>How the parts interact.\<close> The scheduler (\<open>kernel/sched.c\<close>) counts running threads and idle time. A governor samples the
  idle time and asks the core for a frequency; the core clamps the request to the policy and calls the
  driver; the driver arbitrates it with the locks and limits of other kernel code and changes voltage and clock, with
  an announcement before and after. The announcement scales \<open>loops_per_jiffy\<close> and feeds the hotplug
  code, which compares the thread count with its limits and takes CPUs up and down through the core's CPU callback. The
  daemon reads \<open>/proc\<close> and sysfs, and writes governor and speed through the core's sysfs files.

  \<^bold>\<open>Theories and the code they model.\<close>
  \<^item> \<open>Prelude\<close>, \<open>Cpufreq_Types\<close>, \<open>Sysfs_Text\<close>, \<open>Stdio\<close>, \<open>C_Float\<close>: words and conversions of the 32-bit target, the
    data of cpufreq, \<open>sscanf\<close>/\<open>sprintf\<close> of the kernel, the C library as the daemons use it, and IEEE single
    precision, in which the daemons compute.
  \<^item> \<open>Gov_Common\<close>, \<open>Freq_Rows\<close>: what the sampling governors share (powersave bias, the per-CPU record); rows of a
    frequency table.
  \<^item> \<open>Vbfs_Tunables\<close>, \<open>Vbfs_Load\<close>, \<open>Vbfs_Decide\<close>, \<open>Vbfs_Governor\<close>, \<open>Vbfs_Safety\<close>: \<open>drivers/cpufreq/cpufreq_vbfs.c\<close>.
    The record \<open>vbfs\<close> holds its tunables, statics and per-CPU records; \<open>checkCPULoadCond\<close>,
    \<open>selectNextFrequencyByLoad\<close>, \<open>adjustCond\<close>, \<open>vbfs_check_resources\<close>, \<open>do_vbfs_timer\<close> and
    \<open>cpufreq_governor_vbfs\<close> are the functions of these names.
  \<^item> \<open>Ondemand\<close>, \<open>Ondemand_Safety\<close>, \<open>Userspace\<close>: \<open>cpufreq_ondemand.c\<close> and \<open>cpufreq_userspace.c\<close>.
  \<^item> \<open>Transition\<close>, \<open>Status_Monitor\<close>, \<open>Core_State\<close>, \<open>Core_Policy\<close>, \<open>Core_Sysfs\<close>, \<open>Core_Hotplug\<close>: \<open>cpufreq.c\<close>, from the references
    and announcements over the log buffer to policies, sysfs files, CPU hotplug, suspend, drivers and
    governors. \<open>Core_Safety\<close>, \<open>Core_Parts\<close>, \<open>Core_Change\<close>, \<open>Core_Calls\<close>, \<open>Core_Stack\<close> hold the locales that state what
    the core relies on (\<open>core_parts\<close>, \<open>core_stack\<close>) and what it guarantees in return.
  \<^item> \<open>Exynos_Votes\<close>, \<open>Exynos_Driver\<close>, \<open>Exynos_Safety\<close>, \<open>Exynos_Hw\<close>, \<open>Exynos_Levels\<close>, \<open>Exynos_Calls\<close>, \<open>Exynos_Faults\<close>:
    \<open>arch/arm/mach-exynos/cpufreq.c\<close>, with the hardware as a list of voltage and clock events.
  \<^item> \<open>Exynos_Stack\<close>, \<open>Stack_Governors\<close>, \<open>Stack_Safety\<close>: core, driver and the three governors as one system, which
    interprets the locales of the core.
  \<^item> \<open>Hotplug\<close>, \<open>Hotplug_Safety\<close>, \<open>Hotplug_Core\<close>: \<open>dynamic-dvfs-nr_running-hotplug.c\<close>, alone and on the core.
  \<^item> \<open>Sched_Types\<close>, \<open>Sched_Load\<close>, \<open>Sched_Prio\<close>, \<open>Sched_Core\<close>, \<open>Sched_Change\<close>: \<open>kernel/sched.c\<close>. The record \<open>sched\<close> holds
    tasks, run queues and the global counters; a function that takes the lock of a run queue is one step, \<open>__schedule\<close> is two
    (\<open>schedule_out\<close>, \<open>schedule_in\<close>) because it may drop the lock in between. \<open>Sched_Average\<close> and \<open>Sched_Decay\<close> are about the
    load average and the decaying loads. \<open>Sched_Counts\<close> to \<open>Sched_Invariant\<close> prove the invariant of the counters over the step
    relation \<open>sched_step\<close>: \<open>same\<close> is the view that the counting depends on, each function is shown to act on the
    view as a few counter updates, and each step keeps \<open>sched_ok\<close>. \<open>Sched_Reach\<close> and \<open>Sched_Tasks\<close> hold what follows for
    the readers of the counters and for the priorities; \<open>Sched_Plugging\<close> puts the scheduler under the hotplug code.
  \<^item> \<open>Freq_Steps\<close>, \<open>Score_Tables\<close>, \<open>Score_Calc\<close>, \<open>Mem_Info\<close>, \<open>Cpu_Usage\<close>, \<open>Cpu_Daemon\<close>: the daemon of
    \<open>system/extras/cpuusage\<close> (\<open>cpufreq.c\<close>, \<open>scoreCalc.c\<close>, \<open>meminfo.c\<close>, \<open>cpuinfo.c\<close>, \<open>cpuusage.c\<close>). \<open>Cpu_Pse\<close>: \<open>cpu_pse/cpupse.c\<close>.
    \<open>Daemon_Stack\<close>: the daemon on top of the Exynos stack.

  \<^bold>\<open>What the theorems show.\<close> For the governors: a sample never reads outside the table, asks only for frequencies inside
  the limits, and decides as documented; tunables stay in range; showing and storing are inverse. For the core: every
  sequence of calls returns, gives back what it took and leaves a known governor running inside the hardware range.
  For the driver: voltage is never too low for the clock, and locks and limits implement an abstract arbitration; its
  failures are stated as theorems too. For the hotplug code: the order in which CPUs come and go and that load brings
  them up. For the scheduler: the counters count what they claim in every reachable state, the load average and
  the decaying loads are bounded and the catch-up is accurate, priorities stay consistent. For the daemons: decisions stay
  inside the tables, the loop ends, the tables survive a round trip through their files.

  \<^bold>\<open>Undefined behaviour and loops.\<close> A read outside an array, a division by zero, a jump through a missing pointer, a \<open>BUG\<close>
  or a wait that cannot end is \<open>None\<close> (or \<open>Undefined\<close> in the runs of the daemons), so a theorem that gives \<open>Some\<close> excludes
  them. Loops are structural or have a measure; \<open>sched_avg_loop\<close>, which may not end, is a partial function. Fuel
  bounds \<open>migrate_tasks\<close>, which depends on the scheduling classes, and the main loops of the two daemons; for \<open>cpuusage\<close>
  \<open>Cpu_Daemon\<close> proves that a thousand rounds for every second of the logging time are enough.

  \<^bold>\<open>Parameters.\<close> Code outside the tree is an argument with a stated contract: the chip tables and \<open>set_freq\<close>, the
  frequency-table helpers, idle-time accounting, the scheduling classes (\<open>class_ops_ok\<close>: they change their own data and pick
  tasks they have queued), \<open>rt_mutex_getprio\<close>, workqueues, cpusets, notifier chains, the pagemap library and \<open>qsort\<close>.

  \<^bold>\<open>Not modelled.\<close> Messages, tracing and the text of the daemons' logs. Of \<open>kernel/sched.c\<close>: scheduling domains and the
  balancing inside the classes (a step \<open>pull\<close> stands for a class moving a waiting task), CPU-time accounting, cgroup files,
  affinity system calls, completions and wait queues, high-resolution ticks, initialisation and debugging output. Third-party code
  in the tree (Mesa's linker, a header of gtest, one of oprofile) was only changed to compile.
\<close>

end
